(* ===== verification/Prelude.thy ===== *)
theory Prelude
  imports
    Main
    "HOL-Library.Char_ord"
    "HOL-Library.Code_Target_Nat"
    "HOL-Library.List_Lexorder"
    "HOL-Library.Sublist"
    "HOL-Library.Word"
begin

text \<open>
  Shared vocabulary of the development: results with early return (Rust's \<open>Result\<close>
  and the \<open>?\<close> operator), byte strings and the few string operations the code
  uses, checked machine arithmetic, and ordered maps (Rust's \<open>BTreeMap\<close>).
  A \<open>BTreeSet\<close> is a HOL set. A Rust \<open>String\<close> is its UTF-8 byte sequence, so
  \<open>length\<close> is \<open>String::len\<close> and the order of strings is the byte-wise order
  Rust's \<open>Ord\<close> uses.
\<close>

named_theorems result_simps

section \<open>Results and early return\<close>

text \<open>\<open>Inl\<close> is \<open>Err\<close>, \<open>Inr\<close> is \<open>Ok\<close>; \<open>and_then\<close> is the
  \<open>?\<close> operator followed by the rest of the function.\<close>

fun and_then :: "'e + 'a \<Rightarrow> ('a \<Rightarrow> 'e + 'b) \<Rightarrow> 'e + 'b" where
  "and_then (Inl e) f = Inl e"
| "and_then (Inr x) f = f x"

definition check :: "bool \<Rightarrow> 'e \<Rightarrow> 'e + unit" where
  "check b e = (if b then Inr () else Inl e)"

definition ok_or :: "'a option \<Rightarrow> 'e \<Rightarrow> 'e + 'a" where
  "ok_or x e = (case x of None \<Rightarrow> Inl e | Some y \<Rightarrow> Inr y)"

definition map_err :: "('e \<Rightarrow> 'f) \<Rightarrow> 'e + 'a \<Rightarrow> 'f + 'a" where
  "map_err h r = (case r of Inl e \<Rightarrow> Inl (h e) | Inr x \<Rightarrow> Inr x)"

definition is_ok :: "'e + 'a \<Rightarrow> bool" where
  "is_ok r = (case r of Inl _ \<Rightarrow> False | Inr _ \<Rightarrow> True)"

text \<open>A \<open>for\<close> loop whose body may return early; the first error wins.\<close>

fun for_each :: "('a \<Rightarrow> 'e + unit) \<Rightarrow> 'a list \<Rightarrow> 'e + unit" where
  "for_each f [] = Inr ()"
| "for_each f (x # xs) = and_then (f x) (\<lambda>_. for_each f xs)"

text \<open>The same loop with mutable state threaded through the iterations.\<close>

fun fold_result :: "('s \<Rightarrow> 'a \<Rightarrow> 'e + 's) \<Rightarrow> 's \<Rightarrow> 'a list \<Rightarrow> 'e + 's" where
  "fold_result f s [] = Inr s"
| "fold_result f s (x # xs) = and_then (f s x) (\<lambda>s'. fold_result f s' xs)"

text \<open>\<open>iter.map(f).collect::<Result<Vec<_>, _>>()\<close>.\<close>

fun map_result :: "('a \<Rightarrow> 'e + 'b) \<Rightarrow> 'a list \<Rightarrow> 'e + 'b list" where
  "map_result f [] = Inr []"
| "map_result f (x # xs) =
     and_then (f x) (\<lambda>y. and_then (map_result f xs) (\<lambda>ys. Inr (y # ys)))"

lemma and_then_eq_Inr [simp, result_simps]:
  "and_then r f = Inr y \<longleftrightarrow> (\<exists>x. r = Inr x \<and> f x = Inr y)"
  by (cases r) auto

lemma and_then_eq_Inl:
  "and_then r f = Inl e \<longleftrightarrow> r = Inl e \<or> (\<exists>x. r = Inr x \<and> f x = Inl e)"
  by (cases r) auto

lemma and_then_assoc: "and_then (and_then r f) g = and_then r (\<lambda>x. and_then (f x) g)"
  by (cases r) auto

lemma and_then_cong [fundef_cong]:
  "r = r' \<Longrightarrow> (\<And>x. r' = Inr x \<Longrightarrow> f x = f' x) \<Longrightarrow> and_then r f = and_then r' f'"
  by (cases r') auto

lemma check_eq_Inr [simp, result_simps]: "check b e = Inr u \<longleftrightarrow> b"
  by (simp add: check_def)

lemma check_eq_Inl [simp, result_simps]: "check b e = Inl e' \<longleftrightarrow> \<not> b \<and> e' = e"
  by (auto simp: check_def)

lemma check_simps [simp]: "check True e = Inr ()" "check False e = Inl e"
  by (simp_all add: check_def)

lemma ok_or_eq_Inr [simp, result_simps]: "ok_or x e = Inr y \<longleftrightarrow> x = Some y"
  by (simp add: ok_or_def split: option.split)

lemma ok_or_eq_Inl [simp, result_simps]: "ok_or x e = Inl e' \<longleftrightarrow> x = None \<and> e' = e"
  by (auto simp: ok_or_def split: option.split)

lemma ok_or_simps [simp]: "ok_or None e = Inl e" "ok_or (Some y) e = Inr y"
  by (simp_all add: ok_or_def)

lemma map_err_eq_Inr [simp, result_simps]: "map_err h r = Inr y \<longleftrightarrow> r = Inr y"
  by (cases r) (auto simp: map_err_def)

lemma map_err_simps [simp]: "map_err h (Inl e) = Inl (h e)" "map_err h (Inr x) = Inr x"
  by (simp_all add: map_err_def)

lemma is_ok_iff [result_simps]: "is_ok r \<longleftrightarrow> (\<exists>x. r = Inr x)"
  by (cases r) (auto simp: is_ok_def)

lemma is_ok_simps [simp]: "is_ok (Inr x)" "\<not> is_ok (Inl e)"
  by (simp_all add: is_ok_def)

lemma for_each_eq_Inr [simp, result_simps]:
  "for_each f xs = Inr u \<longleftrightarrow> (\<forall>x \<in> set xs. f x = Inr ())"
  by (induction xs) auto

lemma for_each_first_error:
  "(\<forall>y \<in> set ys. f y = Inr ()) \<Longrightarrow> f x = Inl e \<Longrightarrow> for_each f (ys @ x # zs) = Inl e"
  by (induction ys) auto

lemma fold_result_append:
  "fold_result f s (xs @ ys) = and_then (fold_result f s xs) (\<lambda>s'. fold_result f s' ys)"
  by (induction xs arbitrary: s) (auto simp: and_then_assoc)

lemma fold_result_map: "fold_result f s (map g xs) = fold_result (\<lambda>s x. f s (g x)) s xs"
  by (induction xs arbitrary: s) (auto intro!: and_then_cong)

lemma fold_result_cong: "(\<And>s x. x \<in> set xs \<Longrightarrow> f s x = g s x) \<Longrightarrow> fold_result f s xs = fold_result g s xs"
  by (induction xs arbitrary: s) (auto intro!: and_then_cong)

lemma fold_result_invariant:
  assumes "fold_result f s xs = Inr s'"
    and "P s"
    and "\<And>s x s'. x \<in> set xs \<Longrightarrow> P s \<Longrightarrow> f s x = Inr s' \<Longrightarrow> P s'"
  shows "P s'"
  using assms
proof (induction xs arbitrary: s)
  case Nil
  then show ?case by simp
next
  case (Cons x xs)
  then obtain s1 where s1: "f s x = Inr s1" "fold_result f s1 xs = Inr s'"
    by auto
  with Cons.prems have "P s1" by (metis list.set_intros(1))
  with s1(2) show ?case
    by (rule Cons.IH) (use Cons.prems(3) in auto)
qed

lemma map_result_eq_Inr:
  "map_result f xs = Inr ys \<longleftrightarrow> list_all2 (\<lambda>x y. f x = Inr y) xs ys"
proof (induction xs arbitrary: ys)
  case Nil
  then show ?case by (cases ys) auto
next
  case (Cons x xs)
  then show ?case by (cases ys) auto
qed

lemma map_result_total:
  "(\<And>x. x \<in> set xs \<Longrightarrow> \<exists>y. f x = Inr y) \<Longrightarrow> \<exists>ys. map_result f xs = Inr ys"
proof (induction xs)
  case Nil
  then show ?case by simp
next
  case (Cons x xs)
  then obtain y ys where "f x = Inr y" "map_result f xs = Inr ys"
    by (meson list.set_intros)
  then show ?case by simp
qed

section \<open>Bytes and strings\<close>

type_synonym bytes = "char list"

abbreviation byte_value :: "char \<Rightarrow> nat" where
  "byte_value c \<equiv> of_char c"

definition is_ascii_lowercase :: "char \<Rightarrow> bool" where
  "is_ascii_lowercase c \<longleftrightarrow> 97 \<le> byte_value c \<and> byte_value c \<le> 122"

definition is_ascii_uppercase :: "char \<Rightarrow> bool" where
  "is_ascii_uppercase c \<longleftrightarrow> 65 \<le> byte_value c \<and> byte_value c \<le> 90"

definition is_ascii_digit :: "char \<Rightarrow> bool" where
  "is_ascii_digit c \<longleftrightarrow> 48 \<le> byte_value c \<and> byte_value c \<le> 57"

definition is_ascii_alphanumeric :: "char \<Rightarrow> bool" where
  "is_ascii_alphanumeric c \<longleftrightarrow>
     is_ascii_lowercase c \<or> is_ascii_uppercase c \<or> is_ascii_digit c"

definition is_ascii_control :: "char \<Rightarrow> bool" where
  "is_ascii_control c \<longleftrightarrow> byte_value c < 32 \<or> byte_value c = 127"

text \<open>Rust's \<open>u8::is_ascii_whitespace\<close>: space, tab, line feed, form feed, carriage return.\<close>

definition is_ascii_whitespace :: "char \<Rightarrow> bool" where
  "is_ascii_whitespace c \<longleftrightarrow> byte_value c \<in> {32, 9, 10, 12, 13}"

text \<open>
  \<open>chars().any(char::is_control)\<close> on UTF-8 bytes: the C0 controls and DEL are single
  bytes, the C1 controls U+0080 to U+009F are the byte C2 followed by 80 to 9F. In UTF-8
  the byte C2 only ever starts a two-byte sequence.
\<close>

fun has_control_char :: "string \<Rightarrow> bool" where
  "has_control_char [] = False"
| "has_control_char [c] = is_ascii_control c"
| "has_control_char (c # d # cs) =
     (is_ascii_control c
      \<or> byte_value c = 194 \<and> 128 \<le> byte_value d \<and> byte_value d \<le> 159
      \<or> has_control_char (d # cs))"

text \<open>\<open>str::split(d)\<close>: always at least one piece.\<close>

fun split_on :: "char \<Rightarrow> string \<Rightarrow> string list" where
  "split_on d [] = [[]]"
| "split_on d (c # cs) =
     (if c = d then [] # split_on d cs
      else (case split_on d cs of [] \<Rightarrow> [[c]] | w # ws \<Rightarrow> (c # w) # ws))"

fun join_with :: "char \<Rightarrow> string list \<Rightarrow> string" where
  "join_with d [] = []"
| "join_with d [w] = w"
| "join_with d (w # ws) = w @ d # join_with d ws"

definition starts_with :: "string \<Rightarrow> string \<Rightarrow> bool" where
  "starts_with s p \<longleftrightarrow> take (length p) s = p"

definition ends_with :: "string \<Rightarrow> string \<Rightarrow> bool" where
  "ends_with s p \<longleftrightarrow> length p \<le> length s \<and> drop (length s - length p) s = p"

definition strip_prefix :: "string \<Rightarrow> string \<Rightarrow> string option" where
  "strip_prefix s p = (if starts_with s p then Some (drop (length p) s) else None)"

text \<open>\<open>str::find(pat)\<close>: the offset of the first occurrence.\<close>

fun str_find :: "string \<Rightarrow> string \<Rightarrow> nat option" where
  "str_find [] p = (if p = [] then Some 0 else None)"
| "str_find (c # cs) p =
     (if starts_with (c # cs) p then Some 0 else map_option Suc (str_find cs p))"

definition str_contains :: "string \<Rightarrow> string \<Rightarrow> bool" where
  "str_contains s p \<longleftrightarrow> str_find s p \<noteq> None"

lemma starts_with_iff_prefix: "starts_with s p \<longleftrightarrow> prefix p s"
  unfolding starts_with_def
  by (metis append_eq_conv_conj append_take_drop_id prefix_def)

lemma starts_with_append [simp]: "starts_with (p @ s) p"
  by (simp add: starts_with_def)

lemma starts_with_Nil_left [simp]: "starts_with [] p \<longleftrightarrow> p = []"
  by (auto simp: starts_with_def)

lemma starts_with_Nil [simp]: "starts_with s []"
  by (simp add: starts_with_def)

lemma starts_with_Cons [simp]:
  "starts_with (c # s) (d # p) \<longleftrightarrow> c = d \<and> starts_with s p"
  by (auto simp: starts_with_def)

lemma strip_prefix_eq_Some: "strip_prefix s p = Some r \<longleftrightarrow> s = p @ r"
  by (auto simp: strip_prefix_def starts_with_iff_prefix prefix_def)

lemma split_on_nonempty [simp]: "split_on d s \<noteq> []"
  by (cases s) (auto split: list.splits)

lemma join_split [simp]: "join_with d (split_on d s) = s"
proof (induction s)
  case Nil
  then show ?case by simp
next
  case (Cons c cs)
  obtain w ws where w: "split_on d cs = w # ws"
    by (cases "split_on d cs") auto
  with Cons show ?case by (cases ws) auto
qed

lemma split_on_no_delimiter: "w \<in> set (split_on d s) \<Longrightarrow> d \<notin> set w"
  by (induction s arbitrary: w) (auto split: if_splits list.splits)

lemma split_on_plain: "d \<notin> set w \<Longrightarrow> split_on d w = [w]"
  by (induction w) auto

lemma split_on_append:
  "d \<notin> set w \<Longrightarrow> split_on d (w @ d # s) = w # split_on d s"
  by (induction w) (auto split: list.splits)

lemma split_join [simp]:
  "ws \<noteq> [] \<Longrightarrow> \<forall>w \<in> set ws. d \<notin> set w \<Longrightarrow> split_on d (join_with d ws) = ws"
proof (induction ws rule: induct_list012)
  case (3 w v ws)
  then show ?case by (simp add: split_on_append)
qed (auto simp: split_on_plain)

lemma set_split_on: "(\<Union>w \<in> set (split_on d s). set w) = set s - {d}"
proof (induction s)
  case Nil
  then show ?case by simp
next
  case (Cons c cs)
  obtain w ws where w: "split_on d cs = w # ws"
    by (cases "split_on d cs") auto
  with Cons show ?case by auto
qed

lemma str_find_Some:
  "str_find s p = Some i \<Longrightarrow> \<exists>u v. s = u @ p @ v \<and> length u = i"
proof (induction s arbitrary: i)
  case Nil
  then show ?case by (simp split: if_splits)
next
  case (Cons c cs)
  show ?case
  proof (cases "starts_with (c # cs) p")
    case True
    with Cons.prems show ?thesis
      by (auto simp: starts_with_iff_prefix prefix_def)
  next
    case False
    with Cons.prems obtain j where j: "str_find cs p = Some j" "i = Suc j" by auto
    from Cons.IH [OF j(1)] obtain u v where "cs = u @ p @ v" "length u = j" by blast
    with j(2) have "c # cs = (c # u) @ p @ v \<and> length (c # u) = i" by simp
    then show ?thesis by blast
  qed
qed

lemma str_find_None: "str_find s p = None \<longleftrightarrow> \<not> sublist p s"
  by (induction s) (auto simp: starts_with_iff_prefix sublist_Cons_right)

lemma str_contains_iff: "str_contains s p \<longleftrightarrow> sublist p s"
  by (simp add: str_contains_def str_find_None)

section \<open>Paths\<close>

text \<open>
  \<open>Path::components\<close> of a Unix path: a leading slash is the root, repeated slashes and
  \<open>.\<close> segments are dropped, except a leading \<open>.\<close> of a relative path.
\<close>

datatype path_component = RootDir | CurDir | ParentDir | Normal string

definition segment_component :: "string \<Rightarrow> path_component list" where
  "segment_component w =
     (if w = [] \<or> w = ''.'' then [] else if w = ''..'' then [ParentDir] else [Normal w])"

definition path_is_absolute :: "string \<Rightarrow> bool" where
  "path_is_absolute p = starts_with p ''/''"

definition path_components :: "string \<Rightarrow> path_component list" where
  "path_components p =
     (if path_is_absolute p
      then RootDir # concat (map segment_component (tl (split_on (CHR ''/'') p)))
      else (if hd (split_on (CHR ''/'') p) = ''.'' then [CurDir] else []) @
        concat (map segment_component (split_on (CHR ''/'') p)))"

definition root_or_normal :: "path_component \<Rightarrow> bool" where
  "root_or_normal c = (case c of RootDir \<Rightarrow> True | Normal _ \<Rightarrow> True | _ \<Rightarrow> False)"

text \<open>\<open>Path::starts_with\<close> compares whole components; \<open>Path::join\<close> with a
  relative path.\<close>

definition path_starts_with :: "string \<Rightarrow> string \<Rightarrow> bool" where
  "path_starts_with path base \<longleftrightarrow>
     take (length (path_components base)) (path_components path) = path_components base"

definition path_join :: "string \<Rightarrow> string \<Rightarrow> string" where
  "path_join base relative = (if ends_with base ''/'' then base @ relative else base @ ''/'' @ relative)"

text \<open>\<open>Path::parent\<close> of a canonical path: absolute, without repeated or trailing separators.\<close>

definition canonical_parent :: "string \<Rightarrow> string option" where
  "canonical_parent path =
     (case rev (split_on (CHR ''/'') path) of
        [] \<Rightarrow> None
      | [_] \<Rightarrow> None
      | leaf # segments \<Rightarrow>
          if path = ''/'' then None
          else Some (if segments = [[]] then ''/'' else join_with (CHR ''/'') (rev segments)))"

section \<open>Checked machine arithmetic\<close>

definition checked_add :: "'a::len word \<Rightarrow> 'a word \<Rightarrow> 'a word option" where
  "checked_add a b = (if unat a + unat b < 2 ^ LENGTH('a) then Some (a + b) else None)"

definition checked_sub :: "'a::len word \<Rightarrow> 'a word \<Rightarrow> 'a word option" where
  "checked_sub a b = (if b \<le> a then Some (a - b) else None)"

lemma checked_add_Some [simp]:
  "checked_add a b = Some c \<longleftrightarrow> unat c = unat a + unat b" for a b c :: "'a::len word"
proof
  assume "checked_add a b = Some c"
  then show "unat c = unat a + unat b"
    by (auto simp: checked_add_def unat_word_ariths split: if_splits)
next
  assume c: "unat c = unat a + unat b"
  then have lt: "unat a + unat b < 2 ^ LENGTH('a)"
    by (metis unsigned_less)
  then have "unat (a + b) = unat c"
    using c by (simp add: unat_word_ariths)
  then have "a + b = c"
    by (rule unsigned_word_eqI)
  with lt show "checked_add a b = Some c"
    by (simp add: checked_add_def)
qed

lemma checked_add_None:
  "checked_add a b = None \<longleftrightarrow> 2 ^ LENGTH('a) \<le> unat a + unat b" for a b :: "'a::len word"
  by (auto simp: checked_add_def)

text \<open>The largest \<open>usize\<close> of the 64-bit platforms the program supports.\<close>

definition usize_max :: nat where
  "usize_max = 18446744073709551615"

definition checked_mul :: "'a::len word \<Rightarrow> 'a word \<Rightarrow> 'a word option" where
  "checked_mul a b = (if unat a * unat b < 2 ^ LENGTH('a) then Some (a * b) else None)"

text \<open>\<open>trailing_zeros\<close>: the width for zero, as in Rust.\<close>

definition trailing_zeros :: "'a::len word \<Rightarrow> nat" where
  "trailing_zeros w = length (takeWhile (\<lambda>i. \<not> bit w i) [0..<LENGTH('a)])"

text \<open>\<open>from_str_radix\<close> and \<open>parse\<close> of the unsigned integers: an optional
  leading plus sign, at least one digit, and the value within the type's range.\<close>

fun digits_value :: "nat \<Rightarrow> nat \<Rightarrow> string \<Rightarrow> nat option" where
  "digits_value radix acc [] = Some acc"
| "digits_value radix acc (c # cs) =
     (if 48 \<le> byte_value c \<and> byte_value c < 48 + radix
      then digits_value radix (acc * radix + (byte_value c - 48)) cs
      else None)"

definition parse_unsigned :: "nat \<Rightarrow> nat \<Rightarrow> string \<Rightarrow> nat option" where
  "parse_unsigned radix bound s =
     (case s of
        [] \<Rightarrow> None
      | c # cs \<Rightarrow>
          (let ds = if c = CHR ''+'' then cs else s in
           if ds = [] then None
           else case digits_value radix 0 ds of
                  None \<Rightarrow> None
                | Some n \<Rightarrow> if n < bound then Some n else None))"

lemma le_length_takeWhile:
  "k \<le> length (takeWhile P xs) \<longleftrightarrow> k \<le> length xs \<and> (\<forall>i < k. P (xs ! i))"
proof (induction xs arbitrary: k)
  case Nil
  then show ?case by auto
next
  case (Cons x xs)
  then show ?case by (cases k) (auto simp: less_Suc_eq_0_disj)
qed

lemma le_trailing_zeros:
  "k \<le> LENGTH('a) \<Longrightarrow> k \<le> trailing_zeros (w :: 'a::len word) \<longleftrightarrow> (\<forall>i < k. \<not> bit w i)"
  by (auto simp: trailing_zeros_def le_length_takeWhile)

lemma low_bits_zero:
  "(\<forall>i < k. \<not> bit n i) \<longleftrightarrow> n mod 2 ^ k = 0" for n :: nat
  by (auto simp: bit_eq_iff bit_take_bit_iff simp flip: take_bit_eq_mod)

end
