(* ===== verification/Ordered_Map.thy ===== *)
theory Ordered_Map
  imports Prelude
begin

text \<open>
  Rust's \<open>BTreeMap\<close>: a finite map whose entries are iterated in increasing key order.
  The representation is an association list with strictly increasing keys, and the type
  carries that invariant, as the Rust type does. The interface is stated as the locale
  \<open>ordered_map\<close>; the facts clients use are proved from the interface.
\<close>

section \<open>Strictly sorted association lists\<close>

fun assoc_insert :: "'k::linorder \<Rightarrow> 'v \<Rightarrow> ('k \<times> 'v) list \<Rightarrow> ('k \<times> 'v) list" where
  "assoc_insert k v [] = [(k, v)]"
| "assoc_insert k v ((k', v') # m) =
     (if k < k' then (k, v) # (k', v') # m
      else if k = k' then (k, v) # m
      else (k', v') # assoc_insert k v m)"

lemma map_of_assoc_insert [simp]:
  "map_of (assoc_insert k v m) = (map_of m)(k \<mapsto> v)"
  by (induction k v m rule: assoc_insert.induct) auto

lemma keys_assoc_insert [simp]:
  "fst ` set (assoc_insert k v m) = insert k (fst ` set m)"
  by (induction k v m rule: assoc_insert.induct) auto

lemma sorted_assoc_insert:
  "sorted_wrt (<) (map fst m) \<Longrightarrow> sorted_wrt (<) (map fst (assoc_insert k v m))"
proof (induction k v m rule: assoc_insert.induct)
  case (2 k v k' v' m)
  have "x \<in> fst ` set (assoc_insert k v m) \<Longrightarrow> x = k \<or> x \<in> fst ` set m" for x
    by simp
  with 2 show ?case by (fastforce simp: image_iff)
qed simp

lemma sorted_filter_assoc:
  "sorted_wrt (<) (map fst m) \<Longrightarrow> sorted_wrt (<) (map fst (filter P m))"
  by (induction m) auto

lemma strict_sorted_distinct:
  "sorted_wrt (<) (xs :: 'a::linorder list) \<Longrightarrow> distinct xs"
  by (simp add: strict_sorted_iff)

lemma assoc_unique:
  assumes "sorted_wrt (<) (map fst m)" and "sorted_wrt (<) (map fst n)"
    and "map_of m = map_of (n :: ('k::linorder \<times> 'v) list)"
  shows "m = n"
proof -
  have d: "distinct (map fst m)" "distinct (map fst n)"
    using assms(1,2) by (auto dest: strict_sorted_distinct)
  then have "set m = set n"
    using map_of_inject_set [OF d] assms(3) by simp
  with assms(1,2) d show ?thesis
    by (intro map_sorted_distinct_set_unique [where f = fst])
      (auto simp: strict_sorted_iff distinct_map)
qed

section \<open>The type of ordered maps\<close>

typedef (overloaded) ('k::linorder, 'v) btree_map =
  "{m :: ('k \<times> 'v) list. sorted_wrt (<) (map fst m)}"
  morphisms items Btree_map
  by (rule exI [of _ "[]"]) simp

setup_lifting type_definition_btree_map

lift_definition bt_empty :: "('k::linorder, 'v) btree_map" is "[]"
  by simp

lift_definition bt_get :: "('k::linorder, 'v) btree_map \<Rightarrow> 'k \<Rightarrow> 'v option" is map_of .

lift_definition bt_insert ::
  "'k::linorder \<Rightarrow> 'v \<Rightarrow> ('k, 'v) btree_map \<Rightarrow> ('k, 'v) btree_map" is assoc_insert
  by (rule sorted_assoc_insert)

lift_definition bt_filter ::
  "('k::linorder \<times> 'v \<Rightarrow> bool) \<Rightarrow> ('k, 'v) btree_map \<Rightarrow> ('k, 'v) btree_map" is filter
  by (rule sorted_filter_assoc)

definition bt_keys :: "('k::linorder, 'v) btree_map \<Rightarrow> 'k list" where
  "bt_keys m = map fst (items m)"

definition bt_values :: "('k::linorder, 'v) btree_map \<Rightarrow> 'v list" where
  "bt_values m = map snd (items m)"

definition bt_contains :: "('k::linorder, 'v) btree_map \<Rightarrow> 'k \<Rightarrow> bool" where
  "bt_contains m k \<longleftrightarrow> bt_get m k \<noteq> None"

definition bt_len :: "('k::linorder, 'v) btree_map \<Rightarrow> nat" where
  "bt_len m = length (items m)"

definition bt_of_list :: "('k::linorder \<times> 'v) list \<Rightarrow> ('k, 'v) btree_map" where
  "bt_of_list xs = fold (\<lambda>(k, v). bt_insert k v) xs bt_empty"

section \<open>The interface\<close>

text \<open>
  What the code relies on: \<open>insert\<close> replaces, \<open>get\<close> reads the last value stored,
  and iteration yields each binding once, keys increasing.
\<close>

locale ordered_map =
  fixes empty :: "'m"
    and get :: "'m \<Rightarrow> 'k::linorder \<Rightarrow> 'v option"
    and ins :: "'k \<Rightarrow> 'v \<Rightarrow> 'm \<Rightarrow> 'm"
    and entries :: "'m \<Rightarrow> ('k \<times> 'v) list"
  assumes get_empty: "get empty k = None"
    and get_ins: "get (ins k v m) = (get m)(k \<mapsto> v)"
    and get_entries: "get m = map_of (entries m)"
    and entries_sorted: "sorted_wrt (<) (map fst (entries m))"
    and get_ext: "get m = get n \<Longrightarrow> m = n"
begin

lemma keys_distinct: "distinct (map fst (entries m))"
  by (rule strict_sorted_distinct [OF entries_sorted])

lemma get_iff_entry: "get m k = Some v \<longleftrightarrow> (k, v) \<in> set (entries m)"
  using keys_distinct [of m] by (simp add: get_entries)

lemma key_iff: "k \<in> fst ` set (entries m) \<longleftrightarrow> get m k \<noteq> None"
  by (simp add: get_entries map_of_eq_None_iff)

lemma get_fold_ins:
  "get (fold (\<lambda>(k, v). ins k v) xs m) k = (case map_of (rev xs) k of None \<Rightarrow> get m k | Some v \<Rightarrow> Some v)"
proof (induction xs arbitrary: m)
  case Nil
  then show ?case by simp
next
  case (Cons x xs)
  obtain a b where x: "x = (a, b)" by force
  show ?case
    by (auto simp: x Cons.IH get_ins map_of_append map_add_def split: option.split)
qed

lemma fold_ins_entries: "fold (\<lambda>(k, v). ins k v) (entries m) empty = m"
proof (rule get_ext, rule ext)
  fix k
  have "map_of (rev (entries m)) = map_of (entries m)"
    using keys_distinct [of m] by (subst map_of_inject_set) (simp_all flip: rev_map)
  then show "get (fold (\<lambda>(k, v). ins k v) (entries m) empty) k = get m k"
    by (simp add: get_fold_ins get_empty get_entries [of m] split: option.split)
qed

end

interpretation bt: ordered_map
  "bt_empty :: ('k::linorder, 'v) btree_map" bt_get bt_insert items
proof unfold_locales
  fix m n :: "('k, 'v) btree_map" and k :: 'k and v :: 'v
  show "bt_get bt_empty k = (None :: 'v option)" by transfer simp
  show "bt_get (bt_insert k v m) = (bt_get m)(k \<mapsto> v)" by transfer simp
  show "bt_get m = map_of (items m)" by (simp add: bt_get.rep_eq)
  show "sorted_wrt (<) (map fst (items m))" using items [of m] by simp
  show "m = n" if "bt_get m = bt_get n"
    using that by transfer (rule assoc_unique)
qed

section \<open>Facts for the clients\<close>

lemmas bt_get_simps [simp] = bt.get_empty bt.get_ins

lemma bt_items_get [simp]: "(k, v) \<in> set (items m) \<longleftrightarrow> bt_get m k = Some v"
  by (simp add: bt.get_iff_entry)

lemma bt_keys_iff [simp]: "k \<in> set (bt_keys m) \<longleftrightarrow> bt_contains m k"
  using bt.key_iff [of k m] by (simp add: bt_keys_def bt_contains_def)

lemma bt_values_iff [simp]: "v \<in> set (bt_values m) \<longleftrightarrow> (\<exists>k. bt_get m k = Some v)"
  by (force simp: bt_values_def simp flip: bt_items_get)

lemma bt_contains_iff: "bt_contains m k \<longleftrightarrow> (\<exists>v. bt_get m k = Some v)"
  by (auto simp: bt_contains_def)

lemma bt_contains_simps [simp]:
  "\<not> bt_contains bt_empty k" "bt_contains (bt_insert k v m) k' \<longleftrightarrow> k' = k \<or> bt_contains m k'"
  by (auto simp: bt_contains_def)

lemma bt_keys_distinct [simp]: "distinct (bt_keys m)"
  by (simp add: bt_keys_def bt.keys_distinct)

lemma bt_keys_sorted [simp]: "sorted (bt_keys m)"
  using bt.entries_sorted [of m] by (simp add: bt_keys_def strict_sorted_iff)

lemma bt_len_keys: "bt_len m = length (bt_keys m)"
  by (simp add: bt_len_def bt_keys_def)

lemma bt_len_card: "bt_len m = card (dom (bt_get m))"
proof -
  have "dom (bt_get m) = set (bt_keys m)"
    by (auto simp: bt_contains_def)
  then show ?thesis
    by (simp add: bt_len_keys distinct_card)
qed

lemma bt_items_keys: "items m = map (\<lambda>k. (k, the (bt_get m k))) (bt_keys m)"
proof -
  have "(k, the (bt_get m k)) = (k, v)" if "(k, v) \<in> set (items m)" for k v
    using that by simp
  then show ?thesis
    by (auto simp: bt_keys_def intro!: map_idI [symmetric])
qed

lemma bt_eq_iff: "m = n \<longleftrightarrow> bt_get m = bt_get n"
  using bt.get_ext by auto

lemma bt_eqI: "(\<And>k. bt_get m k = bt_get n k) \<Longrightarrow> m = n"
  by (simp add: bt_eq_iff fun_eq_iff)

lemma bt_get_filter: "bt_get (bt_filter P m) k =
    (case bt_get m k of None \<Rightarrow> None | Some v \<Rightarrow> if P (k, v) then Some v else None)"
proof -
  have eq: "bt_get (bt_filter P m) k = Some v \<longleftrightarrow> bt_get m k = Some v \<and> P (k, v)" for v
    unfolding bt_items_get [symmetric] bt_filter.rep_eq by auto
  show ?thesis
  proof (cases "bt_get m k")
    case None
    with eq show ?thesis by (metis not_None_eq option.case(1))
  next
    case (Some v)
    show ?thesis
    proof (cases "P (k, v)")
      case True
      with Some eq [of v] show ?thesis by simp
    next
      case False
      have "bt_get (bt_filter P m) k = None"
        using Some False eq by (metis not_None_eq option.inject)
      with Some False show ?thesis by simp
    qed
  qed
qed

lemma bt_get_of_list:
  "distinct (map fst xs) \<Longrightarrow> bt_get (bt_of_list xs) = map_of xs"
proof -
  assume d: "distinct (map fst xs)"
  then have "map_of (rev xs) = map_of xs"
    by (subst map_of_inject_set) (simp_all flip: rev_map)
  then show ?thesis
    by (auto simp: bt_of_list_def bt.get_fold_ins fun_eq_iff split: option.split)
qed

lemma items_empty [simp]: "items bt_empty = []"
  by (rule bt_empty.rep_eq)

lemma items_insert: "items (bt_insert k v m) = assoc_insert k v (items m)"
  by (rule bt_insert.rep_eq)

lemma items_eq_Nil [simp]: "items m = [] \<longleftrightarrow> m = bt_empty"
  by (metis items_empty items_inject)

text \<open>Evaluation of closed maps by the simplifier.\<close>

named_theorems bt_eval

lemmas [bt_eval] = items_insert bt_of_list_def bt_keys_def bt_values_def bt_contains_def
  bt_len_def bt_get.rep_eq

text \<open>
  An in-place update through \<open>get_mut\<close>: the entry must exist, the key set stays.
\<close>

fun assoc_modify :: "'k \<Rightarrow> 'v \<Rightarrow> ('k \<times> 'v) list \<Rightarrow> ('k \<times> 'v) list" where
  "assoc_modify k v [] = []"
| "assoc_modify k v ((k', v') # m) =
     (if k = k' then (k', v) # m else (k', v') # assoc_modify k v m)"

lemma keys_assoc_modify [simp]: "map fst (assoc_modify k v m) = map fst m"
  by (induction k v m rule: assoc_modify.induct) auto

lemma map_of_assoc_modify:
  "map_of (assoc_modify k v m) =
     (if map_of m k = None then map_of m else (map_of m)(k \<mapsto> v))"
  by (induction k v m rule: assoc_modify.induct) (auto simp: fun_eq_iff)

lemma sum_assoc_modify:
  "map_of m k = Some c \<Longrightarrow>
     sum_list (map snd (assoc_modify k v m)) + c = sum_list (map snd m) + (v :: nat)"
  by (induction k v m rule: assoc_modify.induct) (auto split: if_splits)

lift_definition bt_set :: "'k::linorder \<Rightarrow> 'v \<Rightarrow> ('k, 'v) btree_map \<Rightarrow> ('k, 'v) btree_map"
  is assoc_modify
  by simp

lemma bt_get_set:
  "bt_contains m k \<Longrightarrow> bt_get (bt_set k v m) = (bt_get m)(k \<mapsto> v)"
  by (auto simp: bt_contains_def bt_get.rep_eq bt_set.rep_eq map_of_assoc_modify)

lemma bt_keys_set [simp]: "bt_keys (bt_set k v m) = bt_keys m"
  unfolding bt_keys_def by transfer simp

lemma bt_values_set_sum:
  "bt_get m k = Some c \<Longrightarrow>
     sum_list (bt_values (bt_set k v m)) + c = sum_list (bt_values m) + (v :: nat)"
  unfolding bt_values_def by transfer (rule sum_assoc_modify)

lemma items_set: "items (bt_set k v m) = assoc_modify k v (items m)"
  by (rule bt_set.rep_eq)

declare items_set [bt_eval]

lemma bt_ball_items: "(\<forall>x \<in> set (items m). P x) \<longleftrightarrow> (\<forall>k v. bt_get m k = Some v \<longrightarrow> P (k, v))"
  by (metis bt_items_get surj_pair)

lemma bt_for_each_items:
  "for_each f (items m) = Inr u \<longleftrightarrow> (\<forall>k v. bt_get m k = Some v \<longrightarrow> f (k, v) = Inr ())"
  by (simp add: bt_ball_items)

text \<open>Equality of maps is decided on their entries, that of keys by their order.\<close>

instantiation btree_map :: (linorder, equal) equal
begin

definition equal_btree_map :: "('a, 'b) btree_map \<Rightarrow> ('a, 'b) btree_map \<Rightarrow> bool" where
  "equal_btree_map m n \<longleftrightarrow>
     list_all2 (\<lambda>(j, v) (k, w). j \<le> k \<and> k \<le> j \<and> HOL.equal v w) (items m) (items n)"

instance
proof
  fix m n :: "('a, 'b) btree_map"
  have "(\<lambda>(j, v) (k, w). j \<le> k \<and> k \<le> j \<and> HOL.equal v w) = ((=) :: 'a \<times> 'b \<Rightarrow> _)"
    by (auto simp: fun_eq_iff equal)
  then show "HOL.equal m n \<longleftrightarrow> m = n"
    by (simp add: equal_btree_map_def list.rel_eq items_inject)
qed

end

end
