(* ===== verification/Core.thy ===== *)
theory Core
  imports Ordered_Map
begin

text \<open>
  The public plan types of \<open>crates/nix-seal-core/src/lib.rs\<close>: identifiers and their
  grammar, the plan and its object collections, and the compatibility-symlink check.
  A field \<open>f\<close> of struct \<open>S\<close> is the selector \<open>s_f\<close>, since Isabelle
  selectors of one theory share a name space. JSON and TOML decoding, the JSON schema
  derivations and the \<open>Display\<close> texts of errors are not modelled.
\<close>

section \<open>Identifiers\<close>

definition PLAN_SCHEMA :: string where
  "PLAN_SCHEMA = ''nix-seal.plan.v2''"

definition DEFAULT_GENERATOR_TIMEOUT_SECONDS :: "16 word" where
  "DEFAULT_GENERATOR_TIMEOUT_SECONDS = 30"

definition DEFAULT_GENERATOR_MAX_OUTPUT_BYTES :: "64 word" where
  "DEFAULT_GENERATOR_MAX_OUTPUT_BYTES = 64 * 1024 * 1024"

datatype id = Id (as_str: string)

text \<open>The derived \<open>Ord\<close> of the newtype is the order of the wrapped string.\<close>

instantiation id :: linorder
begin

definition less_eq_id :: "id \<Rightarrow> id \<Rightarrow> bool" where
  "less_eq_id a b \<longleftrightarrow> as_str a \<le> as_str b"

definition less_id :: "id \<Rightarrow> id \<Rightarrow> bool" where
  "less_id a b \<longleftrightarrow> as_str a < as_str b"

instance
  by standard (auto simp: less_eq_id_def less_id_def id.expand)

end

lemma id_less_simps [simp]:
  "Id a \<le> Id b \<longleftrightarrow> a \<le> b" "Id a < Id b \<longleftrightarrow> a < b"
  by (simp_all add: less_eq_id_def less_id_def)

datatype id_error = Invalid string

definition is_id_char :: "char \<Rightarrow> bool" where
  "is_id_char c \<longleftrightarrow> is_ascii_lowercase c \<or> is_ascii_digit c \<or> c \<in> set ''./-_''"

definition Id_parse :: "string \<Rightarrow> id_error + id" where
  "Id_parse value =
     (if value = [] \<or> starts_with value ''/'' \<or> str_contains value ''..''
      then Inl (Invalid value)
      else if (\<exists>segment \<in> set (split_on (CHR ''/'') value). segment = [] \<or> segment = ''.'')
              \<or> \<not> (\<forall>c \<in> set value. is_id_char c)
      then Inl (Invalid value)
      else Inr (Id value))"

definition valid_id :: "id \<Rightarrow> bool" where
  "valid_id i \<longleftrightarrow> Id_parse (as_str i) = Inr i"

section \<open>The plan\<close>

datatype identity_kind = Administrator | TargetIdentity | Recovery | Signer | Authorizer | Plugin

record identity =
  identity_kind :: identity_kind
  identity_public :: string

record group =
  group_members :: "id list"

record target_service_actions =
  actions_executable :: string
  actions_timeout_seconds :: "64 word"

datatype target_kind = NixOs | Darwin | HomeManager

record target =
  target_kind :: target_kind
  target_system :: string
  target_identity :: id
  target_username :: "string option"
  target_configuration :: "string option"
  target_environment :: "string option"
  target_tags :: "string list"
  target_service_actions :: "target_service_actions option"

record target_selectors =
  sel_targets :: "id list"
  sel_groups :: "id list"
  sel_kinds :: "target_kind list"
  sel_systems :: "string list"
  sel_usernames :: "string list"
  sel_configurations :: "string list"
  sel_environments :: "string list"
  sel_tags :: "string list"

definition default_selectors :: target_selectors where
  "default_selectors = \<lparr>sel_targets = [], sel_groups = [], sel_kinds = [], sel_systems = [],
     sel_usernames = [], sel_configurations = [], sel_environments = [], sel_tags = []\<rparr>"

datatype delivery_mode = Rekeyed | Direct

datatype activation_phase = Partitioning | Users | Activation | Services

record runtime_settings =
  rt_owner :: string
  rt_group :: string
  rt_mode :: string
  rt_restart_units :: "string list"
  rt_reload_units :: "string list"
  rt_compatibility_symlink :: "string option"

definition default_runtime_settings :: runtime_settings where
  "default_runtime_settings = \<lparr>rt_owner = ''root'', rt_group = ''root'', rt_mode = ''0400'',
     rt_restart_units = [], rt_reload_units = [], rt_compatibility_symlink = None\<rparr>"

record lifecycle =
  lc_created_at :: "string option"
  lc_rotated_at :: "string option"
  lc_expires_at :: "string option"
  lc_rotate_after_days :: "32 word option"
  lc_contact :: "string option"
  lc_purpose :: "string option"
  lc_classification :: "string option"
  lc_incident_reference :: "string option"

definition default_lifecycle :: lifecycle where
  "default_lifecycle = \<lparr>lc_created_at = None, lc_rotated_at = None, lc_expires_at = None,
     lc_rotate_after_days = None, lc_contact = None, lc_purpose = None,
     lc_classification = None, lc_incident_reference = None\<rparr>"

record secret =
  secret_source :: string
  secret_source_ciphertext_hash :: string
  secret_delivery :: delivery_mode
  secret_administrators :: "id list"
  secret_consumers :: "id list"
  secret_selectors :: target_selectors
  secret_phase :: activation_phase
  secret_runtime :: runtime_settings
  secret_runtime_overrides :: "(id, runtime_settings) btree_map"
  secret_lifecycle :: lifecycle
  secret_repository_only :: bool
  secret_approval_policy :: "id option"

definition runtime_for_target :: "secret \<Rightarrow> id \<Rightarrow> runtime_settings" where
  "runtime_for_target secret target_id =
     (case bt_get (secret_runtime_overrides secret) target_id of
        Some runtime \<Rightarrow> runtime | None \<Rightarrow> secret_runtime secret)"

datatype generator_prompt_mode = Hidden | Visible

record generator_prompt =
  prompt_id :: id
  prompt_mode :: generator_prompt_mode
  prompt_message :: string
  prompt_multiline :: bool
  prompt_persistent :: bool

record generator_public_output =
  pub_id :: id
  pub_destination :: string

record generator =
  gen_executable :: string
  gen_arguments :: "string list"
  gen_runtime_inputs :: "string list"
  gen_timeout_seconds :: "16 word"
  gen_max_output_bytes :: "64 word"
  gen_dependencies :: "id list"
  gen_secret_dependencies :: "id list"
  gen_outputs :: "id list"
  gen_public_outputs :: "generator_public_output list"
  gen_prompts :: "generator_prompt list"
  gen_parameters :: "(string, string) btree_map"
  gen_validation :: "string option"

datatype template_encoding = Utf8 | Base64 | Hex

record template_placeholder =
  ph_secret :: id
  ph_encoding :: template_encoding

record template =
  template_source :: string
  template_placeholders :: "(string, template_placeholder) btree_map"
  template_runtime :: runtime_settings

record approval_policy =
  approval_threshold :: "16 word"
  approval_signers :: "id list"

datatype backend_kind = Age

record backend =
  backend_kind :: backend_kind
  backend_options :: "(string, string) btree_map"

record plan =
  schema :: string
  identities :: "(id, identity) btree_map"
  groups :: "(id, group) btree_map"
  targets :: "(id, target) btree_map"
  secrets :: "(id, secret) btree_map"
  generators :: "(id, generator) btree_map"
  templates :: "(id, template) btree_map"
  approval_policies :: "(id, approval_policy) btree_map"
  backends :: "(id, backend) btree_map"

definition default_plan :: plan where
  "default_plan = \<lparr>schema = PLAN_SCHEMA, identities = bt_empty, groups = bt_empty,
     targets = bt_empty, secrets = bt_empty, generators = bt_empty, templates = bt_empty,
     approval_policies = bt_empty, backends = bt_empty\<rparr>"

section \<open>Compatibility symlinks\<close>

text \<open>\<open>Path::file_name\<close>: the last component, when it is a normal one.\<close>

definition path_file_name :: "string \<Rightarrow> string option" where
  "path_file_name p =
     (case rev (path_components p) of Normal n # _ \<Rightarrow> Some n | _ \<Rightarrow> None)"

definition valid_compatibility_symlink :: "string \<Rightarrow> bool" where
  "valid_compatibility_symlink value =
     (if value = [] \<or> 4096 < length value \<or> \<not> starts_with value ''/''
         \<or> ends_with value ''/'' \<or> has_control_char value
      then False
      else if path_components value = path_components ''/''
         \<or> path_file_name value = None
         \<or> \<not> (\<forall>segment \<in> set (drop 1 (split_on (CHR ''/'') value)).
               segment \<noteq> [] \<and> segment \<noteq> ''.'' \<and> segment \<noteq> ''..'')
      then False
      else (\<forall>c \<in> set (path_components value). c \<noteq> CurDir \<and> c \<noteq> ParentDir))"

section \<open>The identifier grammar\<close>

definition id_segment :: "string \<Rightarrow> bool" where
  "id_segment w \<longleftrightarrow> w \<noteq> [] \<and> w \<noteq> ''.'' \<and> \<not> sublist ''..'' w
     \<and> (\<forall>c \<in> set w. is_ascii_lowercase c \<or> is_ascii_digit c \<or> c \<in> set ''.-_'')"

lemma is_id_char_slash: "is_id_char c \<longleftrightarrow>
    is_ascii_lowercase c \<or> is_ascii_digit c \<or> c \<in> set ''.-_'' \<or> c = CHR ''/''"
  by (auto simp: is_id_char_def)

lemma sublist_dots_split:
  assumes "sublist ''..'' s"
  shows "\<exists>w \<in> set (split_on (CHR ''/'') s). sublist ''..'' w"
  using assms
proof (induction s)
  case Nil
  then show ?case by simp
next
  case (Cons c cs)
  obtain w ws where w: "split_on (CHR ''/'') cs = w # ws"
    by (cases "split_on (CHR ''/'') cs") auto
  show ?case
  proof (cases "sublist ''..'' cs")
    case True
    with Cons.IH w show ?thesis
      by (auto simp: sublist_Cons_right)
  next
    case False
    with Cons.prems have "c = CHR ''.''" "\<exists>r. cs = CHR ''.'' # r"
      by (auto simp: sublist_Cons_right prefix_def)
    then obtain r where r: "c # cs = CHR ''.'' # CHR ''.'' # r" by auto
    then have "split_on (CHR ''/'') (c # cs) =
        (CHR ''.'' # CHR ''.'' # hd (split_on (CHR ''/'') r)) # tl (split_on (CHR ''/'') r)"
      by (cases "split_on (CHR ''/'') r") auto
    then show ?thesis
      by (simp add: sublist_Cons_right)
  qed
qed

lemma sublist_split_piece:
  "w \<in> set (split_on d s) \<Longrightarrow> sublist w s"
proof (induction s arbitrary: w)
  case Nil
  then show ?case by simp
next
  case (Cons c cs)
  obtain v vs where v: "split_on d cs = v # vs"
    by (cases "split_on d cs") auto
  have head: "prefix v cs"
    using v join_split [of d cs] by (cases vs) (auto intro: prefixI)
  show ?case
  proof (cases "c = d \<or> w \<in> set vs")
    case True
    with Cons v show ?thesis by (auto simp: sublist_Cons_right split: if_splits)
  next
    case False
    with Cons.prems v have "w = c # v" by auto
    with head have "prefix w (c # cs)" by simp
    then show ?thesis by (simp add: prefix_imp_sublist)
  qed
qed

lemma starts_with_slash_split: "starts_with s ''/'' \<Longrightarrow> [] \<in> set (split_on (CHR ''/'') s)"
  by (cases s) auto

lemma Id_parse_iff:
  "Id_parse v = Inr i \<longleftrightarrow> i = Id v \<and> (\<forall>w \<in> set (split_on (CHR ''/'') v). id_segment w)"
proof -
  let ?ws = "set (split_on (CHR ''/'') v)"
  have chars: "(\<forall>c \<in> set v. is_id_char c) \<longleftrightarrow>
      (\<forall>w \<in> ?ws. \<forall>c \<in> set w. is_ascii_lowercase c \<or> is_ascii_digit c \<or> c \<in> set ''.-_'')"
  proof -
    have "(\<forall>c \<in> set v. is_id_char c) \<longleftrightarrow> (\<forall>c \<in> set v - {CHR ''/''}. is_id_char c)"
      by (auto simp: is_id_char_slash)
    also have "\<dots> \<longleftrightarrow> (\<forall>w \<in> ?ws. \<forall>c \<in> set w. is_id_char c)"
      by (auto simp flip: set_split_on)
    also have "\<dots> \<longleftrightarrow> (\<forall>w \<in> ?ws. \<forall>c \<in> set w.
        is_ascii_lowercase c \<or> is_ascii_digit c \<or> c \<in> set ''.-_'')"
      using split_on_no_delimiter [of _ "CHR ''/''" v] unfolding is_id_char_slash by blast
    finally show ?thesis .
  qed
  have dots: "str_contains v ''..'' \<longleftrightarrow> (\<exists>w \<in> ?ws. sublist ''..'' w)"
    unfolding str_contains_iff
    using sublist_dots_split sublist_split_piece sublist_order.order.trans by blast
  have nil: "v = [] \<Longrightarrow> [] \<in> ?ws" by simp
  show ?thesis
    unfolding Id_parse_def id_segment_def
    using chars dots nil starts_with_slash_split [of v] by auto
qed

lemma valid_id_iff:
  "valid_id i \<longleftrightarrow> (\<forall>w \<in> set (split_on (CHR ''/'') (as_str i)). id_segment w)"
  by (cases i) (simp add: valid_id_def Id_parse_iff)

lemma Id_parse_valid: "Id_parse v = Inr i \<Longrightarrow> valid_id i"
  by (auto simp: valid_id_iff Id_parse_iff)

lemma id_segment_normal: "id_segment w \<Longrightarrow> segment_component w = [Normal w]"
  by (auto simp: id_segment_def segment_component_def)

lemma template_id_parses:
  "valid_id i \<Longrightarrow> Id_parse (''templates/'' @ as_str i) = Inr (Id (''templates/'' @ as_str i))"
proof -
  assume i: "valid_id i"
  have "split_on (CHR ''/'') (''templates/'' @ as_str i) = ''templates'' # split_on (CHR ''/'') (as_str i)"
    using split_on_append [of "CHR ''/''" "''templates''" "as_str i"] by simp
  moreover have "id_segment ''templates''"
    by (simp add: id_segment_def is_ascii_lowercase_def sublist_Cons_right)
  ultimately show ?thesis
    using i by (simp add: Id_parse_iff valid_id_iff)
qed

section \<open>Joining an identifier below a directory\<close>

lemma path_components_join:
  assumes "path_is_absolute root"
  shows "path_components (root @ CHR ''/'' # s) =
    path_components root @ concat (map segment_component (split_on (CHR ''/'') s))"
proof -
  have split: "split_on (CHR ''/'') (r @ CHR ''/'' # s) = split_on (CHR ''/'') r @ split_on (CHR ''/'') s" for r
    by (induction r) (auto split: list.splits)
  from assms obtain r where "root = CHR ''/'' # r"
    by (cases root) (auto simp: path_is_absolute_def)
  then show ?thesis
    by (simp add: path_components_def path_is_absolute_def split)
qed

lemma path_components_join_id:
  assumes "path_is_absolute root" and "valid_id i"
  shows "path_components (root @ CHR ''/'' # as_str i) =
    path_components root @ map Normal (split_on (CHR ''/'') (as_str i))"
proof -
  have "concat (map segment_component ws) = map Normal ws" if "\<forall>w \<in> set ws. id_segment w" for ws
    using that by (induction ws) (auto simp: id_segment_normal)
  with assms show ?thesis
    by (simp add: path_components_join valid_id_iff)
qed

end
