(* ===== verification/External.thy ===== *)
theory External
  imports Core
begin

text \<open>
  The third-party code the program calls, as records of functions that the definitions of
  the other theories take as their first argument. Nothing is assumed of them here; a
  theorem that relies on documented behaviour of such code names it as a hypothesis.

  \<^item> \<open>age_api\<close>: recipient and identity parsing of the \<open>age\<close> crate;
  \<^item> \<open>key_api\<close>: \<open>base64\<close>, \<open>ed25519-dalek\<close>, \<open>ssh-key\<close> and
    \<open>blake3\<close> as the approval keys use them. A native verifying key is its 32-byte
    encoding; an OpenSSH key and an OpenSSH signature are opaque;
  \<^item> \<open>time_api\<close>: the timestamps of the \<open>jiff\<close> crate, as integers (nanoseconds
    since the epoch);
  \<^item> \<open>json_api\<close>: canonical JSON of the \<open>serde_jcs\<close> crate and strict JSON decoding.
\<close>

record age_api =
  age_x25519_recipient :: "string \<Rightarrow> string option"
  age_plugin_recipient :: "string \<Rightarrow> (string \<times> string) option"
  age_ssh_recipient :: "string \<Rightarrow> (bool \<times> string) option"
  age_x25519_identity :: "string \<Rightarrow> string option"
  age_plugin_identity :: "string \<Rightarrow> string option"
  age_ssh_identity :: "string \<Rightarrow> (bool \<times> (bool \<times> string) option) option"
  age_blake3 :: "bytes \<Rightarrow> string"

text \<open>
  \<open>age_x25519_recipient v\<close> is \<open>v.parse::<age::x25519::Recipient>()\<close> printed with
  \<open>to_string\<close>; \<open>age_plugin_recipient\<close> also carries the plugin name first;
  \<open>age_ssh_recipient\<close> says first whether the key is the RSA variant.
  \<open>age_x25519_identity\<close> and \<open>age_plugin_identity\<close> give the public recipient and
  the plugin name of an identity; \<open>age_ssh_identity\<close> says whether the parsed OpenSSH
  identity is encrypted and which recipient (RSA flag and text) \<open>Recipient::try_from\<close> gives.
  \<open>age_blake3\<close> is the lowercase hexadecimal BLAKE3 digest.
\<close>

record ('ssh, 'sig) key_api =
  b64_encode :: "bytes \<Rightarrow> string"
  b64_decode :: "string \<Rightarrow> bytes option"
  b64url_decode :: "string \<Rightarrow> bytes option"
  ed_key_valid :: "bytes \<Rightarrow> bool"
  ed_public :: "bytes \<Rightarrow> bytes"
  ed_sign :: "bytes \<Rightarrow> bytes \<Rightarrow> bytes"
  ed_verify_strict :: "bytes \<Rightarrow> bytes \<Rightarrow> bytes \<Rightarrow> bool"
  ssh_from_openssh :: "string \<Rightarrow> 'ssh option"
  ssh_from_ed25519 :: "bytes \<Rightarrow> 'ssh option"
  ssh_is_ed25519 :: "'ssh \<Rightarrow> bool"
  ssh_ed25519_bytes :: "'ssh \<Rightarrow> bytes option"
  ssh_to_openssh :: "'ssh \<Rightarrow> string option"
  sshsig_from_pem :: "string \<Rightarrow> 'sig option"
  sshsig_is_ed25519 :: "'sig \<Rightarrow> bool"
  ssh_verify :: "'ssh \<Rightarrow> string \<Rightarrow> bytes \<Rightarrow> 'sig \<Rightarrow> bool"
  key_blake3 :: "bytes \<Rightarrow> string"

text \<open>
  \<open>ed_key_valid b\<close>: \<open>VerifyingKey::from_bytes\<close> accepts the 32 bytes \<open>b\<close>;
  \<open>ed_public\<close> and \<open>ed_sign\<close> are \<open>SigningKey::verifying_key\<close> and
  \<open>Signer::sign\<close> on the 32-byte seed; \<open>ed_verify_strict k m s\<close> is
  \<open>verify_strict\<close> with the 64-byte signature \<open>s\<close>.
\<close>

record time_api =
  ts_parse :: "string \<Rightarrow> int option"
  ts_from_system :: "int \<Rightarrow> int option"
  ts_checked_add :: "int \<Rightarrow> 64 word \<Rightarrow> int option"
  ts_print :: "int \<Rightarrow> string"

text \<open>\<open>ts_checked_add t s\<close> is \<open>Timestamp::checked_add\<close> with a duration of
  \<open>s\<close> seconds.\<close>

section \<open>Trimming\<close>

text \<open>
  \<open>str::trim\<close> removes Unicode white space at both ends. These are the UTF-8 encodings
  of the code points with the White_Space property.
\<close>

definition whitespace_encodings :: "bytes list" where
  "whitespace_encodings =
     [[CHR 0x09], [CHR 0x0A], [CHR 0x0B], [CHR 0x0C], [CHR 0x0D], [CHR 0x20],
      [CHR 0xC2, CHR 0x85], [CHR 0xC2, CHR 0xA0], [CHR 0xE1, CHR 0x9A, CHR 0x80],
      [CHR 0xE2, CHR 0x80, CHR 0x80], [CHR 0xE2, CHR 0x80, CHR 0x81],
      [CHR 0xE2, CHR 0x80, CHR 0x82], [CHR 0xE2, CHR 0x80, CHR 0x83],
      [CHR 0xE2, CHR 0x80, CHR 0x84], [CHR 0xE2, CHR 0x80, CHR 0x85],
      [CHR 0xE2, CHR 0x80, CHR 0x86], [CHR 0xE2, CHR 0x80, CHR 0x87],
      [CHR 0xE2, CHR 0x80, CHR 0x88], [CHR 0xE2, CHR 0x80, CHR 0x89],
      [CHR 0xE2, CHR 0x80, CHR 0x8A], [CHR 0xE2, CHR 0x80, CHR 0xA8],
      [CHR 0xE2, CHR 0x80, CHR 0xA9], [CHR 0xE2, CHR 0x80, CHR 0xAF],
      [CHR 0xE2, CHR 0x81, CHR 0x9F], [CHR 0xE3, CHR 0x80, CHR 0x80]]"

function strip_pieces :: "bytes list \<Rightarrow> string \<Rightarrow> string" where
  "strip_pieces ws s =
     (case find (\<lambda>w. w \<noteq> [] \<and> starts_with s w) ws of
        None \<Rightarrow> s
      | Some w \<Rightarrow> strip_pieces ws (drop (length w) s))"
  by pat_completeness auto
termination
proof (relation "measure (\<lambda>(ws, s). length s)")
  fix ws s w
  assume "find (\<lambda>w. w \<noteq> [] \<and> starts_with s w) ws = Some w"
  then have "w \<noteq> []" "starts_with s w"
    by (auto simp: find_Some_iff)
  then have "0 < length w" "s \<noteq> []" by auto
  then show "((ws, drop (length w) s), ws, s) \<in> measure (\<lambda>(ws, s). length s)"
    by simp
qed simp

declare strip_pieces.simps [simp del]

definition trim :: "string \<Rightarrow> string" where
  "trim s = rev (strip_pieces (map rev whitespace_encodings)
     (rev (strip_pieces whitespace_encodings s)))"

lemma strip_pieces_none:
  "(\<And>w. w \<in> set ws \<Longrightarrow> w \<noteq> [] \<Longrightarrow> \<not> starts_with s w) \<Longrightarrow> strip_pieces ws s = s"
proof -
  assume "\<And>w. w \<in> set ws \<Longrightarrow> w \<noteq> [] \<Longrightarrow> \<not> starts_with s w"
  then have "find (\<lambda>w. w \<noteq> [] \<and> starts_with s w) ws = None"
    by (auto simp: find_None_iff)
  then show ?thesis
    by (subst strip_pieces.simps) simp
qed

end
