(* ===== verification/Crypto.thy ===== *)
theory Crypto
  imports External
begin

text \<open>
  Recipient and identity handling of \<open>crates/nix-seal-crypto/src/lib.rs\<close>: the
  accepted recipient kinds and their canonical text, the recipient fingerprint, and the
  match between an identity and a recipient. Encryption and decryption themselves are the
  \<open>age\<close> crate's.
\<close>

section \<open>Recipients\<close>

datatype crypto_error =
    CryptoRecipient | CryptoIdentity | CryptoEncrypt | CryptoDecrypt | CryptoIo
  | CryptoInputTooLarge | CryptoRandom | CryptoPlugin | CryptoPluginIdentityPublic
  | CryptoWireguardKey

definition normalize_recipient_inner :: "age_api \<Rightarrow> string \<Rightarrow> bool \<Rightarrow> crypto_error + string" where
  "normalize_recipient_inner api recipient allow_legacy_ssh_rsa =
     (case age_x25519_recipient api recipient of
        Some parsed \<Rightarrow> Inr parsed
      | None \<Rightarrow> (case age_plugin_recipient api recipient of
          Some (plugin, parsed) \<Rightarrow> Inr parsed
        | None \<Rightarrow> (case age_ssh_recipient api recipient of
            None \<Rightarrow> Inl CryptoRecipient
          | Some (rsa, parsed) \<Rightarrow>
              if \<not> allow_legacy_ssh_rsa \<and> rsa then Inl CryptoRecipient else Inr parsed)))"

definition normalize_recipient :: "age_api \<Rightarrow> string \<Rightarrow> crypto_error + string" where
  "normalize_recipient api recipient = normalize_recipient_inner api recipient False"

definition normalize_migration_recipient :: "age_api \<Rightarrow> string \<Rightarrow> crypto_error + string" where
  "normalize_migration_recipient api recipient = normalize_recipient_inner api recipient True"

definition fingerprint_domain :: bytes where
  "fingerprint_domain = ''nix-seal.age-recipient-fingerprint.v1'' @ [CHR 0x00]"

definition recipient_fingerprint :: "age_api \<Rightarrow> string \<Rightarrow> crypto_error + string" where
  "recipient_fingerprint api recipient =
     and_then (normalize_recipient api recipient)
       (\<lambda>normalized. Inr (age_blake3 api (fingerprint_domain @ normalized)))"

definition is_plugin_recipient :: "age_api \<Rightarrow> string \<Rightarrow> bool" where
  "is_plugin_recipient api v \<longleftrightarrow> age_plugin_recipient api v \<noteq> None"

definition is_plugin_identity :: "age_api \<Rightarrow> string \<Rightarrow> bool" where
  "is_plugin_identity api v \<longleftrightarrow> age_plugin_identity api (trim v) \<noteq> None"

section \<open>Identities\<close>

definition recipient_from_identity :: "age_api \<Rightarrow> string \<Rightarrow> crypto_error + string" where
  "recipient_from_identity api identity =
     (case age_x25519_identity api (trim identity) of
        Some public \<Rightarrow> Inr public
      | None \<Rightarrow>
          if age_plugin_identity api (trim identity) \<noteq> None
          then Inl CryptoPluginIdentityPublic
          else (case age_ssh_identity api identity of
              None \<Rightarrow> Inl CryptoIdentity
            | Some (encrypted, None) \<Rightarrow> Inl CryptoIdentity
            | Some (encrypted, Some (rsa, recipient)) \<Rightarrow>
                if rsa then Inl CryptoIdentity else Inr recipient))"

definition identity_matches_recipient :: "age_api \<Rightarrow> string \<Rightarrow> string \<Rightarrow> bool" where
  "identity_matches_recipient api identity recipient =
     (case (age_plugin_identity api (trim identity), age_plugin_recipient api recipient) of
        (Some plugin, Some (plugin', parsed)) \<Rightarrow> plugin = plugin'
      | _ \<Rightarrow>
          (case recipient_from_identity api identity of
             Inl _ \<Rightarrow> False
           | Inr actual \<Rightarrow>
               (case normalize_recipient api actual of
                  Inl _ \<Rightarrow> False
                | Inr actual' \<Rightarrow>
                    (case normalize_recipient api recipient of
                       Inl _ \<Rightarrow> False
                     | Inr expected \<Rightarrow> actual' = expected))))"

lemma normalize_migration_extends:
  "normalize_recipient api r = Inr s \<Longrightarrow> normalize_migration_recipient api r = Inr s"
  by (auto simp: normalize_recipient_def normalize_migration_recipient_def
      normalize_recipient_inner_def split: option.splits if_splits)

lemma normalize_recipient_rejects_rsa:
  "age_x25519_recipient api r = None \<Longrightarrow> age_plugin_recipient api r = None \<Longrightarrow>
   age_ssh_recipient api r = Some (True, s) \<Longrightarrow>
   normalize_recipient api r = Inl CryptoRecipient"
  by (simp add: normalize_recipient_def normalize_recipient_inner_def)

lemma fingerprint_of_normalized:
  "normalize_recipient api r = normalize_recipient api r' \<Longrightarrow>
   recipient_fingerprint api r = recipient_fingerprint api r'"
  by (simp add: recipient_fingerprint_def)

end
