(* ===== verification/Manifest.thy ===== *)
theory Manifest
  imports External
begin

text \<open>
  Signed target manifests and delegated create capabilities of
  \<open>crates/nix-seal-manifest/src/lib.rs\<close>: approval keys, the DSSE pre-authentication
  encoding, envelopes, threshold verification, and the framing of SSH-agent messages.
  Base64, Ed25519, OpenSSH keys, JSON and BLAKE3 are parameters.
\<close>

unbundle bit_operations_syntax

section \<open>Constants and data\<close>

definition ARTIFACT_SCHEMA :: string where
  "ARTIFACT_SCHEMA = ''nix-seal.artifact.v3''"

definition PAYLOAD_TYPE :: string where
  "PAYLOAD_TYPE = ''application/vnd.nix-seal.target-manifest.v3+json''"

definition PRIVATE_KEY_PREFIX :: string where
  "PRIVATE_KEY_PREFIX = ''NIX-SEAL-ED25519-PRIVATE-v1:''"

definition PUBLIC_KEY_PREFIX :: string where
  "PUBLIC_KEY_PREFIX = ''nix-seal-ed25519-v1:''"

definition MAX_PAYLOAD_BYTES :: nat where
  "MAX_PAYLOAD_BYTES = 1024 * 1024"

definition MAX_SIGNATURES :: nat where
  "MAX_SIGNATURES = 256"

definition MAX_SIGNATURE_BYTES :: nat where
  "MAX_SIGNATURE_BYTES = 32 * 1024"

definition SSH_SIGNATURE_NAMESPACE :: string where
  "SSH_SIGNATURE_NAMESPACE = ''nix-seal-artifact-v3''"

definition DELEGATED_CAPABILITY_PAYLOAD_TYPE :: string where
  "DELEGATED_CAPABILITY_PAYLOAD_TYPE =
     ''application/vnd.nix-seal.delegated-create-capability.v1+json''"

definition DELEGATED_CAPABILITY_SSH_NAMESPACE :: string where
  "DELEGATED_CAPABILITY_SSH_NAMESPACE = ''nix-seal-delegated-create-capability-v1''"

definition DELEGATED_CREATE_CAPABILITY_SCHEMA :: string where
  "DELEGATED_CREATE_CAPABILITY_SCHEMA = ''nix-seal.delegated-create-capability.v1''"

definition MAX_DELEGATED_PLAINTEXT_BYTES :: "64 word" where
  "MAX_DELEGATED_PLAINTEXT_BYTES = 65536"

record target_manifest =
  tm_schema :: string
  tm_tool_version :: string
  tm_plan_hash :: string
  tm_target_policy_hash :: string
  tm_artifact_policy_hash :: string
  tm_source_ciphertext_hash :: string
  tm_artifact_ciphertext_hash :: string
  tm_target_id :: id
  tm_secret_id :: id
  tm_recipient_fingerprint :: string
  tm_artifact_generation :: "64 word"
  tm_issued_at :: "64 word"
  tm_expires_at :: "64 word option"

datatype approval_signature_algorithm = Ed25519V1 | SshEd25519SshsigV1

record envelope_signature =
  es_key_id :: string
  es_algorithm :: approval_signature_algorithm
  es_signature :: string

record signed_envelope =
  se_payload_type :: string
  se_payload :: string
  se_signatures :: "envelope_signature list"

record delegated_create_capability =
  dc_schema :: string
  dc_operation :: string
  dc_capability_id :: string
  dc_bootstrap_plan_hash :: string
  dc_secret_id :: id
  dc_source :: string
  dc_recipient_set_hash :: string
  dc_plaintext_sha256 :: string
  dc_max_plaintext_bytes :: "64 word"
  dc_issued_at :: "64 word"
  dc_not_before :: "64 word"
  dc_expires_at :: "64 word"

record expected_binding =
  eb_tool_version :: string
  eb_artifact_policy_hash :: string
  eb_source_ciphertext_hash :: string
  eb_artifact_ciphertext_hash :: string
  eb_target_id :: id
  eb_secret_id :: id
  eb_recipient_fingerprint :: string
  eb_artifact_generation :: "64 word"
  eb_now :: "64 word"
  eb_allowed_clock_skew :: "64 word"

record verified_manifest =
  vm_manifest :: target_manifest
  vm_signers :: "string set"

datatype manifest_error =
    MRandom | MPrivateKeyFormat | MPublicKeyFormat | MJson | MVersion | MLimit | MTime
  | MBinding | MThreshold | MDuplicateSigner | MUntrustedSigner | MDuplicateTrustedKey
  | MInvalidSignature | MAgentUnavailable | MAgentRejected | MAgentProtocol

record 'ssh verification_key =
  vk_native :: bytes
  vk_ssh :: 'ssh

text \<open>JSON encoding and decoding of the two signed payloads (\<open>serde_jcs\<close>,
  \<open>serde_json\<close>).\<close>

record payload_json =
  tm_to_jcs :: "target_manifest \<Rightarrow> bytes option"
  tm_from_json :: "bytes \<Rightarrow> target_manifest option"
  dc_to_jcs :: "delegated_create_capability \<Rightarrow> bytes option"
  dc_from_json :: "bytes \<Rightarrow> delegated_create_capability option"

section \<open>Approval keys\<close>

definition native_key_id :: "('ssh, 'sig) key_api \<Rightarrow> bytes \<Rightarrow> string" where
  "native_key_id api key =
     ''ed25519:'' @ key_blake3 api (''nix-seal.ed25519-key-id.v1'' @ [CHR 0x00] @ key)"

definition parse_public_key ::
  "('ssh, 'sig) key_api \<Rightarrow> string \<Rightarrow> manifest_error + 'ssh verification_key" where
  "parse_public_key api encoded =
     (let value = trim encoded in
      case strip_prefix value PUBLIC_KEY_PREFIX of
        Some body \<Rightarrow>
          and_then (ok_or (b64_decode api body) MPublicKeyFormat) (\<lambda>decoded.
          and_then (check (length decoded = 32) MPublicKeyFormat) (\<lambda>_.
          and_then (check (ed_key_valid api decoded) MPublicKeyFormat) (\<lambda>_.
          and_then (ok_or (ssh_from_ed25519 api decoded) MPublicKeyFormat) (\<lambda>ssh.
          Inr \<lparr>vk_native = decoded, vk_ssh = ssh\<rparr>))))
      | None \<Rightarrow>
          and_then (ok_or (ssh_from_openssh api value) MPublicKeyFormat) (\<lambda>key.
          and_then (check (ssh_is_ed25519 api key) MPublicKeyFormat) (\<lambda>_.
          and_then (ok_or (ssh_ed25519_bytes api key) MPublicKeyFormat) (\<lambda>bs.
          and_then (check (ed_key_valid api bs) MPublicKeyFormat) (\<lambda>_.
          Inr \<lparr>vk_native = bs, vk_ssh = key\<rparr>)))))"

definition validate_public_key :: "('ssh, 'sig) key_api \<Rightarrow> string \<Rightarrow> manifest_error + unit" where
  "validate_public_key api encoded = and_then (parse_public_key api encoded) (\<lambda>_. Inr ())"

definition verification_key_id :: "('ssh, 'sig) key_api \<Rightarrow> 'ssh verification_key \<Rightarrow> string" where
  "verification_key_id api key = native_key_id api (vk_native key)"

definition public_key_id :: "('ssh, 'sig) key_api \<Rightarrow> string \<Rightarrow> manifest_error + string" where
  "public_key_id api encoded =
     and_then (parse_public_key api encoded) (\<lambda>key. Inr (verification_key_id api key))"

lemma validate_public_key_iff:
  "validate_public_key api s = Inr () \<longleftrightarrow> (\<exists>k. public_key_id api s = Inr k)"
  by (auto simp: validate_public_key_def public_key_id_def)

end
