(* ===== verification/Dependency_Graph.thy ===== *)
theory Dependency_Graph
  imports Ordered_Map
begin

text \<open>
  The dependency-graph check shared by group membership and generator dependencies
  (\<open>validate_group_graph\<close> and \<open>validate_generator_graph\<close> of
  \<open>crates/nix-seal-policy/src/lib.rs\<close>): in-degree counting over a ready queue. The
  two functions of the source run the same loop and differ only in the text of their
  errors. The result: the number of visited nodes equals the number of nodes exactly
  when the dependency relation is acyclic, and the two "internally inconsistent" errors
  and the counter overflow cannot occur.
\<close>

section \<open>The loop\<close>

datatype graph_error = GraphLimit | GraphInconsistent

record (overloaded) ('n::linorder) graph =
  indegree :: "('n, nat) btree_map"
  dependents :: "('n, 'n list) btree_map"

definition empty_graph :: "'n::linorder graph" where
  "empty_graph = \<lparr>indegree = bt_empty, dependents = bt_empty\<rparr>"

text \<open>\<open>dependents.entry(dependency).or_default().push(node)\<close>\<close>

definition push_dependent ::
  "'n::linorder \<Rightarrow> 'n \<Rightarrow> ('n, 'n list) btree_map \<Rightarrow> ('n, 'n list) btree_map" where
  "push_dependent node dependency m =
     bt_insert dependency
       ((case bt_get m dependency of None \<Rightarrow> [] | Some xs \<Rightarrow> xs) @ [node]) m"

definition add_node :: "'n::linorder \<Rightarrow> 'n set \<Rightarrow> 'n graph \<Rightarrow> 'n graph" where
  "add_node node dependencies g =
     \<lparr>indegree = bt_insert node (card dependencies) (indegree g),
      dependents = fold (push_dependent node) (sorted_list_of_set dependencies) (dependents g)\<rparr>"

text \<open>The inner \<open>for dependent in entries\<close> loop over the counters and the queue.\<close>

fun release ::
  "'n::linorder list \<Rightarrow> ('n, nat) btree_map \<Rightarrow> 'n list
    \<Rightarrow> graph_error + ('n, nat) btree_map \<times> 'n list" where
  "release [] indeg ready = Inr (indeg, ready)"
| "release (d # ds) indeg ready =
     (case bt_get indeg d of
        None \<Rightarrow> Inl GraphInconsistent
      | Some count \<Rightarrow>
          if count = 0 then Inl GraphInconsistent
          else release ds (bt_set d (count - 1) indeg)
                 (if count - 1 = 0 then ready @ [d] else ready))"

definition dependents_of :: "('n::linorder, 'n list) btree_map \<Rightarrow> 'n \<Rightarrow> 'n list" where
  "dependents_of m n = (case bt_get m n of None \<Rightarrow> [] | Some xs \<Rightarrow> xs)"

lemma release_measure:
  "release ds indeg ready = Inr (indeg', ready') \<Longrightarrow>
     2 * sum_list (bt_values indeg') + length ready' \<le>
     2 * sum_list (bt_values indeg) + length ready"
proof (induction ds indeg ready rule: release.induct)
  case (1 indeg ready)
  then show ?case by simp
next
  case (2 d ds indeg ready)
  from "2.prems" obtain c where c: "bt_get indeg d = Some c" "c \<noteq> 0"
    by (auto split: option.splits if_splits)
  have s: "sum_list (bt_values (bt_set d (c - 1) indeg)) + c
      = sum_list (bt_values indeg) + (c - 1)"
    by (rule bt_values_set_sum [OF c(1)])
  from "2.IH" [OF c] "2.prems" c s show ?case
    by (auto split: if_splits)
qed

text \<open>The outer \<open>while let Some(node) = ready.pop_front()\<close> loop.\<close>

function visit ::
  "('n::linorder, 'n list) btree_map \<Rightarrow> ('n, nat) btree_map \<Rightarrow> 'n list \<Rightarrow> nat
    \<Rightarrow> graph_error + nat" where
  "visit deps indeg [] visited = Inr visited"
| "visit deps indeg (n # ready) visited =
     (if visited = usize_max then Inl GraphLimit
      else (case release (dependents_of deps n) indeg ready of
              Inl e \<Rightarrow> Inl e
            | Inr (indeg', ready') \<Rightarrow> visit deps indeg' ready' (visited + 1)))"
  by pat_completeness auto
termination
  by (relation "measure (\<lambda>(deps, indeg, ready, visited).
        2 * sum_list (bt_values indeg) + length ready)")
    (auto dest!: release_measure)

definition initially_ready :: "('n::linorder, nat) btree_map \<Rightarrow> 'n list" where
  "initially_ready indeg = map fst (filter (\<lambda>(id, count). count = 0) (items indeg))"

definition visited_count :: "'n::linorder graph \<Rightarrow> graph_error + nat" where
  "visited_count g = visit (dependents g) (indegree g) (initially_ready (indegree g)) 0"

section \<open>What the construction builds\<close>

definition build_graph :: "'n::linorder list \<Rightarrow> ('n \<Rightarrow> 'n set) \<Rightarrow> 'n graph \<Rightarrow> 'n graph" where
  "build_graph ns deps g = fold (\<lambda>n. add_node n (deps n)) ns g"

lemma build_graph_simps [simp]:
  "build_graph [] deps g = g"
  "build_graph (n # ns) deps g = build_graph ns deps (add_node n (deps n) g)"
  by (simp_all add: build_graph_def)

lemma dependents_of_push:
  "dependents_of (push_dependent n d m) x =
     (if x = d then dependents_of m x @ [n] else dependents_of m x)"
  by (auto simp: dependents_of_def push_dependent_def split: option.split)

lemma dependents_of_fold_push:
  "distinct ds \<Longrightarrow> dependents_of (fold (push_dependent n) ds m) x =
     dependents_of m x @ (if x \<in> set ds then [n] else [])"
  by (induction ds arbitrary: m) (auto simp: dependents_of_push)

lemma dependents_of_add_node:
  "finite ds \<Longrightarrow> dependents_of (dependents (add_node n ds g)) x =
     dependents_of (dependents g) x @ (if x \<in> ds then [n] else [])"
  by (simp add: add_node_def dependents_of_fold_push)

lemma dependents_of_build:
  assumes "\<And>n. n \<in> set ns \<Longrightarrow> finite (deps n)"
  shows "dependents_of (dependents (build_graph ns deps g)) x =
     dependents_of (dependents g) x @ filter (\<lambda>n. x \<in> deps n) ns"
  using assms by (induction ns arbitrary: g) (auto simp: dependents_of_add_node)

lemma indegree_build:
  "bt_get (indegree (build_graph ns deps g)) n =
     (if n \<in> set ns then Some (card (deps n)) else bt_get (indegree g) n)"
  by (induction ns arbitrary: g) (auto simp: add_node_def)

section \<open>Correctness\<close>

definition dep_edges :: "'n set \<Rightarrow> ('n \<Rightarrow> 'n set) \<Rightarrow> ('n \<times> 'n) set" where
  "dep_edges ns deps = {(d, n). n \<in> ns \<and> d \<in> deps n}"

lemma release_result:
  assumes "distinct ds"
    and "\<And>d. d \<in> set ds \<Longrightarrow> bt_get indeg d = Some (c d) \<and> 0 < c d"
  shows "\<exists>indeg'. release ds indeg ready = Inr (indeg', ready @ filter (\<lambda>d. c d = 1) ds)
    \<and> (\<forall>x. bt_get indeg' x = (if x \<in> set ds then Some (c x - 1) else bt_get indeg x))"
  using assms
proof (induction ds arbitrary: indeg ready)
  case Nil
  then show ?case by simp
next
  case (Cons d ds)
  let ?indeg = "bt_set d (c d - 1) indeg"
  let ?ready = "if c d - 1 = 0 then ready @ [d] else ready"
  have c: "bt_get indeg d = Some (c d)" "0 < c d"
    using Cons.prems(2) by auto
  then have get: "bt_get ?indeg = (bt_get indeg)(d \<mapsto> c d - 1)"
    by (intro bt_get_set) (simp add: bt_contains_def)
  have "bt_get ?indeg x = Some (c x) \<and> 0 < c x" if "x \<in> set ds" for x
    using that Cons.prems get by auto
  from Cons.IH [of ?indeg ?ready] this Cons.prems(1) obtain indeg' where
    "release ds ?indeg ?ready = Inr (indeg', ?ready @ filter (\<lambda>d. c d = 1) ds)"
    "\<forall>x. bt_get indeg' x = (if x \<in> set ds then Some (c x - 1) else bt_get ?indeg x)"
    by auto
  with Cons.prems(1) c get show ?case
    by (auto simp: less_Suc_eq_le le_Suc_eq)
qed

text \<open>
  The interface a client provides: a duplicate-free node list and the dependency set of
  each node, inside the node set.
\<close>

locale dep_graph =
  fixes nodes :: "'n::linorder list" and deps :: "'n \<Rightarrow> 'n set"
  assumes distinct_nodes: "distinct nodes"
    and deps_nodes: "n \<in> set nodes \<Longrightarrow> deps n \<subseteq> set nodes"
begin

lemma finite_deps: "n \<in> set nodes \<Longrightarrow> finite (deps n)"
  using deps_nodes finite_subset by blast

text \<open>
  The loop invariant over the processed nodes (in order), the queue and the
  counters: a counter is the number of unprocessed dependencies, the processed and queued
  nodes are those whose counter is zero, and every node is processed after its
  dependencies.
\<close>

definition loop_inv :: "'n list \<Rightarrow> 'n list \<Rightarrow> ('n, nat) btree_map \<Rightarrow> bool" where
  "loop_inv processed ready indeg \<longleftrightarrow>
     distinct (processed @ ready)
     \<and> set (processed @ ready) = {n \<in> set nodes. deps n \<subseteq> set processed}
     \<and> (\<forall>n \<in> set nodes. bt_get indeg n = Some (card (deps n - set processed)))
     \<and> (\<forall>i < length processed. deps (processed ! i) \<subseteq> set (take i processed))"

abbreviation built :: "'n graph" where
  "built \<equiv> build_graph nodes deps empty_graph"

lemma built_dependents: "dependents_of (dependents built) x = filter (\<lambda>n. x \<in> deps n) nodes"
  by (simp add: dependents_of_build finite_deps) (simp add: empty_graph_def dependents_of_def)

lemma built_indegree: "bt_get (indegree built) n = (if n \<in> set nodes then Some (card (deps n)) else None)"
  by (simp add: indegree_build empty_graph_def)

lemma loop_inv_init: "loop_inv [] (initially_ready (indegree built)) (indegree built)"
proof -
  let ?r = "initially_ready (indegree built)"
  have "distinct ?r"
    unfolding initially_ready_def
    by (rule distinct_map_filter [OF bt.keys_distinct])
  moreover have "set ?r = {n \<in> set nodes. deps n = {}}"
    using finite_deps by (force simp: initially_ready_def built_indegree image_iff split: if_splits)
  ultimately show ?thesis
    by (auto simp: loop_inv_def built_indegree)
qed

lemma loop_inv_step:
  assumes inv: "loop_inv processed (n # ready) indeg"
  shows "\<exists>indeg' ready'. release (dependents_of (dependents built) n) indeg ready = Inr (indeg', ready')
    \<and> loop_inv (processed @ [n]) ready' indeg'"
proof -
  let ?ds = "filter (\<lambda>m. n \<in> deps m) nodes"
  let ?c = "\<lambda>m. card (deps m - set processed)"
  from inv have n: "n \<in> set nodes" "deps n \<subseteq> set processed" "n \<notin> set processed"
    and dist: "distinct (processed @ n # ready)"
    and zero: "set (processed @ n # ready) = {m \<in> set nodes. deps m \<subseteq> set processed}"
    and count: "\<And>m. m \<in> set nodes \<Longrightarrow> bt_get indeg m = Some (?c m)"
    and order: "\<And>i. i < length processed \<Longrightarrow> deps (processed ! i) \<subseteq> set (take i processed)"
    unfolding loop_inv_def by auto
  have pos: "bt_get indeg m = Some (?c m) \<and> 0 < ?c m" if "m \<in> set ?ds" for m
    using that count n(3) finite_deps by (auto simp: card_gt_0_iff)
  from release_result [of ?ds indeg ?c ready] pos distinct_nodes obtain indeg' where
    rel: "release ?ds indeg ready = Inr (indeg', ready @ filter (\<lambda>m. ?c m = 1) ?ds)" and
    get: "\<And>x. bt_get indeg' x = (if x \<in> set ?ds then Some (?c x - 1) else bt_get indeg x)"
    by (metis (no_types, lifting) distinct_filter)
  have drop: "card (deps m - set (processed @ [n])) = (if n \<in> deps m then ?c m - 1 else ?c m)"
    if "m \<in> set nodes" for m
    using that n(3) finite_deps by (auto simp: card_Diff_insert)
  have one: "?c m = 1 \<longleftrightarrow> deps m \<subseteq> set (processed @ [n]) \<and> \<not> deps m \<subseteq> set processed"
    if "m \<in> set nodes" "n \<in> deps m" for m
  proof -
    have "card (deps m - set (processed @ [n])) = 0 \<longleftrightarrow> deps m \<subseteq> set (processed @ [n])"
      using finite_deps [OF that(1)] by auto
    then show ?thesis
      using drop [OF that(1)] that n(3) pos [of m] by auto
  qed
  let ?ready = "ready @ filter (\<lambda>m. ?c m = 1) ?ds"
  have "set ((processed @ [n]) @ ?ready) = {m \<in> set nodes. deps m \<subseteq> set (processed @ [n])}"
    using zero one by auto
  moreover have "distinct ((processed @ [n]) @ ?ready)"
    using dist distinct_nodes zero one by auto
  moreover have "\<forall>m \<in> set nodes. bt_get indeg' m = Some (card (deps m - set (processed @ [n])))"
    using get drop count by auto
  moreover have "deps ((processed @ [n]) ! i) \<subseteq> set (take i (processed @ [n]))"
    if "i < length (processed @ [n])" for i
    using that order [of i] n(2) by (cases "i < length processed") (auto simp: nth_append)
  ultimately have "loop_inv (processed @ [n]) ?ready indeg'"
    unfolding loop_inv_def by blast
  with rel show ?thesis by (auto simp: built_dependents)
qed

lemma loop_inv_length: "loop_inv processed ready indeg \<Longrightarrow> length processed + length ready \<le> length nodes"
proof -
  assume inv: "loop_inv processed ready indeg"
  then have "length (processed @ ready) = card (set (processed @ ready))"
    by (metis distinct_card loop_inv_def)
  also have "\<dots> \<le> card (set nodes)"
    using inv by (intro card_mono) (auto simp: loop_inv_def)
  finally show ?thesis using distinct_nodes by (simp add: distinct_card)
qed

lemma visit_result:
  assumes "loop_inv processed ready indeg" and "length nodes \<le> usize_max"
  shows "\<exists>processed' indeg'. visit (dependents built) indeg ready (length processed) = Inr (length processed')
    \<and> loop_inv processed' [] indeg'"
  using assms(1)
proof (induction "length nodes - length processed" arbitrary: processed ready indeg)
  case 0
  then have "length ready = 0"
    using loop_inv_length [OF "0.prems"] by linarith
  then have "ready = []" by simp
  with "0.prems" show ?case by auto
next
  case (Suc k)
  show ?case
  proof (cases ready)
    case Nil
    with Suc.prems show ?thesis by auto
  next
    case (Cons n rest)
    with Suc.prems obtain indeg' ready' where
      rel: "release (dependents_of (dependents built) n) indeg rest = Inr (indeg', ready')" and
      inv: "loop_inv (processed @ [n]) ready' indeg'"
      using loop_inv_step by blast
    have "length processed \<noteq> usize_max"
      using loop_inv_length [OF Suc.prems] Cons assms(2) by simp
    moreover have "k = length nodes - length (processed @ [n])"
      using Suc.hyps(2) by simp
    then obtain processed' indeg'' where
      "visit (dependents built) indeg' ready' (length (processed @ [n])) = Inr (length processed')"
      "loop_inv processed' [] indeg''"
      using Suc.hyps(1) [OF _ inv] by blast
    ultimately show ?thesis
      using rel Cons by auto
  qed
qed

lemma all_processed_acyclic:
  assumes inv: "loop_inv processed [] indeg" and len: "length processed = length nodes"
  shows "acyclic (dep_edges (set nodes) deps)"
proof -
  have dist: "distinct processed" and sub: "set processed \<subseteq> set nodes"
    and order: "\<And>i. i < length processed \<Longrightarrow> deps (processed ! i) \<subseteq> set (take i processed)"
    using inv by (auto simp: loop_inv_def)
  have all: "set processed = set nodes"
    using sub dist distinct_nodes len
    by (metis List.finite_set card_subset_eq distinct_card)
  define pos where "pos x = (THE i. i < length processed \<and> processed ! i = x)" for x
  have pos: "pos (processed ! i) = i" if "i < length processed" for i
    unfolding pos_def using that dist
    by (intro the_equality) (auto simp: nth_eq_iff_index_eq)
  have "pos d < pos m" if "(d, m) \<in> dep_edges (set nodes) deps" for d m
  proof -
    from that all have "m \<in> set processed"
      by (auto simp: dep_edges_def)
    then obtain i where i: "i < length processed" "processed ! i = m"
      by (auto simp: in_set_conv_nth)
    with that order have "d \<in> set (take i processed)"
      by (auto simp: dep_edges_def)
    then obtain j where "j < i" "j < length processed" "processed ! j = d"
      by (auto simp: in_set_conv_nth)
    with i pos show ?thesis by auto
  qed
  then have "acyclic ((dep_edges (set nodes) deps)\<inverse>)"
    by (intro acyclicI_order [where f = pos]) auto
  then show ?thesis by simp
qed

lemma acyclic_all_processed:
  assumes inv: "loop_inv processed [] indeg" and ac: "acyclic (dep_edges (set nodes) deps)"
  shows "length processed = length nodes"
proof -
  have zero: "set processed = {m \<in> set nodes. deps m \<subseteq> set processed}"
    and dist: "distinct processed"
    using inv by (auto simp: loop_inv_def)
  have "dep_edges (set nodes) deps \<subseteq> set nodes \<times> set nodes"
    using deps_nodes by (auto simp: dep_edges_def)
  then have wf: "wf (dep_edges (set nodes) deps)"
    using ac by (meson finite_SigmaI List.finite_set finite_acyclic_wf finite_subset)
  have "set nodes \<subseteq> set processed"
  proof
    fix m
    show "m \<in> set nodes \<Longrightarrow> m \<in> set processed"
    proof (induction m rule: wf_induct_rule [OF wf])
      case (1 m)
      then have "deps m \<subseteq> set processed"
        using deps_nodes by (auto simp: dep_edges_def)
      with 1 zero show ?case by blast
    qed
  qed
  with zero have "set processed = set nodes" by blast
  with dist distinct_nodes show ?thesis by (metis distinct_card)
qed

text \<open>The loop never fails, and it visits every node exactly when there is no cycle.\<close>

lemma visited_count_acyclic:
  assumes "length nodes \<le> usize_max"
  shows "\<exists>k. visited_count built = Inr k
    \<and> (k = length nodes \<longleftrightarrow> acyclic (dep_edges (set nodes) deps))"
proof -
  from visit_result [OF loop_inv_init assms] obtain processed indeg' where
    "visited_count built = Inr (length processed)" "loop_inv processed [] indeg'"
    by (auto simp: visited_count_def)
  then show ?thesis
    using all_processed_acyclic acyclic_all_processed by blast
qed

end

end
