(* ===== verification/Policy_Types.thy ===== *)
theory Policy_Types
  imports Crypto Manifest Dependency_Graph
begin

text \<open>
  Types of \<open>crates/nix-seal-policy/src/lib.rs\<close>: the policy projections derived from a
  plan, the error type, and the string predicates of the validators. A
  \<open>PolicyError::Violation\<close> carries one constructor of \<open>violation\<close> per message of
  the source, with the identifiers the message names.
\<close>

section \<open>Projections\<close>

definition MAX_PLAN_BYTES :: nat where
  "MAX_PLAN_BYTES = 16 * 1024 * 1024"

definition TARGET_POLICY_SCHEMA :: string where
  "TARGET_POLICY_SCHEMA = ''nix-seal.target-policy.v1''"

definition SECRET_RECIPIENTS_SCHEMA :: string where
  "SECRET_RECIPIENTS_SCHEMA = ''nix-seal.secret-recipients.v1''"

definition SECRET_ARTIFACT_POLICY_SCHEMA :: string where
  "SECRET_ARTIFACT_POLICY_SCHEMA = ''nix-seal.secret-artifact-policy.v1''"

record secret_recipients_v1 =
  sr_schema :: string
  sr_plan_hash :: string
  sr_secret_id :: id
  sr_delivery :: delivery_mode
  sr_recipients :: "(id, string) btree_map"

datatype lifecycle_state = Unmanaged | Current | RotationDue | Expired

record secret_lifecycle_report =
  lr_secret_id :: id
  lr_state :: lifecycle_state
  lr_expires_at :: "string option"
  lr_rotation_due_at :: "string option"

record target_approval_policy_v1 =
  tap_threshold :: "16 word"
  tap_signers :: "(id, string) btree_map"

record target_secret_policy =
  tsp_source :: string
  tsp_source_ciphertext_hash :: string
  tsp_delivery :: delivery_mode
  tsp_phase :: activation_phase
  tsp_runtime :: runtime_settings
  tsp_approval :: target_approval_policy_v1

record target_template_policy =
  ttp_source :: string
  ttp_phase :: activation_phase
  ttp_placeholders :: "(string, template_placeholder) btree_map"
  ttp_runtime :: runtime_settings

record target_policy_v1 =
  tp_schema :: string
  tp_plan_hash :: string
  tp_target_id :: id
  tp_target_kind :: target_kind
  tp_system :: string
  tp_username :: "string option"
  tp_recipient_identity :: id
  tp_recipient :: string
  tp_service_actions :: "target_service_actions option"
  tp_secrets :: "(id, target_secret_policy) btree_map"
  tp_templates :: "(id, target_template_policy) btree_map"

record secret_artifact_policy_v1 =
  sap_schema :: string
  sap_target_id :: id
  sap_target_kind :: target_kind
  sap_system :: string
  sap_username :: "string option"
  sap_recipient_identity :: id
  sap_recipient :: string
  sap_secret_id :: id
  sap_secret :: target_secret_policy

section \<open>Errors\<close>

datatype collection =
    CIdentities | CGroups | CTargets | CSecrets | CGenerators | CTemplates
  | CApprovalPolicies | CBackends

text \<open>One datatype per group of validators; \<open>violation\<close> is their sum.\<close>

datatype identity_violation =
    IdentityPublicUnbounded
  | InvalidAgeRecipient id
  | InvalidVerificationKey id
  | ReusedVerificationKey id id
  | NamespaceClash id string string

datatype target_violation =
    TargetMissingIdentity id id
  | TargetIdentityKind id id
  | TargetDuplicateTags id
  | TargetCommandPolicy id
  | TargetPolicyMissingTarget id
  | ArtifactPolicyNotAuthorized id id

datatype secret_violation =
    SecretSourcePath id
  | SecretSourceReused id
  | SecretHashFormat id
  | SecretMissingConsumer id id
  | SecretMissingAdministrator id id
  | SecretAdministratorKinds id
  | SecretConsumerKinds id
  | SecretNoRecipients id
  | SecretMissingApprovalPolicy id id
  | SecretNoSigner id
  | SecretOverrideMissingTarget id id
  | SecretOverrideNotConsumer id id
  | RuntimeModeInvalid id string
  | RuntimeSymlinkInvalid id string
  | RepositoryOnlyConsumers id
  | RepositoryOnlyDirect id

datatype selector_violation =
    SelectorValueInvalid string
  | SelectorDuplicateIds id string
  | SelectorMissingTarget id id
  | SelectorMissingGroup id id
  | SelectorGroupMember id id
  | SelectorDuplicateKinds id
  | SelectorDuplicateValues id string
  | ConsumerNotTarget

datatype lifecycle_violation =
    TimestampInvalid string
  | LifecycleInconsistent id
  | SystemTimeRange
  | RotationIntervalRange
  | RotationDueRange

datatype template_violation =
    TemplateSourcePath id
  | TemplatePlaceholderCount id
  | TemplatePlaceholderName id string
  | TemplateMissingSecret id string id
  | TemplatePhaseMissingSecret id id
  | TemplateNoPlaceholders id
  | TemplateMixedPhases id
  | TemplateMode id
  | TemplateSymlink id
  | TemplateOutputId id
  | TemplateOutputClash id id

datatype group_violation =
    GroupTooLarge id
  | GroupMemberAmbiguous id id
  | GroupGraph graph_error
  | GroupCycle
  | MissingGroup id

datatype recipient_violation =
    RecipientMissingSecret id
  | AdministratorNotIdentity id
  | AdministratorKind id
  | DirectConsumerNotTarget id
  | DirectTargetMissingIdentity id id
  | RecipientsEmpty id

datatype approval_violation =
    MissingApprovalPolicy id
  | MissingSignerIdentity id
  | ApprovalNotSigner id
  | ApprovalThreshold
  | PolicyThreshold id
  | PolicyNonSigner id id

datatype generator_violation =
    GeneratorLimits id
  | GeneratorExecutable id
  | GeneratorNotStore id
  | GeneratorSettings id
  | GeneratorBuiltinSecrets id
  | GeneratorBuiltinPublic id
  | GeneratorBuiltinOutputs id
  | GeneratorPrompts id
  | GeneratorNoOutput id
  | GeneratorSecretOutput id id
  | GeneratorPublicOutput id id
  | GeneratorSecretDependencies id
  | GeneratorParameters id
  | GeneratorDuplicateDependencies id
  | GeneratorMissingDependency id id
  | GeneratorGraph graph_error
  | GeneratorCycle
  | GeneratorDependencyOrder id id id

datatype argon2id_violation =
    Argon2idShape id
  | Argon2idBounds id
  | Argon2idParameter string

datatype violation =
    TooManyObjects
  | IdentityV identity_violation
  | TargetV target_violation
  | SecretV secret_violation
  | SelectorV selector_violation
  | LifecycleV lifecycle_violation
  | TemplateV template_violation
  | GroupV group_violation
  | RecipientV recipient_violation
  | ApprovalV approval_violation
  | GeneratorV generator_violation
  | Argon2idV argon2id_violation

datatype policy_error =
    PolicyJson
  | PolicySchema string
  | PolicyDuplicate collection id
  | PolicyViolation violation

abbreviation violates :: "violation \<Rightarrow> policy_error + 'a" where
  "violates v \<equiv> Inl (PolicyViolation v)"

record ('ssh, 'sig) policy_env =
  pe_age :: age_api
  pe_keys :: "('ssh, 'sig) key_api"
  pe_time :: time_api
  pe_plan_jcs :: "plan \<Rightarrow> bytes option"
  pe_target_policy_jcs :: "target_policy_v1 \<Rightarrow> bytes option"
  pe_artifact_policy_jcs :: "secret_artifact_policy_v1 \<Rightarrow> bytes option"
  pe_derive_key :: "string \<Rightarrow> bytes \<Rightarrow> string"

text \<open>\<open>pe_derive_key context bytes\<close> is the hexadecimal digest of BLAKE3 in key
  derivation mode.\<close>

section \<open>String predicates\<close>

definition is_lower_hex :: "char \<Rightarrow> bool" where
  "is_lower_hex b \<longleftrightarrow> is_ascii_digit b \<or> 97 \<le> byte_value b \<and> byte_value b \<le> 102"

definition is_sha256 :: "string \<Rightarrow> bool" where
  "is_sha256 value \<longleftrightarrow> length value = 64 \<and> (\<forall>b \<in> set value. is_lower_hex b)"

definition is_private_runtime_mode :: "string \<Rightarrow> bool" where
  "is_private_runtime_mode value \<longleftrightarrow>
     length value = 4 \<and> starts_with value ''0''
     \<and> (case parse_unsigned 8 (2 ^ 32) value of
          None \<Rightarrow> False
        | Some n \<Rightarrow>
            (let mode = word_of_nat n :: 32 word
             in mode \<noteq> 0 \<and> mode \<le> 448 \<and> 6 \<le> trailing_zeros mode))"

definition is_normalized_public_path :: "string \<Rightarrow> bool" where
  "is_normalized_public_path value \<longleftrightarrow>
     \<not> (value = [] \<or> (\<exists>b \<in> set value. is_ascii_control b))
     \<and> (\<forall>(index, segment) \<in> set (enumerate 0 (split_on (CHR ''/'') value)).
          index = 0 \<and> segment = [] \<and> starts_with value ''/''
          \<or> segment \<noteq> [] \<and> segment \<noteq> ''.'' \<and> segment \<noteq> ''..'')"

definition is_placeholder_name :: "string \<Rightarrow> bool" where
  "is_placeholder_name value \<longleftrightarrow>
     value \<noteq> [] \<and> length value \<le> 128
     \<and> (case value of [] \<Rightarrow> False
        | b # _ \<Rightarrow> is_ascii_lowercase b \<or> is_ascii_digit b)
     \<and> (\<forall>b \<in> set value. is_ascii_lowercase b \<or> is_ascii_digit b \<or> b \<in> set ''_-.'')"

definition valid_repository_relative_path :: "string \<Rightarrow> bool" where
  "valid_repository_relative_path value \<longleftrightarrow>
     value \<noteq> [] \<and> \<not> starts_with value ''/''
     \<and> (\<forall>component \<in> set (split_on (CHR ''/'') value).
          component \<noteq> [] \<and> component \<noteq> ''.'' \<and> component \<noteq> ''..''
          \<and> \<not> (\<exists>b \<in> set component. is_ascii_control b))"

definition valid_store_executable :: "string \<Rightarrow> bool" where
  "valid_store_executable value \<longleftrightarrow>
     starts_with value ''/nix/store/'' \<and> \<not> str_contains value '':''
     \<and> path_is_absolute value \<and> (\<forall>c \<in> set (path_components value). root_or_normal c)"

definition is_generator_parameter_name :: "string \<Rightarrow> bool" where
  "is_generator_parameter_name value \<longleftrightarrow>
     value \<noteq> [] \<and> length value \<le> 128
     \<and> (\<forall>b \<in> set value. is_ascii_lowercase b \<or> is_ascii_digit b \<or> b \<in> set ''_-'')"

section \<open>Owner-only modes\<close>

lemma octal_digit:
  "48 \<le> byte_value c \<and> byte_value c < 48 + 8 \<longleftrightarrow> c \<in> set ''01234567''"
proof -
  have "c \<in> set ''01234567'' \<longleftrightarrow> byte_value c \<in> {48, 49, 50, 51, 52, 53, 54, 55 :: nat}"
    by (simp add: of_char_eq_iff [where ?'a = nat, symmetric] del: of_char_eq_iff)
  also have "\<dots> \<longleftrightarrow> 48 \<le> byte_value c \<and> byte_value c < 48 + 8"
    by auto
  finally show ?thesis by simp
qed

lemma octal_low_zero:
  fixes x y z :: nat
  assumes "((x * 8 + y) * 8 + z) mod 64 = 0" "y < 8" "z < 8"
  shows "y = 0 \<and> z = 0"
proof -
  have "(x * 8 + y) * 8 + z = (y * 8 + z) + x * 64" by simp
  then have "((x * 8 + y) * 8 + z) mod 64 = (y * 8 + z) mod 64" by (metis mod_mult_self1)
  with assms show ?thesis by simp
qed

lemma private_mode_iff:
  "is_private_runtime_mode v \<longleftrightarrow>
     v \<in> {''0100'', ''0200'', ''0300'', ''0400'', ''0500'', ''0600'', ''0700''}"
proof
  assume "v \<in> {''0100'', ''0200'', ''0300'', ''0400'', ''0500'', ''0600'', ''0700''}"
  moreover have "\<forall>v \<in> {''0100'', ''0200'', ''0300'', ''0400'', ''0500'', ''0600'', ''0700''}.
      is_private_runtime_mode v" by code_simp
  ultimately show "is_private_runtime_mode v" by blast
next
  assume m: "is_private_runtime_mode v"
  then have "length v = Suc (Suc (Suc (Suc 0)))" "starts_with v ''0''"
    by (simp_all add: is_private_runtime_mode_def)
  then obtain a b c where v: "v = [CHR ''0'', a, b, c]"
    by (auto simp: length_Suc_conv)
  let ?n = "((byte_value a - 48) * 8 + (byte_value b - 48)) * 8 + (byte_value c - 48)"
  obtain n where n: "parse_unsigned 8 (2 ^ 32) v = Some n"
    and z: "word_of_nat n \<noteq> (0 :: 32 word)" "6 \<le> trailing_zeros (word_of_nat n :: 32 word)"
    using m by (auto simp: is_private_runtime_mode_def Let_def split: option.splits)
  from n have d: "a \<in> set ''01234567''" "b \<in> set ''01234567''" "c \<in> set ''01234567''" and nn: "n = ?n"
    unfolding octal_digit [symmetric] by (auto simp: v parse_unsigned_def Let_def split: if_splits)
  have "\<forall>i < 6. \<not> bit (word_of_nat n :: 32 word) i"
    using z(2) by (subst (asm) le_trailing_zeros) auto
  then have "\<forall>i < 6. \<not> bit n i"
    by (auto simp: bit_of_nat_iff)
  then have "n mod 64 = 0" by (simp add: low_bits_zero)
  moreover have "n \<noteq> 0" using z(1) by (cases n) auto
  ultimately have n: "n mod 64 = 0" "n \<noteq> 0" by auto
  have lt: "byte_value b - 48 < 8" "byte_value c - 48 < 8"
    and ge: "48 \<le> byte_value b" "48 \<le> byte_value c"
    using d unfolding octal_digit [symmetric] by auto
  have "byte_value b - 48 = 0 \<and> byte_value c - 48 = 0"
    using n(1) lt unfolding nn by (rule octal_low_zero)
  then have "byte_value b = 48" "byte_value c = 48" using ge by auto
  then have bc: "b = CHR ''0''" "c = CHR ''0''"
    using of_char_eq_iff [of b "CHR ''0''", where ?'a = nat] of_char_eq_iff [of c "CHR ''0''", where ?'a = nat]
    by simp_all
  then have "a \<noteq> CHR ''0''"
    using n(2) nn by auto
  with d(1) bc v show "v \<in> {''0100'', ''0200'', ''0300'', ''0400'', ''0500'', ''0600'', ''0700''}"
    by auto
qed

end
