(* ===== verification/Plan_Merge.thy ===== *)
theory Plan_Merge
  imports Policy_Types
begin

text \<open>
  Merging plan fragments (\<open>merge\<close> and \<open>ensure_schema\<close> of
  \<open>crates/nix-seal-policy/src/lib.rs\<close>): the collections are united one by one and an
  identifier declared twice in a collection is an error.
\<close>

section \<open>The operations\<close>

definition ensure_schema :: "plan \<Rightarrow> policy_error + unit" where
  "ensure_schema p = check (schema p = PLAN_SCHEMA) (PolicySchema (schema p))"

text \<open>The macro \<open>disjoint_append!\<close>: every entry of the right collection is inserted;
  an insertion that replaces a value is an error.\<close>

definition append_entry ::
  "collection \<Rightarrow> (id, 'v) btree_map \<Rightarrow> id \<times> 'v \<Rightarrow> policy_error + (id, 'v) btree_map" where
  "append_entry name m = (\<lambda>(i, v).
     if bt_contains m i then Inl (PolicyDuplicate name i) else Inr (bt_insert i v m))"

definition disjoint_append ::
  "collection \<Rightarrow> (id, 'v) btree_map \<Rightarrow> (id, 'v) btree_map \<Rightarrow> policy_error + (id, 'v) btree_map" where
  "disjoint_append name left right =
     fold_result (append_entry name) left (items right)"

definition merge :: "plan \<Rightarrow> plan \<Rightarrow> policy_error + plan" where
  "merge left right =
     and_then (ensure_schema left) (\<lambda>_.
     and_then (ensure_schema right) (\<lambda>_.
     and_then (disjoint_append CIdentities (identities left) (identities right)) (\<lambda>is.
     and_then (disjoint_append CGroups (groups left) (groups right)) (\<lambda>gs.
     and_then (disjoint_append CTargets (targets left) (targets right)) (\<lambda>ts.
     and_then (disjoint_append CSecrets (secrets left) (secrets right)) (\<lambda>ss.
     and_then (disjoint_append CGenerators (generators left) (generators right)) (\<lambda>ges.
     and_then (disjoint_append CTemplates (templates left) (templates right)) (\<lambda>tes.
     and_then (disjoint_append CApprovalPolicies (approval_policies left) (approval_policies right)) (\<lambda>as.
     and_then (disjoint_append CBackends (backends left) (backends right)) (\<lambda>bs.
     Inr (left\<lparr>identities := is, groups := gs, targets := ts, secrets := ss, generators := ges,
       templates := tes, approval_policies := as, backends := bs\<rparr>)))))))))))"

section \<open>Union of disjoint maps\<close>

definition disjoint_maps :: "('k::linorder, 'v) btree_map \<Rightarrow> ('k, 'v) btree_map \<Rightarrow> bool" where
  "disjoint_maps l r \<longleftrightarrow> (\<forall>k. \<not> (bt_contains l k \<and> bt_contains r k))"

definition union_of :: "('k::linorder, 'v) btree_map \<Rightarrow> ('k, 'v) btree_map \<Rightarrow> ('k, 'v) btree_map \<Rightarrow> bool" where
  "union_of l r m \<longleftrightarrow> disjoint_maps l r \<and> bt_get m = bt_get l ++ bt_get r"

lemma append_entries_result:
  assumes "distinct (map fst xs)"
  shows "fold_result (append_entry name) l xs = Inr m
     \<longleftrightarrow> (\<forall>k \<in> fst ` set xs. \<not> bt_contains l k) \<and> bt_get m = bt_get l ++ map_of xs"
  using assms
proof (induction xs arbitrary: l)
  case Nil
  then show ?case by (auto simp: bt_eq_iff)
next
  case (Cons x xs)
  obtain i v where x: "x = (i, v)" by force
  with Cons.prems have i: "i \<notin> fst ` set xs" and d: "distinct (map fst xs)" by auto
  have ms: "(bt_get l)(i \<mapsto> v) ++ map_of xs = bt_get l ++ map_of (x # xs)"
    using i x by (simp add: map_add_upd_left dom_map_of_conv_image_fst)
  show ?case
  proof (cases "bt_contains l i")
    case True
    then show ?thesis using x by (auto simp: append_entry_def)
  next
    case False
    then have eq: "fold_result (append_entry name) l (x # xs)
        = fold_result (append_entry name) (bt_insert i v l) xs"
      by (simp add: append_entry_def x)
    show ?thesis
      unfolding eq Cons.IH [OF d] bt.get_ins ms using False i x by (auto simp del: map_of.simps)
  qed
qed

lemma disjoint_append_iff:
  "disjoint_append name l r = Inr m \<longleftrightarrow> union_of l r m"
proof -
  have "(\<forall>k \<in> fst ` set (items r). \<not> bt_contains l k) \<longleftrightarrow> disjoint_maps l r"
    by (auto simp: disjoint_maps_def bt_contains_iff image_iff) (metis bt_items_get fst_conv)
  with append_entries_result [OF bt.keys_distinct [of r], of name l m] show ?thesis
    by (simp add: disjoint_append_def union_of_def bt.get_entries [of r])
qed

lemma disjoint_append_error:
  assumes "disjoint_append name l r = Inl e"
  shows "\<exists>i. e = PolicyDuplicate name i \<and> bt_contains l i \<and> bt_contains r i"
proof -
  have *: "\<exists>i. e = PolicyDuplicate name i \<and> bt_contains l i \<and> i \<in> fst ` set xs"
    if "distinct (map fst xs)"
    and "fold_result (append_entry name) l xs = Inl e"
    for xs
    using that
  proof (induction xs arbitrary: l)
    case Nil
    then show ?case by simp
  next
    case (Cons x xs)
    obtain i v where x: "x = (i, v)" by force
    show ?case
    proof (cases "bt_contains l i")
      case True
      with Cons.prems x show ?thesis by (auto simp: append_entry_def)
    next
      case False
      with Cons.prems x Cons.IH [of "bt_insert i v l"] show ?thesis
        by (auto simp: append_entry_def)
    qed
  qed
  from * [OF bt.keys_distinct [of r]] assms obtain i where
    "e = PolicyDuplicate name i" "bt_contains l i" "i \<in> set (bt_keys r)"
    by (auto simp: disjoint_append_def bt_keys_def)
  then show ?thesis by auto
qed

section \<open>Merging plans\<close>

definition plan_union :: "plan \<Rightarrow> plan \<Rightarrow> plan \<Rightarrow> bool" where
  "plan_union l r m \<longleftrightarrow>
     schema l = PLAN_SCHEMA \<and> schema r = PLAN_SCHEMA \<and> schema m = PLAN_SCHEMA
     \<and> union_of (identities l) (identities r) (identities m)
     \<and> union_of (groups l) (groups r) (groups m)
     \<and> union_of (targets l) (targets r) (targets m)
     \<and> union_of (secrets l) (secrets r) (secrets m)
     \<and> union_of (generators l) (generators r) (generators m)
     \<and> union_of (templates l) (templates r) (templates m)
     \<and> union_of (approval_policies l) (approval_policies r) (approval_policies m)
     \<and> union_of (backends l) (backends r) (backends m)"

lemma ensure_schema_iff [simp]: "ensure_schema p = Inr u \<longleftrightarrow> schema p = PLAN_SCHEMA"
  by (simp add: ensure_schema_def)

lemma merge_iff: "merge l r = Inr m \<longleftrightarrow> plan_union l r m"
  by (cases l, cases m) (auto simp: merge_def plan_union_def disjoint_append_iff)

lemma union_of_commute: "union_of l r m \<Longrightarrow> union_of r l m"
  unfolding union_of_def disjoint_maps_def bt_contains_def
  by (metis (no_types, lifting) disjoint_iff domIff map_add_comm)

lemma union_of_assoc:
  "union_of a b ab \<Longrightarrow> union_of ab c m \<Longrightarrow> union_of b c bc \<Longrightarrow> union_of a bc m"
  unfolding union_of_def disjoint_maps_def bt_contains_def
  by (auto simp: map_add_def split: option.splits) (metis option.distinct(1))+

text \<open>
  C9. Merging two plan fragments succeeds exactly when both carry the plan schema and no
  collection declares an identifier in both; the result then holds exactly the entries of
  the two. Hence the order of the fragments does not matter, and a fragment can never
  replace an entry of another.
\<close>

theorem merge_is_disjoint_union:
  "(merge l r = Inr m \<longleftrightarrow> plan_union l r m) \<and> (merge l r = Inr m \<longleftrightarrow> merge r l = Inr m)"
  by (auto simp: merge_iff plan_union_def intro: union_of_commute)

end
