(* ===== verification/Group_Expansion.thy ===== *)
theory Group_Expansion
  imports Policy_Types
begin

text \<open>
  Group membership of \<open>crates/nix-seal-policy/src/lib.rs\<close>: \<open>validate_group_graph\<close>,
  \<open>expand_group_leaves\<close> and the membership search of \<open>target_is_consumer\<close>. Both
  work-list loops are total; the first computes exactly the non-group objects reachable
  through membership, the second decides reachability. The graph check accepts exactly the
  acyclic membership graphs whose members resolve uniquely.
\<close>

type_synonym group_map = "(id, group) btree_map"

section \<open>Membership\<close>

definition members_of :: "group_map \<Rightarrow> id \<Rightarrow> id list" where
  "members_of gs g = (case bt_get gs g of None \<Rightarrow> [] | Some grp \<Rightarrow> group_members grp)"

definition member_rel :: "group_map \<Rightarrow> (id \<times> id) set" where
  "member_rel gs = {(g, m). m \<in> set (members_of gs g)}"

text \<open>The objects reachable from a list of references, groups included.\<close>

definition reachable_from :: "group_map \<Rightarrow> id list \<Rightarrow> id set" where
  "reachable_from gs refs = {x. \<exists>r \<in> set refs. (r, x) \<in> (member_rel gs)\<^sup>*}"

definition group_leaves :: "group_map \<Rightarrow> id list \<Rightarrow> id set" where
  "group_leaves gs refs = {x \<in> reachable_from gs refs. \<not> bt_contains gs x}"

lemma finite_group_keys [simp]: "finite {g. bt_contains gs g}"
  by (rule finite_subset [of _ "set (bt_keys gs)"]) (auto simp: bt_keys_iff bt_contains_def)

section \<open>Expanding references to leaves\<close>

type_synonym expansion = "id set \<times> id list \<times> id set"

definition expand_step :: "group_map \<Rightarrow> id \<Rightarrow> expansion \<Rightarrow> expansion" where
  "expand_step gs m = (\<lambda>(leaves, pending, visited).
     if bt_contains gs m
     then (if m \<in> visited then (leaves, pending, visited)
           else (leaves, m # pending, insert m visited))
     else (insert m leaves, pending, visited))"

definition expansion_measure :: "group_map \<Rightarrow> id list \<Rightarrow> id set \<Rightarrow> nat" where
  "expansion_measure gs pending visited = 2 * card ({g. bt_contains gs g} - visited) + length pending"

lemma expand_step_measure:
  assumes "expand_step gs m (leaves, pending, visited) = (leaves', pending', visited')"
  shows "expansion_measure gs pending' visited' \<le> expansion_measure gs pending visited"
proof (cases "bt_contains gs m \<and> m \<notin> visited")
  case True
  let ?K = "{g. bt_contains gs g}"
  have "?K - insert m visited = ?K - visited - {m}" by auto
  moreover have "m \<in> ?K - visited" using True by simp
  ultimately have "card (?K - insert m visited) < card (?K - visited)"
    by (metis card_Diff1_less finite_Diff finite_group_keys)
  with assms True show ?thesis
    by (auto simp: expand_step_def expansion_measure_def)
next
  case False
  with assms show ?thesis
    by (auto simp: expand_step_def split: if_splits)
qed

lemma expand_fold_measure:
  "fold (expand_step gs) ms (leaves, pending, visited) = (leaves', pending', visited') \<Longrightarrow>
     expansion_measure gs pending' visited' \<le> expansion_measure gs pending visited"
proof (induction ms arbitrary: leaves pending visited)
  case Nil
  then show ?case by simp
next
  case (Cons m ms)
  obtain l p v where s: "expand_step gs m (leaves, pending, visited) = (l, p, v)"
    by (cases "expand_step gs m (leaves, pending, visited)")
  with Cons show ?case
    using expand_step_measure [OF s] by fastforce
qed

text \<open>The \<open>while let Some(group_id) = pending.pop()\<close> loop; the stack grows at the
  head of the list.\<close>

function expand_loop :: "group_map \<Rightarrow> id set \<Rightarrow> id list \<Rightarrow> id set \<Rightarrow> policy_error + id set" where
  "expand_loop gs leaves [] visited = Inr leaves"
| "expand_loop gs leaves (g # pending) visited =
     (case bt_get gs g of
        None \<Rightarrow> violates (GroupV (MissingGroup g))
      | Some grp \<Rightarrow>
          (case fold (expand_step gs) (group_members grp) (leaves, pending, visited) of
             (leaves', pending', visited') \<Rightarrow> expand_loop gs leaves' pending' visited'))"
  by pat_completeness auto
termination
proof (relation "measure (\<lambda>(gs, leaves, pending, visited). expansion_measure gs pending visited)")
  fix gs leaves g pending visited grp l' y p' v'
  assume "(l', y) = fold (expand_step gs) (group_members grp) (leaves, pending, visited)"
    "(p', v') = y"
  then have "expansion_measure gs p' v' \<le> expansion_measure gs pending visited"
    by (metis expand_fold_measure)
  then show "((gs, l', p', v'), gs, leaves, g # pending, visited)
      \<in> measure (\<lambda>(gs, leaves, pending, visited). expansion_measure gs pending visited)"
    by (simp add: expansion_measure_def)
qed simp

definition expand_group_leaves :: "plan \<Rightarrow> id list \<Rightarrow> policy_error + id set" where
  "expand_group_leaves p references =
     (case fold (expand_step (groups p)) references ({}, [], {}) of
        (leaves, pending, visited) \<Rightarrow> expand_loop (groups p) leaves pending visited)"

text \<open>
  The state after expanding a set \<open>src\<close> of identifiers: exactly the groups among them
  are visited, the others are leaves.
\<close>

lemma expand_fold_result:
  "fold (expand_step gs) ms (leaves, pending, visited) = (leaves', pending', visited') \<Longrightarrow>
     leaves' = leaves \<union> {m \<in> set ms. \<not> bt_contains gs m}
     \<and> visited' = visited \<union> {m \<in> set ms. bt_contains gs m}
     \<and> set pending' = set pending \<union> ({m \<in> set ms. bt_contains gs m} - visited)
     \<and> (distinct pending \<and> set pending \<subseteq> visited \<longrightarrow> distinct pending')"
proof (induction ms arbitrary: leaves pending visited)
  case Nil
  then show ?case by simp
next
  case (Cons m ms)
  obtain l p v where s: "expand_step gs m (leaves, pending, visited) = (l, p, v)"
    by (cases "expand_step gs m (leaves, pending, visited)")
  with Cons.prems have "fold (expand_step gs) ms (l, p, v) = (leaves', pending', visited')"
    by simp
  note IH = Cons.IH [OF this]
  consider "\<not> bt_contains gs m" "l = insert m leaves" "p = pending" "v = visited"
    | "bt_contains gs m" "m \<in> visited" "l = leaves" "p = pending" "v = visited"
    | "bt_contains gs m" "m \<notin> visited" "l = leaves" "p = m # pending" "v = insert m visited"
    using s unfolding expand_step_def by (auto split: if_splits)
  then show ?case
  proof cases
    case 1
    with IH show ?thesis by (simp add: set_eq_iff) blast
  next
    case 2
    with IH show ?thesis by (simp add: set_eq_iff) blast
  next
    case 3
    with IH show ?thesis by (simp add: set_eq_iff) blast
  qed
qed

text \<open>
  Loop invariant: the visited groups outside the stack have all their members accounted
  for, and everything found is reachable from the references.
\<close>

definition expansion_inv :: "group_map \<Rightarrow> id list \<Rightarrow> expansion \<Rightarrow> bool" where
  "expansion_inv gs refs = (\<lambda>(leaves, pending, visited).
     (let found = set refs \<union> (\<Union>g \<in> visited - set pending. set (members_of gs g)) in
      distinct pending \<and> set pending \<subseteq> visited
      \<and> leaves = {x \<in> found. \<not> bt_contains gs x}
      \<and> visited = {x \<in> found. bt_contains gs x}
      \<and> found \<subseteq> reachable_from gs refs))"

lemma expansion_inv_init:
  assumes "fold (expand_step gs) refs ({}, [], {}) = s"
  shows "expansion_inv gs refs s"
proof -
  obtain l p v where s: "s = (l, p, v)" by (cases s)
  from expand_fold_result [OF assms [unfolded s]] have
    "l = {m \<in> set refs. \<not> bt_contains gs m}" "v = {m \<in> set refs. bt_contains gs m}"
    "set p = v" "distinct p" by auto
  moreover have "set refs \<subseteq> reachable_from gs refs"
    by (auto simp: reachable_from_def)
  ultimately show ?thesis
    by (auto simp: s expansion_inv_def)
qed

lemma expansion_inv_step:
  assumes inv: "expansion_inv gs refs (leaves, g # pending, visited)"
    and grp: "bt_get gs g = Some grp"
    and step: "fold (expand_step gs) (group_members grp) (leaves, pending, visited) = s"
  shows "expansion_inv gs refs s"
proof -
  obtain l p v where s: "s = (l, p, v)" by (cases s)
  let ?ms = "set (group_members grp)"
  let ?found = "set refs \<union> (\<Union>h \<in> visited - set (g # pending). set (members_of gs h))"
  have ms: "set (members_of gs g) = ?ms"
    using grp by (simp add: members_of_def)
  from inv have dist: "distinct (g # pending)" "set (g # pending) \<subseteq> visited"
    and l0: "leaves = {x \<in> ?found. \<not> bt_contains gs x}"
    and v0: "visited = {x \<in> ?found. bt_contains gs x}"
    and reach: "?found \<subseteq> reachable_from gs refs"
    unfolding expansion_inv_def Let_def by auto
  from expand_fold_result [OF step [unfolded s]] dist have
    l: "l = leaves \<union> {m \<in> ?ms. \<not> bt_contains gs m}" and
    v: "v = visited \<union> {m \<in> ?ms. bt_contains gs m}" and
    p: "set p = set pending \<union> ({m \<in> ?ms. bt_contains gs m} - visited)" and
    dp: "distinct p" by auto
  have rest: "v - set p = insert g (visited - set (g # pending))"
    using dist v p by auto
  have "g \<in> reachable_from gs refs"
    using dist(2) v0 reach by (metis (no_types, lifting) list.set_intros(1) mem_Collect_eq subsetD)
  then have "?ms \<subseteq> reachable_from gs refs"
    using ms by (auto simp: reachable_from_def member_rel_def intro: rtrancl_into_rtrancl)
  then show ?thesis
    unfolding s expansion_inv_def Let_def prod.case rest
    using dp l0 v0 reach ms p v l dist by auto
qed

definition expansion_found :: "group_map \<Rightarrow> id list \<Rightarrow> expansion \<Rightarrow> id set" where
  "expansion_found gs refs = (\<lambda>(leaves, pending, visited).
     set refs \<union> (\<Union>g \<in> visited - set pending. set (members_of gs g)))"

lemma expansion_inv_reachable:
  assumes "expansion_inv gs refs (leaves, [], visited)"
  shows "expansion_found gs refs (leaves, [], visited) = reachable_from gs refs"
proof -
  let ?found = "set refs \<union> (\<Union>g \<in> visited. set (members_of gs g))"
  from assms have v: "visited = {x \<in> ?found. bt_contains gs x}"
    and reach: "?found \<subseteq> reachable_from gs refs"
    unfolding expansion_inv_def Let_def by auto
  have "x \<in> ?found" if "r \<in> set refs" "(r, x) \<in> (member_rel gs)\<^sup>*" for r x
    using that(2,1)
  proof (induction rule: rtrancl_induct)
    case base
    then show ?case by simp
  next
    case (step y z)
    then have m: "z \<in> set (members_of gs y)" by (simp add: member_rel_def)
    then have "bt_contains gs y"
      by (cases "bt_get gs y") (auto simp: members_of_def bt_contains_def)
    with step v have "y \<in> visited" by blast
    with m show ?case by blast
  qed
  then have "reachable_from gs refs \<subseteq> ?found"
    unfolding reachable_from_def by blast
  with reach have "?found = reachable_from gs refs" by (rule subset_antisym)
  then show ?thesis by (simp add: expansion_found_def)
qed

lemma expansion_inv_final:
  assumes "expansion_inv gs refs (leaves, [], visited)"
  shows "leaves = group_leaves gs refs"
proof -
  have "leaves = {x \<in> expansion_found gs refs (leaves, [], visited). \<not> bt_contains gs x}"
    using assms by (simp add: expansion_inv_def expansion_found_def Let_def)
  then show ?thesis
    by (simp add: expansion_inv_reachable [OF assms] group_leaves_def)
qed

lemma expand_loop_correct:
  "expansion_inv gs refs (leaves, pending, visited) \<Longrightarrow>
     expand_loop gs leaves pending visited = Inr (group_leaves gs refs)"
proof (induction gs leaves pending visited rule: expand_loop.induct)
  case (1 gs leaves visited)
  then show ?case by (simp add: expansion_inv_final)
next
  case (2 gs leaves g pending visited)
  from "2.prems" have "bt_contains gs g"
    unfolding expansion_inv_def Let_def by auto
  then obtain grp where grp: "bt_get gs g = Some grp"
    by (auto simp: bt_contains_def)
  obtain l p v where s:
    "fold (expand_step gs) (group_members grp) (leaves, pending, visited) = (l, p, v)"
    by (cases "fold (expand_step gs) (group_members grp) (leaves, pending, visited)")
  have "expansion_inv gs refs (l, p, v)"
    by (rule expansion_inv_step [OF "2.prems" grp s])
  from "2.IH" [OF grp s [symmetric] refl this] grp s show ?case by simp
qed

lemma expand_group_leaves_eq:
  "expand_group_leaves p refs = Inr (group_leaves (groups p) refs)"
proof -
  obtain l q v where s: "fold (expand_step (groups p)) refs ({}, [], {}) = (l, q, v)"
    by (cases "fold (expand_step (groups p)) refs ({}, [], {})")
  with expansion_inv_init [OF s] show ?thesis
    by (simp add: expand_group_leaves_def expand_loop_correct)
qed

section \<open>The membership search\<close>

text \<open>
  The second half of \<open>target_is_consumer\<close>: the same traversal, left with
  \<open>return true\<close> (here \<open>None\<close>) at the first occurrence of the target.
\<close>

fun scan_members :: "group_map \<Rightarrow> id \<Rightarrow> id list \<Rightarrow> id list \<times> id set \<Rightarrow> (id list \<times> id set) option" where
  "scan_members gs target_id [] (pending, visited) = Some (pending, visited)"
| "scan_members gs target_id (m # ms) (pending, visited) =
     (if m = target_id then None
      else if bt_contains gs m \<and> m \<notin> visited
      then scan_members gs target_id ms (m # pending, insert m visited)
      else scan_members gs target_id ms (pending, visited))"

lemma scan_members_fold:
  "scan_members gs t ms (pending, visited) =
     (if t \<in> set ms then None
      else Some (snd (fold (expand_step gs) ms (leaves, pending, visited))))"
  by (induction ms arbitrary: leaves pending visited) (auto simp: expand_step_def)

function search_loop :: "group_map \<Rightarrow> id \<Rightarrow> id list \<Rightarrow> id set \<Rightarrow> bool" where
  "search_loop gs target_id [] visited = False"
| "search_loop gs target_id (g # pending) visited =
     (case bt_get gs g of
        None \<Rightarrow> search_loop gs target_id pending visited
      | Some grp \<Rightarrow>
          (case scan_members gs target_id (group_members grp) (pending, visited) of
             None \<Rightarrow> True
           | Some (pending', visited') \<Rightarrow> search_loop gs target_id pending' visited'))"
  by pat_completeness auto
termination
proof (relation "measure (\<lambda>(gs, t, pending, visited). expansion_measure gs pending visited)")
  fix gs t g pending visited grp s p' v'
  assume "scan_members gs t (group_members grp) (pending, visited) = Some s" "(p', v') = s"
  then have "snd (fold (expand_step gs) (group_members grp) ({}, pending, visited)) = (p', v')"
    by (auto simp: scan_members_fold [where leaves = "{}"] split: if_splits)
  then have "expansion_measure gs p' v' \<le> expansion_measure gs pending visited"
    by (metis expand_fold_measure surjective_pairing)
  then show "((gs, t, p', v'), gs, t, g # pending, visited)
      \<in> measure (\<lambda>(gs, t, pending, visited). expansion_measure gs pending visited)"
    by (simp add: expansion_measure_def)
qed (simp_all add: expansion_measure_def)

definition membership_search :: "group_map \<Rightarrow> id list \<Rightarrow> id \<Rightarrow> bool" where
  "membership_search gs consumers target_id =
     (case scan_members gs target_id consumers ([], {}) of
        None \<Rightarrow> True
      | Some (pending, visited) \<Rightarrow> search_loop gs target_id pending visited)"

lemma expansion_found_fold:
  assumes "expansion_inv gs refs (leaves, g # pending, visited)"
    and "bt_get gs g = Some grp"
    and step: "fold (expand_step gs) (group_members grp) (leaves, pending, visited) = s"
  shows "expansion_found gs refs s =
    expansion_found gs refs (leaves, g # pending, visited) \<union> set (group_members grp)"
proof -
  obtain l p v where s: "s = (l, p, v)" by (cases s)
  from assms(1) have "distinct (g # pending)" "set (g # pending) \<subseteq> visited"
    unfolding expansion_inv_def Let_def by auto
  with expand_fold_result [OF step [unfolded s]]
  have "v - set p = insert g (visited - set (g # pending))" by auto
  then show ?thesis
    using assms(2) by (auto simp: s expansion_found_def members_of_def)
qed

lemma search_loop_correct:
  "expansion_inv gs refs (leaves, pending, visited) \<Longrightarrow>
     t \<notin> expansion_found gs refs (leaves, pending, visited) \<Longrightarrow>
     search_loop gs t pending visited \<longleftrightarrow> t \<in> reachable_from gs refs"
proof (induction gs t pending visited arbitrary: leaves rule: search_loop.induct)
  case (1 gs t visited)
  then show ?case by (simp add: expansion_inv_reachable)
next
  case (2 gs t g pending visited)
  from "2.prems" have "bt_contains gs g"
    unfolding expansion_inv_def Let_def by auto
  then obtain grp where grp: "bt_get gs g = Some grp"
    by (auto simp: bt_contains_def)
  obtain l p v where s:
    "fold (expand_step gs) (group_members grp) (leaves, pending, visited) = (l, p, v)"
    by (cases "fold (expand_step gs) (group_members grp) (leaves, pending, visited)")
  have inv: "expansion_inv gs refs (l, p, v)"
    by (rule expansion_inv_step [OF "2.prems"(1) grp s])
  have found: "expansion_found gs refs (l, p, v) =
      expansion_found gs refs (leaves, g # pending, visited) \<union> set (group_members grp)"
    by (rule expansion_found_fold [OF "2.prems"(1) grp s])
  show ?case
  proof (cases "t \<in> set (group_members grp)")
    case True
    moreover have "expansion_found gs refs (l, p, v) \<subseteq> reachable_from gs refs"
      using inv by (simp add: expansion_inv_def expansion_found_def Let_def)
    ultimately show ?thesis
      using found grp by (auto simp: scan_members_fold [where leaves = leaves])
  next
    case False
    then have sc: "scan_members gs t (group_members grp) (pending, visited) = Some (p, v)"
      by (simp add: scan_members_fold [where leaves = leaves] s)
    have "t \<notin> expansion_found gs refs (l, p, v)"
      using False found "2.prems"(2) by simp
    from "2.IH"(2) [OF grp sc refl inv this] grp sc show ?thesis by simp
  qed
qed

lemma membership_search_eq:
  "membership_search gs consumers t \<longleftrightarrow> t \<in> reachable_from gs consumers"
proof (cases "t \<in> set consumers")
  case True
  then show ?thesis
    by (auto simp: membership_search_def scan_members_fold [where leaves = "{}"] reachable_from_def)
next
  case False
  obtain l p v where s: "fold (expand_step gs) consumers ({}, [], {}) = (l, p, v)"
    by (cases "fold (expand_step gs) consumers ({}, [], {})")
  have "set p = v" using expand_fold_result [OF s] by auto
  then have "t \<notin> expansion_found gs consumers (l, p, v)"
    using False by (simp add: expansion_found_def)
  with search_loop_correct [OF expansion_inv_init [OF s]] False s show ?thesis
    by (simp add: membership_search_def scan_members_fold [where leaves = "{}"])
qed

section \<open>The group graph\<close>

definition resolutions :: "plan \<Rightarrow> id \<Rightarrow> nat" where
  "resolutions p m =
     of_bool (bt_contains (groups p) m) + of_bool (bt_contains (targets p) m)
     + of_bool (bt_contains (identities p) m)"

definition validate_group_entry :: "plan \<Rightarrow> id \<times> group \<Rightarrow> policy_error + unit" where
  "validate_group_entry p = (\<lambda>(group_id, grp).
     and_then (check (length (group_members grp) \<le> 10000) (PolicyViolation (GroupV (GroupTooLarge group_id))))
       (\<lambda>_. for_each (\<lambda>m. check (resolutions p m = 1)
               (PolicyViolation (GroupV (GroupMemberAmbiguous group_id m)))) (group_members grp)))"

definition group_dependencies :: "group_map \<Rightarrow> id \<Rightarrow> id set" where
  "group_dependencies gs group_id = {m \<in> set (members_of gs group_id). bt_contains gs m}"

definition add_group :: "plan \<Rightarrow> id graph \<Rightarrow> id \<times> group \<Rightarrow> policy_error + id graph" where
  "add_group p g = (\<lambda>(group_id, grp).
     and_then (validate_group_entry p (group_id, grp)) (\<lambda>_.
       Inr (add_node group_id {m \<in> set (group_members grp). bt_contains (groups p) m} g)))"

definition validate_group_graph :: "plan \<Rightarrow> policy_error + unit" where
  "validate_group_graph p =
     and_then (fold_result (add_group p) empty_graph (items (groups p))) (\<lambda>g.
     and_then (map_err (\<lambda>e. PolicyViolation (GroupV (GroupGraph e))) (visited_count g)) (\<lambda>visited.
     check (visited = bt_len (groups p)) (PolicyViolation (GroupV GroupCycle))))"

interpretation group_graph: dep_graph "bt_keys gs" "group_dependencies gs" for gs
  by unfold_locales (auto simp: group_dependencies_def)

lemma fold_add_group:
  assumes "set xs \<subseteq> set (items (groups p))"
  shows "fold_result (add_group p) g xs = Inr g' \<longleftrightarrow>
     (\<forall>x \<in> set xs. validate_group_entry p x = Inr ())
     \<and> g' = build_graph (map fst xs) (group_dependencies (groups p)) g"
  using assms
proof (induction xs arbitrary: g)
  case Nil
  then show ?case by auto
next
  case (Cons x xs)
  obtain i grp where x: "x = (i, grp)" by force
  with Cons.prems have "{m \<in> set (group_members grp). bt_contains (groups p) m}
      = group_dependencies (groups p) i"
    by (auto simp: group_dependencies_def members_of_def)
  with Cons x show ?case
    by (simp add: add_group_def)
qed

lemma acyclic_group_dependencies:
  "acyclic (dep_edges (set (bt_keys gs)) (group_dependencies gs)) \<longleftrightarrow> acyclic (member_rel gs)"
proof -
  let ?E = "dep_edges (set (bt_keys gs)) (group_dependencies gs)"
  have sub: "?E\<inverse> \<subseteq> member_rel gs"
    by (auto simp: dep_edges_def group_dependencies_def member_rel_def)
  have edge: "(a, b) \<in> ?E\<inverse>" if "(a, b) \<in> member_rel gs" "bt_contains gs b" for a b
  proof -
    have "bt_contains gs a"
      using that(1) by (cases "bt_get gs a") (auto simp: member_rel_def members_of_def bt_contains_def)
    with that show ?thesis
      by (auto simp: dep_edges_def group_dependencies_def member_rel_def)
  qed
  have path: "(a, b) \<in> (?E\<inverse>)\<^sup>+" if "(a, b) \<in> (member_rel gs)\<^sup>+" "bt_contains gs b" for a b
    using that
  proof (induction rule: trancl_induct)
    case (base y)
    then show ?case using edge by blast
  next
    case (step y z)
    have "bt_contains gs y"
      using step(2) by (cases "bt_get gs y") (auto simp: member_rel_def members_of_def bt_contains_def)
    with step edge show ?case by (meson trancl_into_trancl)
  qed
  have "(a, a) \<in> (?E\<inverse>)\<^sup>+" if a: "(a, a) \<in> (member_rel gs)\<^sup>+" for a
  proof -
    from a obtain b where "(a, b) \<in> member_rel gs" by (meson tranclD)
    then have "bt_contains gs a"
      by (cases "bt_get gs a") (auto simp: member_rel_def members_of_def bt_contains_def)
    with path a show ?thesis by blast
  qed
  then have "acyclic (?E\<inverse>) \<longleftrightarrow> acyclic (member_rel gs)"
    using sub by (meson acyclic_def acyclic_subset)
  then show ?thesis by simp
qed

lemma validate_group_graph_iff:
  assumes "bt_len (groups p) \<le> usize_max"
  shows "validate_group_graph p = Inr () \<longleftrightarrow>
     (\<forall>g \<in> set (items (groups p)). validate_group_entry p g = Inr ()) \<and> acyclic (member_rel (groups p))"
proof -
  let ?G = "build_graph (bt_keys (groups p)) (group_dependencies (groups p)) empty_graph"
  obtain k where k: "visited_count ?G = Inr k"
    "k = bt_len (groups p) \<longleftrightarrow> acyclic (member_rel (groups p))"
    using group_graph.visited_count_acyclic [of "groups p"] assms
    unfolding acyclic_group_dependencies by (auto simp: bt_len_keys)
  have "fold_result (add_group p) empty_graph (items (groups p)) = Inr g \<longleftrightarrow>
     (\<forall>x \<in> set (items (groups p)). validate_group_entry p x = Inr ()) \<and> g = ?G" for g
    using fold_add_group [OF order_refl] by (simp add: bt_keys_def)
  with k show ?thesis
    by (auto simp: validate_group_graph_def)
qed

end
