(* ===== verification/Target_Selection.thy ===== *)
theory Target_Selection
  imports Group_Expansion
begin

text \<open>
  Which targets consume a secret: \<open>selected_consumer_targets\<close> and
  \<open>target_is_consumer\<close> of \<open>crates/nix-seal-policy/src/lib.rs\<close>. A secret lists
  consumers (targets or groups) and selectors; \<open>authorized_targets\<close> is the set the two
  functions are meant to compute.
\<close>

section \<open>The operations\<close>

definition optional_match :: "string list \<Rightarrow> string option \<Rightarrow> bool" where
  "optional_match allowed value \<longleftrightarrow>
     allowed = [] \<or> (case value of None \<Rightarrow> False | Some v \<Rightarrow> v \<in> set allowed)"

definition target_matches :: "target_selectors \<Rightarrow> target \<Rightarrow> bool" where
  "target_matches sel t \<longleftrightarrow>
     (sel_kinds sel = [] \<or> target_kind t \<in> set (sel_kinds sel))
     \<and> (sel_systems sel = [] \<or> target_system t \<in> set (sel_systems sel))
     \<and> optional_match (sel_usernames sel) (target_username t)
     \<and> optional_match (sel_configurations sel) (target_configuration t)
     \<and> optional_match (sel_environments sel) (target_environment t)
     \<and> (\<forall>tag \<in> set (sel_tags sel). tag \<in> set (target_tags t))"

definition base_candidates :: "plan \<Rightarrow> target_selectors \<Rightarrow> id set" where
  "base_candidates p sel =
     (if sel_targets sel \<noteq> [] \<or> sel_groups sel \<noteq> []
      then set (sel_targets sel) else set (bt_keys (targets p)))"

definition extend_candidates :: "plan \<Rightarrow> id set \<Rightarrow> id \<Rightarrow> policy_error + id set" where
  "extend_candidates p candidates g =
     and_then (expand_group_leaves p [g]) (\<lambda>leaves. Inr (candidates \<union> leaves))"

definition retains :: "plan \<Rightarrow> target_selectors \<Rightarrow> id \<Rightarrow> bool" where
  "retains p sel target_id =
     (case bt_get (targets p) target_id of None \<Rightarrow> False | Some t \<Rightarrow> target_matches sel t)"

definition selected_consumer_targets :: "plan \<Rightarrow> secret \<Rightarrow> policy_error + id set" where
  "selected_consumer_targets p secret =
     and_then (expand_group_leaves p (secret_consumers secret)) (\<lambda>selected.
     let sel = secret_selectors secret in
     if sel = default_selectors then Inr selected
     else
       and_then (fold_result (extend_candidates p) (base_candidates p sel) (sel_groups sel)) (\<lambda>candidates.
       let selected' = selected \<union> {target_id \<in> candidates. retains p sel target_id} in
       if \<exists>target_id \<in> selected'. \<not> bt_contains (targets p) target_id
       then violates (SelectorV ConsumerNotTarget)
       else Inr selected'))"

definition target_is_consumer :: "plan \<Rightarrow> secret \<Rightarrow> id \<Rightarrow> bool" where
  "target_is_consumer p secret target_id =
     (if (case selected_consumer_targets p secret of
            Inl _ \<Rightarrow> False | Inr selected \<Rightarrow> target_id \<in> selected)
      then True
      else membership_search (groups p) (secret_consumers secret) target_id)"

section \<open>What they compute\<close>

definition selector_targets :: "plan \<Rightarrow> target_selectors \<Rightarrow> id set" where
  "selector_targets p sel =
     {t. (if sel_targets sel = [] \<and> sel_groups sel = [] then True
          else t \<in> set (sel_targets sel) \<or> t \<in> group_leaves (groups p) (sel_groups sel))
       \<and> retains p sel t}"

definition authorized_targets :: "plan \<Rightarrow> secret \<Rightarrow> id set" where
  "authorized_targets p secret =
     group_leaves (groups p) (secret_consumers secret)
     \<union> (if secret_selectors secret = default_selectors then {}
        else selector_targets p (secret_selectors secret))"

lemma group_leaves_Nil [simp]: "group_leaves gs [] = {}"
  by (simp add: group_leaves_def reachable_from_def)

lemma group_leaves_Cons: "group_leaves gs (g # refs) = group_leaves gs [g] \<union> group_leaves gs refs"
  by (auto simp: group_leaves_def reachable_from_def)

lemma fold_extend_candidates:
  "fold_result (extend_candidates p) c gs = Inr (c \<union> group_leaves (groups p) gs)"
proof (induction gs arbitrary: c)
  case Nil
  then show ?case by simp
next
  case (Cons g gs)
  then show ?case
    by (simp add: extend_candidates_def expand_group_leaves_eq group_leaves_Cons [of _ g gs] Un_assoc)
qed

lemma retains_target: "retains p sel t \<Longrightarrow> bt_contains (targets p) t"
  by (auto simp: retains_def bt_contains_def split: option.splits)

lemma retained_candidates:
  "{t \<in> base_candidates p sel \<union> group_leaves (groups p) (sel_groups sel). retains p sel t}
     = selector_targets p sel"
  by (auto simp: selector_targets_def base_candidates_def intro: retains_target)

lemma selected_consumer_targets_eq:
  "selected_consumer_targets p secret =
     (if secret_selectors secret \<noteq> default_selectors
         \<and> (\<exists>t \<in> group_leaves (groups p) (secret_consumers secret). \<not> bt_contains (targets p) t)
      then violates (SelectorV ConsumerNotTarget)
      else Inr (authorized_targets p secret))"
proof -
  have "\<forall>t \<in> selector_targets p (secret_selectors secret). bt_contains (targets p) t"
    by (auto simp: selector_targets_def intro: retains_target)
  then show ?thesis
    unfolding selected_consumer_targets_def expand_group_leaves_eq and_then.simps Let_def
      fold_extend_candidates retained_candidates authorized_targets_def
    by auto
qed

lemma selected_consumer_targets_result:
  "selected_consumer_targets p secret = Inr ts \<Longrightarrow> ts = authorized_targets p secret"
  by (auto simp: selected_consumer_targets_eq split: if_splits)

lemma target_is_consumer_iff:
  assumes "\<not> bt_contains (groups p) t" and "selected_consumer_targets p secret = Inr ts"
  shows "target_is_consumer p secret t \<longleftrightarrow> t \<in> authorized_targets p secret"
  using assms selected_consumer_targets_result [OF assms(2)]
  by (auto simp: target_is_consumer_def membership_search_eq authorized_targets_def group_leaves_def)

lemma selector_targets_are_targets:
  "t \<in> selector_targets p sel \<Longrightarrow> bt_contains (targets p) t"
  by (auto simp: selector_targets_def intro: retains_target)

end
