(* ===== verification/Generator_Graph.thy ===== *)
theory Generator_Graph
  imports Policy_Types
begin

text \<open>
  Generators (\<open>validate_generator_graph\<close> and its helpers in
  \<open>crates/nix-seal-policy/src/lib.rs\<close>): constrained execution settings, prompts,
  secret and public outputs with a single producer each, and an acyclic dependency
  graph in which a generator that reads a generated secret depends on its producer.
\<close>

section \<open>Execution settings\<close>

definition argon2id_parameter :: "generator \<Rightarrow> string \<Rightarrow> 32 word \<Rightarrow> policy_error + 32 word" where
  "argon2id_parameter g name fallback =
     (case bt_get (gen_parameters g) name of
        None \<Rightarrow> Inr fallback
      | Some value \<Rightarrow>
          (case parse_unsigned 10 (2 ^ 32) value of
             None \<Rightarrow> violates (Argon2idV (Argon2idParameter name))
           | Some n \<Rightarrow> Inr (word_of_nat n)))"

definition validate_argon2id_password_hash_generator :: "id \<Rightarrow> generator \<Rightarrow> policy_error + unit" where
  "validate_argon2id_password_hash_generator generator_id g =
     (if length (gen_outputs g) \<noteq> 1
         \<or> length (gen_prompts g) \<noteq> 1
         \<or> prompt_mode (gen_prompts g ! 0) \<noteq> Hidden
         \<or> prompt_multiline (gen_prompts g ! 0)
         \<or> (\<exists>key \<in> set (bt_keys (gen_parameters g)).
              key \<notin> {''memory-kib'', ''iterations'', ''output-length''})
      then violates (Argon2idV (Argon2idShape generator_id))
      else
        and_then (argon2id_parameter g ''memory-kib'' 65536) (\<lambda>memory_kib.
        and_then (argon2id_parameter g ''iterations'' 3) (\<lambda>iterations.
        and_then (argon2id_parameter g ''output-length'' 32) (\<lambda>output_length.
        check (19456 \<le> memory_kib \<and> memory_kib \<le> 524288
            \<and> 2 \<le> iterations \<and> iterations \<le> 10
            \<and> 16 \<le> output_length \<and> output_length \<le> 64)
          (PolicyViolation (Argon2idV (Argon2idBounds generator_id)))))))"

definition is_builtin :: "string \<Rightarrow> bool" where
  "is_builtin executable \<longleftrightarrow> executable \<in>
     {''builtin:random'', ''builtin:hex'', ''builtin:base64'', ''builtin:token'',
      ''builtin:passphrase'', ''builtin:argon2id-password-hash'', ''builtin:ssh-ed25519'',
      ''builtin:wireguard-private-key'', ''builtin:uuid''}"

definition derives_public_key :: "string \<Rightarrow> bool" where
  "derives_public_key executable \<longleftrightarrow>
     executable \<in> {''builtin:ssh-ed25519'', ''builtin:wireguard-private-key''}"

definition has_ascii_control :: "string \<Rightarrow> bool" where
  "has_ascii_control s \<longleftrightarrow> (\<exists>b \<in> set s. is_ascii_control b)"

definition execution_settings_invalid :: "generator \<Rightarrow> bool" where
  "execution_settings_invalid g \<longleftrightarrow>
     256 < length (gen_arguments g)
     \<or> (\<exists>a \<in> set (gen_arguments g). 16 * 1024 < length a \<or> has_ascii_control a)
     \<or> 128 < length (gen_runtime_inputs g)
     \<or> (\<exists>i \<in> set (gen_runtime_inputs g). \<not> valid_store_executable i)
     \<or> \<not> (1 \<le> gen_timeout_seconds g \<and> gen_timeout_seconds g \<le> 300)
     \<or> gen_max_output_bytes g = 0
     \<or> DEFAULT_GENERATOR_MAX_OUTPUT_BYTES < gen_max_output_bytes g
     \<or> is_builtin (gen_executable g)
       \<and> (gen_arguments g \<noteq> [] \<or> gen_runtime_inputs g \<noteq> []
          \<or> gen_timeout_seconds g \<noteq> DEFAULT_GENERATOR_TIMEOUT_SECONDS
          \<or> gen_max_output_bytes g \<noteq> DEFAULT_GENERATOR_MAX_OUTPUT_BYTES)"

definition validate_generator_execution :: "id \<Rightarrow> generator \<Rightarrow> policy_error + unit" where
  "validate_generator_execution generator_id g =
     (let builtin = is_builtin (gen_executable g);
          derived_public_output = derives_public_key (gen_executable g)
            \<and> length (gen_outputs g) = 1 \<and> length (gen_public_outputs g) \<le> 1 in
      if gen_executable g = [] \<or> 16 * 1024 < length (gen_executable g)
         \<or> has_ascii_control (gen_executable g)
      then violates (GeneratorV (GeneratorExecutable generator_id))
      else if \<not> builtin \<and> \<not> valid_store_executable (gen_executable g)
      then violates (GeneratorV (GeneratorNotStore generator_id))
      else if execution_settings_invalid g
      then violates (GeneratorV (GeneratorSettings generator_id))
      else
        and_then (if gen_executable g = ''builtin:argon2id-password-hash''
                  then validate_argon2id_password_hash_generator generator_id g else Inr ()) (\<lambda>_.
        if builtin \<and> gen_secret_dependencies g \<noteq> []
        then violates (GeneratorV (GeneratorBuiltinSecrets generator_id))
        else if builtin \<and> gen_public_outputs g \<noteq> [] \<and> \<not> derived_public_output
        then violates (GeneratorV (GeneratorBuiltinPublic generator_id))
        else if derives_public_key (gen_executable g)
          \<and> (length (gen_outputs g) \<noteq> 1 \<or> 1 < length (gen_public_outputs g))
        then violates (GeneratorV (GeneratorBuiltinOutputs generator_id))
        else Inr ()))"

section \<open>Prompts, outputs and secret dependencies\<close>

record generated =
  generated_outputs :: "id set"
  generated_public_output_ids :: "id set"
  public_destinations :: "string set"
  output_producers :: "(id, id) btree_map"
  generator_prompts :: "id set"

definition nothing_generated :: generated where
  "nothing_generated = \<lparr>generated_outputs = {}, generated_public_output_ids = {},
     public_destinations = {}, output_producers = bt_empty, generator_prompts = {}\<rparr>"

text \<open>The \<open>any\<close> over the prompts stops at the first bad one; \<open>None\<close> is
  \<open>true\<close>, otherwise the known prompts have grown.\<close>

fun scan_prompts :: "generator_prompt list \<Rightarrow> id set \<Rightarrow> id set option" where
  "scan_prompts [] known = Some known"
| "scan_prompts (prompt # ps) known =
     (if prompt_message prompt = [] \<or> 4096 < length (prompt_message prompt)
         \<or> CHR 0x00 \<in> set (prompt_message prompt) \<or> prompt_id prompt \<in> known
      then None else scan_prompts ps (insert (prompt_id prompt) known))"

definition validate_generator_prompts ::
  "id \<Rightarrow> generator \<Rightarrow> generated \<Rightarrow> policy_error + generated" where
  "validate_generator_prompts generator_id g st =
     (if 64 < length (gen_prompts g) then violates (GeneratorV (GeneratorPrompts generator_id))
      else case scan_prompts (gen_prompts g) (generator_prompts st) of
        None \<Rightarrow> violates (GeneratorV (GeneratorPrompts generator_id))
      | Some known \<Rightarrow> Inr (st\<lparr>generator_prompts := known\<rparr>))"

definition add_secret_output :: "plan \<Rightarrow> id \<Rightarrow> generated \<Rightarrow> id \<Rightarrow> policy_error + generated" where
  "add_secret_output p generator_id st output =
     (if \<not> bt_contains (secrets p) output
         \<or> output \<in> generated_public_output_ids st
         \<or> output \<in> generated_outputs st
      then violates (GeneratorV (GeneratorSecretOutput generator_id output))
      else Inr (st\<lparr>generated_outputs := insert output (generated_outputs st),
             output_producers := bt_insert output generator_id (output_producers st)\<rparr>))"

definition add_public_output ::
  "string set \<Rightarrow> id \<Rightarrow> generated \<Rightarrow> generator_public_output \<Rightarrow> policy_error + generated" where
  "add_public_output secret_sources generator_id st output =
     (if pub_id output \<in> generated_public_output_ids st
         \<or> pub_id output \<in> generated_outputs st
         \<or> \<not> valid_repository_relative_path (pub_destination output)
         \<or> pub_destination output \<in> public_destinations st
         \<or> pub_destination output \<in> secret_sources
      then violates (GeneratorV (GeneratorPublicOutput generator_id (pub_id output)))
      else Inr (st\<lparr>
        generated_public_output_ids := insert (pub_id output) (generated_public_output_ids st),
        public_destinations := insert (pub_destination output) (public_destinations st)\<rparr>))"

definition validate_generator_outputs ::
  "plan \<Rightarrow> id \<Rightarrow> generator \<Rightarrow> string set \<Rightarrow> generated \<Rightarrow> policy_error + generated" where
  "validate_generator_outputs p generator_id g secret_sources st =
     and_then (fold_result (add_secret_output p generator_id) st (gen_outputs g)) (\<lambda>st'.
     fold_result (add_public_output secret_sources generator_id) st' (gen_public_outputs g))"

definition validate_generator_secret_dependencies ::
  "plan \<Rightarrow> id \<Rightarrow> generator \<Rightarrow> policy_error + unit" where
  "validate_generator_secret_dependencies p generator_id g =
     check (\<not> (card (set (gen_secret_dependencies g)) \<noteq> length (gen_secret_dependencies g)
            \<or> (\<exists>s \<in> set (gen_secret_dependencies g). \<not> bt_contains (secrets p) s)
            \<or> (\<exists>s \<in> set (gen_secret_dependencies g). s \<in> set (gen_outputs g))))
       (PolicyViolation (GeneratorV (GeneratorSecretDependencies generator_id)))"

definition validate_generated_secret_dependency_order ::
  "plan \<Rightarrow> (id, id) btree_map \<Rightarrow> policy_error + unit" where
  "validate_generated_secret_dependency_order p producers =
     for_each (\<lambda>(generator_id, g). for_each (\<lambda>secret_id.
       case bt_get producers secret_id of
         None \<Rightarrow> Inr ()
       | Some producer \<Rightarrow> check (producer \<in> set (gen_dependencies g))
           (PolicyViolation (GeneratorV (GeneratorDependencyOrder generator_id producer secret_id))))
       (gen_secret_dependencies g)) (items (generators p))"

section \<open>The graph\<close>

definition parameters_invalid :: "generator \<Rightarrow> bool" where
  "parameters_invalid g \<longleftrightarrow>
     128 < bt_len (gen_parameters g)
     \<or> (\<exists>(key, value) \<in> set (items (gen_parameters g)).
          \<not> is_generator_parameter_name key \<or> 4096 < length value \<or> has_ascii_control value)
     \<or> (case gen_validation g of None \<Rightarrow> False
        | Some value \<Rightarrow> value = [] \<or> 4096 < length value \<or> has_ascii_control value)"

definition validate_generator_dependencies ::
  "plan \<Rightarrow> id \<Rightarrow> generator \<Rightarrow> policy_error + unit" where
  "validate_generator_dependencies p generator_id g =
     and_then (check (\<not> parameters_invalid g)
       (PolicyViolation (GeneratorV (GeneratorParameters generator_id)))) (\<lambda>_.
     and_then (check (card (set (gen_dependencies g)) = length (gen_dependencies g))
       (PolicyViolation (GeneratorV (GeneratorDuplicateDependencies generator_id)))) (\<lambda>_.
     for_each (\<lambda>d. check (bt_contains (generators p) d)
       (PolicyViolation (GeneratorV (GeneratorMissingDependency generator_id d))))
       (sorted_list_of_set (set (gen_dependencies g)))))"

definition secret_sources :: "plan \<Rightarrow> string set" where
  "secret_sources p = secret_source ` set (bt_values (secrets p))"

definition add_generator ::
  "plan \<Rightarrow> id graph \<times> generated \<Rightarrow> id \<times> generator \<Rightarrow> policy_error + id graph \<times> generated" where
  "add_generator p = (\<lambda>(graph, st) (generator_id, g).
     and_then (check (\<not> (10000 < length (gen_dependencies g) \<or> 10000 < length (gen_secret_dependencies g)
        \<or> 10000 < length (gen_outputs g) \<or> 10000 < length (gen_public_outputs g)))
        (PolicyViolation (GeneratorV (GeneratorLimits generator_id)))) (\<lambda>_.
     and_then (validate_generator_execution generator_id g) (\<lambda>_.
     and_then (validate_generator_prompts generator_id g st) (\<lambda>st1.
     and_then (check (\<not> (gen_outputs g = [] \<and> gen_public_outputs g = []))
       (PolicyViolation (GeneratorV (GeneratorNoOutput generator_id)))) (\<lambda>_.
     and_then (validate_generator_outputs p generator_id g (secret_sources p) st1) (\<lambda>st2.
     and_then (validate_generator_secret_dependencies p generator_id g) (\<lambda>_.
     and_then (validate_generator_dependencies p generator_id g) (\<lambda>_.
     Inr (add_node generator_id (set (gen_dependencies g)) graph, st2)))))))))"

definition validate_generator_graph :: "plan \<Rightarrow> policy_error + unit" where
  "validate_generator_graph p =
     and_then (fold_result (add_generator p) (empty_graph, nothing_generated) (items (generators p)))
       (\<lambda>(graph, st).
     and_then (map_err (\<lambda>e. PolicyViolation (GeneratorV (GeneratorGraph e))) (visited_count graph)) (\<lambda>visited.
     if visited \<noteq> bt_len (generators p) then violates (GeneratorV GeneratorCycle)
     else validate_generated_secret_dependency_order p (output_producers st)))"

section \<open>Characterisation\<close>

text \<open>The checks that look at one generator only.\<close>

definition prompt_well_formed :: "generator_prompt \<Rightarrow> bool" where
  "prompt_well_formed q \<longleftrightarrow> prompt_message q \<noteq> [] \<and> length (prompt_message q) \<le> 4096
     \<and> CHR 0x00 \<notin> set (prompt_message q)"

definition generator_well_formed :: "plan \<Rightarrow> id \<Rightarrow> generator \<Rightarrow> bool" where
  "generator_well_formed p i g \<longleftrightarrow>
     length (gen_dependencies g) \<le> 10000 \<and> length (gen_secret_dependencies g) \<le> 10000
     \<and> length (gen_outputs g) \<le> 10000 \<and> length (gen_public_outputs g) \<le> 10000
     \<and> validate_generator_execution i g = Inr ()
     \<and> length (gen_prompts g) \<le> 64 \<and> (\<forall>q \<in> set (gen_prompts g). prompt_well_formed q)
     \<and> (gen_outputs g \<noteq> [] \<or> gen_public_outputs g \<noteq> [])
     \<and> (\<forall>s \<in> set (gen_outputs g). bt_contains (secrets p) s)
     \<and> (\<forall>o1 \<in> set (gen_public_outputs g). valid_repository_relative_path (pub_destination o1)
          \<and> pub_destination o1 \<notin> secret_sources p)
     \<and> validate_generator_secret_dependencies p i g = Inr ()
     \<and> validate_generator_dependencies p i g = Inr ()"

text \<open>The identifiers a list of generators declares, in order.\<close>

definition all_outputs :: "(id \<times> generator) list \<Rightarrow> id list" where
  "all_outputs gs = concat (map (gen_outputs \<circ> snd) gs)"

definition all_public_outputs :: "(id \<times> generator) list \<Rightarrow> generator_public_output list" where
  "all_public_outputs gs = concat (map (gen_public_outputs \<circ> snd) gs)"

definition all_prompts :: "(id \<times> generator) list \<Rightarrow> id list" where
  "all_prompts gs = concat (map (map prompt_id \<circ> gen_prompts \<circ> snd) gs)"

lemma all_simps [simp]:
  "all_outputs [] = []" "all_outputs ((i, g) # gs) = gen_outputs g @ all_outputs gs"
  "all_public_outputs [] = []"
  "all_public_outputs ((i, g) # gs) = gen_public_outputs g @ all_public_outputs gs"
  "all_prompts [] = []" "all_prompts ((i, g) # gs) = map prompt_id (gen_prompts g) @ all_prompts gs"
  by (simp_all add: all_outputs_def all_public_outputs_def all_prompts_def)

text \<open>New declarations against what earlier generators declared.\<close>

definition fresh_in :: "generated \<Rightarrow> id list \<Rightarrow> generator_public_output list \<Rightarrow> id list \<Rightarrow> bool" where
  "fresh_in st outs pubs prompts \<longleftrightarrow>
     distinct outs \<and> set outs \<inter> generated_outputs st = {}
     \<and> set outs \<inter> generated_public_output_ids st = {}
     \<and> distinct (map pub_id pubs) \<and> pub_id ` set pubs \<inter> generated_public_output_ids st = {}
     \<and> pub_id ` set pubs \<inter> (generated_outputs st \<union> set outs) = {}
     \<and> distinct (map pub_destination pubs)
     \<and> pub_destination ` set pubs \<inter> public_destinations st = {}
     \<and> distinct prompts \<and> set prompts \<inter> generator_prompts st = {}"

definition record_generator :: "id \<times> generator \<Rightarrow> generated \<Rightarrow> generated" where
  "record_generator = (\<lambda>(i, g) st. st\<lparr>
     generator_prompts := generator_prompts st \<union> prompt_id ` set (gen_prompts g),
     generated_outputs := generated_outputs st \<union> set (gen_outputs g),
     output_producers := fold (\<lambda>out. bt_insert out i) (gen_outputs g) (output_producers st),
     generated_public_output_ids := generated_public_output_ids st \<union> pub_id ` set (gen_public_outputs g),
     public_destinations := public_destinations st \<union> pub_destination ` set (gen_public_outputs g)\<rparr>)"

lemma scan_prompts_eq:
  "scan_prompts ps known =
     (if (\<forall>q \<in> set ps. prompt_well_formed q) \<and> distinct (map prompt_id ps)
         \<and> prompt_id ` set ps \<inter> known = {}
      then Some (known \<union> prompt_id ` set ps) else None)"
  by (induction ps arbitrary: known) (auto simp: prompt_well_formed_def)

lemma fold_secret_outputs:
  "fold_result (add_secret_output p i) st outs = Inr st' \<longleftrightarrow>
     (\<forall>s \<in> set outs. bt_contains (secrets p) s) \<and> distinct outs
     \<and> set outs \<inter> generated_outputs st = {} \<and> set outs \<inter> generated_public_output_ids st = {}
     \<and> st' = st\<lparr>generated_outputs := generated_outputs st \<union> set outs,
         output_producers := fold (\<lambda>out. bt_insert out i) outs (output_producers st)\<rparr>"
  by (induction outs arbitrary: st) (auto simp: add_secret_output_def)

lemma add_public_output_iff:
  "add_public_output sources i st q = Inr st' \<longleftrightarrow>
     valid_repository_relative_path (pub_destination q) \<and> pub_destination q \<notin> sources
     \<and> pub_id q \<notin> generated_public_output_ids st \<and> pub_id q \<notin> generated_outputs st
     \<and> pub_destination q \<notin> public_destinations st
     \<and> st' = st\<lparr>generated_public_output_ids := insert (pub_id q) (generated_public_output_ids st),
         public_destinations := insert (pub_destination q) (public_destinations st)\<rparr>"
  by (auto simp: add_public_output_def)

lemma fold_public_outputs:
  "fold_result (add_public_output sources i) st pubs = Inr st' \<longleftrightarrow>
     (\<forall>q \<in> set pubs. valid_repository_relative_path (pub_destination q)
        \<and> pub_destination q \<notin> sources)
     \<and> distinct (map pub_id pubs) \<and> pub_id ` set pubs \<inter> generated_public_output_ids st = {}
     \<and> pub_id ` set pubs \<inter> generated_outputs st = {}
     \<and> distinct (map pub_destination pubs)
     \<and> pub_destination ` set pubs \<inter> public_destinations st = {}
     \<and> st' = st\<lparr>
         generated_public_output_ids := generated_public_output_ids st \<union> pub_id ` set pubs,
         public_destinations := public_destinations st \<union> pub_destination ` set pubs\<rparr>"
proof (induction pubs arbitrary: st)
  case Nil
  then show ?case by auto
next
  case (Cons q pubs)
  show ?case
    by (auto simp: add_public_output_iff Cons.IH)
qed

lemma add_generator_iff:
  "add_generator p (graph, st) (i, g) = Inr s' \<longleftrightarrow>
     generator_well_formed p i g
     \<and> fresh_in st (gen_outputs g) (gen_public_outputs g) (map prompt_id (gen_prompts g))
     \<and> s' = (add_node i (set (gen_dependencies g)) graph, record_generator (i, g) st)"
proof -
  have prompts: "validate_generator_prompts i g st = Inr st1 \<longleftrightarrow>
      length (gen_prompts g) \<le> 64 \<and> (\<forall>q \<in> set (gen_prompts g). prompt_well_formed q)
      \<and> distinct (map prompt_id (gen_prompts g))
      \<and> prompt_id ` set (gen_prompts g) \<inter> generator_prompts st = {}
      \<and> st1 = st\<lparr>generator_prompts := generator_prompts st \<union> prompt_id ` set (gen_prompts g)\<rparr>"
    for st1
    by (auto simp: validate_generator_prompts_def scan_prompts_eq)
  have outputs: "validate_generator_outputs p i g (secret_sources p) st1 = Inr st2 \<longleftrightarrow>
      (\<forall>s \<in> set (gen_outputs g). bt_contains (secrets p) s)
      \<and> (\<forall>q \<in> set (gen_public_outputs g). valid_repository_relative_path (pub_destination q)
           \<and> pub_destination q \<notin> secret_sources p)
      \<and> fresh_in (st1\<lparr>generator_prompts := {}\<rparr>) (gen_outputs g) (gen_public_outputs g) []
      \<and> st2 = st1\<lparr>generated_outputs := generated_outputs st1 \<union> set (gen_outputs g),
          output_producers := fold (\<lambda>out. bt_insert out i) (gen_outputs g) (output_producers st1),
          generated_public_output_ids := generated_public_output_ids st1 \<union> pub_id ` set (gen_public_outputs g),
          public_destinations := public_destinations st1 \<union> pub_destination ` set (gen_public_outputs g)\<rparr>"
    for st1 st2
    unfolding validate_generator_outputs_def and_then_eq_Inr fold_secret_outputs fold_public_outputs fresh_in_def
    by simp argo
  show ?thesis
    unfolding add_generator_def
    by (simp add: prompts outputs generator_well_formed_def fresh_in_def record_generator_def
        linorder_not_less) argo
qed

lemma disjoint_declarations:
  "(A \<union> B) \<inter> O1 = {} \<and> (A \<union> B) \<inter> P = {} \<and> (X \<union> Y) \<inter> P = {} \<and> (X \<union> Y) \<inter> (O1 \<union> (A \<union> B)) = {}
     \<and> A \<inter> B = {} \<and> X \<inter> Y = {} \<longleftrightarrow>
   (A \<inter> O1 = {} \<and> A \<inter> P = {} \<and> X \<inter> P = {} \<and> X \<inter> (O1 \<union> A) = {})
     \<and> (B \<inter> (O1 \<union> A) = {} \<and> B \<inter> (P \<union> X) = {} \<and> Y \<inter> (P \<union> X) = {} \<and> Y \<inter> (O1 \<union> A \<union> B) = {})"
  unfolding Int_Un_distrib Int_Un_distrib2 Un_empty
    Int_commute [of B A] Int_commute [of X A] Int_commute [of X B] Int_commute [of Y A]
    Int_commute [of Y B] Int_commute [of Y X]
  by iprover

lemma record_generator_sel:
  "generated_outputs (record_generator (i, g) st) = generated_outputs st \<union> set (gen_outputs g)"
  "generated_public_output_ids (record_generator (i, g) st) =
     generated_public_output_ids st \<union> pub_id ` set (gen_public_outputs g)"
  "public_destinations (record_generator (i, g) st) =
     public_destinations st \<union> pub_destination ` set (gen_public_outputs g)"
  "output_producers (record_generator (i, g) st) =
     fold (\<lambda>out. bt_insert out i) (gen_outputs g) (output_producers st)"
  "generator_prompts (record_generator (i, g) st) =
     generator_prompts st \<union> prompt_id ` set (gen_prompts g)"
  by (simp_all add: record_generator_def)

lemma disjoint_append_lists:
  "distinct (xs @ ys) \<and> set (xs @ ys) \<inter> S = {} \<longleftrightarrow>
     (distinct xs \<and> set xs \<inter> S = {}) \<and> distinct ys \<and> set ys \<inter> (S \<union> set xs) = {}"
  by auto

lemma fresh_in_append:
  "fresh_in st (gen_outputs g @ outs) (gen_public_outputs g @ pubs) (map prompt_id (gen_prompts g) @ prompts)
   \<longleftrightarrow> fresh_in st (gen_outputs g) (gen_public_outputs g) (map prompt_id (gen_prompts g))
     \<and> fresh_in (record_generator (i, g) st) outs pubs prompts"
proof -
  let ?A = "set (gen_outputs g)" and ?X = "pub_id ` set (gen_public_outputs g)"
  note ids = disjoint_declarations [of ?A "set outs" "generated_outputs st"
      "generated_public_output_ids st" ?X "pub_id ` set pubs"]
  note dests = disjoint_append_lists [of "map pub_destination (gen_public_outputs g)"
      "map pub_destination pubs" "public_destinations st"]
  note prompts = disjoint_append_lists [of "map prompt_id (gen_prompts g)" prompts "generator_prompts st"]
  show ?thesis
    unfolding fresh_in_def record_generator_sel
    using ids dests prompts
    by (simp only: set_append set_map image_Un map_append distinct_append) argo
qed

definition generator_dependencies :: "plan \<Rightarrow> id \<Rightarrow> id set" where
  "generator_dependencies p i =
     (case bt_get (generators p) i of None \<Rightarrow> {} | Some g \<Rightarrow> set (gen_dependencies g) \<inter> set (bt_keys (generators p)))"

lemma well_formed_dependencies:
  "generator_well_formed p i g \<Longrightarrow> set (gen_dependencies g) \<subseteq> set (bt_keys (generators p))"
  by (auto simp: generator_well_formed_def validate_generator_dependencies_def)

lemma fold_add_generator:
  assumes "set xs \<subseteq> set (items (generators p))"
  shows "fold_result (add_generator p) (graph, st) xs = Inr s' \<longleftrightarrow>
     (\<forall>(i, g) \<in> set xs. generator_well_formed p i g)
     \<and> fresh_in st (all_outputs xs) (all_public_outputs xs) (all_prompts xs)
     \<and> s' = (build_graph (map fst xs) (generator_dependencies p) graph, fold record_generator xs st)"
  using assms
proof (induction xs arbitrary: graph st)
  case Nil
  then show ?case by (auto simp: fresh_in_def)
next
  case (Cons x xs)
  obtain i g where x: "x = (i, g)" by force
  from Cons.prems x have get: "bt_get (generators p) i = Some g" by auto
  have deps: "generator_dependencies p i = set (gen_dependencies g)" if "generator_well_formed p i g"
    using well_formed_dependencies [OF that] get by (auto simp: generator_dependencies_def)
  from Cons.prems have "set xs \<subseteq> set (items (generators p))" by simp
  note IH = Cons.IH [OF this]
  show ?case
    by (auto simp: x add_generator_iff IH fresh_in_append [where i = i] deps)
qed

interpretation generator_graph: dep_graph "bt_keys (generators p)" "generator_dependencies p" for p
  by unfold_locales (auto simp: generator_dependencies_def split: option.splits)

text \<open>The generator that declares a secret output.\<close>

definition produces :: "plan \<Rightarrow> id \<Rightarrow> id \<Rightarrow> bool" where
  "produces p i s \<longleftrightarrow> (\<exists>g. bt_get (generators p) i = Some g \<and> s \<in> set (gen_outputs g))"

lemma fold_insert_outputs:
  "bt_get (fold (\<lambda>out. bt_insert out i) outs m) s = (if s \<in> set outs then Some i else bt_get m s)"
  by (induction outs arbitrary: m) auto

lemma output_producers_fold:
  assumes "distinct (all_outputs xs)" and "set (all_outputs xs) \<inter> dom (bt_get (output_producers st)) = {}"
  shows "bt_get (output_producers (fold record_generator xs st)) s = Some i \<longleftrightarrow>
     bt_get (output_producers st) s = Some i \<or> (\<exists>g. (i, g) \<in> set xs \<and> s \<in> set (gen_outputs g))"
  using assms
proof (induction xs arbitrary: st)
  case Nil
  then show ?case by simp
next
  case (Cons x xs)
  obtain j g where x: "x = (j, g)" by force
  let ?st = "record_generator (j, g) st"
  have get: "bt_get (output_producers ?st) t =
      (if t \<in> set (gen_outputs g) then Some j else bt_get (output_producers st) t)" for t
    by (simp add: record_generator_def fold_insert_outputs)
  have "set (all_outputs xs) \<inter> dom (bt_get (output_producers ?st)) = {}"
    using Cons.prems x by (auto simp: get dom_def split: if_splits)
  with Cons.IH [of ?st] Cons.prems(1) x have
    "bt_get (output_producers (fold record_generator (x # xs) st)) s = Some i \<longleftrightarrow>
      bt_get (output_producers ?st) s = Some i \<or> (\<exists>g. (i, g) \<in> set xs \<and> s \<in> set (gen_outputs g))"
    by simp
  also have "\<dots> \<longleftrightarrow> bt_get (output_producers st) s = Some i
      \<or> (\<exists>g. (i, g) \<in> set (x # xs) \<and> s \<in> set (gen_outputs g))"
    using Cons.prems(2) x by (auto simp: get)
  finally show ?case .
qed

definition generator_rel :: "plan \<Rightarrow> (id \<times> id) set" where
  "generator_rel p = {(d, i). \<exists>g. bt_get (generators p) i = Some g \<and> d \<in> set (gen_dependencies g)}"

text \<open>A generator that reads a generated secret lists the producer as a dependency.\<close>

definition producers_listed :: "plan \<Rightarrow> bool" where
  "producers_listed p \<longleftrightarrow> (\<forall>i g s j. bt_get (generators p) i = Some g \<longrightarrow>
     s \<in> set (gen_secret_dependencies g) \<longrightarrow> produces p j s \<longrightarrow> j \<in> set (gen_dependencies g))"

definition single_producers :: "plan \<Rightarrow> bool" where
  "single_producers p \<longleftrightarrow>
     (let gs = items (generators p) in
      distinct (all_outputs gs) \<and> distinct (map pub_id (all_public_outputs gs))
      \<and> set (all_outputs gs) \<inter> pub_id ` set (all_public_outputs gs) = {}
      \<and> distinct (map pub_destination (all_public_outputs gs)) \<and> distinct (all_prompts gs))"

lemma single_producers_fresh:
  "single_producers p \<longleftrightarrow> fresh_in nothing_generated (all_outputs (items (generators p)))
     (all_public_outputs (items (generators p))) (all_prompts (items (generators p)))"
  by (auto simp: single_producers_def fresh_in_def nothing_generated_def Let_def)

lemma dependency_order_iff:
  assumes "single_producers p"
  shows "validate_generated_secret_dependency_order p
       (output_producers (fold record_generator (items (generators p)) nothing_generated)) = Inr ()
     \<longleftrightarrow> producers_listed p"
proof -
  let ?m = "output_producers (fold record_generator (items (generators p)) nothing_generated)"
  have m: "bt_get ?m s = Some j \<longleftrightarrow> produces p j s" for s j
    using output_producers_fold [of "items (generators p)" nothing_generated s j] assms
    by (auto simp: single_producers_def Let_def nothing_generated_def produces_def dom_def)
  have "(case bt_get ?m s of None \<Rightarrow> Inr () | Some producer \<Rightarrow> check (producer \<in> D) (e producer)) = Inr ()
      \<longleftrightarrow> (\<forall>j. produces p j s \<longrightarrow> j \<in> D)" for s D and e :: "id \<Rightarrow> policy_error"
    by (cases "bt_get ?m s") (auto simp flip: m)
  then show ?thesis
    by (auto simp: validate_generated_secret_dependency_order_def producers_listed_def bt_ball_items)
qed

lemma validate_generator_graph_iff:
  assumes "bt_len (generators p) \<le> usize_max"
  shows "validate_generator_graph p = Inr () \<longleftrightarrow>
     (\<forall>i g. bt_get (generators p) i = Some g \<longrightarrow> generator_well_formed p i g)
     \<and> single_producers p \<and> acyclic (generator_rel p) \<and> producers_listed p"
proof (cases "(\<forall>(i, g) \<in> set (items (generators p)). generator_well_formed p i g) \<and> single_producers p")
  case True
  let ?gs = "items (generators p)"
  let ?G = "build_graph (bt_keys (generators p)) (generator_dependencies p) empty_graph"
  have "fold_result (add_generator p) (empty_graph, nothing_generated) ?gs =
      Inr (?G, fold record_generator ?gs nothing_generated)"
    using True fold_add_generator [OF order_refl] by (simp add: bt_keys_def single_producers_fresh)
  moreover obtain k where k: "visited_count ?G = Inr k"
    "k = bt_len (generators p) \<longleftrightarrow> acyclic (dep_edges (set (bt_keys (generators p))) (generator_dependencies p))"
    using generator_graph.visited_count_acyclic [of p] assms by (auto simp: bt_len_keys)
  moreover have "dep_edges (set (bt_keys (generators p))) (generator_dependencies p) = generator_rel p"
    using True well_formed_dependencies
    by (fastforce simp: dep_edges_def generator_dependencies_def generator_rel_def bt_contains_iff
        split: option.splits)
  ultimately show ?thesis
    using True dependency_order_iff [of p] by (auto simp: validate_generator_graph_def)
next
  case False
  then have "fold_result (add_generator p) (empty_graph, nothing_generated) (items (generators p)) \<noteq> Inr s" for s
    using fold_add_generator [OF order_refl] single_producers_fresh by blast
  then have "validate_generator_graph p \<noteq> Inr ()"
    by (auto simp: validate_generator_graph_def)
  with False show ?thesis by auto
qed

end
