(* ===== verification/Plan_Validation.thy ===== *)
theory Plan_Validation
  imports Plan_Merge Target_Selection Generator_Graph
begin

text \<open>
  \<open>validate\<close> of \<open>crates/nix-seal-policy/src/lib.rs\<close> and the validators it calls, in
  the order of the source: object counts, the authorization namespace, identities and their
  keys, targets, secrets, templates and approval policies. The lemmas read off what a plan
  that validates satisfies.
\<close>

section \<open>Namespace and identities\<close>

definition first_common :: "id set \<Rightarrow> id set \<Rightarrow> id option" where
  "first_common a b = (if a \<inter> b = {} then None else Some (Min (a \<inter> b)))"

definition validate_authorization_namespace :: "plan \<Rightarrow> policy_error + unit" where
  "validate_authorization_namespace p =
     (let is = set (bt_keys (identities p)); gs = set (bt_keys (groups p)); ts = set (bt_keys (targets p)) in
      for_each (\<lambda>(left_name, left, right_name, right).
        case first_common left right of
          None \<Rightarrow> Inr ()
        | Some i \<Rightarrow> violates (IdentityV (NamespaceClash i left_name right_name)))
        [(''identity'', is, ''group'', gs), (''identity'', is, ''target'', ts), (''group'', gs, ''target'', ts)])"

definition is_encryption_kind :: "identity_kind \<Rightarrow> bool" where
  "is_encryption_kind k \<longleftrightarrow> k \<in> {Administrator, TargetIdentity, Recovery, Plugin}"

definition is_signing_kind :: "identity_kind \<Rightarrow> bool" where
  "is_signing_kind k \<longleftrightarrow> k \<in> {Signer, Authorizer}"

definition is_administrator_kind :: "identity_kind \<Rightarrow> bool" where
  "is_administrator_kind k \<longleftrightarrow> k \<in> {Administrator, Recovery}"

definition validate_identity ::
  "('ssh, 'sig) policy_env \<Rightarrow> id \<times> identity \<Rightarrow> policy_error + unit" where
  "validate_identity env = (\<lambda>(i, identity).
     if is_encryption_kind (identity_kind identity)
        \<and> \<not> is_ok (normalize_recipient (pe_age env) (identity_public identity))
     then violates (IdentityV (InvalidAgeRecipient i))
     else if is_signing_kind (identity_kind identity)
        \<and> \<not> is_ok (validate_public_key (pe_keys env) (identity_public identity))
     then violates (IdentityV (InvalidVerificationKey i))
     else Inr ())"

definition add_signer_key ::
  "('ssh, 'sig) policy_env \<Rightarrow> (string, id) btree_map \<Rightarrow> id \<times> identity
    \<Rightarrow> policy_error + (string, id) btree_map" where
  "add_signer_key env signer_keys = (\<lambda>(i, identity).
     if is_signing_kind (identity_kind identity)
     then
       and_then (map_err (\<lambda>_. PolicyViolation (IdentityV (InvalidVerificationKey i)))
         (public_key_id (pe_keys env) (identity_public identity))) (\<lambda>key_id.
       case bt_get signer_keys key_id of
         Some previous \<Rightarrow> violates (IdentityV (ReusedVerificationKey previous i))
       | None \<Rightarrow> Inr (bt_insert key_id i signer_keys))
     else Inr signer_keys)"

section \<open>Targets\<close>

definition validate_bounded_selector_values :: "string \<Rightarrow> string list \<Rightarrow> policy_error + unit" where
  "validate_bounded_selector_values label values =
     for_each (\<lambda>value. check (\<not> (value = [] \<or> 256 < length value \<or> has_ascii_control value))
       (PolicyViolation (SelectorV (SelectorValueInvalid label)))) values"

definition list_of_option :: "'a option \<Rightarrow> 'a list" where
  "list_of_option v = (case v of None \<Rightarrow> [] | Some x \<Rightarrow> [x])"

definition command_policy_invalid :: "target_service_actions \<Rightarrow> bool" where
  "command_policy_invalid actions \<longleftrightarrow>
     \<not> path_is_absolute (actions_executable actions)
     \<or> (\<exists>c \<in> set (path_components (actions_executable actions)). \<not> root_or_normal c)
     \<or> has_ascii_control (actions_executable actions)
     \<or> 16 * 1024 < length (actions_executable actions)
     \<or> \<not> (1 \<le> actions_timeout_seconds actions \<and> actions_timeout_seconds actions \<le> 60)"

definition validate_target :: "id \<Rightarrow> target \<Rightarrow> policy_error + unit" where
  "validate_target i t =
     and_then (validate_bounded_selector_values (''target '' @ as_str i)
       (target_system t # list_of_option (target_username t)
         @ list_of_option (target_configuration t) @ list_of_option (target_environment t))) (\<lambda>_.
     and_then (validate_bounded_selector_values (''target '' @ as_str i @ '' tags'') (target_tags t)) (\<lambda>_.
     and_then (check (card (set (target_tags t)) = length (target_tags t))
       (PolicyViolation (TargetV (TargetDuplicateTags i)))) (\<lambda>_.
     case target_service_actions t of
       None \<Rightarrow> Inr ()
     | Some actions \<Rightarrow> check (\<not> command_policy_invalid actions)
         (PolicyViolation (TargetV (TargetCommandPolicy i))))))"

definition validate_target_entry :: "plan \<Rightarrow> id \<times> target \<Rightarrow> policy_error + unit" where
  "validate_target_entry p = (\<lambda>(i, t).
     and_then (validate_target i t) (\<lambda>_.
     and_then (ok_or (bt_get (identities p) (target_identity t))
       (PolicyViolation (TargetV (TargetMissingIdentity i (target_identity t))))) (\<lambda>identity.
     check (identity_kind identity = TargetIdentity)
       (PolicyViolation (TargetV (TargetIdentityKind i (target_identity t)))))))"

definition validate_target_selectors :: "plan \<Rightarrow> id \<Rightarrow> secret \<Rightarrow> policy_error + unit" where
  "validate_target_selectors p i secret =
     (let sel = secret_selectors secret in
      and_then (for_each (\<lambda>(label, values).
          check (\<not> (10000 < length values \<or> card (set values) \<noteq> length values))
            (PolicyViolation (SelectorV (SelectorDuplicateIds i label))))
        [(''targets'', sel_targets sel), (''groups'', sel_groups sel)]) (\<lambda>_.
      and_then (for_each (\<lambda>t. check (bt_contains (targets p) t)
          (PolicyViolation (SelectorV (SelectorMissingTarget i t)))) (sel_targets sel)) (\<lambda>_.
      and_then (for_each (\<lambda>g.
          and_then (check (bt_contains (groups p) g)
            (PolicyViolation (SelectorV (SelectorMissingGroup i g)))) (\<lambda>_.
          and_then (expand_group_leaves p [g]) (\<lambda>leaves.
          check (\<not> (\<exists>m \<in> leaves. \<not> bt_contains (targets p) m))
            (PolicyViolation (SelectorV (SelectorGroupMember i g)))))) (sel_groups sel)) (\<lambda>_.
      and_then (check (card (set (sel_kinds sel)) = length (sel_kinds sel))
          (PolicyViolation (SelectorV (SelectorDuplicateKinds i)))) (\<lambda>_.
      and_then (validate_bounded_selector_values (''secret '' @ as_str i @ '' selectors'')
          (sel_systems sel @ sel_usernames sel @ sel_configurations sel
            @ sel_environments sel @ sel_tags sel)) (\<lambda>_.
      for_each (\<lambda>(label, values). check (card (set values) = length values)
            (PolicyViolation (SelectorV (SelectorDuplicateValues i label))))
        [(''systems'', sel_systems sel), (''usernames'', sel_usernames sel),
         (''configurations'', sel_configurations sel), (''environments'', sel_environments sel),
         (''tags'', sel_tags sel)]))))))"

section \<open>Secrets\<close>

definition validate_runtime_settings :: "id \<Rightarrow> string \<Rightarrow> runtime_settings \<Rightarrow> policy_error + unit" where
  "validate_runtime_settings i label runtime =
     and_then (check (is_private_runtime_mode (rt_mode runtime))
       (PolicyViolation (SecretV (RuntimeModeInvalid i label)))) (\<lambda>_.
     case rt_compatibility_symlink runtime of
       None \<Rightarrow> Inr ()
     | Some path \<Rightarrow> check (valid_compatibility_symlink path)
         (PolicyViolation (SecretV (RuntimeSymlinkInvalid i label))))"

definition validate_repository_only_secret :: "id \<Rightarrow> secret \<Rightarrow> policy_error + unit" where
  "validate_repository_only_secret i secret =
     and_then (check (\<not> (secret_repository_only secret
         \<and> (secret_consumers secret \<noteq> [] \<or> secret_selectors secret \<noteq> default_selectors)))
       (PolicyViolation (SecretV (RepositoryOnlyConsumers i)))) (\<lambda>_.
     check (\<not> (secret_repository_only secret \<and> secret_delivery secret = Direct))
       (PolicyViolation (SecretV (RepositoryOnlyDirect i))))"

definition parse_timestamp :: "time_api \<Rightarrow> string \<Rightarrow> string \<Rightarrow> policy_error + int" where
  "parse_timestamp api label value =
     ok_or (ts_parse api value) (PolicyViolation (LifecycleV (TimestampInvalid label)))"

text \<open>\<open>opt.map(f).transpose()?\<close>\<close>

definition transpose_option :: "('a \<Rightarrow> 'e + 'b) \<Rightarrow> 'a option \<Rightarrow> 'e + 'b option" where
  "transpose_option f v = (case v of None \<Rightarrow> Inr None | Some x \<Rightarrow> and_then (f x) (\<lambda>y. Inr (Some y)))"

definition is_before :: "('a::linorder) option \<Rightarrow> 'a option \<Rightarrow> bool" where
  "is_before a b = (case (a, b) of (Some x, Some y) \<Rightarrow> x < y | _ \<Rightarrow> False)"

definition is_not_after :: "('a::linorder) option \<Rightarrow> 'a option \<Rightarrow> bool" where
  "is_not_after a b = (case (a, b) of (Some x, Some y) \<Rightarrow> x \<le> y | _ \<Rightarrow> False)"

definition validate_lifecycle :: "time_api \<Rightarrow> id \<Rightarrow> lifecycle \<Rightarrow> policy_error + unit" where
  "validate_lifecycle api i lc =
     and_then (transpose_option (parse_timestamp api (''secret '' @ as_str i @ '' createdAt'')) (lc_created_at lc)) (\<lambda>created.
     and_then (transpose_option (parse_timestamp api (''secret '' @ as_str i @ '' rotatedAt'')) (lc_rotated_at lc)) (\<lambda>rotated.
     and_then (transpose_option (parse_timestamp api (''secret '' @ as_str i @ '' expiresAt'')) (lc_expires_at lc)) (\<lambda>expires.
     check (\<not> (is_before rotated created \<or> is_not_after expires created
         \<or> lc_rotate_after_days lc = Some 0
         \<or> lc_rotate_after_days lc \<noteq> None \<and> rotated = None \<and> created = None))
       (PolicyViolation (LifecycleV (LifecycleInconsistent i))))))"

definition default_administrator_exists :: "plan \<Rightarrow> bool" where
  "default_administrator_exists p \<longleftrightarrow>
     (\<exists>identity \<in> set (bt_values (identities p)). is_administrator_kind (identity_kind identity))"

definition is_administrator :: "plan \<Rightarrow> id \<Rightarrow> bool" where
  "is_administrator p i =
     (case bt_get (identities p) i of
        None \<Rightarrow> False | Some identity \<Rightarrow> is_administrator_kind (identity_kind identity))"

definition has_default_signer :: "plan \<Rightarrow> bool" where
  "has_default_signer p \<longleftrightarrow>
     (\<exists>identity \<in> set (bt_values (identities p)). identity_kind identity = Signer)"

definition validate_secret_references :: "plan \<Rightarrow> id \<Rightarrow> secret \<Rightarrow> policy_error + unit" where
  "validate_secret_references p i secret =
     and_then (for_each (\<lambda>c. check (bt_contains (targets p) c \<or> bt_contains (groups p) c)
       (PolicyViolation (SecretV (SecretMissingConsumer i c)))) (secret_consumers secret)) (\<lambda>_.
     and_then (for_each (\<lambda>a. check (bt_contains (identities p) a \<or> bt_contains (groups p) a)
       (PolicyViolation (SecretV (SecretMissingAdministrator i a)))) (secret_administrators secret)) (\<lambda>_.
     and_then (validate_target_selectors p i secret) (\<lambda>_.
     validate_repository_only_secret i secret)))"

definition validate_secret_recipients :: "plan \<Rightarrow> id \<Rightarrow> secret \<Rightarrow> policy_error + unit" where
  "validate_secret_recipients p i secret =
     and_then (expand_group_leaves p (secret_administrators secret)) (\<lambda>administrator_leaves.
     and_then (check (\<not> (\<exists>a \<in> administrator_leaves. \<not> is_administrator p a))
       (PolicyViolation (SecretV (SecretAdministratorKinds i)))) (\<lambda>_.
     and_then (selected_consumer_targets p secret) (\<lambda>consumer_leaves.
     and_then (check (\<not> (\<exists>t \<in> consumer_leaves. \<not> bt_contains (targets p) t))
       (PolicyViolation (SecretV (SecretConsumerKinds i)))) (\<lambda>_.
     let has_administrator = administrator_leaves \<noteq> {}
           \<or> secret_administrators secret = [] \<and> default_administrator_exists p in
     check (\<not> (secret_delivery secret = Rekeyed \<and> \<not> has_administrator
         \<or> secret_delivery secret = Direct \<and> \<not> has_administrator \<and> consumer_leaves = {}))
       (PolicyViolation (SecretV (SecretNoRecipients i)))))))"

definition validate_secret_approval :: "plan \<Rightarrow> id \<Rightarrow> secret \<Rightarrow> policy_error + unit" where
  "validate_secret_approval p i secret =
     (case secret_approval_policy secret of
        Some policy \<Rightarrow> check (bt_contains (approval_policies p) policy)
          (PolicyViolation (SecretV (SecretMissingApprovalPolicy i policy)))
      | None \<Rightarrow> check (has_default_signer p) (PolicyViolation (SecretV (SecretNoSigner i))))"

definition validate_runtime_override :: "plan \<Rightarrow> id \<Rightarrow> secret \<Rightarrow> id \<times> runtime_settings \<Rightarrow> policy_error + unit" where
  "validate_runtime_override p i secret = (\<lambda>(target_id, runtime).
     and_then (check (bt_contains (targets p) target_id)
       (PolicyViolation (SecretV (SecretOverrideMissingTarget i target_id)))) (\<lambda>_.
     and_then (check (target_is_consumer p secret target_id)
       (PolicyViolation (SecretV (SecretOverrideNotConsumer i target_id)))) (\<lambda>_.
     validate_runtime_settings i ''runtime override'' runtime)))"

definition validate_secret ::
  "time_api \<Rightarrow> plan \<Rightarrow> string set \<Rightarrow> id \<times> secret \<Rightarrow> policy_error + string set" where
  "validate_secret api p sources = (\<lambda>(i, secret).
     and_then (check (valid_repository_relative_path (secret_source secret))
       (PolicyViolation (SecretV (SecretSourcePath i)))) (\<lambda>_.
     and_then (check (secret_source secret \<notin> sources)
       (PolicyViolation (SecretV (SecretSourceReused i)))) (\<lambda>_.
     and_then (check (is_sha256 (secret_source_ciphertext_hash secret))
       (PolicyViolation (SecretV (SecretHashFormat i)))) (\<lambda>_.
     and_then (validate_secret_references p i secret) (\<lambda>_.
     and_then (validate_secret_recipients p i secret) (\<lambda>_.
     and_then (validate_secret_approval p i secret) (\<lambda>_.
     and_then (validate_runtime_settings i ''runtime'' (secret_runtime secret)) (\<lambda>_.
     and_then (for_each (validate_runtime_override p i secret) (items (secret_runtime_overrides secret))) (\<lambda>_.
     and_then (validate_lifecycle api i (secret_lifecycle secret)) (\<lambda>_.
     Inr (insert (secret_source secret) sources)))))))))))"

definition validate_secrets :: "time_api \<Rightarrow> plan \<Rightarrow> policy_error + unit" where
  "validate_secrets api p =
     and_then (fold_result (validate_secret api p) {} (items (secrets p))) (\<lambda>_. Inr ())"

section \<open>Templates and approval policies\<close>

definition placeholder_phase :: "plan \<Rightarrow> id \<Rightarrow> template_placeholder \<Rightarrow> policy_error + activation_phase" where
  "placeholder_phase p i ph =
     and_then (ok_or (bt_get (secrets p) (ph_secret ph))
       (PolicyViolation (TemplateV (TemplatePhaseMissingSecret i (ph_secret ph))))) (\<lambda>secret.
     Inr (secret_phase secret))"

definition template_phase :: "plan \<Rightarrow> id \<Rightarrow> template \<Rightarrow> policy_error + activation_phase" where
  "template_phase p i t =
     (case bt_values (template_placeholders t) of
        [] \<Rightarrow> violates (TemplateV (TemplateNoPlaceholders i))
      | first # rest \<Rightarrow>
          and_then (placeholder_phase p i first) (\<lambda>phase.
          and_then (for_each (\<lambda>ph. and_then (placeholder_phase p i ph) (\<lambda>candidate.
            check (candidate = phase) (PolicyViolation (TemplateV (TemplateMixedPhases i))))) rest) (\<lambda>_.
          Inr phase)))"

definition validate_template :: "plan \<Rightarrow> id \<times> template \<Rightarrow> policy_error + unit" where
  "validate_template p = (\<lambda>(i, t).
     and_then (check (is_normalized_public_path (template_source t))
       (PolicyViolation (TemplateV (TemplateSourcePath i)))) (\<lambda>_.
     and_then (check (\<not> (bt_len (template_placeholders t) = 0 \<or> 256 < bt_len (template_placeholders t)))
       (PolicyViolation (TemplateV (TemplatePlaceholderCount i)))) (\<lambda>_.
     and_then (for_each (\<lambda>(name, ph).
         and_then (check (is_placeholder_name name)
           (PolicyViolation (TemplateV (TemplatePlaceholderName i name)))) (\<lambda>_.
         check (bt_contains (secrets p) (ph_secret ph))
           (PolicyViolation (TemplateV (TemplateMissingSecret i name (ph_secret ph))))))
       (items (template_placeholders t))) (\<lambda>_.
     and_then (template_phase p i t) (\<lambda>_.
     and_then (check (is_private_runtime_mode (rt_mode (template_runtime t)))
       (PolicyViolation (TemplateV (TemplateMode i)))) (\<lambda>_.
     and_then (check (rt_compatibility_symlink (template_runtime t) = None)
       (PolicyViolation (TemplateV (TemplateSymlink i)))) (\<lambda>_.
     and_then (map_err (\<lambda>_. PolicyViolation (TemplateV (TemplateOutputId i)))
       (Id_parse (''templates/'' @ as_str i))) (\<lambda>output_id.
     check (\<not> bt_contains (secrets p) output_id)
       (PolicyViolation (TemplateV (TemplateOutputClash i output_id)))))))))))"

definition validate_templates :: "plan \<Rightarrow> policy_error + unit" where
  "validate_templates p = for_each (validate_template p) (items (templates p))"

definition validate_approval :: "plan \<Rightarrow> id \<times> approval_policy \<Rightarrow> policy_error + unit" where
  "validate_approval p = (\<lambda>(i, policy).
     and_then (check (\<not> (approval_threshold policy = 0
         \<or> card (set (approval_signers policy)) < unat (approval_threshold policy)))
       (PolicyViolation (ApprovalV (PolicyThreshold i)))) (\<lambda>_.
     for_each (\<lambda>signer. check
         (case bt_get (identities p) signer of None \<Rightarrow> False | Some identity \<Rightarrow> identity_kind identity = Signer)
         (PolicyViolation (ApprovalV (PolicyNonSigner i signer))))
       (sorted_list_of_set (set (approval_signers policy)))))"

section \<open>Validation\<close>

definition object_counts :: "plan \<Rightarrow> nat list" where
  "object_counts p = [bt_len (identities p), bt_len (groups p), bt_len (targets p), bt_len (secrets p),
     bt_len (generators p), bt_len (templates p), bt_len (approval_policies p), bt_len (backends p)]"

definition validate :: "('ssh, 'sig) policy_env \<Rightarrow> plan \<Rightarrow> policy_error + unit" where
  "validate env p =
     and_then (ensure_schema p) (\<lambda>_.
     and_then (check (\<not> (\<exists>count \<in> set (object_counts p). 10000 < count))
       (PolicyViolation TooManyObjects)) (\<lambda>_.
     and_then (validate_authorization_namespace p) (\<lambda>_.
     and_then (validate_group_graph p) (\<lambda>_.
     and_then (check (\<not> (\<exists>identity \<in> set (bt_values (identities p)).
         identity_public identity = [] \<or> 16 * 1024 < length (identity_public identity)))
       (PolicyViolation (IdentityV IdentityPublicUnbounded))) (\<lambda>_.
     and_then (for_each (validate_identity env) (items (identities p))) (\<lambda>_.
     and_then (fold_result (add_signer_key env) bt_empty (items (identities p))) (\<lambda>_.
     and_then (for_each (validate_target_entry p) (items (targets p))) (\<lambda>_.
     and_then (validate_secrets (pe_time env) p) (\<lambda>_.
     and_then (validate_templates p) (\<lambda>_.
     and_then (for_each (validate_approval p) (items (approval_policies p))) (\<lambda>_.
     validate_generator_graph p)))))))))))"

section \<open>What a validated plan satisfies\<close>

lemma first_common_None [simp]: "first_common a b = None \<longleftrightarrow> a \<inter> b = {}"
  by (simp add: first_common_def)

lemma namespace_iff:
  "validate_authorization_namespace p = Inr () \<longleftrightarrow>
     set (bt_keys (identities p)) \<inter> set (bt_keys (groups p)) = {}
     \<and> set (bt_keys (identities p)) \<inter> set (bt_keys (targets p)) = {}
     \<and> set (bt_keys (groups p)) \<inter> set (bt_keys (targets p)) = {}"
  by (auto simp: validate_authorization_namespace_def Let_def split: option.splits) (auto simp: first_common_def split: if_splits)

lemma fold_validate_secret:
  "fold_result (validate_secret api p) sources xs = Inr sources' \<Longrightarrow>
     (\<forall>x \<in> set xs. \<exists>s s'. validate_secret api p s x = Inr s')
     \<and> distinct (map (secret_source \<circ> snd) xs)
     \<and> (secret_source \<circ> snd) ` set xs \<inter> sources = {}"
proof (induction xs arbitrary: sources)
  case Nil
  then show ?case by simp
next
  case (Cons x xs)
  obtain i s where x: "x = (i, s)" by force
  from Cons.prems obtain s1 where s1: "validate_secret api p sources x = Inr s1"
    "fold_result (validate_secret api p) s1 xs = Inr sources'" by auto
  then have "s1 = insert (secret_source s) sources" "secret_source s \<notin> sources"
    by (auto simp: validate_secret_def x)
  with Cons.IH [OF s1(2)] s1(1) x show ?case by auto
qed

text \<open>The checks of one secret, whatever the sources seen before.\<close>

definition secret_checked :: "time_api \<Rightarrow> plan \<Rightarrow> id \<Rightarrow> secret \<Rightarrow> bool" where
  "secret_checked api p i secret \<longleftrightarrow>
     valid_repository_relative_path (secret_source secret)
     \<and> is_sha256 (secret_source_ciphertext_hash secret)
     \<and> validate_secret_references p i secret = Inr ()
     \<and> validate_secret_recipients p i secret = Inr ()
     \<and> validate_secret_approval p i secret = Inr ()
     \<and> validate_runtime_settings i ''runtime'' (secret_runtime secret) = Inr ()
     \<and> (\<forall>t r. bt_get (secret_runtime_overrides secret) t = Some r \<longrightarrow>
          validate_runtime_override p i secret (t, r) = Inr ())
     \<and> validate_lifecycle api i (secret_lifecycle secret) = Inr ()"

lemma validate_secret_checked:
  "validate_secret api p sources (i, secret) = Inr s' \<Longrightarrow> secret_checked api p i secret"
  by (auto simp: validate_secret_def secret_checked_def bt_ball_items)

lemma validate_secrets_checked:
  assumes "validate_secrets api p = Inr ()" and "bt_get (secrets p) i = Some secret"
  shows "secret_checked api p i secret"
proof -
  from assms(1) obtain s where "fold_result (validate_secret api p) {} (items (secrets p)) = Inr s"
    by (auto simp: validate_secrets_def)
  with fold_validate_secret assms(2) obtain s s' where "validate_secret api p s (i, secret) = Inr s'"
    by (metis bt_items_get)
  then show ?thesis by (rule validate_secret_checked)
qed

lemma validate_secrets_sources:
  assumes "validate_secrets api p = Inr ()"
    and "bt_get (secrets p) i = Some a" and "bt_get (secrets p) j = Some b"
    and "secret_source a = secret_source b"
  shows "i = j"
proof -
  from assms(1) obtain s where "fold_result (validate_secret api p) {} (items (secrets p)) = Inr s"
    by (auto simp: validate_secrets_def)
  then have "distinct (map (secret_source \<circ> snd) (items (secrets p)))"
    using fold_validate_secret by blast
  then have "inj_on (secret_source \<circ> snd) (set (items (secrets p)))"
    by (simp add: distinct_map)
  with assms(2-4) show ?thesis
    by (auto simp: inj_on_def bt_ball_items)
qed

definition counts_bounded :: "plan \<Rightarrow> bool" where
  "counts_bounded p \<longleftrightarrow> (\<forall>count \<in> set (object_counts p). count \<le> 10000)"

lemma validated_parts:
  assumes "validate env p = Inr ()"
  shows "schema p = PLAN_SCHEMA" "counts_bounded p" "validate_authorization_namespace p = Inr ()"
    "validate_group_graph p = Inr ()"
    "\<And>i d. bt_get (identities p) i = Some d \<Longrightarrow> validate_identity env (i, d) = Inr ()"
    "is_ok (fold_result (add_signer_key env) bt_empty (items (identities p)))"
    "\<And>i t. bt_get (targets p) i = Some t \<Longrightarrow> validate_target_entry p (i, t) = Inr ()"
    "validate_secrets (pe_time env) p = Inr ()"
    "\<And>i t. bt_get (templates p) i = Some t \<Longrightarrow> validate_template p (i, t) = Inr ()"
    "\<And>i a. bt_get (approval_policies p) i = Some a \<Longrightarrow> validate_approval p (i, a) = Inr ()"
    "validate_generator_graph p = Inr ()"
  using assms unfolding validate_def and_then_eq_Inr validate_templates_def
  by (auto simp: counts_bounded_def bt_for_each_items simp del: for_each_eq_Inr)

lemma validated_small_groups: "validate env p = Inr () \<Longrightarrow> bt_len (groups p) \<le> usize_max"
  using validated_parts(2) [of env p] by (simp add: counts_bounded_def object_counts_def usize_max_def)

lemma validated_small_generators: "validate env p = Inr () \<Longrightarrow> bt_len (generators p) \<le> usize_max"
  using validated_parts(2) [of env p] by (simp add: counts_bounded_def object_counts_def usize_max_def)

lemma validated_secret:
  "validate env p = Inr () \<Longrightarrow> bt_get (secrets p) i = Some secret \<Longrightarrow>
     secret_checked (pe_time env) p i secret"
  by (rule validate_secrets_checked [OF validated_parts(8)])

text \<open>Recipients: the consumers are targets, the administrators are administrator identities.\<close>

lemma checked_recipients:
  assumes "secret_checked api p i secret"
  shows "selected_consumer_targets p secret = Inr (authorized_targets p secret)"
    and "\<forall>t \<in> authorized_targets p secret. bt_contains (targets p) t"
    and "\<forall>a \<in> group_leaves (groups p) (secret_administrators secret). is_administrator p a"
proof -
  from assms have "validate_secret_recipients p i secret = Inr ()"
    by (simp add: secret_checked_def)
  then obtain ts where ts: "selected_consumer_targets p secret = Inr ts"
    "\<forall>t \<in> ts. bt_contains (targets p) t"
    and admin: "\<forall>a \<in> group_leaves (groups p) (secret_administrators secret). is_administrator p a"
    by (auto simp: validate_secret_recipients_def expand_group_leaves_eq)
  moreover have "ts = authorized_targets p secret"
    by (rule selected_consumer_targets_result [OF ts(1)])
  ultimately show "selected_consumer_targets p secret = Inr (authorized_targets p secret)"
    "\<forall>t \<in> authorized_targets p secret. bt_contains (targets p) t"
    "\<forall>a \<in> group_leaves (groups p) (secret_administrators secret). is_administrator p a"
    by simp_all
qed

lemma validated_consumer_iff:
  assumes "validate env p = Inr ()" and "bt_get (secrets p) i = Some secret"
    and "bt_contains (targets p) t"
  shows "target_is_consumer p secret t \<longleftrightarrow> t \<in> authorized_targets p secret"
proof (rule target_is_consumer_iff)
  show "selected_consumer_targets p secret = Inr (authorized_targets p secret)"
    by (rule checked_recipients(1) [OF validated_secret [OF assms(1,2)]])
  have "set (bt_keys (groups p)) \<inter> set (bt_keys (targets p)) = {}"
    using validated_parts(3) [OF assms(1)] by (simp add: namespace_iff)
  with assms(3) show "\<not> bt_contains (groups p) t"
    by (auto simp: disjoint_iff)
qed

lemma repository_only_no_targets:
  assumes "secret_checked api p i secret" and "secret_repository_only secret"
  shows "authorized_targets p secret = {}" and "secret_delivery secret = Rekeyed"
proof -
  from assms have "validate_repository_only_secret i secret = Inr ()"
    by (simp add: secret_checked_def validate_secret_references_def)
  with assms(2) show "authorized_targets p secret = {}" "secret_delivery secret = Rekeyed"
    by (auto simp: validate_repository_only_secret_def authorized_targets_def
        intro: delivery_mode.exhaust)
qed

text \<open>Two signing identities never share a verification key.\<close>

lemma signer_keys_invariant:
  "fold_result (add_signer_key env) m xs = Inr m' \<Longrightarrow> distinct (map fst xs) \<Longrightarrow>
     (\<forall>(i, d) \<in> set xs. is_signing_kind (identity_kind d) \<longrightarrow>
        (\<exists>k. public_key_id (pe_keys env) (identity_public d) = Inr k \<and> bt_get m' k = Some i
           \<and> bt_get m k = None))
     \<and> (\<forall>k i. bt_get m k = Some i \<longrightarrow> bt_get m' k = Some i)"
proof (induction xs arbitrary: m)
  case Nil
  then show ?case by simp
next
  case (Cons x xs)
  obtain i d where x: "x = (i, d)" by force
  from Cons.prems obtain m1 where m1: "add_signer_key env m (i, d) = Inr m1"
    "fold_result (add_signer_key env) m1 xs = Inr m'" by (auto simp: x)
  have IH: "\<forall>(i, d) \<in> set xs. is_signing_kind (identity_kind d) \<longrightarrow>
        (\<exists>k. public_key_id (pe_keys env) (identity_public d) = Inr k \<and> bt_get m' k = Some i
           \<and> bt_get m1 k = None)"
    "\<forall>k i. bt_get m1 k = Some i \<longrightarrow> bt_get m' k = Some i"
    using Cons.IH [OF m1(2)] Cons.prems(2) by auto
  show ?case
  proof (cases "is_signing_kind (identity_kind d)")
    case True
    with m1(1) obtain k where k: "public_key_id (pe_keys env) (identity_public d) = Inr k"
      "bt_get m k = None" "m1 = bt_insert k i m"
      by (auto simp: add_signer_key_def split: option.splits)
    have m1_get: "bt_get m1 = (bt_get m)(k \<mapsto> i)" using k(3) by simp
    have "bt_get m' k = Some i" using IH(2) m1_get by simp
    moreover have "\<forall>(i, d) \<in> set xs. is_signing_kind (identity_kind d) \<longrightarrow>
        (\<exists>k. public_key_id (pe_keys env) (identity_public d) = Inr k \<and> bt_get m' k = Some i
           \<and> bt_get m k = None)"
      using IH(1) unfolding m1_get by (auto split: if_splits)
    moreover have "\<forall>k i. bt_get m k = Some i \<longrightarrow> bt_get m' k = Some i"
      using IH(2) k(2) unfolding m1_get by (metis fun_upd_other option.distinct(1))
    ultimately show ?thesis using k(1,2) by (simp add: x)
  next
    case False
    with m1(1) have "m1 = m" by (simp add: add_signer_key_def)
    with IH False show ?thesis by (auto simp: x)
  qed
qed

lemma validated_signer_keys_distinct:
  assumes "validate env p = Inr ()"
    and "bt_get (identities p) i = Some a" "is_signing_kind (identity_kind a)"
    and "bt_get (identities p) j = Some b" "is_signing_kind (identity_kind b)"
    and "public_key_id (pe_keys env) (identity_public a) = public_key_id (pe_keys env) (identity_public b)"
  shows "i = j"
proof -
  from validated_parts(6) [OF assms(1)] obtain m where
    "fold_result (add_signer_key env) bt_empty (items (identities p)) = Inr m"
    by (auto simp: is_ok_iff)
  from signer_keys_invariant [OF this bt.keys_distinct] have
    "\<forall>k d. bt_get (identities p) k = Some d \<longrightarrow> is_signing_kind (identity_kind d) \<longrightarrow>
       (\<exists>key. public_key_id (pe_keys env) (identity_public d) = Inr key \<and> bt_get m key = Some k)"
    by (auto simp: bt_ball_items)
  then obtain k l where "public_key_id (pe_keys env) (identity_public a) = Inr k" "bt_get m k = Some i"
    "public_key_id (pe_keys env) (identity_public b) = Inr l" "bt_get m l = Some j"
    using assms(2-5) by metis
  with assms(6) show ?thesis by simp
qed

end
