(* ===== verification/Policy_Projection.thy ===== *)
theory Policy_Projection
  imports Plan_Validation
begin

text \<open>
  The projections of \<open>crates/nix-seal-policy/src/lib.rs\<close>: \<open>lifecycle_report\<close>,
  \<open>secret_recipients\<close>, \<open>target_policy\<close>, \<open>secret_artifact_policy\<close> and their
  digests. On a validated plan the derivations succeed, and they hold exactly what the plan
  authorizes: the secrets of a target, its templates, the approvals they need, and the
  encryption recipients of a secret.
\<close>

section \<open>Digests\<close>

definition domain_hash :: "('ssh, 'sig) policy_env \<Rightarrow> string \<Rightarrow> bytes \<Rightarrow> string" where
  "domain_hash env ctxt bs = pe_derive_key env ctxt bs"

definition canonical_json :: "('ssh, 'sig) policy_env \<Rightarrow> plan \<Rightarrow> policy_error + bytes" where
  "canonical_json env p = ok_or (pe_plan_jcs env p) PolicyJson"

definition plan_hash :: "('ssh, 'sig) policy_env \<Rightarrow> plan \<Rightarrow> policy_error + string" where
  "plan_hash env p =
     and_then (canonical_json env p) (\<lambda>bs. Inr (domain_hash env ''nix-seal plan hash v1'' bs))"

section \<open>Lifecycle\<close>

definition rotation_due :: "time_api \<Rightarrow> lifecycle \<Rightarrow> policy_error + int option" where
  "rotation_due api lc =
     (let rotation_base = (case lc_rotated_at lc of Some r \<Rightarrow> Some r | None \<Rightarrow> lc_created_at lc) in
      transpose_option (\<lambda>(base, days).
         and_then (parse_timestamp api ''rotation base'' base) (\<lambda>base_time.
         and_then (ok_or (checked_mul (ucast days :: 64 word) 86400)
           (PolicyViolation (LifecycleV RotationIntervalRange))) (\<lambda>seconds.
         ok_or (ts_checked_add api base_time seconds)
           (PolicyViolation (LifecycleV RotationDueRange)))))
       (case (rotation_base, lc_rotate_after_days lc) of
          (Some base, Some days) \<Rightarrow> Some (base, days) | _ \<Rightarrow> None))"

definition lifecycle_entry ::
  "time_api \<Rightarrow> int \<Rightarrow> id \<times> secret \<Rightarrow> policy_error + secret_lifecycle_report" where
  "lifecycle_entry api now = (\<lambda>(secret_id, secret).
     let lc = secret_lifecycle secret in
     and_then (transpose_option (parse_timestamp api ''expiresAt'') (lc_expires_at lc)) (\<lambda>expires.
     and_then (rotation_due api lc) (\<lambda>rotation_due.
     let state =
       (if (case expires of Some expiry \<Rightarrow> expiry \<le> now | None \<Rightarrow> False) then Expired
        else if (case rotation_due of Some due \<Rightarrow> due \<le> now | None \<Rightarrow> False) then RotationDue
        else if expires = None \<and> rotation_due = None then Unmanaged
        else Current) in
     Inr \<lparr>lr_secret_id = secret_id, lr_state = state,
       lr_expires_at = map_option (ts_print api) expires,
       lr_rotation_due_at = map_option (ts_print api) rotation_due\<rparr>)))"

definition lifecycle_report ::
  "('ssh, 'sig) policy_env \<Rightarrow> plan \<Rightarrow> int \<Rightarrow> policy_error + secret_lifecycle_report list" where
  "lifecycle_report env p now =
     and_then (validate env p) (\<lambda>_.
     and_then (ok_or (ts_from_system (pe_time env) now)
       (PolicyViolation (LifecycleV SystemTimeRange))) (\<lambda>now'.
     map_result (lifecycle_entry (pe_time env) now') (items (secrets p))))"

section \<open>Recipients\<close>

definition default_administrators :: "plan \<Rightarrow> id set" where
  "default_administrators p = set (map fst (filter
     (\<lambda>(i, identity). is_administrator_kind (identity_kind identity)) (items (identities p))))"

definition add_administrator ::
  "plan \<Rightarrow> (id, string) btree_map \<Rightarrow> id \<Rightarrow> policy_error + (id, string) btree_map" where
  "add_administrator p recipients identity_id =
     and_then (ok_or (bt_get (identities p) identity_id)
       (PolicyViolation (RecipientV (AdministratorNotIdentity identity_id)))) (\<lambda>identity.
     and_then (check (is_administrator_kind (identity_kind identity))
       (PolicyViolation (RecipientV (AdministratorKind identity_id)))) (\<lambda>_.
     Inr (bt_insert identity_id (identity_public identity) recipients)))"

definition add_recovery ::
  "id \<times> identity \<Rightarrow> (id, string) btree_map \<Rightarrow> (id, string) btree_map" where
  "add_recovery = (\<lambda>(i, identity) recipients.
     if identity_kind identity = Recovery then bt_insert i (identity_public identity) recipients
     else recipients)"

definition add_direct_target ::
  "plan \<Rightarrow> (id, string) btree_map \<Rightarrow> id \<Rightarrow> policy_error + (id, string) btree_map" where
  "add_direct_target p recipients target_id =
     and_then (ok_or (bt_get (targets p) target_id)
       (PolicyViolation (RecipientV (DirectConsumerNotTarget target_id)))) (\<lambda>t.
     and_then (ok_or (bt_get (identities p) (target_identity t))
       (PolicyViolation (RecipientV (DirectTargetMissingIdentity target_id (target_identity t))))) (\<lambda>identity.
     Inr (bt_insert (target_identity t) (identity_public identity) recipients)))"

definition secret_recipients ::
  "('ssh, 'sig) policy_env \<Rightarrow> plan \<Rightarrow> id \<Rightarrow> policy_error + secret_recipients_v1" where
  "secret_recipients env p secret_id =
     and_then (validate env p) (\<lambda>_.
     and_then (ok_or (bt_get (secrets p) secret_id)
       (PolicyViolation (RecipientV (RecipientMissingSecret secret_id)))) (\<lambda>secret.
     and_then (if secret_administrators secret = [] then Inr (default_administrators p)
               else expand_group_leaves p (secret_administrators secret)) (\<lambda>administrator_ids.
     and_then (fold_result (add_administrator p) bt_empty (sorted_list_of_set administrator_ids)) (\<lambda>r1.
     let r2 = fold add_recovery (items (identities p)) r1 in
     and_then (if secret_delivery secret = Direct
               then and_then (selected_consumer_targets p secret) (\<lambda>selected.
                 fold_result (add_direct_target p) r2 (sorted_list_of_set selected))
               else Inr r2) (\<lambda>recipients.
     and_then (check (bt_len recipients \<noteq> 0)
       (PolicyViolation (RecipientV (RecipientsEmpty secret_id)))) (\<lambda>_.
     and_then (plan_hash env p) (\<lambda>hash.
     Inr \<lparr>sr_schema = SECRET_RECIPIENTS_SCHEMA, sr_plan_hash = hash, sr_secret_id = secret_id,
       sr_delivery = secret_delivery secret, sr_recipients = recipients\<rparr>)))))))"

section \<open>Target policies\<close>

definition default_signers :: "plan \<Rightarrow> id list" where
  "default_signers p = map fst (filter
     (\<lambda>(i, identity). identity_kind identity = Signer) (items (identities p)))"

definition add_signer ::
  "plan \<Rightarrow> (id, string) btree_map \<Rightarrow> id \<Rightarrow> policy_error + (id, string) btree_map" where
  "add_signer p signers signer_id =
     and_then (ok_or (bt_get (identities p) signer_id)
       (PolicyViolation (ApprovalV (MissingSignerIdentity signer_id)))) (\<lambda>identity.
     and_then (check (identity_kind identity = Signer)
       (PolicyViolation (ApprovalV (ApprovalNotSigner signer_id)))) (\<lambda>_.
     Inr (bt_insert signer_id (identity_public identity) signers)))"

definition target_approval_policy :: "plan \<Rightarrow> id option \<Rightarrow> policy_error + target_approval_policy_v1" where
  "target_approval_policy p policy_id =
     and_then (case policy_id of
         Some i \<Rightarrow> and_then (ok_or (bt_get (approval_policies p) i)
             (PolicyViolation (ApprovalV (MissingApprovalPolicy i)))) (\<lambda>policy.
           Inr (approval_threshold policy, approval_signers policy))
       | None \<Rightarrow> Inr (1, default_signers p)) (\<lambda>(threshold, signer_ids).
     and_then (fold_result (add_signer p) bt_empty signer_ids) (\<lambda>signers.
     and_then (check (\<not> (threshold = 0 \<or> bt_len signers < unat threshold))
       (PolicyViolation (ApprovalV ApprovalThreshold))) (\<lambda>_.
     Inr \<lparr>tap_threshold = threshold, tap_signers = signers\<rparr>)))"

definition add_target_secret ::
  "plan \<Rightarrow> id \<Rightarrow> (id, target_secret_policy) btree_map \<Rightarrow> id \<times> secret
    \<Rightarrow> policy_error + (id, target_secret_policy) btree_map" where
  "add_target_secret p target_id m = (\<lambda>(secret_id, secret).
     if target_is_consumer p secret target_id
     then and_then (target_approval_policy p (secret_approval_policy secret)) (\<lambda>approval.
       Inr (bt_insert secret_id
         \<lparr>tsp_source = secret_source secret,
          tsp_source_ciphertext_hash = secret_source_ciphertext_hash secret,
          tsp_delivery = secret_delivery secret, tsp_phase = secret_phase secret,
          tsp_runtime = runtime_for_target secret target_id, tsp_approval = approval\<rparr> m))
     else Inr m)"

definition target_template ::
  "plan \<Rightarrow> id \<times> template \<Rightarrow> policy_error + id \<times> target_template_policy" where
  "target_template p = (\<lambda>(template_id, t).
     and_then (template_phase p template_id t) (\<lambda>phase.
     Inr (template_id, \<lparr>ttp_source = template_source t, ttp_phase = phase,
       ttp_placeholders = template_placeholders t, ttp_runtime = template_runtime t\<rparr>)))"

definition template_authorized :: "(id, target_secret_policy) btree_map \<Rightarrow> template \<Rightarrow> bool" where
  "template_authorized m t \<longleftrightarrow>
     (\<forall>ph \<in> set (bt_values (template_placeholders t)). bt_contains m (ph_secret ph))"

definition target_policy ::
  "('ssh, 'sig) policy_env \<Rightarrow> plan \<Rightarrow> id \<Rightarrow> policy_error + target_policy_v1" where
  "target_policy env p target_id =
     and_then (validate env p) (\<lambda>_.
     and_then (ok_or (bt_get (targets p) target_id)
       (PolicyViolation (TargetV (TargetPolicyMissingTarget target_id)))) (\<lambda>t.
     and_then (ok_or (bt_get (identities p) (target_identity t))
       (PolicyViolation (TargetV (TargetMissingIdentity target_id (target_identity t))))) (\<lambda>recipient_identity.
     and_then (fold_result (add_target_secret p target_id) bt_empty (items (secrets p))) (\<lambda>ss.
     and_then (map_result (target_template p)
       (filter (\<lambda>(i, template). template_authorized ss template) (items (templates p)))) (\<lambda>tes.
     and_then (plan_hash env p) (\<lambda>hash.
     Inr \<lparr>tp_schema = TARGET_POLICY_SCHEMA, tp_plan_hash = hash, tp_target_id = target_id,
       tp_target_kind = target_kind t, tp_system = target_system t, tp_username = target_username t,
       tp_recipient_identity = target_identity t,
       tp_recipient = identity_public recipient_identity,
       tp_service_actions = target_service_actions t, tp_secrets = ss,
       tp_templates = bt_of_list tes\<rparr>))))))"

definition target_policy_hash ::
  "('ssh, 'sig) policy_env \<Rightarrow> target_policy_v1 \<Rightarrow> policy_error + string" where
  "target_policy_hash env policy =
     and_then (ok_or (pe_target_policy_jcs env policy) PolicyJson) (\<lambda>bs.
     Inr (domain_hash env ''nix-seal target policy hash v1'' bs))"

definition secret_artifact_policy ::
  "target_policy_v1 \<Rightarrow> id \<Rightarrow> policy_error + secret_artifact_policy_v1" where
  "secret_artifact_policy policy secret_id =
     and_then (ok_or (bt_get (tp_secrets policy) secret_id)
       (PolicyViolation (TargetV (ArtifactPolicyNotAuthorized secret_id (tp_target_id policy))))) (\<lambda>secret.
     Inr \<lparr>sap_schema = SECRET_ARTIFACT_POLICY_SCHEMA, sap_target_id = tp_target_id policy,
       sap_target_kind = tp_target_kind policy, sap_system = tp_system policy,
       sap_username = tp_username policy, sap_recipient_identity = tp_recipient_identity policy,
       sap_recipient = tp_recipient policy, sap_secret_id = secret_id, sap_secret = secret\<rparr>)"

definition secret_artifact_policy_hash ::
  "('ssh, 'sig) policy_env \<Rightarrow> target_policy_v1 \<Rightarrow> id \<Rightarrow> policy_error + string" where
  "secret_artifact_policy_hash env policy secret_id =
     and_then (secret_artifact_policy policy secret_id) (\<lambda>artifact.
     and_then (ok_or (pe_artifact_policy_jcs env artifact) PolicyJson) (\<lambda>bs.
     Inr (domain_hash env ''nix-seal secret artifact policy hash v1'' bs)))"

section \<open>Loops that insert the public values of identities\<close>

lemma fold_result_insert:
  assumes "\<And>m x m'. x \<in> set xs \<Longrightarrow>
      step m x = Inr m' \<longleftrightarrow> ok x \<and> m' = bt_insert (key x) (val (key x)) m"
  shows "fold_result step m xs = Inr m' \<longleftrightarrow> (\<forall>x \<in> set xs. ok x)
     \<and> bt_get m' = (\<lambda>k. if k \<in> key ` set xs then Some (val k) else bt_get m k)"
  using assms
proof (induction xs arbitrary: m)
  case Nil
  then show ?case by (auto simp: bt_eq_iff)
next
  case (Cons x xs)
  have IH: "fold_result step n xs = Inr m' \<longleftrightarrow> (\<forall>x \<in> set xs. ok x)
     \<and> bt_get m' = (\<lambda>k. if k \<in> key ` set xs then Some (val k) else bt_get n k)" for n
    by (rule Cons.IH) (simp add: Cons.prems)
  have "fold_result step m (x # xs) = Inr m' \<longleftrightarrow>
      ok x \<and> fold_result step (bt_insert (key x) (val (key x)) m) xs = Inr m'"
    using Cons.prems [of x] by simp
  then show ?case
    unfolding IH by (auto simp: fun_eq_iff)
qed

definition public_of :: "plan \<Rightarrow> id \<Rightarrow> string" where
  "public_of p i = (case bt_get (identities p) i of None \<Rightarrow> [] | Some d \<Rightarrow> identity_public d)"

definition is_signer :: "plan \<Rightarrow> id \<Rightarrow> bool" where
  "is_signer p i = (case bt_get (identities p) i of None \<Rightarrow> False | Some d \<Rightarrow> identity_kind d = Signer)"

lemma fold_add_signer:
  "fold_result (add_signer p) m xs = Inr m' \<longleftrightarrow> (\<forall>i \<in> set xs. is_signer p i)
     \<and> bt_get m' = (\<lambda>k. if k \<in> set xs then Some (public_of p k) else bt_get m k)"
  by (subst fold_result_insert [where ok = "is_signer p" and key = "\<lambda>i. i" and val = "public_of p"])
    (auto simp: add_signer_def is_signer_def public_of_def split: option.splits)

lemma fold_add_administrator:
  "fold_result (add_administrator p) m xs = Inr m' \<longleftrightarrow> (\<forall>i \<in> set xs. is_administrator p i)
     \<and> bt_get m' = (\<lambda>k. if k \<in> set xs then Some (public_of p k) else bt_get m k)"
  by (subst fold_result_insert [where ok = "is_administrator p" and key = "\<lambda>i. i" and val = "public_of p"])
    (auto simp: add_administrator_def is_administrator_def public_of_def split: option.splits)

definition identity_of :: "plan \<Rightarrow> id \<Rightarrow> id" where
  "identity_of p t = (case bt_get (targets p) t of None \<Rightarrow> t | Some x \<Rightarrow> target_identity x)"

definition target_resolves :: "plan \<Rightarrow> id \<Rightarrow> bool" where
  "target_resolves p t \<longleftrightarrow> bt_contains (targets p) t \<and> bt_contains (identities p) (identity_of p t)"

lemma fold_add_direct_target:
  "fold_result (add_direct_target p) m xs = Inr m' \<longleftrightarrow> (\<forall>t \<in> set xs. target_resolves p t)
     \<and> bt_get m' = (\<lambda>k. if k \<in> identity_of p ` set xs then Some (public_of p k) else bt_get m k)"
  by (subst fold_result_insert [where ok = "target_resolves p" and key = "identity_of p" and val = "public_of p"])
    (auto simp: add_direct_target_def target_resolves_def identity_of_def public_of_def bt_contains_def
      split: option.splits)

section \<open>Approvals\<close>

lemma target_approval_policy_result:
  assumes "target_approval_policy p policy_id = Inr a"
  shows "0 < tap_threshold a" "unat (tap_threshold a) \<le> bt_len (tap_signers a)"
    "\<And>i k. bt_get (tap_signers a) i = Some k \<Longrightarrow> is_signer p i \<and> k = public_of p i"
proof -
  from assms obtain thr ids m where f: "fold_result (add_signer p) bt_empty ids = Inr m"
    and a: "a = \<lparr>tap_threshold = thr, tap_signers = m\<rparr>" and c: "thr \<noteq> 0" "unat thr \<le> bt_len m"
    by (auto simp: target_approval_policy_def not_less)
  from f have m: "\<forall>i \<in> set ids. is_signer p i"
    "bt_get m = (\<lambda>k. if k \<in> set ids then Some (public_of p k) else None)"
    by (simp_all add: fold_add_signer cong: if_cong)
  show "0 < tap_threshold a" using c a by (simp add: word_gt_0)
  show "unat (tap_threshold a) \<le> bt_len (tap_signers a)" using c a by simp
  show "is_signer p i \<and> k = public_of p i" if "bt_get (tap_signers a) i = Some k" for i k
    using that m a by (auto split: if_splits)
qed

lemma default_signers_set: "set (default_signers p) = {i. is_signer p i}"
  by (force simp: default_signers_def is_signer_def split: option.splits)

lemma approval_policy_exists:
  assumes v: "validate env p = Inr ()" and s: "bt_get (secrets p) i = Some secret"
  shows "\<exists>a. target_approval_policy p (secret_approval_policy secret) = Inr a"
proof (cases "secret_approval_policy secret")
  case None
  let ?ids = "default_signers p"
  have "\<exists>d \<in> set (bt_values (identities p)). identity_kind d = Signer"
    using validated_secret [OF v s] None
    by (simp add: secret_checked_def validate_secret_approval_def has_default_signer_def)
  then obtain j d where j: "bt_get (identities p) j = Some d" "identity_kind d = Signer" by auto
  let ?m = "bt_of_list (map (\<lambda>i. (i, public_of p i)) ?ids)"
  have dist: "distinct ?ids"
    unfolding default_signers_def
    by (intro distinct_map_filter bt.keys_distinct)
  then have get: "bt_get ?m = (\<lambda>k. if k \<in> set ?ids then Some (public_of p k) else None)"
    by (subst bt_get_of_list) (auto simp: comp_def map_of_map_restrict restrict_map_def)
  then have f: "fold_result (add_signer p) bt_empty ?ids = Inr ?m"
    by (simp add: fold_add_signer default_signers_set cong: if_cong)
  have "j \<in> dom (bt_get ?m)"
    using j get by (simp add: dom_def default_signers_set is_signer_def)
  moreover have "finite (dom (bt_get ?m))"
    by (simp add: get dom_def)
  ultimately have "0 < card (dom (bt_get ?m))"
    unfolding card_gt_0_iff by blast
  then have "1 \<le> bt_len ?m" by (simp add: bt_len_card)
  with f None show ?thesis
    by (simp add: target_approval_policy_def)
next
  case (Some pid)
  then obtain pol where pol: "bt_get (approval_policies p) pid = Some pol"
    using validated_secret [OF v s]
    by (auto simp: secret_checked_def validate_secret_approval_def bt_contains_iff)
  let ?ids = "approval_signers pol"
  have va: "validate_approval p (pid, pol) = Inr ()"
    by (rule validated_parts(10) [OF v pol])
  then have thr: "approval_threshold pol \<noteq> 0" "unat (approval_threshold pol) \<le> card (set ?ids)"
    and sig: "\<forall>k \<in> set ?ids. is_signer p k"
    by (auto simp: validate_approval_def is_signer_def not_less)
  let ?m = "bt_of_list (map (\<lambda>i. (i, public_of p i)) (remdups ?ids))"
  have get: "bt_get ?m = (\<lambda>k. if k \<in> set ?ids then Some (public_of p k) else None)"
    by (subst bt_get_of_list) (auto simp: comp_def map_of_map_restrict restrict_map_def)
  then have f: "fold_result (add_signer p) bt_empty ?ids = Inr ?m"
    using sig by (simp add: fold_add_signer cong: if_cong)
  have "bt_len ?m = card (set ?ids)"
    using get by (simp add: bt_len_card dom_def)
  with f Some pol thr show ?thesis
    by (simp add: target_approval_policy_def not_less)
qed

section \<open>The policy of a target\<close>

definition secret_entry :: "plan \<Rightarrow> id \<Rightarrow> secret \<Rightarrow> policy_error + target_secret_policy" where
  "secret_entry p target_id secret =
     and_then (target_approval_policy p (secret_approval_policy secret)) (\<lambda>approval. Inr
       \<lparr>tsp_source = secret_source secret,
        tsp_source_ciphertext_hash = secret_source_ciphertext_hash secret,
        tsp_delivery = secret_delivery secret, tsp_phase = secret_phase secret,
        tsp_runtime = runtime_for_target secret target_id, tsp_approval = approval\<rparr>)"

definition ok_value :: "'e + 'a \<Rightarrow> 'a option" where
  "ok_value r = (case r of Inl _ \<Rightarrow> None | Inr x \<Rightarrow> Some x)"

lemma ok_value_simps [simp]: "ok_value (Inr x) = Some x" "ok_value r = Some y \<longleftrightarrow> r = Inr y"
  by (auto simp: ok_value_def split: sum.splits)

definition updated_entry ::
  "plan \<Rightarrow> id \<Rightarrow> secret option \<Rightarrow> target_secret_policy option \<Rightarrow> target_secret_policy option" where
  "updated_entry p t s old =
     (case s of None \<Rightarrow> old
      | Some s \<Rightarrow> if target_is_consumer p s t then ok_value (secret_entry p t s) else old)"

lemma fold_add_target_secret:
  assumes "distinct (map fst xs)"
    and "\<And>i s. (i, s) \<in> set xs \<Longrightarrow> is_ok (secret_entry p t s)"
  shows "\<exists>m'. fold_result (add_target_secret p t) m xs = Inr m'
     \<and> (\<forall>i. bt_get m' i = updated_entry p t (map_of xs i) (bt_get m i))"
  using assms
proof (induction xs arbitrary: m)
  case Nil
  then show ?case by (simp add: updated_entry_def)
next
  case (Cons x xs)
  obtain i s where x: "x = (i, s)" by force
  have IH: "\<exists>m'. fold_result (add_target_secret p t) m1 xs = Inr m'
     \<and> (\<forall>i. bt_get m' i = updated_entry p t (map_of xs i) (bt_get m1 i))" for m1
    by (rule Cons.IH) (use Cons.prems in auto)
  have i: "map_of xs i = None"
    using Cons.prems(1) x by (auto simp: map_of_eq_None_iff)
  from Cons.prems(2) [of i s] x obtain e where e: "secret_entry p t s = Inr e"
    by (auto simp: is_ok_iff)
  let ?m1 = "if target_is_consumer p s t then bt_insert i e m else m"
  have step: "add_target_secret p t m (i, s) = Inr ?m1"
    using e by (auto simp: add_target_secret_def secret_entry_def)
  from IH [of ?m1] obtain m' where m': "fold_result (add_target_secret p t) ?m1 xs = Inr m'"
    "\<forall>i. bt_get m' i = updated_entry p t (map_of xs i) (bt_get ?m1 i)" by blast
  have "bt_get m' j = updated_entry p t (map_of (x # xs) j) (bt_get m j)" for j
    using m'(2) i e by (cases "j = i") (auto simp: x updated_entry_def split: option.split)
  with m'(1) step show ?case by (auto simp: x)
qed

definition policy_secrets_of :: "plan \<Rightarrow> id \<Rightarrow> (id, target_secret_policy) btree_map \<Rightarrow> bool" where
  "policy_secrets_of p t m \<longleftrightarrow>
     (\<forall>i e. bt_get m i = Some e \<longleftrightarrow>
        (\<exists>s. bt_get (secrets p) i = Some s \<and> t \<in> authorized_targets p s \<and> secret_entry p t s = Inr e))"

lemma target_secrets_derived:
  assumes v: "validate env p = Inr ()" and t: "bt_contains (targets p) t"
  shows "\<exists>m. fold_result (add_target_secret p t) bt_empty (items (secrets p)) = Inr m
    \<and> policy_secrets_of p t m"
proof -
  have ok: "is_ok (secret_entry p t s)" if "bt_get (secrets p) i = Some s" for i s
    using approval_policy_exists [OF v that] by (auto simp: secret_entry_def)
  have "\<exists>m. fold_result (add_target_secret p t) bt_empty (items (secrets p)) = Inr m
     \<and> (\<forall>i. bt_get m i = updated_entry p t (map_of (items (secrets p)) i) (bt_get bt_empty i))"
    by (rule fold_add_target_secret) (use ok bt.keys_distinct in auto)
  then obtain m where m: "fold_result (add_target_secret p t) bt_empty (items (secrets p)) = Inr m"
    "\<And>i. bt_get m i = updated_entry p t (bt_get (secrets p) i) None"
    by (auto simp: bt.get_entries)
  have "policy_secrets_of p t m"
    unfolding policy_secrets_of_def m(2) updated_entry_def
    using validated_consumer_iff [OF v _ t] by (auto split: option.splits if_splits)
  with m(1) show ?thesis by blast
qed

lemma template_phase_iff:
  "template_phase p i t = Inr phase \<longleftrightarrow>
     template_placeholders t \<noteq> bt_empty
     \<and> (\<forall>ph \<in> set (bt_values (template_placeholders t)).
          \<exists>s. bt_get (secrets p) (ph_secret ph) = Some s \<and> secret_phase s = phase)"
proof (cases "bt_values (template_placeholders t)")
  case Nil
  then have "template_placeholders t = bt_empty"
    by (simp add: bt_values_def)
  then show ?thesis by (simp add: template_phase_def bt_values_def)
next
  case (Cons ph phs)
  then have "template_placeholders t \<noteq> bt_empty"
    by (auto simp: bt_values_def)
  with Cons show ?thesis
    by (auto simp: template_phase_def placeholder_phase_def simp del: bt_values_iff)
qed

lemma validated_template_phase:
  assumes "validate env p = Inr ()" and "bt_get (templates p) i = Some t"
  shows "\<exists>phase. template_phase p i t = Inr phase"
  using validated_parts(9) [OF assms] by (auto simp: validate_template_def)

definition policy_templates_of ::
  "plan \<Rightarrow> id \<Rightarrow> (id, target_template_policy) btree_map \<Rightarrow> bool" where
  "policy_templates_of p target_id m \<longleftrightarrow>
     (\<forall>i e. bt_get m i = Some e \<longleftrightarrow>
        (\<exists>t. bt_get (templates p) i = Some t
           \<and> (\<forall>ph \<in> set (bt_values (template_placeholders t)).
                \<exists>s. bt_get (secrets p) (ph_secret ph) = Some s \<and> target_id \<in> authorized_targets p s)
           \<and> target_template p (i, t) = Inr (i, e)))"

lemma map_of_filter_items:
  "map_of (filter P (items m)) i = (case bt_get m i of None \<Rightarrow> None | Some v \<Rightarrow> if P (i, v) then Some v else None)"
  using bt_get_filter [of P m i] by (simp add: bt.get_entries [of "bt_filter P m"] bt_filter.rep_eq)

lemma target_template_key: "target_template p (i, t) = Inr (j, e) \<Longrightarrow> j = i"
  by (auto simp: target_template_def)

lemma templates_map_of:
  assumes "list_all2 (\<lambda>x y. target_template p x = Inr y) xs ys"
  shows "map fst ys = map fst xs"
    and "map_of ys i = Some e \<longleftrightarrow> (\<exists>t. map_of xs i = Some t \<and> target_template p (i, t) = Inr (i, e))"
proof -
  show "map fst ys = map fst xs"
    using assms by (induction rule: list_all2_induct) (auto simp: target_template_def)
  show "map_of ys i = Some e \<longleftrightarrow> (\<exists>t. map_of xs i = Some t \<and> target_template p (i, t) = Inr (i, e))"
    using assms by (induction rule: list_all2_induct) (auto simp: target_template_def)
qed

lemma target_templates_derived:
  assumes v: "validate env p = Inr ()" and m: "policy_secrets_of p target_id m"
  shows "\<exists>tes. map_result (target_template p)
      (filter (\<lambda>(i, template). template_authorized m template) (items (templates p))) = Inr tes
    \<and> policy_templates_of p target_id (bt_of_list tes)"
proof -
  let ?xs = "filter (\<lambda>(i, template). template_authorized m template) (items (templates p))"
  have "\<exists>y. target_template p x = Inr y" if "x \<in> set ?xs" for x
  proof -
    obtain i t where x: "x = (i, t)" by force
    with that have "bt_get (templates p) i = Some t" by simp
    from validated_template_phase [OF v this] show ?thesis
      by (auto simp: x target_template_def)
  qed
  then obtain tes where tes: "map_result (target_template p) ?xs = Inr tes"
    using map_result_total by blast
  then have all2: "list_all2 (\<lambda>x y. target_template p x = Inr y) ?xs tes"
    by (simp add: map_result_eq_Inr)
  have "distinct (map fst ?xs)"
    by (intro distinct_map_filter bt.keys_distinct)
  then have get: "bt_get (bt_of_list tes) = map_of tes"
    using templates_map_of(1) [OF all2] by (simp add: bt_get_of_list)
  have auth: "template_authorized m t \<longleftrightarrow>
      (\<forall>ph \<in> set (bt_values (template_placeholders t)).
         \<exists>s. bt_get (secrets p) (ph_secret ph) = Some s \<and> target_id \<in> authorized_targets p s)" for t
  proof -
    have "bt_contains m j \<longleftrightarrow> (\<exists>s. bt_get (secrets p) j = Some s \<and> target_id \<in> authorized_targets p s)" for j
      using m approval_policy_exists [OF v, of j]
      by (fastforce simp: policy_secrets_of_def bt_contains_iff secret_entry_def)
    then show ?thesis by (simp add: template_authorized_def)
  qed
  have "policy_templates_of p target_id (bt_of_list tes)"
    unfolding policy_templates_of_def get templates_map_of(2) [OF all2] map_of_filter_items auth [symmetric]
    by (auto split: option.splits if_splits)
  with tes show ?thesis by blast
qed

text \<open>What the policy of a target has to say, read off the plan.\<close>

definition policy_for_target ::
  "('ssh, 'sig) policy_env \<Rightarrow> plan \<Rightarrow> id \<Rightarrow> target_policy_v1 \<Rightarrow> bool" where
  "policy_for_target env p target_id policy \<longleftrightarrow>
     (\<exists>t. bt_get (targets p) target_id = Some t
        \<and> tp_target_id policy = target_id \<and> tp_target_kind policy = target_kind t
        \<and> tp_system policy = target_system t \<and> tp_username policy = target_username t
        \<and> tp_recipient_identity policy = target_identity t
        \<and> tp_recipient policy = public_of p (target_identity t)
        \<and> tp_service_actions policy = target_service_actions t
        \<and> plan_hash env p = Inr (tp_plan_hash policy)
        \<and> policy_secrets_of p target_id (tp_secrets policy)
        \<and> policy_templates_of p target_id (tp_templates policy))"

lemma target_policy_derived:
  assumes v: "validate env p = Inr ()" and t: "bt_get (targets p) target_id = Some t"
    and j: "pe_plan_jcs env p \<noteq> None"
  shows "\<exists>policy. target_policy env p target_id = Inr policy \<and> policy_for_target env p target_id policy"
proof -
  have "validate_target_entry p (target_id, t) = Inr ()"
    by (rule validated_parts(7) [OF v t])
  then obtain d where d: "bt_get (identities p) (target_identity t) = Some d"
    by (auto simp: validate_target_entry_def)
  obtain m where m: "fold_result (add_target_secret p target_id) bt_empty (items (secrets p)) = Inr m"
    "policy_secrets_of p target_id m"
    using target_secrets_derived [OF v, of target_id] t by (auto simp: bt_contains_iff)
  obtain tes where tes: "map_result (target_template p)
      (filter (\<lambda>(i, template). template_authorized m template) (items (templates p))) = Inr tes"
    "policy_templates_of p target_id (bt_of_list tes)"
    using target_templates_derived [OF v m(2)] by blast
  obtain h where h: "plan_hash env p = Inr h"
    using j by (auto simp: plan_hash_def canonical_json_def)
  show ?thesis
    using v t d m tes h by (simp add: target_policy_def policy_for_target_def public_of_def)
qed

section \<open>The recipients of a secret\<close>

definition is_recovery :: "plan \<Rightarrow> id \<Rightarrow> bool" where
  "is_recovery p i = (case bt_get (identities p) i of None \<Rightarrow> False | Some d \<Rightarrow> identity_kind d = Recovery)"

text \<open>The identities a secret is encrypted to.\<close>

definition administrators_of :: "plan \<Rightarrow> secret \<Rightarrow> id set" where
  "administrators_of p secret =
     (if secret_administrators secret = [] then {i. is_administrator p i}
      else group_leaves (groups p) (secret_administrators secret))"

definition recipient_ids :: "plan \<Rightarrow> secret \<Rightarrow> id set" where
  "recipient_ids p secret = administrators_of p secret
     \<union> {i. is_recovery p i}
     \<union> (if secret_delivery secret = Direct then identity_of p ` authorized_targets p secret else {})"

lemma finite_keys: "finite {k. bt_contains m k}"
  by (rule finite_subset [of _ "set (bt_keys m)"]) auto

lemma fold_add_recovery:
  "bt_get (fold add_recovery xs m) k =
     (case map_of (rev xs) k of
        Some d \<Rightarrow> if identity_kind d = Recovery then Some (identity_public d) else bt_get m k
      | None \<Rightarrow> bt_get m k)" if "distinct (map fst xs)"
  using that
proof (induction xs arbitrary: m)
  case Nil
  then show ?case by simp
next
  case (Cons x xs)
  obtain i d where x: "x = (i, d)" by force
  with Cons.prems have "map_of (rev xs) i = None"
    by (simp add: map_of_eq_None_iff)
  with Cons x show ?case
    by (auto simp: add_recovery_def map_of_append map_add_def split: option.splits)
qed

lemma recovery_added:
  "bt_get (fold add_recovery (items (identities p)) m) =
     (\<lambda>k. if is_recovery p k then Some (public_of p k) else bt_get m k)"
proof
  fix k
  have "map_of (rev (items (identities p))) = map_of (items (identities p))"
    using bt.keys_distinct [of "identities p"]
    by (subst map_of_inject_set) (simp_all flip: rev_map)
  then show "bt_get (fold add_recovery (items (identities p)) m) k =
      (if is_recovery p k then Some (public_of p k) else bt_get m k)"
    by (simp add: fold_add_recovery bt.keys_distinct is_recovery_def public_of_def
        bt.get_entries [of "identities p", symmetric] split: option.split)
qed

lemma default_administrators_eq: "default_administrators p = {i. is_administrator p i}"
  by (force simp: default_administrators_def is_administrator_def split: option.splits)

lemma administrators_added:
  assumes "\<forall>a \<in> A. is_administrator p a"
  shows "\<exists>m. fold_result (add_administrator p) bt_empty (sorted_list_of_set A) = Inr m
    \<and> bt_get m = (\<lambda>k. if k \<in> A then Some (public_of p k) else None)"
proof -
  have "A \<subseteq> {k. bt_contains (identities p) k}"
    using assms by (auto simp: is_administrator_def bt_contains_def split: option.splits)
  then have fin: "finite A" by (rule finite_subset [OF _ finite_keys])
  let ?m = "bt_of_list (map (\<lambda>i. (i, public_of p i)) (sorted_list_of_set A))"
  have get: "bt_get ?m = (\<lambda>k. if k \<in> A then Some (public_of p k) else None)"
    using fin by (subst bt_get_of_list) (auto simp: comp_def map_of_map_restrict restrict_map_def)
  moreover have "fold_result (add_administrator p) bt_empty (sorted_list_of_set A) = Inr ?m"
    using fin assms get by (simp add: fold_add_administrator cong: if_cong)
  ultimately show ?thesis by blast
qed

lemma direct_targets_added:
  assumes "\<forall>t \<in> T. target_resolves p t"
  shows "\<exists>m'. fold_result (add_direct_target p) m (sorted_list_of_set T) = Inr m'
    \<and> bt_get m' = (\<lambda>k. if k \<in> identity_of p ` T then Some (public_of p k) else bt_get m k)"
proof -
  have "T \<subseteq> {k. bt_contains (targets p) k}"
    using assms by (auto simp: target_resolves_def)
  then have fin: "finite T" by (rule finite_subset [OF _ finite_keys])
  let ?m = "fold (\<lambda>t. bt_insert (identity_of p t) (public_of p (identity_of p t))) (sorted_list_of_set T) m"
  have "bt_get (fold (\<lambda>t. bt_insert (identity_of p t) (public_of p (identity_of p t))) ts m) =
      (\<lambda>k. if k \<in> identity_of p ` set ts then Some (public_of p k) else bt_get m k)" for ts m
    by (induction ts arbitrary: m) (auto simp: fun_eq_iff)
  then have get: "bt_get ?m = (\<lambda>k. if k \<in> identity_of p ` T then Some (public_of p k) else bt_get m k)"
    using fin by simp
  moreover have "fold_result (add_direct_target p) m (sorted_list_of_set T) = Inr ?m"
    using fin assms get by (simp add: fold_add_direct_target)
  ultimately show ?thesis by blast
qed

lemma recipients_nonempty:
  assumes "secret_checked api p i secret"
  shows "recipient_ids p secret \<noteq> {}"
proof -
  have "validate_secret_recipients p i secret = Inr ()"
    using assms by (simp add: secret_checked_def)
  then have "secret_delivery secret = Direct \<and> authorized_targets p secret \<noteq> {}
     \<or> group_leaves (groups p) (secret_administrators secret) \<noteq> {}
     \<or> secret_administrators secret = [] \<and> default_administrator_exists p"
    using selected_consumer_targets_result
    by (cases "secret_delivery secret")
      (auto simp: validate_secret_recipients_def expand_group_leaves_eq Let_def)
  moreover have "\<exists>i. is_administrator p i" if "default_administrator_exists p"
    using that by (auto simp: default_administrator_exists_def is_administrator_def)
      (metis option.simps(5))
  ultimately show ?thesis
    by (auto simp: recipient_ids_def administrators_of_def)
qed

lemma validated_target_resolves:
  assumes "validate env p = Inr ()" and "bt_contains (targets p) t"
  shows "target_resolves p t"
proof -
  from assms(2) obtain x where x: "bt_get (targets p) t = Some x" by (auto simp: bt_contains_iff)
  from validated_parts(7) [OF assms(1) x] x assms(2) show ?thesis
    by (auto simp: validate_target_entry_def target_resolves_def identity_of_def bt_contains_iff)
qed

lemma secret_recipients_derived:
  assumes v: "validate env p = Inr ()" and s: "bt_get (secrets p) i = Some secret"
    and j: "pe_plan_jcs env p \<noteq> None"
  shows "\<exists>r. secret_recipients env p i = Inr r \<and> sr_secret_id r = i
    \<and> sr_delivery r = secret_delivery secret
    \<and> bt_get (sr_recipients r) = (\<lambda>k. if k \<in> recipient_ids p secret then Some (public_of p k) else None)"
proof -
  note checked = validated_secret [OF v s]
  let ?A = "administrators_of p secret"
  have ids: "(if secret_administrators secret = [] then Inr (default_administrators p)
        else expand_group_leaves p (secret_administrators secret)) = Inr ?A"
    by (simp add: default_administrators_eq expand_group_leaves_eq administrators_of_def)
  have "\<forall>a \<in> ?A. is_administrator p a"
    using checked_recipients(3) [OF checked] by (simp add: administrators_of_def)
  from administrators_added [OF this] obtain m1 where m1: "fold_result (add_administrator p) bt_empty (sorted_list_of_set ?A) = Inr m1"
    "bt_get m1 = (\<lambda>k. if k \<in> ?A then Some (public_of p k) else None)"
    by blast
  let ?m2 = "fold add_recovery (items (identities p)) m1"
  let ?direct = "if secret_delivery secret = Direct
      then and_then (selected_consumer_targets p secret) (\<lambda>selected.
        fold_result (add_direct_target p) ?m2 (sorted_list_of_set selected))
      else Inr ?m2"
  have "\<forall>t \<in> authorized_targets p secret. target_resolves p t"
    using checked_recipients(2) [OF checked] validated_target_resolves [OF v] by blast
  from direct_targets_added [OF this, of ?m2] obtain m3 where m3: "?direct = Inr m3"
    "bt_get m3 = (\<lambda>k. if secret_delivery secret = Direct \<and> k \<in> identity_of p ` authorized_targets p secret
        then Some (public_of p k) else bt_get ?m2 k)"
    using checked_recipients(1) [OF checked] by (cases "secret_delivery secret = Direct") auto
  have get: "bt_get m3 = (\<lambda>k. if k \<in> recipient_ids p secret then Some (public_of p k) else None)"
    unfolding m3(2) recovery_added m1(2) by (auto simp: recipient_ids_def fun_eq_iff)
  have "bt_len m3 \<noteq> 0"
  proof -
    obtain k where "k \<in> recipient_ids p secret" using recipients_nonempty [OF checked] by blast
    then have "bt_get m3 k \<noteq> None" using get by simp
    then show ?thesis by (auto simp: bt_len_def)
  qed
  moreover obtain h where "plan_hash env p = Inr h"
    using j by (auto simp: plan_hash_def canonical_json_def)
  ultimately show ?thesis
    using v s ids m1(1) m3(1) get by (simp add: secret_recipients_def Let_def)
qed

section \<open>Lifecycle states\<close>

definition state_at :: "int option \<Rightarrow> int option \<Rightarrow> int \<Rightarrow> lifecycle_state" where
  "state_at expires due now =
     (if is_not_after expires (Some now) then Expired
      else if is_not_after due (Some now) then RotationDue
      else if expires = None \<and> due = None then Unmanaged else Current)"

text \<open>The time a rotation is due: the last rotation (or the creation) plus the interval.\<close>

definition rotation_due_of :: "time_api \<Rightarrow> lifecycle \<Rightarrow> int option" where
  "rotation_due_of api lc =
     Option.bind (case lc_rotated_at lc of Some r \<Rightarrow> Some r | None \<Rightarrow> lc_created_at lc) (\<lambda>base.
     Option.bind (lc_rotate_after_days lc) (\<lambda>days.
     Option.bind (ts_parse api base) (\<lambda>t. ts_checked_add api t (ucast days * 86400))))"

definition rotation_representable :: "time_api \<Rightarrow> lifecycle \<Rightarrow> bool" where
  "rotation_representable api lc \<longleftrightarrow> (lc_rotate_after_days lc \<noteq> None \<longrightarrow> rotation_due_of api lc \<noteq> None)"

lemma rotation_seconds_no_overflow:
  "checked_mul (ucast (days :: 32 word) :: 64 word) 86400 = Some (ucast days * 86400)"
proof -
  have lt: "unat days < 2 ^ 32"
    using unsigned_less [of days] by simp
  then have "unat days < 2 ^ 64" by simp
  then have "unat (ucast days :: 64 word) = unat days"
    by (simp add: unsigned_ucast_eq take_bit_nat_eq_self)
  with lt show ?thesis
    by (simp add: checked_mul_def)
qed

lemma parse_timestamp_iff [simp]: "parse_timestamp api label v = Inr t \<longleftrightarrow> ts_parse api v = Some t"
  by (simp add: parse_timestamp_def)

lemma rotation_due_iff:
  "rotation_due api lc = Inr due \<longleftrightarrow>
     due = rotation_due_of api lc \<and>
     (rotation_due_of api lc = None \<longrightarrow>
        lc_rotate_after_days lc = None \<or> lc_rotated_at lc = None \<and> lc_created_at lc = None)"
  by (auto simp: rotation_due_def rotation_due_of_def transpose_option_def Let_def
      rotation_seconds_no_overflow bind_eq_None_conv split: option.splits)

lemma transpose_parse_iff:
  "transpose_option (parse_timestamp api label) v = Inr t \<longleftrightarrow>
     t = Option.bind v (ts_parse api) \<and> (t = None \<longrightarrow> v = None)"
  by (auto simp: transpose_option_def split: option.splits)

lemma lifecycle_entry_iff:
  "lifecycle_entry api now (i, secret) = Inr r \<longleftrightarrow>
     (let lc = secret_lifecycle secret; expires = Option.bind (lc_expires_at lc) (ts_parse api);
          due = rotation_due_of api lc in
      (expires = None \<longrightarrow> lc_expires_at lc = None)
      \<and> rotation_due api lc = Inr due
      \<and> r = \<lparr>lr_secret_id = i, lr_state = state_at expires due now,
          lr_expires_at = map_option (ts_print api) expires,
          lr_rotation_due_at = map_option (ts_print api) due\<rparr>)"
  by (auto simp: lifecycle_entry_def Let_def transpose_parse_iff rotation_due_iff state_at_def is_not_after_def
      split: option.splits)

lemma validated_lifecycle:
  assumes "validate_lifecycle api i lc = Inr ()"
  shows "lc_expires_at lc = None \<or> Option.bind (lc_expires_at lc) (ts_parse api) \<noteq> None"
  using assms by (auto simp: validate_lifecycle_def transpose_parse_iff)

text \<open>The report of a secret of a validated plan.\<close>

definition lifecycle_report_of :: "time_api \<Rightarrow> int \<Rightarrow> id \<times> secret \<Rightarrow> secret_lifecycle_report" where
  "lifecycle_report_of api now = (\<lambda>(i, secret).
     let lc = secret_lifecycle secret; expires = Option.bind (lc_expires_at lc) (ts_parse api);
         due = rotation_due_of api lc in
     \<lparr>lr_secret_id = i, lr_state = state_at expires due now,
      lr_expires_at = map_option (ts_print api) expires,
      lr_rotation_due_at = map_option (ts_print api) due\<rparr>)"

lemma map_result_ok:
  "(\<And>x. x \<in> set xs \<Longrightarrow> f x = Inr (g x)) \<Longrightarrow> map_result f xs = Inr (map g xs)"
  by (induction xs) auto

lemma lifecycle_entry_total:
  assumes "validate_lifecycle api i (secret_lifecycle secret) = Inr ()"
    and "rotation_representable api (secret_lifecycle secret)"
  shows "lifecycle_entry api now (i, secret) = Inr (lifecycle_report_of api now (i, secret))"
  using validated_lifecycle [OF assms(1)] assms(2)
  by (auto simp: lifecycle_entry_iff lifecycle_report_of_def rotation_due_iff
      rotation_representable_def Let_def)

lemma lifecycle_report_derived:
  assumes v: "validate env p = Inr ()" and now: "ts_from_system (pe_time env) now = Some t"
    and rep: "\<And>i s. bt_get (secrets p) i = Some s \<Longrightarrow>
      rotation_representable (pe_time env) (secret_lifecycle s)"
  shows "lifecycle_report env p now = Inr (map (lifecycle_report_of (pe_time env) t) (items (secrets p)))"
proof -
  have "lifecycle_entry (pe_time env) t x = Inr (lifecycle_report_of (pe_time env) t x)"
    if "x \<in> set (items (secrets p))" for x
  proof -
    obtain i s where x: "x = (i, s)" by force
    with that have s: "bt_get (secrets p) i = Some s" by simp
    then show ?thesis
      unfolding x using validated_secret [OF v s] rep [OF s]
      by (intro lifecycle_entry_total) (auto simp: secret_checked_def)
  qed
  then show ?thesis
    using v now by (simp add: lifecycle_report_def map_result_ok)
qed

end
