(* ===== verification/Example_Plan.thy ===== *)
theory Example_Plan
  imports Policy_Projection
begin

text \<open>
  A small concrete plan (one group, one target, two secrets, a generator and a template) and
  a concrete environment of third-party functions. The witnesses apply the properties to it.
\<close>

definition example_keys :: "(string, string) key_api" where
  "example_keys = \<lparr>b64_encode = (\<lambda>s. s), b64_decode = Some, b64url_decode = Some,
     ed_key_valid = (\<lambda>_. True), ed_public = (\<lambda>s. s), ed_sign = (\<lambda>k m. k @ m),
     ed_verify_strict = (\<lambda>k m s. s = k @ m), ssh_from_openssh = Some, ssh_from_ed25519 = Some,
     ssh_is_ed25519 = (\<lambda>_. True), ssh_ed25519_bytes = Some, ssh_to_openssh = Some,
     sshsig_from_pem = Some, sshsig_is_ed25519 = (\<lambda>_. True),
     ssh_verify = (\<lambda>k n m s. s = k @ n @ m), key_blake3 = (\<lambda>s. s)\<rparr>"

definition example_age :: age_api where
  "example_age = \<lparr>age_x25519_recipient = Some, age_plugin_recipient = (\<lambda>_. None),
     age_ssh_recipient = (\<lambda>_. None), age_x25519_identity = Some, age_plugin_identity = (\<lambda>_. None),
     age_ssh_identity = (\<lambda>_. None), age_blake3 = (\<lambda>s. s)\<rparr>"

definition example_time :: time_api where
  "example_time = \<lparr>ts_parse = (\<lambda>s. Some (int (length s))), ts_from_system = Some,
     ts_checked_add = (\<lambda>t s. Some (t + uint s)), ts_print = (\<lambda>_. ''time'')\<rparr>"

definition example_env :: "(string, string) policy_env" where
  "example_env = \<lparr>pe_age = example_age, pe_keys = example_keys, pe_time = example_time,
     pe_plan_jcs = (\<lambda>p. Some (schema p)), pe_target_policy_jcs = (\<lambda>p. Some (tp_system p)),
     pe_artifact_policy_jcs = (\<lambda>p. Some (sap_system p)), pe_derive_key = (@)\<rparr>"

definition example_hash :: string where
  "example_hash = replicate 64 (CHR ''0'')"

definition example_secret :: secret where
  "example_secret = \<lparr>secret_source = ''secrets/db.age'', secret_source_ciphertext_hash = example_hash,
     secret_delivery = Rekeyed, secret_administrators = [], secret_consumers = [Id ''web''],
     secret_selectors = default_selectors, secret_phase = Services,
     secret_runtime = default_runtime_settings, secret_runtime_overrides = bt_empty,
     secret_lifecycle = default_lifecycle\<lparr>lc_created_at := Some ''12'', lc_rotate_after_days := Some 1\<rparr>,
     secret_repository_only = False, secret_approval_policy = None\<rparr>"

definition example_seed :: secret where
  "example_seed = example_secret\<lparr>secret_source := ''secrets/seed.age'', secret_consumers := [],
     secret_repository_only := True, secret_lifecycle := default_lifecycle\<rparr>"

definition example_target :: target where
  "example_target = \<lparr>target_kind = NixOs, target_system = ''x86_64-linux'',
     target_identity = Id ''host-key'', target_username = None, target_configuration = None,
     target_environment = None, target_tags = [], target_service_actions = None\<rparr>"

definition example_generator :: generator where
  "example_generator = \<lparr>gen_executable = ''builtin:random'', gen_arguments = [], gen_runtime_inputs = [],
     gen_timeout_seconds = 30, gen_max_output_bytes = 67108864, gen_dependencies = [],
     gen_secret_dependencies = [], gen_outputs = [Id ''seed''], gen_public_outputs = [],
     gen_prompts = [], gen_parameters = bt_empty, gen_validation = None\<rparr>"

definition example_template :: template where
  "example_template = \<lparr>template_source = ''templates/app.conf'',
     template_placeholders = bt_of_list [(''db'', \<lparr>ph_secret = Id ''db'', ph_encoding = Utf8\<rparr>)],
     template_runtime = default_runtime_settings\<rparr>"

definition example_plan :: plan where
  "example_plan = default_plan\<lparr>
     identities := bt_of_list
       [(Id ''admin'', \<lparr>identity_kind = Administrator, identity_public = ''age-admin''\<rparr>),
        (Id ''approver'', \<lparr>identity_kind = Signer, identity_public = ''ssh-approver''\<rparr>),
        (Id ''backup'', \<lparr>identity_kind = Recovery, identity_public = ''age-backup''\<rparr>),
        (Id ''host-key'', \<lparr>identity_kind = TargetIdentity, identity_public = ''age-host''\<rparr>)],
     groups := bt_of_list [(Id ''web'', \<lparr>group_members = [Id ''host'']\<rparr>)],
     targets := bt_of_list [(Id ''host'', example_target)],
     secrets := bt_of_list [(Id ''db'', example_secret), (Id ''seed'', example_seed)],
     generators := bt_of_list [(Id ''make-seed'', example_generator)],
     templates := bt_of_list [(Id ''app'', example_template)]\<rparr>"

lemma example_plan_valid: "validate example_env example_plan = Inr ()"
  by code_simp

end
