(* ===== verification/Policy_Properties.thy ===== *)
theory Policy_Properties
  imports Example_Plan
begin

text \<open>
  The properties of the policy engine, stated over the definitions of the component theories
  and applied to the example plan.
\<close>

section \<open>Groups\<close>

text \<open>
  C29. Expanding a list of references always succeeds (the work list ends on every plan, cyclic
  ones included, and the "missing group" error cannot occur) and returns exactly the objects
  that are not groups and are reached from a reference through group membership.
\<close>

theorem expand_group_leaves_correct:
  "expand_group_leaves p refs =
     Inr {x. (\<exists>r \<in> set refs. (r, x) \<in> (member_rel (groups p))\<^sup>*) \<and> \<not> bt_contains (groups p) x}"
  by (simp add: expand_group_leaves_eq group_leaves_def reachable_from_def)

text \<open>
  C11. The group check accepts a plan exactly when every group has at most 10000 members, every
  member is exactly one of a group, a target or an identity, and no group contains itself
  through any chain of members.
\<close>

theorem validate_group_graph_correct:
  assumes "bt_len (groups p) \<le> usize_max"
  shows "validate_group_graph p = Inr () \<longleftrightarrow>
     (\<forall>g grp. bt_get (groups p) g = Some grp \<longrightarrow>
        length (group_members grp) \<le> 10000
        \<and> (\<forall>m \<in> set (group_members grp). resolutions p m = 1))
     \<and> acyclic (member_rel (groups p))"
  unfolding validate_group_graph_iff [OF assms] bt_ball_items
  by (auto simp: validate_group_entry_def)

theorem validate_group_graph_correct_witness:
  "bt_len (groups example_plan) \<le> usize_max \<and> acyclic (member_rel (groups example_plan))"
proof -
  have len: "bt_len (groups example_plan) \<le> usize_max" by code_simp
  moreover have "validate_group_graph example_plan = Inr ()" by code_simp
  ultimately show ?thesis
    using validate_group_graph_correct [OF len] by blast
qed

section \<open>Generators\<close>

text \<open>
  C12. The generator check accepts a plan exactly when every generator is well formed on its own,
  no secret output, public output, public destination or prompt is declared twice (and no
  identifier is both a secret and a public output), the dependency relation has no cycle, and
  a generator that reads a generated secret lists the generator that produces it.
\<close>

theorem validate_generator_graph_correct:
  assumes "bt_len (generators p) \<le> usize_max"
  shows "validate_generator_graph p = Inr () \<longleftrightarrow>
     (\<forall>i g. bt_get (generators p) i = Some g \<longrightarrow> generator_well_formed p i g)
     \<and> single_producers p \<and> acyclic (generator_rel p) \<and> producers_listed p"
  by (rule validate_generator_graph_iff [OF assms])

theorem validate_generator_graph_correct_witness:
  "bt_len (generators example_plan) \<le> usize_max
   \<and> single_producers example_plan \<and> acyclic (generator_rel example_plan)"
proof -
  have len: "bt_len (generators example_plan) \<le> usize_max" by code_simp
  moreover have "validate_generator_graph example_plan = Inr ()" by code_simp
  ultimately show ?thesis
    using validate_generator_graph_correct [OF len] by blast
qed

section \<open>Authorization\<close>

text \<open>
  In a validated plan a target consumes a secret exactly when it is a leaf of the secret's
  consumers or matches its selectors; the fallback search of the membership test never adds
  a target that the selection leaves out.
\<close>

theorem target_is_consumer_correct:
  assumes "validate env p = Inr ()" and "bt_get (secrets p) i = Some secret"
    and "bt_contains (targets p) t"
  shows "target_is_consumer p secret t \<longleftrightarrow> t \<in> authorized_targets p secret"
  by (rule validated_consumer_iff [OF assms])

theorem target_is_consumer_correct_witness:
  "validate example_env example_plan = Inr () \<and> Id ''host'' \<in> authorized_targets example_plan example_secret"
proof -
  have "bt_get (secrets example_plan) (Id ''db'') = Some example_secret" by code_simp
  moreover have "bt_contains (targets example_plan) (Id ''host'')" by code_simp
  moreover have "target_is_consumer example_plan example_secret (Id ''host'')" by code_simp
  ultimately show ?thesis
    using target_is_consumer_correct [OF example_plan_valid] example_plan_valid by blast
qed

text \<open>
  C2. For a validated plan whose canonical JSON can be produced, the policy of every target is
  derived, and it holds exactly the secrets the target is authorized for (with the runtime
  settings of that target) and exactly the templates all of whose placeholders are such
  secrets.
\<close>

theorem target_policy_correct:
  assumes "validate env p = Inr ()" and "bt_contains (targets p) t" and "pe_plan_jcs env p \<noteq> None"
  shows "\<exists>policy. target_policy env p t = Inr policy \<and> policy_for_target env p t policy"
  using target_policy_derived [OF assms(1) _ assms(3)] assms(2) by (auto simp: bt_contains_iff)

theorem target_policy_correct_witness:
  "\<exists>policy. target_policy example_env example_plan (Id ''host'') = Inr policy
     \<and> policy_for_target example_env example_plan (Id ''host'') policy"
proof -
  have "bt_contains (targets example_plan) (Id ''host'')" by code_simp
  moreover have "pe_plan_jcs example_env example_plan \<noteq> None" by (simp add: example_env_def)
  ultimately show ?thesis
    by (rule target_policy_correct [OF example_plan_valid])
qed

text \<open>
  Every approval rule of a derived target policy can be met: its threshold is positive and
  at most the number of its signers, and each signer is a signer identity of the plan with its
  own public key.
\<close>

theorem target_policy_approvals:
  assumes "target_policy env p t = Inr policy" and "bt_get (tp_secrets policy) i = Some e"
  shows "0 < tap_threshold (tsp_approval e)
    \<and> unat (tap_threshold (tsp_approval e)) \<le> bt_len (tap_signers (tsp_approval e))
    \<and> (\<forall>k key. bt_get (tap_signers (tsp_approval e)) k = Some key \<longrightarrow>
         is_signer p k \<and> key = public_of p k)"
proof -
  from assms(1) have v: "validate env p = Inr ()" and t: "bt_contains (targets p) t"
    by (auto simp: target_policy_def bt_contains_iff)
  from target_secrets_derived [OF v t] assms(1) have "policy_secrets_of p t (tp_secrets policy)"
    by (auto simp: target_policy_def)
  with assms(2) obtain s where "secret_entry p t s = Inr e"
    by (auto simp: policy_secrets_of_def)
  then have "target_approval_policy p (secret_approval_policy s) = Inr (tsp_approval e)"
    by (auto simp: secret_entry_def)
  from target_approval_policy_result [OF this] show ?thesis by blast
qed

theorem target_policy_approvals_witness:
  "\<exists>policy e. target_policy example_env example_plan (Id ''host'') = Inr policy
     \<and> bt_get (tp_secrets policy) (Id ''db'') = Some e \<and> 0 < tap_threshold (tsp_approval e)"
proof -
  have "\<exists>policy e. target_policy example_env example_plan (Id ''host'') = Inr policy
      \<and> bt_get (tp_secrets policy) (Id ''db'') = Some e"
  proof -
    have t: "bt_get (targets example_plan) (Id ''host'') = Some example_target" by code_simp
    have c: "bt_get (secrets example_plan) (Id ''db'') = Some example_secret" by code_simp
    have tc: "bt_contains (targets example_plan) (Id ''host'')"
      using t by (simp add: bt_contains_iff)
    have "target_is_consumer example_plan example_secret (Id ''host'')" by code_simp
    then have a: "Id ''host'' \<in> authorized_targets example_plan example_secret"
      using validated_consumer_iff [OF example_plan_valid c tc] by simp
    have "pe_plan_jcs example_env example_plan \<noteq> None" by (simp add: example_env_def)
    from target_policy_derived [OF example_plan_valid t this] obtain policy where
      pol: "target_policy example_env example_plan (Id ''host'') = Inr policy"
      "policy_secrets_of example_plan (Id ''host'') (tp_secrets policy)"
      by (auto simp: policy_for_target_def)
    with a c approval_policy_exists [OF example_plan_valid c] show ?thesis
      by (fastforce simp: policy_secrets_of_def secret_entry_def)
  qed
  then show ?thesis using target_policy_approvals by blast
qed

section \<open>Recipients\<close>

text \<open>
  C10. For a validated plan the recipients of a secret are derived and are exactly: its
  administrators (all administrator and recovery identities when it lists none), every
  recovery identity, and for direct delivery the identities of its authorized targets; a
  rekeyed secret is never encrypted to a target. Each recipient carries its own public key.
\<close>

theorem secret_recipients_correct:
  assumes "validate env p = Inr ()" and "bt_get (secrets p) i = Some secret"
    and "pe_plan_jcs env p \<noteq> None"
  shows "\<exists>r. secret_recipients env p i = Inr r
    \<and> bt_get (sr_recipients r) = (\<lambda>k.
        if k \<in> administrators_of p secret \<or> is_recovery p k
           \<or> secret_delivery secret = Direct \<and> k \<in> identity_of p ` authorized_targets p secret
        then Some (public_of p k) else None)"
  using secret_recipients_derived [OF assms]
  by (auto simp: recipient_ids_def fun_eq_iff split: if_splits)

theorem secret_recipients_correct_witness:
  "\<exists>r. secret_recipients example_env example_plan (Id ''db'') = Inr r
     \<and> bt_get (sr_recipients r) (Id ''backup'') = Some ''age-backup''
     \<and> bt_get (sr_recipients r) (Id ''host-key'') = None"
proof -
  have "bt_get (secrets example_plan) (Id ''db'') = Some example_secret" by code_simp
  moreover have "pe_plan_jcs example_env example_plan \<noteq> None" by (simp add: example_env_def)
  ultimately obtain r where r: "secret_recipients example_env example_plan (Id ''db'') = Inr r"
    and get: "bt_get (sr_recipients r) = (\<lambda>k.
      if k \<in> administrators_of example_plan example_secret \<or> is_recovery example_plan k
         \<or> secret_delivery example_secret = Direct \<and> k \<in> identity_of example_plan ` authorized_targets example_plan example_secret
      then Some (public_of example_plan k) else None)"
    using secret_recipients_correct [OF example_plan_valid] by blast
  have "is_recovery example_plan (Id ''backup'')" "public_of example_plan (Id ''backup'') = ''age-backup''"
    "\<not> is_recovery example_plan (Id ''host-key'')" "\<not> is_administrator example_plan (Id ''host-key'')"
    "secret_delivery example_secret = Rekeyed" "secret_administrators example_secret = []"
    by code_simp+
  with r get show ?thesis by (simp add: administrators_of_def)
qed

text \<open>
  C28. A repository-only secret of a validated plan reaches no target: no target is authorized
  for it, no derived target policy contains it, and it is not delivered directly.
\<close>

theorem repository_only_never_delivered:
  assumes "validate env p = Inr ()" and "bt_get (secrets p) i = Some secret"
    and "secret_repository_only secret"
  shows "authorized_targets p secret = {} \<and> secret_delivery secret = Rekeyed
    \<and> (\<forall>t policy. target_policy env p t = Inr policy \<longrightarrow> bt_get (tp_secrets policy) i = None)"
proof -
  note none = repository_only_no_targets [OF validated_secret [OF assms(1,2)] assms(3)]
  have "bt_get (tp_secrets policy) i = None" if "target_policy env p t = Inr policy" for t policy
  proof -
    from that have t: "bt_contains (targets p) t"
      by (auto simp: target_policy_def bt_contains_iff)
    from target_secrets_derived [OF assms(1) t] that have "policy_secrets_of p t (tp_secrets policy)"
      by (auto simp: target_policy_def)
    with none assms(2) show ?thesis
      by (auto simp: policy_secrets_of_def) (metis not_Some_eq option.inject empty_iff)
  qed
  with none show ?thesis by blast
qed

theorem repository_only_never_delivered_witness:
  "authorized_targets example_plan example_seed = {} \<and> secret_delivery example_seed = Rekeyed"
proof -
  have "bt_get (secrets example_plan) (Id ''seed'') = Some example_seed"
    "secret_repository_only example_seed" by code_simp+
  then show ?thesis
    using repository_only_never_delivered [OF example_plan_valid] by blast
qed

section \<open>Keys, modes and lifecycle\<close>

text \<open>
  In a validated plan no two signing identities (signers or authorizers) have the same
  verification key, whatever textual form their keys are given in; a threshold of distinct
  signers is a threshold of distinct keys.
\<close>

theorem signing_keys_distinct:
  assumes "validate env p = Inr ()"
    and "bt_get (identities p) i = Some a" and "is_signing_kind (identity_kind a)"
    and "bt_get (identities p) j = Some b" and "is_signing_kind (identity_kind b)"
    and "public_key_id (pe_keys env) (identity_public a) = public_key_id (pe_keys env) (identity_public b)"
  shows "i = j"
  by (rule validated_signer_keys_distinct [OF assms])

theorem signing_keys_distinct_witness:
  "\<exists>a. bt_get (identities example_plan) (Id ''approver'') = Some a
     \<and> (\<forall>b. bt_get (identities example_plan) (Id ''admin'') = Some b \<and> is_signing_kind (identity_kind b) \<longrightarrow>
          public_key_id example_keys (identity_public a) \<noteq> public_key_id example_keys (identity_public b))"
proof -
  define a where "a = \<lparr>identity_kind = Signer, identity_public = ''ssh-approver''\<rparr>"
  have a: "bt_get (identities example_plan) (Id ''approver'') = Some a" "is_signing_kind (identity_kind a)"
    unfolding a_def by code_simp+
  have k: "pe_keys example_env = example_keys" by (simp add: example_env_def)
  have ne: "Id ''approver'' \<noteq> Id ''admin''" by simp
  show ?thesis
    using a(1) ne signing_keys_distinct [OF example_plan_valid a(1) a(2), unfolded k, of "Id ''admin''"]
    by blast
qed

text \<open>
  For a validated plan at a representable time, when the due times of its rotations are
  representable, the lifecycle report lists every secret in order and its state is decided by
  precedence: expired, then rotation due, then unmanaged when neither date exists, otherwise
  current. The interval in seconds never overflows.
\<close>

theorem lifecycle_report_correct:
  assumes "validate env p = Inr ()" and "ts_from_system (pe_time env) now = Some t"
    and "\<And>i s. bt_get (secrets p) i = Some s \<Longrightarrow>
      rotation_representable (pe_time env) (secret_lifecycle s)"
  shows "lifecycle_report env p now = Inr (map (lifecycle_report_of (pe_time env) t) (items (secrets p)))"
  by (rule lifecycle_report_derived [OF assms])

theorem lifecycle_report_correct_witness:
  "\<exists>reports. lifecycle_report example_env example_plan 100000 = Inr reports
     \<and> map lr_state reports = [RotationDue, Unmanaged]"
proof -
  have t: "ts_from_system (pe_time example_env) 100000 = Some 100000"
    by (simp add: example_env_def example_time_def)
  have "\<forall>(i, s) \<in> set (items (secrets example_plan)).
      rotation_representable (pe_time example_env) (secret_lifecycle s)" by code_simp
  then have "rotation_representable (pe_time example_env) (secret_lifecycle s)"
    if "bt_get (secrets example_plan) i = Some s" for i s
    using that by (auto simp: bt_ball_items)
  note lifecycle_report_correct [OF example_plan_valid t this]
  moreover have "map lr_state (map (lifecycle_report_of (pe_time example_env) 100000) (items (secrets example_plan)))
      = [RotationDue, Unmanaged]" by code_simp
  ultimately show ?thesis by simp
qed

end
