(* ===== verification/Envelope.thy ===== *)
theory Envelope
  imports Manifest Policy_Types
begin

text \<open>
  Signed envelopes of \<open>crates/nix-seal-manifest/src/lib.rs\<close>: the DSSE
  pre-authentication encoding, structural checks, trusted keys, signature entries,
  threshold verification, and delegated create capabilities. Signing keys and the SSH
  agent are in the theory of signing; here an envelope is only read.
\<close>

section \<open>Decimal numbers\<close>

fun show_nat :: "nat \<Rightarrow> string" where
  "show_nat n = (if n < 10 then [char_of (48 + n)] else show_nat (n div 10) @ [char_of (48 + n mod 10)])"

declare show_nat.simps [simp del]

lemma digits_value_append:
  "digits_value r acc (xs @ ys) = (case digits_value r acc xs of None \<Rightarrow> None | Some a \<Rightarrow> digits_value r a ys)"
  by (induction xs arbitrary: acc) auto

lemma of_char_digit: "d < 10 \<Longrightarrow> of_char (char_of (48 + d) :: char) = (48 + d :: nat)"
  by (simp add: of_char_of)

lemma digits_value_show_nat: "digits_value 10 0 (show_nat n) = Some n"
proof (induction n rule: show_nat.induct)
  case (1 n)
  show ?case
  proof (cases "n < 10")
    case True
    then show ?thesis by (subst show_nat.simps) (simp add: of_char_digit)
  next
    case False
    then show ?thesis
      using 1 by (subst show_nat.simps) (simp add: digits_value_append of_char_digit)
  qed
qed

lemma show_nat_inject [simp]: "show_nat m = show_nat n \<longleftrightarrow> m = n"
  by (metis digits_value_show_nat option.inject)

lemma show_nat_digits: "c \<in> set (show_nat n) \<Longrightarrow> is_ascii_digit c"
proof (induction n rule: show_nat.induct)
  case (1 n)
  have digit: "is_ascii_digit (char_of (48 + d))" if "d < 10" for d :: nat
    using that by (simp add: is_ascii_digit_def of_char_digit)
  show ?case
  proof (cases "n < 10")
    case True
    with "1.prems" digit show ?thesis
      by (subst (asm) show_nat.simps) auto
  next
    case False
    with 1 digit [of "n mod 10"] show ?thesis
      by (subst (asm) (2) show_nat.simps) auto
  qed
qed

lemma show_nat_no_space: "CHR '' '' \<notin> set (show_nat n)"
  using show_nat_digits [of "CHR '' ''" n] by (auto simp: is_ascii_digit_def)

section \<open>Pre-authentication encoding\<close>

definition pae :: "bytes \<Rightarrow> bytes \<Rightarrow> manifest_error + bytes" where
  "pae payload_type payload =
     (let type_len = show_nat (length payload_type); payload_len = show_nat (length payload) in
      if usize_max < 10 + length type_len + length payload_type + length payload_len + length payload
      then Inl MLimit
      else Inr (''DSSEv1 '' @ type_len @ '' '' @ payload_type @ '' '' @ payload_len @ '' '' @ payload))"

lemma split_at_space:
  assumes "xs @ CHR '' '' # ys = xs' @ CHR '' '' # ys'"
    and "CHR '' '' \<notin> set xs" "CHR '' '' \<notin> set xs'"
  shows "xs = xs' \<and> ys = ys'"
  using assms by (simp add: append_eq_append_conv2) (auto simp: Cons_eq_append_conv append_eq_Cons_conv)

lemma pae_eq:
  assumes "pae t p = Inr m" and "pae t' p' = Inr m"
  shows "t = t' \<and> p = p'"
proof -
  have "show_nat (length t) @ CHR '' '' # (t @ '' '' @ show_nat (length p) @ '' '' @ p)
      = show_nat (length t') @ CHR '' '' # (t' @ '' '' @ show_nat (length p') @ '' '' @ p')"
    using assms by (auto simp: pae_def Let_def split: if_splits)
  from split_at_space [OF this show_nat_no_space show_nat_no_space]
  have lt: "length t = length t'"
    and rest: "t @ '' '' @ show_nat (length p) @ '' '' @ p = t' @ '' '' @ show_nat (length p') @ '' '' @ p'"
    by simp_all
  from rest lt have t: "t = t'"
    and "show_nat (length p) @ CHR '' '' # p = show_nat (length p') @ CHR '' '' # p'"
    by simp_all
  from split_at_space [OF this(2) show_nat_no_space show_nat_no_space] t show ?thesis by simp
qed

section \<open>Structural checks\<close>

definition is_digest :: "string \<Rightarrow> bool" where
  "is_digest value \<longleftrightarrow> length value = 64 \<and> (\<forall>b \<in> set value. is_lower_hex b)"

definition validate_manifest_structure :: "target_manifest \<Rightarrow> manifest_error + unit" where
  "validate_manifest_structure m =
     and_then (check (\<not> (tm_schema m \<noteq> ARTIFACT_SCHEMA \<or> tm_tool_version m = [])) MVersion) (\<lambda>_.
     and_then (check (\<not> (\<not> is_digest (tm_plan_hash m) \<or> \<not> is_digest (tm_target_policy_hash m)
         \<or> \<not> is_digest (tm_artifact_policy_hash m) \<or> \<not> is_digest (tm_source_ciphertext_hash m)
         \<or> \<not> is_digest (tm_artifact_ciphertext_hash m) \<or> \<not> is_digest (tm_recipient_fingerprint m)
         \<or> tm_artifact_generation m = 0)) MBinding) (\<lambda>_.
     check (\<not> (case tm_expires_at m of None \<Rightarrow> False | Some expiry \<Rightarrow> expiry \<le> tm_issued_at m)) MTime))"

definition validate_expected :: "target_manifest \<Rightarrow> expected_binding \<Rightarrow> manifest_error + unit" where
  "validate_expected m e =
     and_then (ok_or (checked_add (eb_now e) (eb_allowed_clock_skew e)) MTime) (\<lambda>latest_issued.
     and_then (check (\<not> (latest_issued < tm_issued_at m
         \<or> (case tm_expires_at m of None \<Rightarrow> False | Some expiry \<Rightarrow> expiry \<le> eb_now e))) MTime) (\<lambda>_.
     check (\<not> (tm_tool_version m \<noteq> eb_tool_version e
         \<or> tm_artifact_policy_hash m \<noteq> eb_artifact_policy_hash e
         \<or> tm_source_ciphertext_hash m \<noteq> eb_source_ciphertext_hash e
         \<or> tm_artifact_ciphertext_hash m \<noteq> eb_artifact_ciphertext_hash e
         \<or> tm_target_id m \<noteq> eb_target_id e
         \<or> tm_secret_id m \<noteq> eb_secret_id e
         \<or> tm_recipient_fingerprint m \<noteq> eb_recipient_fingerprint e
         \<or> tm_artifact_generation m \<noteq> eb_artifact_generation e)) MBinding))"

section \<open>Keys and signature entries\<close>

text \<open>\<open>u32::to_be_bytes\<close>\<close>

definition be32 :: "32 word \<Rightarrow> bytes" where
  "be32 w = map (\<lambda>s. char_of (unat (drop_bit s w))) [24, 16, 8, 0]"

definition legacy_ssh_key_id_bytes :: "('ssh, 'sig) key_api \<Rightarrow> bytes \<Rightarrow> string" where
  "legacy_ssh_key_id_bytes api bs =
     (let blob = be32 11 @ ''ssh-ed25519'' @ be32 32 @ bs;
          encoded = ''ssh-ed25519 '' @ b64_encode api blob in
      ''ssh-ed25519:'' @ key_blake3 api (''nix-seal.ssh-ed25519-key-id.v1'' @ [CHR 0x00] @ encoded))"

definition legacy_ssh_key_id :: "('ssh, 'sig) key_api \<Rightarrow> 'ssh \<Rightarrow> manifest_error + string" where
  "legacy_ssh_key_id api key =
     and_then (ok_or (ssh_ed25519_bytes api key) MPublicKeyFormat) (\<lambda>bs.
     Inr (legacy_ssh_key_id_bytes api bs))"

text \<open>\<open>accepts_wire_id\<close>; the second disjunct is evaluated only when the first is false.\<close>

definition accepts_wire_id ::
  "('ssh, 'sig) key_api \<Rightarrow> 'ssh verification_key \<Rightarrow> string \<Rightarrow> manifest_error + bool" where
  "accepts_wire_id api key wire_id =
     (if wire_id = native_key_id api (vk_native key) then Inr True
      else and_then (legacy_ssh_key_id api (vk_ssh key)) (\<lambda>legacy. Inr (wire_id = legacy)))"

type_synonym 'ssh trusted_keys = "(string, 'ssh verification_key) btree_map"

definition insert_encoded ::
  "('ssh, 'sig) key_api \<Rightarrow> 'ssh trusted_keys \<Rightarrow> string \<Rightarrow> manifest_error + 'ssh trusted_keys \<times> string" where
  "insert_encoded api trusted encoded =
     and_then (parse_public_key api encoded) (\<lambda>key.
     let i = verification_key_id api key in
     if bt_contains trusted i then Inl MDuplicateTrustedKey
     else Inr (bt_insert i key trusted, i))"

definition wire_accepted ::
  "('ssh, 'sig) key_api \<Rightarrow> string \<Rightarrow> 'ssh verification_key \<Rightarrow> bool" where
  "wire_accepted api wire_id key =
     (case accepts_wire_id api key wire_id of Inl _ \<Rightarrow> False | Inr b \<Rightarrow> b)"

definition find_trusted ::
  "('ssh, 'sig) key_api \<Rightarrow> 'ssh trusted_keys \<Rightarrow> string \<Rightarrow> 'ssh verification_key option" where
  "find_trusted api trusted wire_id =
     find (wire_accepted api wire_id) (bt_values trusted)"

definition verify_signature_entry ::
  "('ssh, 'sig) key_api \<Rightarrow> envelope_signature \<Rightarrow> 'ssh verification_key \<Rightarrow> bytes \<Rightarrow> string
    \<Rightarrow> manifest_error + unit" where
  "verify_signature_entry api entry key message ssh_namespace =
     (case es_algorithm entry of
        Ed25519V1 \<Rightarrow>
          and_then (ok_or (b64_decode api (es_signature entry)) MInvalidSignature) (\<lambda>bs.
          and_then (check (length bs = 64) MInvalidSignature) (\<lambda>_.
          check (ed_verify_strict api (vk_native key) message bs) MInvalidSignature))
      | SshEd25519SshsigV1 \<Rightarrow>
          and_then (ok_or (sshsig_from_pem api (es_signature entry)) MInvalidSignature) (\<lambda>signature.
          and_then (check (sshsig_is_ed25519 api signature) MInvalidSignature) (\<lambda>_.
          check (ssh_verify api (vk_ssh key) ssh_namespace message signature) MInvalidSignature)))"

section \<open>Verification\<close>

definition decode_envelope ::
  "('ssh, 'sig) key_api \<Rightarrow> payload_json \<Rightarrow> signed_envelope
    \<Rightarrow> manifest_error + target_manifest \<times> bytes \<times> bytes" where
  "decode_envelope api json envelope =
     and_then (check (se_payload_type envelope = PAYLOAD_TYPE) MVersion) (\<lambda>_.
     and_then (check (length (se_signatures envelope) \<le> MAX_SIGNATURES) MLimit) (\<lambda>_.
     and_then (check (\<not> (\<exists>s \<in> set (se_signatures envelope).
         es_key_id s = [] \<or> MAX_SIGNATURE_BYTES < length (es_signature s))) MLimit) (\<lambda>_.
     and_then (ok_or (b64_decode api (se_payload envelope)) MJson) (\<lambda>payload.
     and_then (check (length payload \<le> MAX_PAYLOAD_BYTES) MLimit) (\<lambda>_.
     and_then (ok_or (tm_from_json json payload) MJson) (\<lambda>manifest.
     and_then (validate_manifest_structure manifest) (\<lambda>_.
     and_then (ok_or (tm_to_jcs json manifest) MJson) (\<lambda>canonical.
     and_then (check (canonical = payload) MJson) (\<lambda>_.
     and_then (pae (se_payload_type envelope) payload) (\<lambda>message.
     Inr (manifest, payload, message)))))))))))"

definition inspect_unverified ::
  "('ssh, 'sig) key_api \<Rightarrow> payload_json \<Rightarrow> signed_envelope \<Rightarrow> manifest_error + target_manifest" where
  "inspect_unverified api json envelope =
     and_then (decode_envelope api json envelope) (\<lambda>(manifest, _, _). Inr manifest)"

definition verify_entry ::
  "('ssh, 'sig) key_api \<Rightarrow> 'ssh trusted_keys \<Rightarrow> bytes \<Rightarrow> string set \<Rightarrow> envelope_signature
    \<Rightarrow> manifest_error + string set" where
  "verify_entry api trusted message signers entry =
     and_then (ok_or (find_trusted api trusted (es_key_id entry)) MUntrustedSigner) (\<lambda>key.
     let material_id = verification_key_id api key in
     and_then (check (material_id \<notin> signers) MDuplicateSigner) (\<lambda>_.
     and_then (verify_signature_entry api entry key message SSH_SIGNATURE_NAMESPACE) (\<lambda>_.
     Inr (insert material_id signers))))"

definition verify ::
  "('ssh, 'sig) key_api \<Rightarrow> payload_json \<Rightarrow> signed_envelope \<Rightarrow> 'ssh trusted_keys \<Rightarrow> nat
    \<Rightarrow> expected_binding \<Rightarrow> manifest_error + verified_manifest" where
  "verify api json envelope trusted threshold expected =
     and_then (check (\<not> (threshold = 0 \<or> bt_len trusted < threshold \<or> se_signatures envelope = []))
       MThreshold) (\<lambda>_.
     and_then (decode_envelope api json envelope) (\<lambda>(manifest, _, message).
     and_then (validate_expected manifest expected) (\<lambda>_.
     and_then (fold_result (verify_entry api trusted message) {} (se_signatures envelope)) (\<lambda>signers.
     and_then (check (threshold \<le> card signers) MThreshold) (\<lambda>_.
     Inr \<lparr>vm_manifest = manifest, vm_signers = signers\<rparr>)))))"

section \<open>Delegated create capabilities\<close>

definition validate_delegated_capability ::
  "('ssh, 'sig) key_api \<Rightarrow> delegated_create_capability \<Rightarrow> manifest_error + unit" where
  "validate_delegated_capability api c =
     and_then (check (\<not> (dc_schema c \<noteq> DELEGATED_CREATE_CAPABILITY_SCHEMA
         \<or> dc_operation c \<noteq> ''create''
         \<or> \<not> is_digest (dc_bootstrap_plan_hash c) \<or> \<not> is_digest (dc_recipient_set_hash c)
         \<or> \<not> is_digest (dc_plaintext_sha256 c)
         \<or> dc_source c = [] \<or> starts_with (dc_source c) ''/''
         \<or> str_contains (dc_source c) ''..'' \<or> str_contains (dc_source c) ''/./''
         \<or> dc_max_plaintext_bytes c = 0 \<or> MAX_DELEGATED_PLAINTEXT_BYTES < dc_max_plaintext_bytes c
         \<or> dc_not_before c < dc_issued_at c \<or> dc_expires_at c \<le> dc_not_before c
         \<or> 900 < dc_expires_at c - dc_issued_at c)) MBinding) (\<lambda>_.
     and_then (ok_or (b64url_decode api (dc_capability_id c)) MBinding) (\<lambda>i.
     check (length i = 32) MBinding))"

definition verify_delegated_create_capability ::
  "('ssh, 'sig) key_api \<Rightarrow> payload_json \<Rightarrow> signed_envelope \<Rightarrow> 'ssh trusted_keys \<Rightarrow> 64 word \<Rightarrow> 64 word
    \<Rightarrow> manifest_error + delegated_create_capability" where
  "verify_delegated_create_capability api json envelope trusted now allowed_clock_skew =
     and_then (check (\<not> (se_payload_type envelope \<noteq> DELEGATED_CAPABILITY_PAYLOAD_TYPE
         \<or> length (se_signatures envelope) \<noteq> 1)) MVersion) (\<lambda>_.
     and_then (ok_or (b64_decode api (se_payload envelope)) MJson) (\<lambda>payload.
     and_then (check (length payload \<le> MAX_PAYLOAD_BYTES) MLimit) (\<lambda>_.
     and_then (ok_or (dc_from_json json payload) MJson) (\<lambda>capability.
     and_then (validate_delegated_capability api capability) (\<lambda>_.
     and_then (ok_or (dc_to_jcs json capability) MJson) (\<lambda>canonical.
     and_then (check (canonical = payload) MJson) (\<lambda>_.
     and_then (ok_or (checked_add now allowed_clock_skew) MTime) (\<lambda>latest_issued.
     and_then (check (\<not> (latest_issued < dc_issued_at capability
         \<or> now < dc_not_before capability \<or> dc_expires_at capability \<le> now)) MTime) (\<lambda>_.
     and_then (pae (se_payload_type envelope) payload) (\<lambda>message.
     let entry = se_signatures envelope ! 0 in
     and_then (check (\<not> (es_key_id entry = [] \<or> MAX_SIGNATURE_BYTES < length (es_signature entry)))
       MLimit) (\<lambda>_.
     and_then (ok_or (find_trusted api trusted (es_key_id entry)) MUntrustedSigner) (\<lambda>key.
     and_then (verify_signature_entry api entry key message DELEGATED_CAPABILITY_SSH_NAMESPACE) (\<lambda>_.
     Inr capability)))))))))))))"

section \<open>What verification guarantees\<close>

lemma wire_accepted_iff: "wire_accepted api wire key \<longleftrightarrow> accepts_wire_id api key wire = Inr True"
  by (auto simp: wire_accepted_def split: sum.splits)

lemma find_trusted_Some:
  assumes "find_trusted api trusted wire = Some key"
  shows "key \<in> set (bt_values trusted) \<and> accepts_wire_id api key wire = Inr True"
  using assms unfolding find_trusted_def find_Some_iff
  by (metis nth_mem wire_accepted_iff)

lemma verify_entry_iff:
  "verify_entry api trusted message S e = Inr S' \<longleftrightarrow>
     (\<exists>key. find_trusted api trusted (es_key_id e) = Some key \<and> verification_key_id api key \<notin> S
        \<and> verify_signature_entry api e key message SSH_SIGNATURE_NAMESPACE = Inr ()
        \<and> S' = insert (verification_key_id api key) S)"
  by (auto simp: verify_entry_def Let_def)

text \<open>A signature entry accepted under a trusted key.\<close>

definition signed_by ::
  "('ssh, 'sig) key_api \<Rightarrow> 'ssh trusted_keys \<Rightarrow> bytes \<Rightarrow> string \<Rightarrow> envelope_signature
    \<Rightarrow> 'ssh verification_key \<Rightarrow> bool" where
  "signed_by api trusted message namespace entry key \<longleftrightarrow>
     key \<in> set (bt_values trusted) \<and> accepts_wire_id api key (es_key_id entry) = Inr True
     \<and> verify_signature_entry api entry key message namespace = Inr ()"

lemma verify_entries_result:
  "fold_result (verify_entry api trusted message) S entries = Inr S' \<Longrightarrow>
   \<exists>keys. list_all2 (signed_by api trusted message SSH_SIGNATURE_NAMESPACE) entries keys
     \<and> distinct (map (verification_key_id api) keys)
     \<and> set (map (verification_key_id api) keys) \<inter> S = {}
     \<and> S' = S \<union> set (map (verification_key_id api) keys)"
proof (induction entries arbitrary: S)
  case Nil
  then show ?case by simp
next
  case (Cons e entries)
  from Cons.prems obtain key where key: "find_trusted api trusted (es_key_id e) = Some key"
    "verification_key_id api key \<notin> S"
    "verify_signature_entry api e key message SSH_SIGNATURE_NAMESPACE = Inr ()"
    and rest: "fold_result (verify_entry api trusted message)
      (insert (verification_key_id api key) S) entries = Inr S'"
    by (auto simp: verify_entry_iff)
  from Cons.IH [OF rest] obtain keys where keys:
    "list_all2 (signed_by api trusted message SSH_SIGNATURE_NAMESPACE) entries keys"
    "distinct (map (verification_key_id api) keys)"
    "set (map (verification_key_id api) keys) \<inter> insert (verification_key_id api key) S = {}"
    "S' = insert (verification_key_id api key) S \<union> set (map (verification_key_id api) keys)"
    by blast
  have "signed_by api trusted message SSH_SIGNATURE_NAMESPACE e key"
    using find_trusted_Some [OF key(1)] key(3) by (simp add: signed_by_def)
  with keys key(2) show ?case
    by (intro exI [of _ "key # keys"]) auto
qed

lemma validate_expected_iff:
  "validate_expected m e = Inr () \<longleftrightarrow>
     unat (eb_now e) + unat (eb_allowed_clock_skew e) < 2 ^ 64
     \<and> unat (tm_issued_at m) \<le> unat (eb_now e) + unat (eb_allowed_clock_skew e)
     \<and> (\<forall>x. tm_expires_at m = Some x \<longrightarrow> eb_now e < x)
     \<and> tm_tool_version m = eb_tool_version e
     \<and> tm_artifact_policy_hash m = eb_artifact_policy_hash e
     \<and> tm_source_ciphertext_hash m = eb_source_ciphertext_hash e
     \<and> tm_artifact_ciphertext_hash m = eb_artifact_ciphertext_hash e
     \<and> tm_target_id m = eb_target_id e \<and> tm_secret_id m = eb_secret_id e
     \<and> tm_recipient_fingerprint m = eb_recipient_fingerprint e
     \<and> tm_artifact_generation m = eb_artifact_generation e"
proof -
  have add: "checked_add (eb_now e) (eb_allowed_clock_skew e) = None \<longleftrightarrow>
      \<not> unat (eb_now e) + unat (eb_allowed_clock_skew e) < 2 ^ 64"
    by (simp add: checked_add_def)
  show ?thesis
  proof (cases "checked_add (eb_now e) (eb_allowed_clock_skew e)")
    case None
    with add show ?thesis by (simp add: validate_expected_def)
  next
    case (Some l)
    moreover from Some have "unat l = unat (eb_now e) + unat (eb_allowed_clock_skew e)" by simp
    ultimately show ?thesis
      using add by (auto simp: validate_expected_def word_less_nat_alt word_le_nat_alt not_less
          simp del: checked_add_Some split: option.splits)
  qed
qed

lemma decode_envelope_result:
  assumes "decode_envelope api json env = Inr (manifest, payload, message)"
  shows "se_payload_type env = PAYLOAD_TYPE" "b64_decode api (se_payload env) = Some payload"
    "tm_from_json json payload = Some manifest" "tm_to_jcs json manifest = Some payload"
    "validate_manifest_structure manifest = Inr ()" "pae PAYLOAD_TYPE payload = Inr message"
    "length (se_signatures env) \<le> MAX_SIGNATURES" "length payload \<le> MAX_PAYLOAD_BYTES"
    "\<forall>s \<in> set (se_signatures env). es_key_id s \<noteq> [] \<and> length (es_signature s) \<le> MAX_SIGNATURE_BYTES"
  using assms by (auto simp: decode_envelope_def)

definition approved ::
  "('ssh, 'sig) key_api \<Rightarrow> payload_json \<Rightarrow> 'ssh trusted_keys \<Rightarrow> nat \<Rightarrow> signed_envelope
    \<Rightarrow> verified_manifest \<Rightarrow> bool" where
  "approved api json trusted threshold envelope vm \<longleftrightarrow>
     (\<exists>payload message keys.
        b64_decode api (se_payload envelope) = Some payload
        \<and> tm_to_jcs json (vm_manifest vm) = Some payload
        \<and> pae PAYLOAD_TYPE payload = Inr message
        \<and> list_all2 (signed_by api trusted message SSH_SIGNATURE_NAMESPACE) (se_signatures envelope) keys
        \<and> distinct (map (verification_key_id api) keys)
        \<and> vm_signers vm = set (map (verification_key_id api) keys)
        \<and> 0 < threshold \<and> threshold \<le> length keys)"

lemma verify_approved:
  assumes "verify api json envelope trusted threshold expected = Inr vm"
  shows "approved api json trusted threshold envelope vm"
    and "validate_manifest_structure (vm_manifest vm) = Inr ()"
    and "validate_expected (vm_manifest vm) expected = Inr ()"
proof -
  from assms obtain payload message where
    dec: "decode_envelope api json envelope = Inr (vm_manifest vm, payload, message)"
    and ex: "validate_expected (vm_manifest vm) expected = Inr ()"
    and fold: "fold_result (verify_entry api trusted message) {} (se_signatures envelope) = Inr (vm_signers vm)"
    and thr: "0 < threshold" "threshold \<le> card (vm_signers vm)"
    by (auto simp: verify_def)
  from verify_entries_result [OF fold] obtain keys where keys:
    "list_all2 (signed_by api trusted message SSH_SIGNATURE_NAMESPACE) (se_signatures envelope) keys"
    "distinct (map (verification_key_id api) keys)"
    "vm_signers vm = set (map (verification_key_id api) keys)"
    by auto
  then have "card (vm_signers vm) = length keys"
    by (metis distinct_card length_map)
  with thr keys decode_envelope_result [OF dec]
  show "approved api json trusted threshold envelope vm"
    unfolding approved_def by (intro exI conjI) simp_all
  show "validate_manifest_structure (vm_manifest vm) = Inr ()"
    using decode_envelope_result [OF dec] by simp
  show "validate_expected (vm_manifest vm) expected = Inr ()" by (rule ex)
qed

section \<open>Trusted keys\<close>

text \<open>Every trusted key is stored under the identifier of its own material.\<close>

definition trusted_inv :: "('ssh, 'sig) key_api \<Rightarrow> 'ssh trusted_keys \<Rightarrow> bool" where
  "trusted_inv api trusted \<longleftrightarrow>
     (\<forall>i key. bt_get trusted i = Some key \<longrightarrow> i = verification_key_id api key)"

lemma trusted_inv_empty: "trusted_inv api bt_empty"
  by (simp add: trusted_inv_def)

lemma insert_encoded_inv:
  assumes "insert_encoded api trusted encoded = Inr (trusted', i)" and "trusted_inv api trusted"
  shows "trusted_inv api trusted'" and "bt_len trusted' = Suc (bt_len trusted)"
proof -
  from assms(1) obtain key where key: "i = verification_key_id api key" "\<not> bt_contains trusted i"
    "trusted' = bt_insert i key trusted"
    by (auto simp: insert_encoded_def Let_def split: if_splits)
  then show "trusted_inv api trusted'"
    using assms(2) by (auto simp: trusted_inv_def split: if_splits)
  have "dom (bt_get trusted') = insert i (dom (bt_get trusted))" "i \<notin> dom (bt_get trusted)"
    using key by (auto simp: bt_contains_def)
  moreover have "finite (dom (bt_get trusted))"
    by (rule finite_subset [of _ "set (bt_keys trusted)"]) (auto simp: bt_contains_iff)
  ultimately show "bt_len trusted' = Suc (bt_len trusted)"
    by (simp add: bt_len_card)
qed

section \<open>Capabilities\<close>

lemma delegated_window:
  assumes "validate_delegated_capability api c = Inr ()"
  shows "unat (dc_issued_at c) \<le> unat (dc_not_before c)"
    "unat (dc_not_before c) < unat (dc_expires_at c)"
    "unat (dc_expires_at c) \<le> unat (dc_issued_at c) + 900"
proof -
  from assms have c: "dc_issued_at c \<le> dc_not_before c" "dc_not_before c < dc_expires_at c"
    "dc_expires_at c - dc_issued_at c \<le> 900"
    by (auto simp: validate_delegated_capability_def not_less not_le)
  then show "unat (dc_issued_at c) \<le> unat (dc_not_before c)"
    "unat (dc_not_before c) < unat (dc_expires_at c)"
    by (simp_all add: word_le_nat_alt word_less_nat_alt)
  have "dc_issued_at c \<le> dc_expires_at c" using c by simp
  then have "unat (dc_expires_at c - dc_issued_at c) = unat (dc_expires_at c) - unat (dc_issued_at c)"
    by (rule unat_sub)
  with c(3) show "unat (dc_expires_at c) \<le> unat (dc_issued_at c) + 900"
    by (simp add: word_le_nat_alt)
qed

end
