(* ===== verification/Approval_Signing.thy ===== *)
theory Approval_Signing
  imports Envelope
begin

text \<open>
  Signing side of \<open>crates/nix-seal-manifest/src/lib.rs\<close>: approval signing keys (native,
  OpenSSH, SSH agent), the framing of the agent messages, envelope creation and
  \<open>add_signature\<close>. OpenSSH private keys, raw SSH signatures and the agent process are
  parameters. The results: framing round trips, a signed manifest verifies, and
  \<open>add_signature\<close> only ever adds one distinct signer.
\<close>

section \<open>Parameters\<close>

text \<open>
  \<open>ask_agent socket request\<close> is the byte stream the agent answers to \<open>request\<close>
  (\<open>None\<close>: the socket cannot be used); \<open>'raw\<close> is the crate's raw \<open>Signature\<close>.
\<close>

record ('ssh, 'priv, 'raw) signer_api =
  priv_from_openssh :: "string \<Rightarrow> 'priv option"
  priv_is_encrypted :: "'priv \<Rightarrow> bool"
  priv_is_ed25519 :: "'priv \<Rightarrow> bool"
  priv_public :: "'priv \<Rightarrow> 'ssh"
  priv_sign :: "'priv \<Rightarrow> string \<Rightarrow> bytes \<Rightarrow> string option"
  sshsig_signed_data :: "string \<Rightarrow> bytes \<Rightarrow> bytes option"
  ssh_to_bytes :: "'ssh \<Rightarrow> bytes option"
  ask_agent :: "string \<Rightarrow> bytes \<Rightarrow> bytes option"
  raw_from_bytes :: "bytes \<Rightarrow> 'raw option"
  raw_is_ed25519 :: "'raw \<Rightarrow> bool"
  sshsig_new_pem :: "'ssh \<Rightarrow> string \<Rightarrow> 'raw \<Rightarrow> string option"

definition SSH_AGENT_KEY_PREFIX :: string where
  "SSH_AGENT_KEY_PREFIX = ''NIX-SEAL-SSH-AGENT-ED25519-v1:''"

definition MAX_AGENT_MESSAGE_BYTES :: nat where
  "MAX_AGENT_MESSAGE_BYTES = 1024 * 1024"

definition POSSESSION_PROOF_SSH_NAMESPACE :: string where
  "POSSESSION_PROOF_SSH_NAMESPACE = ''nix-seal-key-possession-v1''"

section \<open>Agent framing\<close>

definition from_be32 :: "bytes \<Rightarrow> 32 word" where
  "from_be32 bs = (case bs of [a, b, c, d] \<Rightarrow>
     word_of_nat (((of_char a * 256 + of_char b) * 256 + of_char c) * 256 + of_char d) | _ \<Rightarrow> 0)"

definition read_agent_string :: "bytes \<Rightarrow> manifest_error + bytes \<times> bytes" where
  "read_agent_string input =
     (if length input < 4 then Inl MAgentProtocol
      else
        (let len = unat (from_be32 (take 4 input)); finish = 4 + len in
         if usize_max < finish then Inl MAgentProtocol
         else if length input < finish then Inl MAgentProtocol
         else Inr (take len (drop 4 input), drop finish input)))"

definition agent_request :: "bytes \<Rightarrow> bytes \<Rightarrow> manifest_error + bytes" where
  "agent_request key_blob data =
     (let body_len = 1 + 4 + length key_blob + 4 + length data + 4 in
      if usize_max < body_len then Inl MAgentProtocol
      else if MAX_AGENT_MESSAGE_BYTES < body_len then Inl MLimit
      else Inr (be32 (word_of_nat body_len) @ [char_of (13 :: nat)]
        @ be32 (word_of_nat (length key_blob)) @ key_blob
        @ be32 (word_of_nat (length data)) @ data @ be32 0))"

definition agent_response :: "bytes \<Rightarrow> manifest_error + bytes" where
  "agent_response stream =
     and_then (check (4 \<le> length stream) MAgentUnavailable) (\<lambda>_.
     let response_len = unat (from_be32 (take 4 stream)) in
     and_then (check (\<not> (response_len = 0 \<or> MAX_AGENT_MESSAGE_BYTES < response_len)) MAgentProtocol) (\<lambda>_.
     and_then (check (response_len \<le> length (drop 4 stream)) MAgentUnavailable) (\<lambda>_.
     let response = take response_len (drop 4 stream) in
     and_then (check (response ! 0 \<noteq> char_of (5 :: nat)) MAgentRejected) (\<lambda>_.
     and_then (check (response ! 0 = char_of (14 :: nat)) MAgentProtocol) (\<lambda>_.
     and_then (read_agent_string (drop 1 response)) (\<lambda>(signature_bytes, rest).
     and_then (check (rest = []) MAgentProtocol) (\<lambda>_.
     Inr signature_bytes)))))))"

definition ssh_agent_sign ::
  "('ssh, 'priv, 'raw) signer_api \<Rightarrow> string \<Rightarrow> bytes \<Rightarrow> bytes \<Rightarrow> manifest_error + 'raw" where
  "ssh_agent_sign s socket key_blob data =
     and_then (agent_request key_blob data) (\<lambda>request.
     and_then (ok_or (ask_agent s socket request) MAgentUnavailable) (\<lambda>stream.
     and_then (agent_response stream) (\<lambda>signature_bytes.
     ok_or (raw_from_bytes s signature_bytes) MAgentProtocol)))"

section \<open>Signing keys\<close>

datatype ('ssh, 'priv) approval_signing_key =
    Ed25519 bytes
  | SshEd25519 'priv
  | SshAgentEd25519 'ssh string

definition signing_key_parse ::
  "('ssh, 'sig) key_api \<Rightarrow> ('ssh, 'priv, 'raw) signer_api \<Rightarrow> string
    \<Rightarrow> manifest_error + ('ssh, 'priv) approval_signing_key" where
  "signing_key_parse api s encoded =
     (let value = trim encoded in
      case strip_prefix value PRIVATE_KEY_PREFIX of
        Some body \<Rightarrow>
          and_then (ok_or (b64_decode api body) MPrivateKeyFormat) (\<lambda>decoded.
          and_then (check (length decoded = 32) MPrivateKeyFormat) (\<lambda>_.
          Inr (Ed25519 decoded)))
      | None \<Rightarrow>
          and_then (ok_or (priv_from_openssh s value) MPrivateKeyFormat) (\<lambda>key.
          and_then (check (\<not> (priv_is_encrypted s key \<or> \<not> priv_is_ed25519 s key)) MPrivateKeyFormat) (\<lambda>_.
          Inr (SshEd25519 key))))"

definition validate_agent_socket :: "string \<Rightarrow> manifest_error + string" where
  "validate_agent_socket socket =
     (if \<not> path_is_absolute socket \<or> 4096 < length socket \<or> (\<exists>b \<in> set socket. is_ascii_control b)
      then Inl MAgentUnavailable else Inr socket)"

definition parse_ssh_public_key :: "('ssh, 'sig) key_api \<Rightarrow> string \<Rightarrow> manifest_error + 'ssh" where
  "parse_ssh_public_key api encoded =
     and_then (ok_or (ssh_from_openssh api (trim encoded)) MPublicKeyFormat) (\<lambda>key.
     and_then (check (ssh_is_ed25519 api key) MPublicKeyFormat) (\<lambda>_. Inr key))"

definition parse_with_agent ::
  "('ssh, 'sig) key_api \<Rightarrow> ('ssh, 'priv, 'raw) signer_api \<Rightarrow> string \<Rightarrow> string
    \<Rightarrow> manifest_error + ('ssh, 'priv) approval_signing_key" where
  "parse_with_agent api s encoded socket =
     (let value = trim encoded in
      case strip_prefix value SSH_AGENT_KEY_PREFIX of
        Some body \<Rightarrow>
          and_then (validate_agent_socket socket) (\<lambda>sock.
          and_then (parse_ssh_public_key api body) (\<lambda>public_key.
          Inr (SshAgentEd25519 public_key sock)))
      | None \<Rightarrow> signing_key_parse api s value)"

definition encode_public_key :: "('ssh, 'sig) key_api \<Rightarrow> bytes \<Rightarrow> string" where
  "encode_public_key api key = PUBLIC_KEY_PREFIX @ b64_encode api key"

definition encode_private ::
  "('ssh, 'sig) key_api \<Rightarrow> ('ssh, 'priv) approval_signing_key \<Rightarrow> manifest_error + string" where
  "encode_private api key =
     (case key of
        Ed25519 seed \<Rightarrow> Inr (PRIVATE_KEY_PREFIX @ b64_encode api seed)
      | _ \<Rightarrow> Inl MPrivateKeyFormat)"

text \<open>\<open>split_ascii_whitespace\<close>: the maximal runs of other bytes.\<close>

function ascii_fields :: "string \<Rightarrow> string list" where
  "ascii_fields s =
     (case dropWhile is_ascii_whitespace s of
        [] \<Rightarrow> []
      | c # cs \<Rightarrow> takeWhile (Not \<circ> is_ascii_whitespace) (c # cs)
          # ascii_fields (dropWhile (Not \<circ> is_ascii_whitespace) cs))"
  by pat_completeness auto
termination
proof (relation "measure length")
  fix s c cs
  assume "dropWhile is_ascii_whitespace s = c # cs"
  then have "Suc (length cs) \<le> length s"
    by (metis length_Cons length_dropWhile_le)
  then show "(dropWhile (Not \<circ> is_ascii_whitespace) cs, s) \<in> measure length"
    using length_dropWhile_le [of "Not \<circ> is_ascii_whitespace" cs] by simp
qed simp

declare ascii_fields.simps [simp del]

definition normalize_ssh_public_key :: "('ssh, 'sig) key_api \<Rightarrow> 'ssh \<Rightarrow> manifest_error + string" where
  "normalize_ssh_public_key api key =
     and_then (ok_or (ssh_to_openssh api key) MPublicKeyFormat) (\<lambda>encoded.
     case ascii_fields encoded of
       algorithm # body # _ \<Rightarrow>
         if algorithm \<noteq> ''ssh-ed25519'' then Inl MPublicKeyFormat
         else Inr (algorithm @ '' '' @ body)
     | _ \<Rightarrow> Inl MPublicKeyFormat)"

definition canonical_ssh_key_id :: "('ssh, 'sig) key_api \<Rightarrow> 'ssh \<Rightarrow> manifest_error + string" where
  "canonical_ssh_key_id api key =
     and_then (ok_or (ssh_ed25519_bytes api key) MPublicKeyFormat) (\<lambda>bs.
     and_then (check (ed_key_valid api bs) MPublicKeyFormat) (\<lambda>_.
     Inr (native_key_id api bs)))"

definition encode_public ::
  "('ssh, 'sig) key_api \<Rightarrow> ('ssh, 'priv, 'raw) signer_api \<Rightarrow> ('ssh, 'priv) approval_signing_key
    \<Rightarrow> manifest_error + string" where
  "encode_public api s key =
     (case key of
        Ed25519 seed \<Rightarrow> Inr (encode_public_key api (ed_public api seed))
      | SshEd25519 k \<Rightarrow> normalize_ssh_public_key api (priv_public s k)
      | SshAgentEd25519 public_key socket \<Rightarrow> normalize_ssh_public_key api public_key)"

definition signing_key_id ::
  "('ssh, 'sig) key_api \<Rightarrow> ('ssh, 'priv, 'raw) signer_api \<Rightarrow> ('ssh, 'priv) approval_signing_key
    \<Rightarrow> manifest_error + string" where
  "signing_key_id api s key =
     (case key of
        Ed25519 seed \<Rightarrow> Inr (native_key_id api (ed_public api seed))
      | SshEd25519 k \<Rightarrow> canonical_ssh_key_id api (priv_public s k)
      | SshAgentEd25519 public_key socket \<Rightarrow> canonical_ssh_key_id api public_key)"

definition matches_public_key ::
  "('ssh, 'sig) key_api \<Rightarrow> ('ssh, 'priv, 'raw) signer_api \<Rightarrow> ('ssh, 'priv) approval_signing_key
    \<Rightarrow> string \<Rightarrow> bool" where
  "matches_public_key api s key encoded =
     (case signing_key_id api s key of
        Inl _ \<Rightarrow> False
      | Inr i \<Rightarrow> (case parse_public_key api encoded of
          Inl _ \<Rightarrow> False | Inr k \<Rightarrow> verification_key_id api k = i))"

section \<open>Signatures\<close>

definition sign_with_namespace ::
  "('ssh, 'sig) key_api \<Rightarrow> ('ssh, 'priv, 'raw) signer_api \<Rightarrow> ('ssh, 'priv) approval_signing_key
    \<Rightarrow> bytes \<Rightarrow> string \<Rightarrow> manifest_error + envelope_signature" where
  "sign_with_namespace api s key message ssh_namespace =
     (case key of
        Ed25519 seed \<Rightarrow> Inr
          \<lparr>es_key_id = native_key_id api (ed_public api seed), es_algorithm = Ed25519V1,
           es_signature = b64_encode api (ed_sign api seed message)\<rparr>
      | SshEd25519 k \<Rightarrow>
          and_then (ok_or (priv_sign s k ssh_namespace message) MInvalidSignature) (\<lambda>signature.
          and_then (check (length signature \<le> MAX_SIGNATURE_BYTES) MLimit) (\<lambda>_.
          and_then (legacy_ssh_key_id api (priv_public s k)) (\<lambda>i.
          Inr \<lparr>es_key_id = i, es_algorithm = SshEd25519SshsigV1, es_signature = signature\<rparr>)))
      | SshAgentEd25519 public_key socket \<Rightarrow>
          and_then (ok_or (sshsig_signed_data s ssh_namespace message) MInvalidSignature) (\<lambda>signed_data.
          and_then (ok_or (ssh_to_bytes s public_key) MInvalidSignature) (\<lambda>key_blob.
          and_then (ssh_agent_sign s socket key_blob signed_data) (\<lambda>signature.
          and_then (check (raw_is_ed25519 s signature) MAgentProtocol) (\<lambda>_.
          and_then (ok_or (sshsig_new_pem s public_key ssh_namespace signature) MInvalidSignature) (\<lambda>encoded.
          and_then (check (length encoded \<le> MAX_SIGNATURE_BYTES) MLimit) (\<lambda>_.
          and_then (legacy_ssh_key_id api public_key) (\<lambda>i.
          Inr \<lparr>es_key_id = i, es_algorithm = SshEd25519SshsigV1, es_signature = encoded\<rparr>))))))))"

definition sign ::
  "('ssh, 'sig) key_api \<Rightarrow> ('ssh, 'priv, 'raw) signer_api \<Rightarrow> ('ssh, 'priv) approval_signing_key
    \<Rightarrow> bytes \<Rightarrow> manifest_error + envelope_signature" where
  "sign api s key message = sign_with_namespace api s key message SSH_SIGNATURE_NAMESPACE"

definition prove_possession ::
  "('ssh, 'sig) key_api \<Rightarrow> ('ssh, 'priv, 'raw) signer_api \<Rightarrow> ('ssh, 'priv) approval_signing_key
    \<Rightarrow> bytes \<Rightarrow> manifest_error + unit" where
  "prove_possession api s key challenge =
     and_then (check (\<not> (challenge = [] \<or> MAX_PAYLOAD_BYTES < length challenge)) MLimit) (\<lambda>_.
     and_then (sign_with_namespace api s key challenge POSSESSION_PROOF_SSH_NAMESPACE) (\<lambda>signature.
     and_then (encode_public api s key) (\<lambda>encoded.
     and_then (parse_public_key api encoded) (\<lambda>public.
     verify_signature_entry api signature public challenge POSSESSION_PROOF_SSH_NAMESPACE))))"

definition sign_manifest ::
  "('ssh, 'sig) key_api \<Rightarrow> ('ssh, 'priv, 'raw) signer_api \<Rightarrow> payload_json \<Rightarrow> target_manifest
    \<Rightarrow> ('ssh, 'priv) approval_signing_key \<Rightarrow> manifest_error + signed_envelope" where
  "sign_manifest api s json manifest key =
     and_then (validate_manifest_structure manifest) (\<lambda>_.
     and_then (ok_or (tm_to_jcs json manifest) MJson) (\<lambda>payload.
     and_then (check (length payload \<le> MAX_PAYLOAD_BYTES) MLimit) (\<lambda>_.
     and_then (pae PAYLOAD_TYPE payload) (\<lambda>message.
     and_then (sign api s key message) (\<lambda>signature.
     Inr \<lparr>se_payload_type = PAYLOAD_TYPE, se_payload = b64_encode api payload,
       se_signatures = [signature]\<rparr>)))))"

definition sign_delegated_create_capability ::
  "('ssh, 'sig) key_api \<Rightarrow> ('ssh, 'priv, 'raw) signer_api \<Rightarrow> payload_json \<Rightarrow> delegated_create_capability
    \<Rightarrow> ('ssh, 'priv) approval_signing_key \<Rightarrow> manifest_error + signed_envelope" where
  "sign_delegated_create_capability api s json capability key =
     and_then (validate_delegated_capability api capability) (\<lambda>_.
     and_then (ok_or (dc_to_jcs json capability) MJson) (\<lambda>payload.
     and_then (check (length payload \<le> MAX_PAYLOAD_BYTES) MLimit) (\<lambda>_.
     and_then (pae DELEGATED_CAPABILITY_PAYLOAD_TYPE payload) (\<lambda>message.
     and_then (sign_with_namespace api s key message DELEGATED_CAPABILITY_SSH_NAMESPACE) (\<lambda>signature.
     Inr \<lparr>se_payload_type = DELEGATED_CAPABILITY_PAYLOAD_TYPE, se_payload = b64_encode api payload,
       se_signatures = [signature]\<rparr>)))))"

definition add_signature ::
  "('ssh, 'sig) key_api \<Rightarrow> ('ssh, 'priv, 'raw) signer_api \<Rightarrow> payload_json \<Rightarrow> signed_envelope
    \<Rightarrow> ('ssh, 'priv) approval_signing_key \<Rightarrow> manifest_error + signed_envelope" where
  "add_signature api s json envelope key =
     and_then (decode_envelope api json envelope) (\<lambda>(_, payload, message).
     and_then (check (\<not> MAX_SIGNATURES \<le> length (se_signatures envelope)) MLimit) (\<lambda>_.
     and_then (sign api s key message) (\<lambda>signature.
     and_then (encode_public api s key) (\<lambda>encoded.
     and_then (parse_public_key api encoded) (\<lambda>public.
     and_then (check (\<not> (\<exists>entry \<in> set (se_signatures envelope).
         wire_accepted api (es_key_id entry) public)) MDuplicateSigner) (\<lambda>_.
     Inr (envelope\<lparr>se_signatures := se_signatures envelope @ [signature],
       se_payload := b64_encode api payload\<rparr>)))))))"

section \<open>Framing round trips\<close>

lemma length_be32 [simp]: "length (be32 w) = 4"
  by (simp add: be32_def)

lemma recombine_bytes:
  fixes n :: nat
  assumes "n < 2 ^ 32"
  shows "((n div 2 ^ 24 mod 256 * 256 + n div 2 ^ 16 mod 256) * 256 + n div 2 ^ 8 mod 256) * 256
     + n mod 256 = n"
proof -
  have "n div 2 ^ 24 mod 256 = n div 2 ^ 24" using assms by simp
  moreover have "n div 2 ^ 24 * 256 + n div 2 ^ 16 mod 256 = n div 2 ^ 16"
    using div_mult_mod_eq [of "n div 2 ^ 16" 256] by (simp flip: div_mult2_eq)
  moreover have "n div 2 ^ 16 * 256 + n div 2 ^ 8 mod 256 = n div 2 ^ 8"
    using div_mult_mod_eq [of "n div 2 ^ 8" 256] by (simp flip: div_mult2_eq)
  moreover have "n div 2 ^ 8 * 256 + n mod 256 = n"
    using div_mult_mod_eq [of n 256] by simp
  ultimately show ?thesis by simp
qed

lemma unat_drop_bit: "unat (drop_bit s w) = unat w div 2 ^ s" for w :: "'a::len word"
  unfolding unsigned_drop_bit_eq
  by (simp add: take_bit_nat_eq_self drop_bit_eq_div)

lemma from_be32_be32 [simp]: "from_be32 (be32 w) = w"
proof -
  let ?n = "unat w"
  have b: "of_char (char_of (unat (drop_bit s w)) :: char) = ?n div 2 ^ s mod (256 :: nat)" for s
    unfolding unat_drop_bit by (simp add: of_char_of)
  have n: "((?n div 2 ^ 24 mod 256 * 256 + ?n div 2 ^ 16 mod 256) * 256 + ?n div 2 ^ 8 mod 256) * 256
      + ?n div 2 ^ 0 mod 256 = ?n"
  proof -
    have "?n < 2 ^ 32" using unsigned_less [of w] by simp
    from recombine_bytes [OF this] show ?thesis by (simp only: power_0 div_by_1)
  qed
  show ?thesis
    unfolding from_be32_def be32_def list.map list.case b n by simp
qed

lemma read_agent_string_frame:
  assumes "length x < 2 ^ 32"
  shows "read_agent_string (be32 (word_of_nat (length x)) @ x @ rest) = Inr (x, rest)"
proof -
  have "unat (word_of_nat (length x) :: 32 word) = length x"
    using assms by (simp add: unat_of_nat)
  then show ?thesis
    using assms by (simp add: read_agent_string_def Let_def usize_max_def)
qed

lemma read_agent_string_split:
  assumes "read_agent_string input = Inr (x, rest)"
  shows "\<exists>prefix. length prefix = 4 \<and> input = prefix @ x @ rest \<and> length x = unat (from_be32 prefix)"
proof -
  let ?len = "unat (from_be32 (take 4 input))"
  from assms have "4 + ?len \<le> length input" "x = take ?len (drop 4 input)" "rest = drop (4 + ?len) input"
    by (auto simp: read_agent_string_def Let_def split: if_splits)
  then show ?thesis
    by (intro exI [of _ "take 4 input"]) (simp add: add.commute [of 4] append_take_drop_id flip: drop_drop)
qed

lemma agent_response_frame:
  assumes "length sig + 5 \<le> MAX_AGENT_MESSAGE_BYTES"
  shows "agent_response (be32 (word_of_nat (length sig + 5)) @ char_of (14 :: nat)
      # be32 (word_of_nat (length sig)) @ sig @ extra) = Inr sig"
proof -
  have lim: "length sig + 5 < 2 ^ 32"
    using assms by (simp add: MAX_AGENT_MESSAGE_BYTES_def)
  then have "unat (word_of_nat (length sig + 5) :: 32 word) = length sig + 5"
    by (subst unat_of_nat) simp
  moreover have "read_agent_string (be32 (word_of_nat (length sig)) @ sig @ []) = Inr (sig, [])"
    by (rule read_agent_string_frame) (use lim in simp)
  ultimately show ?thesis
    using assms by (simp add: agent_response_def Let_def take_Cons')
qed

section \<open>A native signature verifies\<close>

text \<open>
  The documented behaviour of \<open>base64\<close> and \<open>ed25519-dalek\<close> that signing relies
  on: standard Base64 decodes its own output, uses graphic ASCII only and at most doubles the
  length (plus padding); a signature is 64 bytes and verifies strictly under the public key
  of its seed, which is a valid 32-byte point that also forms an OpenSSH key.
\<close>

definition native_crypto_documented :: "('ssh, 'sig) key_api \<Rightarrow> bool" where
  "native_crypto_documented api \<longleftrightarrow>
     (\<forall>b. b64_decode api (b64_encode api b) = Some b
        \<and> length (b64_encode api b) \<le> 2 * length b + 4
        \<and> (\<forall>c \<in> set (b64_encode api b). 33 \<le> byte_value c \<and> byte_value c < 127))
     \<and> (\<forall>seed m. length (ed_sign api seed m) = 64
        \<and> ed_verify_strict api (ed_public api seed) m (ed_sign api seed m)
        \<and> length (ed_public api seed) = 32 \<and> ed_key_valid api (ed_public api seed)
        \<and> ssh_from_ed25519 api (ed_public api seed) \<noteq> None)"

lemma whitespace_first: "w \<in> set whitespace_encodings \<Longrightarrow> byte_value (hd w) < 33 \<or> 127 \<le> byte_value (hd w)"
  by (auto simp: whitespace_encodings_def)

lemma whitespace_last: "w \<in> set whitespace_encodings \<Longrightarrow> byte_value (last w) < 33 \<or> 127 \<le> byte_value (last w)"
  by (auto simp: whitespace_encodings_def)

lemma trim_graphic:
  assumes "\<forall>c \<in> set s. 33 \<le> byte_value c \<and> byte_value c < 127"
  shows "trim s = s"
proof -
  have hd_in: "hd w \<in> set t" if "w \<noteq> []" "starts_with t w" for w t :: string
    using that by (cases w) (auto simp: starts_with_iff_prefix prefix_def)
  have 1: "strip_pieces whitespace_encodings s = s"
  proof (rule strip_pieces_none)
    fix w assume w: "w \<in> set whitespace_encodings" "w \<noteq> []"
    show "\<not> starts_with s w"
      using hd_in [OF w(2), of s] whitespace_first [OF w(1)] assms by force
  qed
  have 2: "strip_pieces (map rev whitespace_encodings) (rev s) = rev s"
  proof (rule strip_pieces_none)
    fix w assume w: "w \<in> set (map rev whitespace_encodings)" "w \<noteq> []"
    then obtain v where v: "v \<in> set whitespace_encodings" "w = rev v" "v \<noteq> []" by auto
    show "\<not> starts_with (rev s) w"
      using hd_in [OF w(2), of "rev s"] whitespace_last [OF v(1)] assms v by (force simp: hd_rev)
  qed
  show ?thesis by (simp add: trim_def 1 2)
qed

lemma prefix_graphic: "\<forall>c \<in> set PUBLIC_KEY_PREFIX. 33 \<le> byte_value c \<and> byte_value c < 127"
  by (simp add: PUBLIC_KEY_PREFIX_def)

lemma parse_encoded_public:
  assumes "native_crypto_documented api"
  shows "\<exists>ssh. parse_public_key api (encode_public_key api (ed_public api seed)) =
    Inr \<lparr>vk_native = ed_public api seed, vk_ssh = ssh\<rparr>"
proof -
  let ?pub = "ed_public api seed"
  have "trim (encode_public_key api ?pub) = encode_public_key api ?pub"
    by (rule trim_graphic)
      (use assms prefix_graphic in \<open>auto simp: native_crypto_documented_def encode_public_key_def\<close>)
  moreover have "strip_prefix (encode_public_key api ?pub) PUBLIC_KEY_PREFIX = Some (b64_encode api ?pub)"
    by (simp add: strip_prefix_eq_Some encode_public_key_def)
  ultimately show ?thesis
    using assms by (auto simp: parse_public_key_def Let_def native_crypto_documented_def)
qed

lemma native_id_not_legacy: "native_key_id api k \<noteq> legacy_ssh_key_id_bytes api b"
  by (simp add: native_key_id_def legacy_ssh_key_id_bytes_def Let_def)

lemma accepts_native:
  "accepts_wire_id api key (native_key_id api k) = Inr True \<longleftrightarrow>
     native_key_id api k = verification_key_id api key"
  using native_id_not_legacy [of api k, THEN not_sym]
  by (auto simp: accepts_wire_id_def verification_key_id_def legacy_ssh_key_id_def)

lemma find_trusted_native:
  assumes inv: "trusted_inv api trusted" and k: "bt_get trusted (native_key_id api n) = Some key"
  shows "find_trusted api trusted (native_key_id api n) = Some key"
proof -
  have key_id: "verification_key_id api key = native_key_id api n"
    using assms by (simp add: trusted_inv_def)
  have unique: "key' = key" if "key' \<in> set (bt_values trusted)" "wire_accepted api (native_key_id api n) key'" for key'
  proof -
    from that(1) obtain i where i: "bt_get trusted i = Some key'" by auto
    with inv have "i = verification_key_id api key'" by (auto simp: trusted_inv_def)
    moreover have "native_key_id api n = verification_key_id api key'"
      using that(2) by (simp add: wire_accepted_iff accepts_native)
    ultimately show ?thesis using i k by simp
  qed
  have "wire_accepted api (native_key_id api n) key"
    by (simp add: wire_accepted_iff accepts_native key_id)
  moreover have "key \<in> set (bt_values trusted)" using k by auto
  ultimately show ?thesis
    unfolding find_trusted_def
    by (metis (no_types, lifting) find_None_iff find_Some_iff not_None_eq nth_mem unique)
qed

lemma sign_native_entry:
  assumes "native_crypto_documented api" and "sign api s (Ed25519 seed) message = Inr entry"
    and "vk_native key = ed_public api seed"
  shows "es_key_id entry = native_key_id api (ed_public api seed)"
    "verify_signature_entry api entry key message ns = Inr ()"
    "es_key_id entry \<noteq> []" "length (es_signature entry) \<le> MAX_SIGNATURE_BYTES"
proof -
  have e: "entry = \<lparr>es_key_id = native_key_id api (ed_public api seed), es_algorithm = Ed25519V1,
           es_signature = b64_encode api (ed_sign api seed message)\<rparr>"
    using assms(2) by (simp add: sign_def sign_with_namespace_def)
  then show "es_key_id entry = native_key_id api (ed_public api seed)" "es_key_id entry \<noteq> []"
    by (simp_all add: native_key_id_def)
  show "verify_signature_entry api entry key message ns = Inr ()"
    using assms(1,3) by (simp add: e verify_signature_entry_def native_crypto_documented_def)
  have "length (b64_encode api (ed_sign api seed message)) \<le> 2 * length (ed_sign api seed message) + 4"
    "length (ed_sign api seed message) = 64"
    using assms(1) unfolding native_crypto_documented_def by blast+
  then show "length (es_signature entry) \<le> MAX_SIGNATURE_BYTES"
    by (simp add: e MAX_SIGNATURE_BYTES_def)
qed

text \<open>JSON decoding of a canonical encoding gives the value back.\<close>

definition manifest_json_documented :: "payload_json \<Rightarrow> target_manifest \<Rightarrow> bool" where
  "manifest_json_documented json m \<longleftrightarrow>
     (\<forall>b. tm_to_jcs json m = Some b \<longrightarrow> tm_from_json json b = Some m)"

lemma sign_manifest_decodes:
  assumes "native_crypto_documented api" and "manifest_json_documented json m"
    and "sign_manifest api s json m (Ed25519 seed) = Inr envelope"
  shows "\<exists>payload message entry. decode_envelope api json envelope = Inr (m, payload, message)
    \<and> sign api s (Ed25519 seed) message = Inr entry \<and> se_signatures envelope = [entry]"
proof -
  from assms(3) obtain payload message entry where
    p: "validate_manifest_structure m = Inr ()" "tm_to_jcs json m = Some payload"
      "length payload \<le> MAX_PAYLOAD_BYTES" "pae PAYLOAD_TYPE payload = Inr message"
      "sign api s (Ed25519 seed) message = Inr entry"
    and env: "envelope = \<lparr>se_payload_type = PAYLOAD_TYPE, se_payload = b64_encode api payload,
       se_signatures = [entry]\<rparr>"
    by (auto simp: sign_manifest_def)
  have "es_key_id entry \<noteq> []" "length (es_signature entry) \<le> MAX_SIGNATURE_BYTES"
    using sign_native_entry(3,4) [OF assms(1) p(5), of "\<lparr>vk_native = ed_public api seed, vk_ssh = undefined\<rparr>"]
    by simp_all
  moreover have "b64_decode api (b64_encode api payload) = Some payload"
    using assms(1) by (simp add: native_crypto_documented_def)
  ultimately have "decode_envelope api json envelope = Inr (m, payload, message)"
    using p assms(2) by (simp add: decode_envelope_def env MAX_SIGNATURES_def manifest_json_documented_def not_less)
  with p(5) env show ?thesis by simp
qed

lemma sign_then_verify:
  assumes doc: "native_crypto_documented api" "manifest_json_documented json m"
    and sg: "sign_manifest api s json m (Ed25519 seed) = Inr envelope"
    and inv: "trusted_inv api trusted"
    and key: "bt_get trusted (native_key_id api (ed_public api seed)) = Some key"
      "vk_native key = ed_public api seed"
    and ex: "validate_expected m expected = Inr ()"
  shows "verify api json envelope trusted 1 expected =
    Inr \<lparr>vm_manifest = m, vm_signers = {native_key_id api (ed_public api seed)}\<rparr>"
proof -
  obtain payload message entry where d: "decode_envelope api json envelope = Inr (m, payload, message)"
    and e: "sign api s (Ed25519 seed) message = Inr entry" "se_signatures envelope = [entry]"
    using sign_manifest_decodes [OF doc sg] by blast
  have "find_trusted api trusted (es_key_id entry) = Some key"
    unfolding sign_native_entry(1) [OF doc(1) e(1) key(2)] by (rule find_trusted_native [OF inv key(1)])
  moreover have "verify_signature_entry api entry key message SSH_SIGNATURE_NAMESPACE = Inr ()"
    by (rule sign_native_entry(2) [OF doc(1) e(1) key(2)])
  ultimately have fold: "fold_result (verify_entry api trusted message) {} (se_signatures envelope)
      = Inr {native_key_id api (ed_public api seed)}"
    using key(2) by (simp add: e(2) verify_entry_def Let_def verification_key_id_def)
  have "bt_len trusted \<noteq> 0"
    using key(1) by (auto simp: bt_len_def)
  then show ?thesis
    using d ex fold e(2) by (simp add: verify_def)
qed

section \<open>Adding signatures\<close>

lemma add_signature_result:
  assumes "add_signature api s json envelope key = Inr envelope'"
  shows "\<exists>manifest payload message signature encoded public.
     decode_envelope api json envelope = Inr (manifest, payload, message)
     \<and> sign api s key message = Inr signature
     \<and> encode_public api s key = Inr encoded \<and> parse_public_key api encoded = Inr public
     \<and> (\<forall>entry \<in> set (se_signatures envelope). \<not> wire_accepted api (es_key_id entry) public)
     \<and> length (se_signatures envelope') \<le> MAX_SIGNATURES
     \<and> envelope' = envelope\<lparr>se_signatures := se_signatures envelope @ [signature],
         se_payload := b64_encode api payload\<rparr>"
  using assms by (auto simp: add_signature_def)

lemma add_signature_native:
  assumes doc: "native_crypto_documented api"
    and add: "add_signature api s json envelope (Ed25519 seed) = Inr envelope'"
  shows "inspect_unverified api json envelope' = inspect_unverified api json envelope"
    and "\<exists>entry. se_signatures envelope' = se_signatures envelope @ [entry]
       \<and> es_key_id entry = native_key_id api (ed_public api seed)"
    and "add_signature api s json envelope' (Ed25519 seed) \<noteq> Inr envelope''"
proof -
  obtain ssh where pub: "parse_public_key api (encode_public_key api (ed_public api seed)) =
      Inr \<lparr>vk_native = ed_public api seed, vk_ssh = ssh\<rparr>"
    using parse_encoded_public [OF doc] by blast
  let ?key = "\<lparr>vk_native = ed_public api seed, vk_ssh = ssh\<rparr>"
  from add_signature_result [OF add] obtain manifest payload message entry where
    d: "decode_envelope api json envelope = Inr (manifest, payload, message)"
    and e: "sign api s (Ed25519 seed) message = Inr entry"
    and len: "length (se_signatures envelope') \<le> MAX_SIGNATURES"
    and env: "envelope' = envelope\<lparr>se_signatures := se_signatures envelope @ [entry],
         se_payload := b64_encode api payload\<rparr>"
    by blast
  note entry = sign_native_entry [OF doc e, of ?key, simplified]
  have "b64_decode api (b64_encode api payload) = Some payload"
    using doc by (simp add: native_crypto_documented_def)
  with d len entry(3,4) have "decode_envelope api json envelope' = Inr (manifest, payload, message)"
    by (auto simp: decode_envelope_def env)
  with d show "inspect_unverified api json envelope' = inspect_unverified api json envelope"
    by (simp add: inspect_unverified_def)
  show "\<exists>entry. se_signatures envelope' = se_signatures envelope @ [entry]
       \<and> es_key_id entry = native_key_id api (ed_public api seed)"
    using entry(1) by (simp add: env)
  have "wire_accepted api (es_key_id entry) ?key"
    by (simp add: wire_accepted_iff entry(1) accepts_native verification_key_id_def)
  then show "add_signature api s json envelope' (Ed25519 seed) \<noteq> Inr envelope''"
    using pub by (auto simp: env encode_public_def dest!: add_signature_result)
qed

end
