(* ===== verification/Manifest_Properties.thy ===== *)
theory Manifest_Properties
  imports Approval_Signing
begin

text \<open>
  Properties of signed envelopes, with a concrete signature scheme (an injective text
  encoding and a signature that repeats key and message) for the witnesses.
\<close>

section \<open>A concrete scheme\<close>

definition plain_encode :: "bytes \<Rightarrow> string" where
  "plain_encode bs = concat (map (\<lambda>c. [char_of (65 + of_char c div 16 :: nat), char_of (65 + of_char c mod 16 :: nat)]) bs)"

fun plain_decode :: "string \<Rightarrow> bytes option" where
  "plain_decode [] = Some []"
| "plain_decode [c] = None"
| "plain_decode (c # d # cs) =
     map_option (\<lambda>bs. char_of ((of_char c - 65) * 16 + (of_char d - 65) :: nat) # bs) (plain_decode cs)"

definition plain_public :: "bytes \<Rightarrow> bytes" where
  "plain_public seed = take 32 (seed @ replicate 32 (CHR ''0''))"

definition plain_signature :: "bytes \<Rightarrow> bytes \<Rightarrow> bytes" where
  "plain_signature public message = take 64 (public @ message @ replicate 64 (CHR ''0''))"

definition plain_keys :: "(string, string) key_api" where
  "plain_keys = \<lparr>b64_encode = plain_encode, b64_decode = plain_decode, b64url_decode = plain_decode,
     ed_key_valid = (\<lambda>_. True), ed_public = plain_public,
     ed_sign = (\<lambda>seed m. plain_signature (plain_public seed) m),
     ed_verify_strict = (\<lambda>k m s. s = plain_signature k m),
     ssh_from_openssh = Some, ssh_from_ed25519 = Some, ssh_is_ed25519 = (\<lambda>_. True),
     ssh_ed25519_bytes = Some, ssh_to_openssh = Some, sshsig_from_pem = Some,
     sshsig_is_ed25519 = (\<lambda>_. True), ssh_verify = (\<lambda>k n m s. s = k @ n @ m), key_blake3 = (\<lambda>s. s)\<rparr>"

definition plain_signer :: "(string, string, string) signer_api" where
  "plain_signer = \<lparr>priv_from_openssh = Some, priv_is_encrypted = (\<lambda>_. False), priv_is_ed25519 = (\<lambda>_. True),
     priv_public = (\<lambda>k. k), priv_sign = (\<lambda>k n m. Some (k @ n @ m)), sshsig_signed_data = (\<lambda>n m. Some (n @ m)),
     ssh_to_bytes = Some, ask_agent = (\<lambda>_ _. None), raw_from_bytes = Some, raw_is_ed25519 = (\<lambda>_. True),
     sshsig_new_pem = (\<lambda>k n r. Some (k @ n @ r))\<rparr>"

lemma plain_digits:
  fixes n :: nat
  assumes "n < 256"
  shows "of_char (char_of (65 + n div 16) :: char) = 65 + n div 16"
    "of_char (char_of (65 + n mod 16) :: char) = 65 + n mod 16"
  using assms by (simp_all add: of_char_of)

lemma plain_decode_encode: "plain_decode (plain_encode bs) = Some bs"
proof (induction bs)
  case Nil
  then show ?case by (simp add: plain_encode_def)
next
  case (Cons c bs)
  have lt: "(of_char c :: nat) < 256" by simp
  have "(of_char c :: nat) div 16 * 16 + of_char c mod 16 = of_char c" by simp
  with Cons plain_digits [OF lt] show ?case
    by (simp add: plain_encode_def)
qed

lemma plain_encode_graphic:
  "c \<in> set (plain_encode bs) \<Longrightarrow> 33 \<le> byte_value c \<and> byte_value c < 127"
proof (induction bs)
  case Nil
  then show ?case by (simp add: plain_encode_def)
next
  case (Cons d bs)
  have lt: "(of_char d :: nat) < 256" by simp
  then have "(of_char d :: nat) div 16 < 16" "(of_char d :: nat) mod 16 < 16"
    by (auto simp: div_less_iff_less_mult)
  with Cons plain_digits [OF lt] show ?case
    by (auto simp: plain_encode_def)
qed

lemma length_plain_encode: "length (plain_encode bs) = 2 * length bs"
  by (induction bs) (simp_all add: plain_encode_def)

lemma plain_documented: "native_crypto_documented plain_keys"
  unfolding native_crypto_documented_def
  using plain_encode_graphic
  by (auto simp: plain_keys_def plain_decode_encode length_plain_encode plain_public_def plain_signature_def)

definition example_digest :: string where
  "example_digest = replicate 64 (CHR ''0'')"

definition example_manifest :: target_manifest where
  "example_manifest = \<lparr>tm_schema = ARTIFACT_SCHEMA, tm_tool_version = ''1'', tm_plan_hash = example_digest,
     tm_target_policy_hash = example_digest, tm_artifact_policy_hash = example_digest,
     tm_source_ciphertext_hash = example_digest, tm_artifact_ciphertext_hash = example_digest,
     tm_target_id = Id ''host'', tm_secret_id = Id ''db'', tm_recipient_fingerprint = example_digest,
     tm_artifact_generation = 1, tm_issued_at = 10, tm_expires_at = Some 20\<rparr>"

definition example_binding :: expected_binding where
  "example_binding = \<lparr>eb_tool_version = ''1'', eb_artifact_policy_hash = example_digest,
     eb_source_ciphertext_hash = example_digest, eb_artifact_ciphertext_hash = example_digest,
     eb_target_id = Id ''host'', eb_secret_id = Id ''db'', eb_recipient_fingerprint = example_digest,
     eb_artifact_generation = 1, eb_now = 15, eb_allowed_clock_skew = 0\<rparr>"

definition example_capability :: delegated_create_capability where
  "example_capability = \<lparr>dc_schema = DELEGATED_CREATE_CAPABILITY_SCHEMA, dc_operation = ''create'',
     dc_capability_id = plain_encode (replicate 32 (CHR ''1'')), dc_bootstrap_plan_hash = example_digest,
     dc_secret_id = Id ''db'', dc_source = ''secrets/db.age'', dc_recipient_set_hash = example_digest,
     dc_plaintext_sha256 = example_digest, dc_max_plaintext_bytes = 100, dc_issued_at = 10,
     dc_not_before = 10, dc_expires_at = 900\<rparr>"

definition example_json :: payload_json where
  "example_json = \<lparr>tm_to_jcs = (\<lambda>m. if m = example_manifest then Some ''{manifest}'' else None),
     tm_from_json = (\<lambda>b. if b = ''{manifest}'' then Some example_manifest else None),
     dc_to_jcs = (\<lambda>c. if c = example_capability then Some ''{capability}'' else None),
     dc_from_json = (\<lambda>b. if b = ''{capability}'' then Some example_capability else None)\<rparr>"

definition example_seed_key :: bytes where
  "example_seed_key = replicate 32 (CHR ''7'')"

definition example_trusted :: "string trusted_keys" where
  "example_trusted = bt_of_list [(native_key_id plain_keys (plain_public example_seed_key),
     \<lparr>vk_native = plain_public example_seed_key, vk_ssh = plain_public example_seed_key\<rparr>)]"

definition example_envelope :: signed_envelope where
  "example_envelope = (case sign_manifest plain_keys plain_signer example_json example_manifest (Ed25519 example_seed_key) of
     Inr e \<Rightarrow> e | Inl _ \<Rightarrow> \<lparr>se_payload_type = [], se_payload = [], se_signatures = []\<rparr>)"

lemma example_signed:
  "sign_manifest plain_keys plain_signer example_json example_manifest (Ed25519 example_seed_key)
     = Inr example_envelope"
  by code_simp

section \<open>The signed message\<close>

text \<open>
  C31. The pre-authentication encoding is injective: two payloads with their types have the
  same signed message only when both types and both payloads are equal, whatever bytes they
  contain. A signature can therefore not be read as covering anything else.
\<close>

theorem pae_injective:
  assumes "pae t p = Inr m" and "pae t' p' = Inr m"
  shows "t = t' \<and> p = p'"
  by (rule pae_eq [OF assms])

theorem pae_injective_witness: "\<exists>m. pae ''a'' ''b c'' = Inr m \<and> (\<forall>t p. pae t p = Inr m \<longrightarrow> t = ''a'' \<and> p = ''b c'')"
proof -
  have "pae ''a'' ''b c'' = Inr ''DSSEv1 1 a 3 b c''" by code_simp
  then show ?thesis using pae_injective [of "''a''" "''b c''"] by metis
qed



section \<open>Verification\<close>



text \<open>
  C30. A manifest signed with a native key verifies under a trust set that holds that key, at
  threshold one and with expectations it meets; the one signer is the key's identifier. Legacy
  OpenSSH identifiers of other keys cannot be mistaken for it.
\<close>

theorem sign_verify_roundtrip:
  assumes "native_crypto_documented api" and "manifest_json_documented json m"
    and "sign_manifest api s json m (Ed25519 seed) = Inr envelope"
    and "trusted_inv api trusted"
    and "bt_get trusted (native_key_id api (ed_public api seed)) = Some key"
    and "vk_native key = ed_public api seed"
    and "validate_expected m expected = Inr ()"
  shows "verify api json envelope trusted 1 expected =
    Inr \<lparr>vm_manifest = m, vm_signers = {native_key_id api (ed_public api seed)}\<rparr>"
  by (rule sign_then_verify [OF assms])

theorem sign_verify_roundtrip_witness:
  "verify plain_keys example_json example_envelope example_trusted 1 example_binding =
     Inr \<lparr>vm_manifest = example_manifest, vm_signers = {native_key_id plain_keys (ed_public plain_keys example_seed_key)}\<rparr>"
proof (rule sign_verify_roundtrip [OF plain_documented _ example_signed])
  show "manifest_json_documented example_json example_manifest"
    by (simp add: manifest_json_documented_def example_json_def)
  show "trusted_inv plain_keys example_trusted"
    by (auto simp: trusted_inv_def example_trusted_def bt_of_list_def verification_key_id_def split: if_splits)
  show "bt_get example_trusted (native_key_id plain_keys (ed_public plain_keys example_seed_key)) =
      Some \<lparr>vk_native = plain_public example_seed_key, vk_ssh = plain_public example_seed_key\<rparr>"
    by (simp add: example_trusted_def bt_of_list_def plain_keys_def)
  show "vk_native \<lparr>vk_native = plain_public example_seed_key, vk_ssh = plain_public example_seed_key\<rparr>
      = ed_public plain_keys example_seed_key"
    by (simp add: plain_keys_def)
  show "validate_expected example_manifest example_binding = Inr ()" by code_simp
qed

text \<open>
  Adding a signature with a native key appends exactly one entry under the key's own
  identifier, leaves the decoded manifest as it was, and can be done once: a second addition
  by the same key is refused.
\<close>

theorem add_signature_once:
  assumes "native_crypto_documented api"
    and "add_signature api s json envelope (Ed25519 seed) = Inr envelope'"
  shows "inspect_unverified api json envelope' = inspect_unverified api json envelope
    \<and> (\<exists>entry. se_signatures envelope' = se_signatures envelope @ [entry]
         \<and> es_key_id entry = native_key_id api (ed_public api seed))
    \<and> \<not> is_ok (add_signature api s json envelope' (Ed25519 seed))"
  using add_signature_native [OF assms] by (auto simp: is_ok_iff)

theorem add_signature_once_witness:
  "\<exists>e. add_signature plain_keys plain_signer example_json example_envelope (Ed25519 ''other'') = Inr e
     \<and> \<not> is_ok (add_signature plain_keys plain_signer example_json e (Ed25519 ''other''))"
proof -
  have "is_ok (add_signature plain_keys plain_signer example_json example_envelope (Ed25519 ''other''))"
    by code_simp
  then obtain e where "add_signature plain_keys plain_signer example_json example_envelope (Ed25519 ''other'') = Inr e"
    by (auto simp: is_ok_iff)
  with add_signature_once [OF plain_documented this] show ?thesis by blast
qed

section \<open>Capabilities and agent messages\<close>

text \<open>
  C33. A verified create capability was valid on its own terms: it authorizes only creation, at
  most 64 KiB of plaintext, and its window ends at most 900 seconds after issue and contains
  the current time; the bound on the window is computed without wrap-around.
\<close>

theorem capability_window:
  assumes "verify_delegated_create_capability api json envelope trusted now skew = Inr c"
  shows "dc_operation c = ''create'' \<and> 0 < unat (dc_max_plaintext_bytes c)
    \<and> unat (dc_max_plaintext_bytes c) \<le> 65536
    \<and> unat (dc_not_before c) \<le> unat now \<and> unat now < unat (dc_expires_at c)
    \<and> unat (dc_expires_at c) \<le> unat (dc_issued_at c) + 900
    \<and> unat (dc_issued_at c) \<le> unat now + unat skew
    \<and> (\<exists>entry key payload message. se_signatures envelope = [entry]
         \<and> dc_to_jcs json c = Some payload
         \<and> pae DELEGATED_CAPABILITY_PAYLOAD_TYPE payload = Inr message
         \<and> signed_by api trusted message DELEGATED_CAPABILITY_SSH_NAMESPACE entry key)"
proof -
  from assms obtain payload latest message key where
    ty: "se_payload_type envelope = DELEGATED_CAPABILITY_PAYLOAD_TYPE" "length (se_signatures envelope) = 1"
    and v: "validate_delegated_capability api c = Inr ()" and j: "dc_to_jcs json c = Some payload"
    and l: "checked_add now skew = Some latest"
    and t: "dc_issued_at c \<le> latest" "dc_not_before c \<le> now" "now < dc_expires_at c"
    and m: "pae DELEGATED_CAPABILITY_PAYLOAD_TYPE payload = Inr message"
    and k: "find_trusted api trusted (es_key_id (se_signatures envelope ! 0)) = Some key"
      "verify_signature_entry api (se_signatures envelope ! 0) key message DELEGATED_CAPABILITY_SSH_NAMESPACE = Inr ()"
    by (auto simp: verify_delegated_create_capability_def Let_def not_less not_le simp del: checked_add_Some)
  from ty(2) obtain entry where e: "se_signatures envelope = [entry]"
    by (auto simp: length_Suc_conv One_nat_def)
  have s: "signed_by api trusted message DELEGATED_CAPABILITY_SSH_NAMESPACE entry key"
    using k find_trusted_Some [OF k(1)] by (simp add: e signed_by_def)
  have "unat latest = unat now + unat skew" using l by simp
  moreover have "0 < unat (dc_max_plaintext_bytes c)" "unat (dc_max_plaintext_bytes c) \<le> 65536"
    "dc_operation c = ''create''"
    using v by (auto simp: validate_delegated_capability_def MAX_DELEGATED_PLAINTEXT_BYTES_def
        word_le_nat_alt not_less unat_gt_0)
  ultimately show ?thesis
    using t delegated_window [OF v] e j m s by (auto simp: word_le_nat_alt word_less_nat_alt)
qed

theorem capability_window_witness:
  "\<exists>e c. sign_delegated_create_capability plain_keys plain_signer example_json example_capability
        (Ed25519 example_seed_key) = Inr e
     \<and> verify_delegated_create_capability plain_keys example_json e example_trusted 100 0 = Inr c
     \<and> unat (dc_expires_at c) \<le> unat (dc_issued_at c) + 900"
proof -
  have "is_ok (and_then (sign_delegated_create_capability plain_keys plain_signer example_json
      example_capability (Ed25519 example_seed_key))
      (\<lambda>e. verify_delegated_create_capability plain_keys example_json e example_trusted 100 0))" by code_simp
  then obtain e c where "sign_delegated_create_capability plain_keys plain_signer example_json
      example_capability (Ed25519 example_seed_key) = Inr e"
    and c: "verify_delegated_create_capability plain_keys example_json e example_trusted 100 0 = Inr c"
    by (auto simp: is_ok_iff)
  with capability_window [OF c] show ?thesis by blast
qed

text \<open>
  Agent messages are framed exactly: a string written with its big-endian length is read
  back with the rest of the input, a well-formed signature response yields its signature
  bytes, and whatever is read was a prefix of the input of the announced length.
\<close>

theorem agent_framing:
  "(length x < 2 ^ 32 \<longrightarrow> read_agent_string (be32 (word_of_nat (length x)) @ x @ rest) = Inr (x, rest))
   \<and> (length x + 5 \<le> MAX_AGENT_MESSAGE_BYTES \<longrightarrow>
        agent_response (be32 (word_of_nat (length x + 5)) @ char_of (14 :: nat)
          # be32 (word_of_nat (length x)) @ x @ rest) = Inr x)
   \<and> (\<forall>input y r. read_agent_string input = Inr (y, r) \<longrightarrow>
        (\<exists>pre. length pre = 4 \<and> input = pre @ y @ r \<and> length y = unat (from_be32 pre)))"
  using read_agent_string_frame agent_response_frame read_agent_string_split by blast

theorem agent_framing_witness:
  "read_agent_string (be32 (word_of_nat (length ''sig'')) @ ''sig'' @ ''tail'') = Inr (''sig'', ''tail'')
   \<and> agent_response (be32 (word_of_nat (length ''sig'' + 5)) @ char_of (14 :: nat)
       # be32 (word_of_nat (length ''sig'')) @ ''sig'' @ ''tail'') = Inr ''sig''"
proof -
  have "length ''sig'' < 2 ^ 32" "length ''sig'' + 5 \<le> MAX_AGENT_MESSAGE_BYTES"
    by (simp_all add: MAX_AGENT_MESSAGE_BYTES_def)
  then show ?thesis using agent_framing [of "''sig''" "''tail''"] by blast
qed

end
