(* ===== verification/Readers.thy ===== *)
theory Readers
  imports Prelude
begin

text \<open>
  Byte streams: Rust's \<open>Read\<close> as the loops of the program see it, and UTF-8 validation
  (\<open>std::str::from_utf8\<close>) with the error positions the streaming decoder uses.
\<close>

section \<open>Readers\<close>

text \<open>
  A reader is the list of the pieces its reads return; a read of at most \<open>maximum\<close> bytes
  takes from the first piece. An empty piece is a read of zero bytes, the end of the input.
\<close>

fun read_some :: "nat \<Rightarrow> bytes list \<Rightarrow> bytes \<times> bytes list" where
  "read_some maximum [] = ([], [])"
| "read_some maximum (piece # rest) =
     (take maximum piece, if length piece \<le> maximum then rest else drop maximum piece # rest)"

lemma read_some_pieces:
  assumes "read_some maximum input = (piece, rest)" and "[] \<notin> set input" and "0 < maximum"
  shows "concat input = piece @ concat rest" "[] \<notin> set rest" "piece = [] \<longleftrightarrow> input = []"
    "length piece \<le> maximum"
  using assms by (cases input; auto split: if_splits)+

lemma read_some_shorter:
  "read_some maximum input = (piece, rest) \<Longrightarrow> piece \<noteq> [] \<Longrightarrow> length (concat rest) < length (concat input)"
  by (cases input) (auto split: if_splits)

text \<open>A regular file as a reader.\<close>

definition file_reader :: "bytes \<Rightarrow> bytes list" where
  "file_reader content = (if content = [] then [] else [content])"

lemma file_reader_pieces [simp]: "[] \<notin> set (file_reader content)" "concat (file_reader content) = content"
  by (auto simp: file_reader_def)

section \<open>UTF-8\<close>

text \<open>
  The first character of a non-empty byte sequence: it takes so many bytes, it is malformed
  (\<open>error_len\<close> is some length), or the input ends inside it (\<open>error_len\<close> is none).
\<close>

datatype utf8_char = Whole nat | Broken | Short

definition utf8_width :: "char \<Rightarrow> nat" where
  "utf8_width b =
     (let v = byte_value b in
      if v < 128 then 1 else if 194 \<le> v \<and> v \<le> 223 then 2
      else if 224 \<le> v \<and> v \<le> 239 then 3 else if 240 \<le> v \<and> v \<le> 244 then 4 else 0)"

definition is_continuation :: "char \<Rightarrow> bool" where
  "is_continuation b \<longleftrightarrow> 128 \<le> byte_value b \<and> byte_value b \<le> 191"

definition utf8_second :: "char \<Rightarrow> char \<Rightarrow> bool" where
  "utf8_second first b \<longleftrightarrow>
     (let v = byte_value first; w = byte_value b in
      if v = 224 then 160 \<le> w \<and> w \<le> 191 else if v = 237 then 128 \<le> w \<and> w \<le> 159
      else if v = 240 then 144 \<le> w \<and> w \<le> 191 else if v = 244 then 128 \<le> w \<and> w \<le> 143
      else 128 \<le> w \<and> w \<le> 191)"

definition utf8_tail_ok :: "char \<Rightarrow> bytes \<Rightarrow> bool" where
  "utf8_tail_ok b tail =
     (case tail of [] \<Rightarrow> True | x # xs \<Rightarrow> utf8_second b x \<and> list_all is_continuation xs)"

fun utf8_head :: "bytes \<Rightarrow> utf8_char" where
  "utf8_head [] = Short"
| "utf8_head (b # bs) =
     (let n = utf8_width b; tail = take (n - 1) bs in
      if n = 0 \<or> \<not> utf8_tail_ok b tail then Broken
      else if length tail = n - 1 then Whole n else Short)"

text \<open>\<open>Utf8Err valid_up_to incomplete\<close>\<close>

datatype utf8_result = Utf8Ok | Utf8Err nat bool

definition utf8_shift :: "nat \<Rightarrow> utf8_result \<Rightarrow> utf8_result" where
  "utf8_shift n r = (case r of Utf8Ok \<Rightarrow> Utf8Ok | Utf8Err v i \<Rightarrow> Utf8Err (n + v) i)"

lemma utf8_head_Whole: "utf8_head bs = Whole n \<Longrightarrow> 0 < n \<and> n \<le> length bs"
  by (cases bs) (auto simp: Let_def split: if_splits)

function from_utf8 :: "bytes \<Rightarrow> utf8_result" where
  "from_utf8 bs =
     (if bs = [] then Utf8Ok
      else case utf8_head bs of
        Whole n \<Rightarrow> utf8_shift n (from_utf8 (drop n bs))
      | Broken \<Rightarrow> Utf8Err 0 False
      | Short \<Rightarrow> Utf8Err 0 True)"
  by pat_completeness auto
termination
  by (relation "measure length") (auto dest: utf8_head_Whole)

declare from_utf8.simps [simp del]

abbreviation valid_utf8 :: "bytes \<Rightarrow> bool" where
  "valid_utf8 bs \<equiv> from_utf8 bs = Utf8Ok"

lemma from_utf8_Nil [simp]: "from_utf8 [] = Utf8Ok"
  by (simp add: from_utf8.simps)

lemma utf8_shift_simps [simp]:
  "utf8_shift n r = Utf8Ok \<longleftrightarrow> r = Utf8Ok"
  "utf8_shift n (utf8_shift m r) = utf8_shift (n + m) r"
  "utf8_shift n Utf8Ok = Utf8Ok" "utf8_shift n (Utf8Err v i) = Utf8Err (n + v) i"
  "utf8_shift 0 r = r"
  by (auto simp: utf8_shift_def split: utf8_result.splits)

lemma utf8_tail_ok_prefix: "utf8_tail_ok b (xs @ ys) \<Longrightarrow> utf8_tail_ok b xs"
  by (cases xs) (auto simp: utf8_tail_ok_def)

lemma utf8_head_Whole_append: "utf8_head bs = Whole n \<Longrightarrow> utf8_head (bs @ more) = Whole n"
  by (cases bs) (auto simp: Let_def split: if_splits)

lemma utf8_head_Broken_append: "utf8_head bs = Broken \<Longrightarrow> utf8_head (bs @ more) = Broken"
  by (cases bs) (auto simp: Let_def dest: utf8_tail_ok_prefix split: if_splits)

lemma utf8_head_Short: "utf8_head bs = Short \<Longrightarrow> length bs \<le> 3"
proof (cases bs)
  case (Cons b cs)
  moreover have "utf8_width b \<le> 4" by (simp add: utf8_width_def Let_def)
  moreover assume "utf8_head bs = Short"
  ultimately show ?thesis by (auto simp: Let_def split: if_splits)
qed simp

lemma from_utf8_append: "valid_utf8 xs \<Longrightarrow> from_utf8 (xs @ ys) = utf8_shift (length xs) (from_utf8 ys)"
proof (induction xs rule: from_utf8.induct)
  case (1 bs)
  show ?case
  proof (cases "bs = []")
    case False
    with "1.prems" obtain n where n: "utf8_head bs = Whole n" and rest: "valid_utf8 (drop n bs)"
      by (subst (asm) from_utf8.simps) (auto split: utf8_char.splits)
    from utf8_head_Whole [OF n] have le: "n \<le> length bs" by simp
    have "from_utf8 (bs @ ys) = utf8_shift n (from_utf8 (drop n bs @ ys))"
      using False n le by (subst from_utf8.simps) (simp add: utf8_head_Whole_append)
    also have "\<dots> = utf8_shift (length bs) (from_utf8 ys)"
      using "1.IH" [OF False n rest] le by simp
    finally show ?thesis .
  qed simp
qed

lemma from_utf8_error:
  assumes "from_utf8 bs = Utf8Err v incomplete"
  shows "v < length bs" and "valid_utf8 (take v bs)"
    and "utf8_head (drop v bs) = (if incomplete then Short else Broken)"
  using assms
proof (induction bs arbitrary: v rule: from_utf8.induct)
  case (1 bs)
  {
    fix v
    assume err: "from_utf8 bs = Utf8Err v incomplete"
    then have ne: "bs \<noteq> []" by auto
    have "v < length bs \<and> valid_utf8 (take v bs)
        \<and> utf8_head (drop v bs) = (if incomplete then Short else Broken)"
    proof (cases "utf8_head bs")
      case (Whole n)
      with err ne obtain w where w: "from_utf8 (drop n bs) = Utf8Err w incomplete" "v = n + w"
        by (subst (asm) from_utf8.simps) (auto simp: utf8_shift_def split: utf8_result.splits)
      note IH = "1.IH" [OF ne Whole]
      from utf8_head_Whole [OF Whole] have le: "0 < n" "n \<le> length bs" by auto
      have "valid_utf8 (take n bs)"
      proof -
        have "utf8_head (take n bs) = Whole n"
          using Whole le by (cases bs) (auto simp: Let_def take_Cons' min_def split: if_splits)
        with le ne show ?thesis by (subst from_utf8.simps) simp
      qed
      from from_utf8_append [OF this, of "take w (drop n bs)"] IH(2) [OF w(1)] le
      have "valid_utf8 (take n bs @ take w (drop n bs))" by simp
      then have "valid_utf8 (take v bs)" by (simp add: w(2) take_add)
      with IH(1) [OF w(1)] IH(3) [OF w(1)] le show ?thesis
        by (auto simp: w(2) add.commute)
    qed (use err ne in \<open>subst (asm) from_utf8.simps, auto\<close>)+
  }
  then show "\<And>v. from_utf8 bs = Utf8Err v incomplete \<Longrightarrow> v < length bs"
    and "\<And>v. from_utf8 bs = Utf8Err v incomplete \<Longrightarrow> valid_utf8 (take v bs)"
    and "\<And>v. from_utf8 bs = Utf8Err v incomplete \<Longrightarrow> utf8_head (drop v bs) = (if incomplete then Short else Broken)"
    by blast+
qed

lemma from_utf8_broken:
  assumes "from_utf8 bs = Utf8Err v False"
  shows "\<not> valid_utf8 (bs @ more)"
proof -
  from from_utf8_error [OF assms] have v: "v < length bs" "valid_utf8 (take v bs)"
    "utf8_head (drop v bs) = Broken" by auto
  have "from_utf8 (take v bs @ (drop v bs @ more)) = utf8_shift (length (take v bs)) (from_utf8 (drop v bs @ more))"
    by (rule from_utf8_append [OF v(2)])
  moreover have "from_utf8 (drop v bs @ more) = Utf8Err 0 False"
    using v(1) utf8_head_Broken_append [OF v(3)] by (subst from_utf8.simps) simp
  ultimately show ?thesis by (simp flip: append_assoc)
qed

lemma valid_utf8_append: "valid_utf8 xs \<Longrightarrow> valid_utf8 (xs @ ys) \<longleftrightarrow> valid_utf8 ys"
  by (simp add: from_utf8_append)

end
