(* ===== verification/Cache_Store.thy ===== *)
theory Cache_Store
  imports Envelope Readers
begin

text \<open>
  The ciphertext cache of \<open>crates/nix-seal-cache/src/lib.rs\<close>, over an explicit model of
  the files below a cache root: two directories, \<open>objects\<close> and \<open>artifacts\<close>, whose
  entries are regular files, bundle directories, symbolic links or something else, each
  with owner, permission bits and link count. The two directories themselves are not symbolic
  links.

  Directory listings are taken in name order (the operating system fixes no order); which
  of several errors is reported first depends on it, no property does. The exclusive
  lock makes the operations of one cache sequential, so each is one step here. Operating-system faults
  (a full disk, a vanished file) are not modelled: an operation fails for the reasons the code
  tests. BLAKE3 is a parameter.
\<close>

unbundle bit_operations_syntax

section \<open>Constants, errors and the file model\<close>

definition MAX_CIPHERTEXT_BYTES :: nat where
  "MAX_CIPHERTEXT_BYTES = 70 * 1024 * 1024"

definition MAX_ENVELOPE_BYTES :: nat where
  "MAX_ENVELOPE_BYTES = 2 * 1024 * 1024"

definition MAX_TRANSFER_ENTRIES :: nat where
  "MAX_TRANSFER_ENTRIES = 10000"

definition MAX_TRANSFER_BYTES :: nat where
  "MAX_TRANSFER_BYTES = 8 * 1024 * 1024 * 1024"

definition MAX_INVENTORY_ENVELOPE_BYTES :: nat where
  "MAX_INVENTORY_ENVELOPE_BYTES = 64 * 1024 * 1024"

definition ARTIFACT_FORMAT :: string where
  "ARTIFACT_FORMAT = ''nix-seal.cache-artifact.v3''"

definition TRANSACTION_PREFIX :: string where
  "TRANSACTION_PREFIX = ''.nix-seal-txn-''"

datatype cache_error =
    CIo | CHashMismatch | CInvalidAddress | CLimit | CArtifactExists | CDestinationExists
  | CConflict | CUnsafeMetadata

record meta =
  meta_uid :: nat
  meta_mode :: "32 word"
  meta_nlink :: nat

datatype leaf = LFile meta bytes | LOther

datatype entry =
    EFile meta bytes
  | EDir meta "(string, leaf) btree_map"
  | ESymlink bool
  | ESpecial

text \<open>\<open>ESymlink b\<close>: \<open>b\<close> tells whether the link resolves.\<close>

datatype area = Absent | Area meta "(string, entry) btree_map" | NotDirectory

record cache =
  c_objects :: area
  c_artifacts :: area
  c_euid :: nat
  c_allow_foreign_owner :: bool
  c_hash :: "bytes \<Rightarrow> string"

text \<open>\<open>c_hash\<close> is \<open>blake3::hash(bytes).to_hex()\<close>.\<close>

definition group_or_world :: "32 word \<Rightarrow> bool" where
  "group_or_world mode \<longleftrightarrow> mode AND 0x3F \<noteq> 0"

definition private_ok :: "cache \<Rightarrow> meta \<Rightarrow> bool" where
  "private_ok c m \<longleftrightarrow>
     \<not> (\<not> c_allow_foreign_owner c \<and> meta_uid m \<noteq> c_euid c) \<and> \<not> group_or_world (meta_mode m)"

text \<open>\<open>validate_private_metadata\<close> for a regular file, \<open>file_length\<close> and
  \<open>open_private_regular\<close> all accept exactly the private regular files with one link.\<close>

definition private_file :: "cache \<Rightarrow> meta \<Rightarrow> bool" where
  "private_file c m \<longleftrightarrow> private_ok c m \<and> meta_nlink m = 1"

definition open_private_entry :: "cache \<Rightarrow> entry option \<Rightarrow> cache_error + bytes" where
  "open_private_entry c e =
     (case e of
        None \<Rightarrow> Inl CIo
      | Some (EFile m bs) \<Rightarrow> if private_file c m then Inr bs else Inl CUnsafeMetadata
      | Some (EDir _ _) \<Rightarrow> Inl CUnsafeMetadata
      | Some (ESymlink _) \<Rightarrow> Inl CIo
      | Some ESpecial \<Rightarrow> Inl CUnsafeMetadata)"

definition entry_length :: "cache \<Rightarrow> entry \<Rightarrow> cache_error + nat" where
  "entry_length c e =
     (case e of EFile m bs \<Rightarrow> if private_file c m then Inr (length bs) else Inl CUnsafeMetadata
      | _ \<Rightarrow> Inl CUnsafeMetadata)"

definition leaf_length :: "cache \<Rightarrow> leaf option \<Rightarrow> cache_error + nat" where
  "leaf_length c l =
     (case l of
        None \<Rightarrow> Inl CIo
      | Some (LFile m bs) \<Rightarrow> if private_file c m then Inr (length bs) else Inl CUnsafeMetadata
      | Some LOther \<Rightarrow> Inl CUnsafeMetadata)"

definition open_private_leaf :: "cache \<Rightarrow> leaf option \<Rightarrow> cache_error + bytes" where
  "open_private_leaf c l =
     (case l of
        Some (LFile m bs) \<Rightarrow> if private_file c m then Inr bs else Inl CUnsafeMetadata
      | _ \<Rightarrow> Inl CIo)"

text \<open>\<open>read_directory_if_present\<close>\<close>

definition read_area :: "area \<Rightarrow> cache_error + (string \<times> entry) list" where
  "read_area a = (case a of Absent \<Rightarrow> Inr [] | Area _ es \<Rightarrow> Inr (items es) | NotDirectory \<Rightarrow> Inl CIo)"

definition area_entry :: "area \<Rightarrow> string \<Rightarrow> entry option" where
  "area_entry a name = (case a of Area _ es \<Rightarrow> bt_get es name | _ \<Rightarrow> None)"

definition set_entry :: "area \<Rightarrow> string \<Rightarrow> entry \<Rightarrow> area" where
  "set_entry a name e = (case a of Area m es \<Rightarrow> Area m (bt_insert name e es) | _ \<Rightarrow> a)"

definition remove_entry :: "area \<Rightarrow> string \<Rightarrow> area" where
  "remove_entry a name =
     (case a of Area m es \<Rightarrow> Area m (bt_filter (\<lambda>(n, _). n \<noteq> name) es) | _ \<Rightarrow> a)"

definition private_directory_meta :: "nat \<Rightarrow> meta" where
  "private_directory_meta euid = \<lparr>meta_uid = euid, meta_mode = 0x1C0, meta_nlink = 2\<rparr>"

definition private_file_meta :: "nat \<Rightarrow> meta" where
  "private_file_meta euid = \<lparr>meta_uid = euid, meta_mode = 0x180, meta_nlink = 1\<rparr>"

text \<open>\<open>ensure_private_directory\<close>: create with mode 0700, or require the owner and reset
  the mode.\<close>

definition ensure_private_directory :: "nat \<Rightarrow> area \<Rightarrow> cache_error + area" where
  "ensure_private_directory euid a =
     (case a of
        Absent \<Rightarrow> Inr (Area (private_directory_meta euid) bt_empty)
      | NotDirectory \<Rightarrow> Inl CUnsafeMetadata
      | Area m es \<Rightarrow>
          if meta_uid m \<noteq> euid then Inl CUnsafeMetadata else Inr (Area (m\<lparr>meta_mode := 0x1C0\<rparr>) es))"

definition read_bounded :: "bytes \<Rightarrow> nat \<Rightarrow> cache_error + bytes" where
  "read_bounded input limit =
     (let bs = take (limit + 1) input in if limit < length bs then Inl CLimit else Inr bs)"

section \<open>Addresses\<close>

record artifact_address =
  aa_artifact_policy_hash :: string
  aa_source_ciphertext_hash :: string
  aa_recipient_fingerprint :: string
  aa_target_id :: string
  aa_secret_id :: string
  aa_artifact_generation :: "64 word"

definition is_id :: "string \<Rightarrow> bool" where
  "is_id value \<longleftrightarrow>
     value \<noteq> [] \<and> \<not> starts_with value ''/''
     \<and> (\<forall>segment \<in> set (split_on (CHR ''/'') value).
          segment \<noteq> [] \<and> segment \<noteq> ''.'' \<and> segment \<noteq> ''..''
          \<and> (\<forall>b \<in> set segment. is_ascii_lowercase b \<or> is_ascii_digit b \<or> b \<in> set ''._-''))"

definition address_validate :: "artifact_address \<Rightarrow> cache_error + unit" where
  "address_validate a =
     check (is_digest (aa_artifact_policy_hash a) \<and> is_digest (aa_source_ciphertext_hash a)
         \<and> is_digest (aa_recipient_fingerprint a)
         \<and> is_id (aa_target_id a) \<and> is_id (aa_secret_id a) \<and> 0 < aa_artifact_generation a)
       CInvalidAddress"

text \<open>\<open>u64::to_be_bytes\<close>\<close>

definition be64 :: "64 word \<Rightarrow> bytes" where
  "be64 w = map (\<lambda>s. char_of (unat (drop_bit s w))) [56, 48, 40, 32, 24, 16, 8, 0]"

definition address_fields :: "artifact_address \<Rightarrow> string list" where
  "address_fields a = [ARTIFACT_FORMAT, aa_artifact_policy_hash a, aa_source_ciphertext_hash a,
     aa_recipient_fingerprint a, aa_target_id a, aa_secret_id a]"

definition address_bytes :: "artifact_address \<Rightarrow> bytes" where
  "address_bytes a =
     ''nix-seal.cache-address.v3'' @ [CHR 0x00]
     @ concat (map (\<lambda>field. be64 (word_of_nat (length field)) @ field) (address_fields a))
     @ be64 (aa_artifact_generation a)"

definition address_key :: "(bytes \<Rightarrow> string) \<Rightarrow> artifact_address \<Rightarrow> cache_error + string" where
  "address_key hash a =
     and_then (address_validate a) (\<lambda>_.
     and_then (check (\<forall>field \<in> set (address_fields a). length field < 2 ^ 64) CInvalidAddress) (\<lambda>_.
     Inr (hash (address_bytes a))))"

section \<open>Objects\<close>

text \<open>\<open>is_ascii_hexdigit\<close>\<close>

definition is_hexdigit :: "char \<Rightarrow> bool" where
  "is_hexdigit b \<longleftrightarrow> is_ascii_digit b \<or> 97 \<le> byte_value b \<and> byte_value b \<le> 102
     \<or> 65 \<le> byte_value b \<and> byte_value b \<le> 70"

definition get_object :: "cache \<Rightarrow> string \<Rightarrow> cache_error + bytes" where
  "get_object c digest =
     (if length digest \<noteq> 64 \<or> \<not> (\<forall>b \<in> set digest. is_hexdigit b) then Inl CHashMismatch
      else
        and_then (open_private_entry c (area_entry (c_objects c) digest)) (\<lambda>content.
        and_then (read_bounded content MAX_CIPHERTEXT_BYTES) (\<lambda>bs.
        and_then (check (c_hash c bs = digest) CHashMismatch) (\<lambda>_. Inr bs))))"

text \<open>State and result of an operation; the state is kept when it fails.\<close>

type_synonym 'a step = "cache \<times> (cache_error + 'a)"

definition put_object :: "cache \<Rightarrow> bytes \<Rightarrow> string step" where
  "put_object c bs =
     (if MAX_CIPHERTEXT_BYTES < length bs then (c, Inl CLimit)
      else
        case ensure_private_directory (c_euid c) (c_objects c) of
          Inl e \<Rightarrow> (c, Inl e)
        | Inr objects \<Rightarrow>
            (let c' = c\<lparr>c_objects := objects\<rparr>; digest = c_hash c bs in
             case area_entry objects digest of
               Some _ \<Rightarrow> (c', and_then (get_object c' digest) (\<lambda>_. Inr digest))
             | None \<Rightarrow>
                 (c'\<lparr>c_objects := set_entry objects digest (EFile (private_file_meta (c_euid c)) bs)\<rparr>,
                  Inr digest)))"

section \<open>Copying a reader\<close>

function copy_loop :: "nat \<Rightarrow> bytes list \<Rightarrow> bytes \<Rightarrow> cache_error + bytes" where
  "copy_loop remaining input output =
     (let maximum = min remaining (16 * 1024) in
      if maximum = 0
      then (if fst (read_some 1 input) \<noteq> [] then Inl CLimit else Inr output)
      else
        (case read_some maximum input of (piece, rest) \<Rightarrow>
           if piece = [] then Inr output
           else if remaining < length piece then Inl CLimit
           else copy_loop (remaining - length piece) rest (output @ piece)))"
  by pat_completeness auto
termination
  by (relation "measure (\<lambda>(remaining, input, output). remaining)") (auto simp: Let_def)

declare copy_loop.simps [simp del]

text \<open>The bytes written and their digest.\<close>

definition copy_and_hash_bounded ::
  "(bytes \<Rightarrow> string) \<Rightarrow> bytes list \<Rightarrow> nat \<Rightarrow> cache_error + bytes \<times> string" where
  "copy_and_hash_bounded hash input limit =
     and_then (copy_loop limit input []) (\<lambda>output. Inr (output, hash output))"

section \<open>Artifacts\<close>

record artifact_record =
  ar_key :: string
  ar_ciphertext_hash :: string
  ar_envelope :: bytes

definition CIPHERTEXT_NAME :: string where
  "CIPHERTEXT_NAME = ''ciphertext.age''"

definition ENVELOPE_NAME :: string where
  "ENVELOPE_NAME = ''manifest.dsse.json''"

text \<open>The two files of a bundle with their lengths.\<close>

definition artifact_layout :: "cache \<Rightarrow> string \<Rightarrow> cache_error + (string, leaf) btree_map \<times> nat \<times> nat" where
  "artifact_layout c key =
     and_then (check (is_digest key) CInvalidAddress) (\<lambda>_.
     and_then (case area_entry (c_artifacts c) key of
         None \<Rightarrow> Inl CIo
       | Some (EDir m files) \<Rightarrow> if private_ok c m then Inr files else Inl CUnsafeMetadata
       | Some _ \<Rightarrow> Inl CUnsafeMetadata) (\<lambda>files.
     and_then (check (set (bt_keys files) = {CIPHERTEXT_NAME, ENVELOPE_NAME}) CUnsafeMetadata) (\<lambda>_.
     and_then (leaf_length c (bt_get files CIPHERTEXT_NAME)) (\<lambda>ciphertext_bytes.
     and_then (leaf_length c (bt_get files ENVELOPE_NAME)) (\<lambda>envelope_bytes.
     and_then (check (\<not> (MAX_CIPHERTEXT_BYTES < ciphertext_bytes \<or> MAX_ENVELOPE_BYTES < envelope_bytes)) CLimit) (\<lambda>_.
     Inr (files, ciphertext_bytes, envelope_bytes)))))))"

definition load_artifact_by_key :: "cache \<Rightarrow> string \<Rightarrow> cache_error + artifact_record \<times> bytes" where
  "load_artifact_by_key c key =
     and_then (artifact_layout c key) (\<lambda>(files, _, _).
     and_then (open_private_leaf c (bt_get files CIPHERTEXT_NAME)) (\<lambda>ciphertext.
     and_then (copy_and_hash_bounded (c_hash c) [ciphertext] MAX_CIPHERTEXT_BYTES) (\<lambda>(_, hash).
     and_then (open_private_leaf c (bt_get files ENVELOPE_NAME)) (\<lambda>content.
     and_then (read_bounded content MAX_ENVELOPE_BYTES) (\<lambda>envelope.
     Inr (\<lparr>ar_key = key, ar_ciphertext_hash = hash, ar_envelope = envelope\<rparr>, ciphertext))))))"

text \<open>The second component is the content of \<open>ciphertext_path\<close>.\<close>

definition load_artifact :: "cache \<Rightarrow> artifact_address \<Rightarrow> cache_error + artifact_record option" where
  "load_artifact c address =
     and_then (address_key (c_hash c) address) (\<lambda>key.
     case area_entry (c_artifacts c) key of
       None \<Rightarrow> Inr None
     | Some (EDir m files) \<Rightarrow>
         and_then (check (private_ok c m) CUnsafeMetadata) (\<lambda>_.
         and_then (load_artifact_by_key c key) (\<lambda>(r, _). Inr (Some r)))
     | Some _ \<Rightarrow> Inl CUnsafeMetadata)"

definition artifact_bundle :: "nat \<Rightarrow> bytes \<Rightarrow> bytes \<Rightarrow> entry" where
  "artifact_bundle euid ciphertext envelope =
     EDir (private_directory_meta euid) (bt_of_list
       [(CIPHERTEXT_NAME, LFile (private_file_meta euid) ciphertext),
        (ENVELOPE_NAME, LFile (private_file_meta euid) envelope)])"

text \<open>\<open>Path::exists\<close> follows links.\<close>

definition path_exists :: "entry option \<Rightarrow> bool" where
  "path_exists e = (case e of None \<Rightarrow> False | Some (ESymlink resolves) \<Rightarrow> resolves | Some _ \<Rightarrow> True)"

definition rename_noreplace :: "area \<Rightarrow> string \<Rightarrow> string \<Rightarrow> cache_error + area" where
  "rename_noreplace a source destination =
     (case (area_entry a source, area_entry a destination) of
        (None, _) \<Rightarrow> Inl CIo
      | (Some _, Some _) \<Rightarrow> Inl CDestinationExists
      | (Some e, None) \<Rightarrow> Inr (set_entry (remove_entry a source) destination e))"

text \<open>
  \<open>put_artifact_by_key_unlocked\<close> up to the rename: the state with the staged bundle under
  a fresh transaction name, and the digest of the ciphertext.
\<close>

definition stage_artifact ::
  "cache \<Rightarrow> string \<Rightarrow> string \<Rightarrow> bytes list \<Rightarrow> bytes \<Rightarrow> string step" where
  "stage_artifact c temporary key ciphertext envelope =
     (if \<not> is_digest key then (c, Inl CInvalidAddress)
      else if MAX_ENVELOPE_BYTES < length envelope then (c, Inl CLimit)
      else
        case ensure_private_directory (c_euid c) (c_artifacts c) of
          Inl e \<Rightarrow> (c, Inl e)
        | Inr artifacts \<Rightarrow>
            (let c' = c\<lparr>c_artifacts := artifacts\<rparr> in
             if path_exists (area_entry artifacts key) then (c', Inl CArtifactExists)
             else
               case copy_and_hash_bounded (c_hash c) ciphertext MAX_CIPHERTEXT_BYTES of
                 Inl e \<Rightarrow> (c', Inl e)
               | Inr (content, hash) \<Rightarrow>
                   (c'\<lparr>c_artifacts := set_entry artifacts temporary (artifact_bundle (c_euid c) content envelope)\<rparr>,
                    Inr hash)))"

definition publish_artifact :: "cache \<Rightarrow> string \<Rightarrow> string \<Rightarrow> unit step" where
  "publish_artifact c temporary key =
     (case rename_noreplace (c_artifacts c) temporary key of
        Inl e \<Rightarrow> (c\<lparr>c_artifacts := remove_entry (c_artifacts c) temporary\<rparr>, Inl e)
      | Inr artifacts \<Rightarrow> (c\<lparr>c_artifacts := artifacts\<rparr>, Inr ()))"

definition put_artifact_by_key ::
  "cache \<Rightarrow> string \<Rightarrow> string \<Rightarrow> bytes list \<Rightarrow> bytes \<Rightarrow> artifact_record step" where
  "put_artifact_by_key c temporary key ciphertext envelope =
     (case stage_artifact c temporary key ciphertext envelope of
        (c1, Inl e) \<Rightarrow> (c1, Inl e)
      | (c1, Inr hash) \<Rightarrow>
          (case publish_artifact c1 temporary key of
             (c2, Inl e) \<Rightarrow> (c2, Inl e)
           | (c2, Inr _) \<Rightarrow>
               (c2, Inr \<lparr>ar_key = key, ar_ciphertext_hash = hash, ar_envelope = envelope\<rparr>)))"

definition put_artifact ::
  "cache \<Rightarrow> string \<Rightarrow> artifact_address \<Rightarrow> bytes list \<Rightarrow> bytes \<Rightarrow> artifact_record step" where
  "put_artifact c temporary address ciphertext envelope =
     (case address_key (c_hash c) address of
        Inl e \<Rightarrow> (c, Inl e)
      | Inr key \<Rightarrow> put_artifact_by_key c temporary key ciphertext envelope)"

section \<open>Recovery\<close>

text \<open>A loop that stops at the first error and keeps what it did before.\<close>

fun fold_until :: "('s \<Rightarrow> 'a \<Rightarrow> 's \<times> 'e option) \<Rightarrow> 's \<Rightarrow> 'a list \<Rightarrow> 's \<times> 'e option" where
  "fold_until f s [] = (s, None)"
| "fold_until f s (x # xs) =
     (case f s x of (s', Some e) \<Rightarrow> (s', Some e) | (s', None) \<Rightarrow> fold_until f s' xs)"

definition recover_entry :: "cache \<Rightarrow> area \<Rightarrow> string \<times> entry \<Rightarrow> area \<times> cache_error option" where
  "recover_entry c a = (\<lambda>(name, e).
     if \<not> starts_with name TRANSACTION_PREFIX then (a, None)
     else case e of
       EDir m _ \<Rightarrow> if private_ok c m then (remove_entry a name, None) else (a, Some CUnsafeMetadata)
     | EFile m _ \<Rightarrow> if private_file c m then (remove_entry a name, None) else (a, Some CUnsafeMetadata)
     | _ \<Rightarrow> (a, Some CUnsafeMetadata))"

definition recover_area :: "cache \<Rightarrow> area \<Rightarrow> area \<times> cache_error option" where
  "recover_area c a =
     (case read_area a of Inl e \<Rightarrow> (a, Some e) | Inr es \<Rightarrow> fold_until (recover_entry c) a es)"

definition recover_transactions :: "cache \<Rightarrow> unit step" where
  "recover_transactions c =
     (case recover_area c (c_objects c) of
        (objects, Some e) \<Rightarrow> (c\<lparr>c_objects := objects\<rparr>, Inl e)
      | (objects, None) \<Rightarrow>
          (case recover_area c (c_artifacts c) of
             (artifacts, Some e) \<Rightarrow> (c\<lparr>c_objects := objects, c_artifacts := artifacts\<rparr>, Inl e)
           | (artifacts, None) \<Rightarrow> (c\<lparr>c_objects := objects, c_artifacts := artifacts\<rparr>, Inr ())))"

section \<open>Inventory and garbage collection\<close>

definition add_u64 :: "nat \<Rightarrow> nat \<Rightarrow> cache_error + nat" where
  "add_u64 a b = (if a + b < 2 ^ 64 then Inr (a + b) else Inl CLimit)"

definition artifact_keys :: "cache \<Rightarrow> cache_error + string list" where
  "artifact_keys c =
     and_then (read_area (c_artifacts c)) (\<lambda>es.
     and_then (fold_result (\<lambda>keys (name, _).
        if \<not> is_digest name \<or> name \<in> set keys then Inl CUnsafeMetadata
        else if MAX_TRANSFER_ENTRIES < length (keys @ [name]) then Inl CLimit
        else Inr (keys @ [name])) [] es) Inr)"

definition artifact_records :: "cache \<Rightarrow> cache_error + artifact_record list" where
  "artifact_records c =
     and_then (artifact_keys c) (\<lambda>keys.
     and_then (fold_result (\<lambda>(records, envelope_bytes) key.
        and_then (load_artifact_by_key c key) (\<lambda>(r, _).
        and_then (add_u64 envelope_bytes (length (ar_envelope r))) (\<lambda>total.
        if MAX_INVENTORY_ENVELOPE_BYTES < total then Inl CLimit else Inr (records @ [r], total))))
       ([], 0) keys) (\<lambda>(records, _). Inr records))"

record cache_inventory =
  inv_object_count :: nat
  inv_object_bytes :: nat
  inv_artifact_count :: nat
  inv_artifact_ciphertext_bytes :: nat
  inv_artifact_envelope_bytes :: nat

definition verified_object :: "cache \<Rightarrow> string \<times> entry \<Rightarrow> cache_error + bytes" where
  "verified_object c = (\<lambda>(digest, e).
     and_then (check (is_digest digest) CUnsafeMetadata) (\<lambda>_.
     and_then (open_private_entry c (Some e)) (\<lambda>content.
     and_then (read_bounded content MAX_CIPHERTEXT_BYTES) (\<lambda>bs.
     and_then (check (c_hash c bs = digest) CHashMismatch) (\<lambda>_. Inr bs)))))"

definition count_object :: "cache \<Rightarrow> cache_inventory \<Rightarrow> string \<times> entry \<Rightarrow> cache_error + cache_inventory" where
  "count_object c v e =
     and_then (verified_object c e) (\<lambda>bs.
     and_then (add_u64 (inv_object_count v) 1) (\<lambda>n.
     and_then (add_u64 (inv_object_bytes v) (length bs)) (\<lambda>total.
     Inr (v\<lparr>inv_object_count := n, inv_object_bytes := total\<rparr>))))"

definition count_artifact :: "cache \<Rightarrow> cache_inventory \<Rightarrow> string \<times> entry \<Rightarrow> cache_error + cache_inventory" where
  "count_artifact c v = (\<lambda>(key, _).
     and_then (check (is_digest key) CUnsafeMetadata) (\<lambda>_.
     and_then (load_artifact_by_key c key) (\<lambda>(r, ciphertext).
     and_then (add_u64 (inv_artifact_count v) 1) (\<lambda>n.
     and_then (add_u64 (inv_artifact_ciphertext_bytes v) (length ciphertext)) (\<lambda>cb.
     and_then (add_u64 (inv_artifact_envelope_bytes v) (length (ar_envelope r))) (\<lambda>eb.
     Inr (v\<lparr>inv_artifact_count := n, inv_artifact_ciphertext_bytes := cb, inv_artifact_envelope_bytes := eb\<rparr>)))))))"

definition inventory :: "cache \<Rightarrow> cache_error + cache_inventory" where
  "inventory c =
     and_then (read_area (c_objects c)) (\<lambda>os.
     and_then (fold_result (count_object c) \<lparr>inv_object_count = 0, inv_object_bytes = 0,
       inv_artifact_count = 0, inv_artifact_ciphertext_bytes = 0, inv_artifact_envelope_bytes = 0\<rparr> os) (\<lambda>v.
     and_then (read_area (c_artifacts c)) (\<lambda>as.
     fold_result (count_artifact c) v as)))"

record gc_request =
  gc_retained_artifacts :: "string set"
  gc_retained_objects :: "string set"
  gc_execute :: bool

record gc_report =
  gr_executed :: bool
  gr_retained_artifacts :: nat
  gr_retained_objects :: nat
  gr_candidate_artifacts :: nat
  gr_candidate_objects :: nat
  gr_candidate_bytes :: nat

definition gc_object :: "cache \<Rightarrow> gc_request \<Rightarrow> area \<times> gc_report \<Rightarrow> string \<times> entry \<Rightarrow> (area \<times> gc_report) \<times> cache_error option" where
  "gc_object c req = (\<lambda>(objects, rep) (digest, e).
     case verified_object c (digest, e) of
       Inl err \<Rightarrow> ((objects, rep), Some err)
     | Inr bs \<Rightarrow>
         if digest \<in> gc_retained_objects req
         then (case add_u64 (gr_retained_objects rep) 1 of
                 Inl err \<Rightarrow> ((objects, rep), Some err)
               | Inr n \<Rightarrow> ((objects, rep\<lparr>gr_retained_objects := n\<rparr>), None))
         else (case and_then (add_u64 (gr_candidate_objects rep) 1) (\<lambda>n.
                    and_then (add_u64 (gr_candidate_bytes rep) (length bs)) (\<lambda>b. Inr (n, b))) of
                 Inl err \<Rightarrow> ((objects, rep), Some err)
               | Inr (n, b) \<Rightarrow>
                   ((if gc_execute req then remove_entry objects digest else objects,
                     rep\<lparr>gr_candidate_objects := n, gr_candidate_bytes := b\<rparr>), None)))"

definition gc_artifact :: "cache \<Rightarrow> gc_request \<Rightarrow> area \<times> gc_report \<Rightarrow> string \<times> entry \<Rightarrow> (area \<times> gc_report) \<times> cache_error option" where
  "gc_artifact c req = (\<lambda>(artifacts, rep) (key, e).
     case (if is_digest key then load_artifact_by_key c key else Inl CUnsafeMetadata) of
       Inl err \<Rightarrow> ((artifacts, rep), Some err)
     | Inr (r, ciphertext) \<Rightarrow>
         (case add_u64 (length ciphertext) (length (ar_envelope r)) of
            Inl err \<Rightarrow> ((artifacts, rep), Some err)
          | Inr bs \<Rightarrow>
              if key \<in> gc_retained_artifacts req
              then (case add_u64 (gr_retained_artifacts rep) 1 of
                      Inl err \<Rightarrow> ((artifacts, rep), Some err)
                    | Inr n \<Rightarrow> ((artifacts, rep\<lparr>gr_retained_artifacts := n\<rparr>), None))
              else (case and_then (add_u64 (gr_candidate_artifacts rep) 1) (\<lambda>n.
                         and_then (add_u64 (gr_candidate_bytes rep) bs) (\<lambda>b. Inr (n, b))) of
                      Inl err \<Rightarrow> ((artifacts, rep), Some err)
                    | Inr (n, b) \<Rightarrow>
                        ((if gc_execute req then remove_entry artifacts key else artifacts,
                          rep\<lparr>gr_candidate_artifacts := n, gr_candidate_bytes := b\<rparr>), None))))"

definition garbage_collect :: "cache \<Rightarrow> gc_request \<Rightarrow> gc_report step" where
  "garbage_collect c req =
     (if \<not> (\<forall>k \<in> gc_retained_artifacts req. is_digest k) \<or> \<not> (\<forall>k \<in> gc_retained_objects req. is_digest k)
      then (c, Inl CInvalidAddress)
      else
        let rep0 = \<lparr>gr_executed = gc_execute req, gr_retained_artifacts = 0, gr_retained_objects = 0,
          gr_candidate_artifacts = 0, gr_candidate_objects = 0, gr_candidate_bytes = 0\<rparr> in
        case read_area (c_objects c) of
          Inl err \<Rightarrow> (c, Inl err)
        | Inr os \<Rightarrow>
            (case fold_until (gc_object c req) (c_objects c, rep0) os of
               ((objects, rep1), Some err) \<Rightarrow> (c\<lparr>c_objects := objects\<rparr>, Inl err)
             | ((objects, rep1), None) \<Rightarrow>
                 (let c1 = c\<lparr>c_objects := objects\<rparr> in
                  case read_area (c_artifacts c1) of
                    Inl err \<Rightarrow> (c1, Inl err)
                  | Inr as \<Rightarrow>
                      (case fold_until (gc_artifact c1 req) (c_artifacts c1, rep1) as of
                         ((artifacts, rep2), Some err) \<Rightarrow> (c1\<lparr>c_artifacts := artifacts\<rparr>, Inl err)
                       | ((artifacts, rep2), None) \<Rightarrow> (c1\<lparr>c_artifacts := artifacts\<rparr>, Inr rep2)))))"

section \<open>Reading and copying\<close>

lemma read_bounded_iff: "read_bounded content limit = Inr bs \<longleftrightarrow> bs = content \<and> length content \<le> limit"
  by (auto simp: read_bounded_def Let_def)

lemma copy_loop_correct:
  "[] \<notin> set input \<Longrightarrow> copy_loop remaining input out =
     (if length (concat input) \<le> remaining then Inr (out @ concat input) else Inl CLimit)"
proof (induction remaining input out rule: copy_loop.induct)
  case (1 remaining input out)
  show ?case
  proof (cases "remaining = 0")
    case True
    have "fst (read_some 1 input) = [] \<longleftrightarrow> concat input = []"
      using "1.prems" by (cases input) auto
    then show ?thesis
      using True by (subst copy_loop.simps) (auto simp: Let_def)
  next
    case False
    let ?max = "min remaining (16 * 1024)"
    obtain piece rest where rs: "read_some ?max input = (piece, rest)" by force
    from False have "0 < ?max" by simp
    note pieces = read_some_pieces [OF rs "1.prems" this]
    show ?thesis
    proof (cases "piece = []")
      case True
      with pieces rs False show ?thesis
        by (subst copy_loop.simps) (auto simp: Let_def)
    next
      case nonempty: False
      have "copy_loop remaining input out = copy_loop (remaining - length piece) rest (out @ piece)"
        using rs nonempty False pieces(4) by (subst copy_loop.simps) (auto simp: Let_def)
      also have "\<dots> = (if length (concat rest) \<le> remaining - length piece
          then Inr ((out @ piece) @ concat rest) else Inl CLimit)"
        by (rule "1.IH" [OF refl _ rs [symmetric] nonempty _ pieces(2)])
          (use False pieces(4) in auto)
      also have "\<dots> = (if length (concat input) \<le> remaining then Inr (out @ concat input) else Inl CLimit)"
        using pieces(1,4) by auto
      finally show ?thesis .
    qed
  qed
qed

lemma copy_and_hash_correct:
  "[] \<notin> set input \<Longrightarrow> copy_and_hash_bounded hash input limit =
     (if length (concat input) \<le> limit then Inr (concat input, hash (concat input)) else Inl CLimit)"
  by (simp add: copy_and_hash_bounded_def copy_loop_correct)

text \<open>A file is read in one piece; an empty one ends at once.\<close>

lemma copy_and_hash_file:
  "copy_and_hash_bounded hash [content] limit =
     (if length content \<le> limit then Inr (content, hash content) else Inl CLimit)"
proof (cases "content = []")
  case True
  then show ?thesis
    by (simp add: copy_and_hash_bounded_def) (subst copy_loop.simps, simp add: Let_def)
next
  case False
  then show ?thesis using copy_and_hash_correct [of "[content]"] by auto
qed

section \<open>Entries\<close>

lemma area_entry_set [simp]:
  "area_entry (set_entry (Area m es) name e) n = (if n = name then Some e else bt_get es n)"
  by (simp add: area_entry_def set_entry_def)

lemma area_entry_remove [simp]:
  "area_entry (remove_entry a name) n = (if n = name then None else area_entry a n)"
  by (auto simp: area_entry_def remove_entry_def bt_get_filter split: area.splits option.splits)

lemma ensure_private_directory_result:
  assumes "ensure_private_directory euid a = Inr a'"
  shows "\<exists>m es. a' = Area m es \<and> meta_uid m = euid \<and> meta_mode m = 0x1C0
    \<and> (\<forall>n. bt_get es n = area_entry a n)"
  using assms by (auto simp: ensure_private_directory_def area_entry_def private_directory_meta_def
      split: area.splits if_splits)

lemma private_file_meta_ok [simp]: "c_euid c = euid \<Longrightarrow> private_file c (private_file_meta euid)"
  by (simp add: private_file_def private_ok_def private_file_meta_def group_or_world_def)

lemma private_directory_meta_ok [simp]: "c_euid c = euid \<Longrightarrow> private_ok c (private_directory_meta euid)"
  by (simp add: private_ok_def private_directory_meta_def group_or_world_def)

lemma digest_hex: "is_digest d \<Longrightarrow> length d = 64 \<and> (\<forall>b \<in> set d. is_hexdigit b)"
  by (auto simp: is_digest_def is_lower_hex_def is_hexdigit_def)

section \<open>Objects round trip\<close>

lemma get_object_sound:
  "get_object c d = Inr bs \<Longrightarrow> c_hash c bs = d \<and> length bs \<le> MAX_CIPHERTEXT_BYTES"
  by (auto simp: get_object_def read_bounded_iff split: if_splits)

lemma put_object_result:
  assumes put: "put_object c bs = (c', Inr d)" and dig: "is_digest (c_hash c bs)"
  shows "d = c_hash c bs"
    and "\<exists>bs'. get_object c' d = Inr bs' \<and> c_hash c bs' = c_hash c bs
      \<and> (area_entry (c_objects c) d = None \<longrightarrow> bs' = bs)"
    and "\<And>n e. area_entry (c_objects c) n = Some e \<Longrightarrow> area_entry (c_objects c') n = Some e"
    and "c_artifacts c' = c_artifacts c"
proof -
  from put obtain os where os: "ensure_private_directory (c_euid c) (c_objects c) = Inr os"
    and len: "length bs \<le> MAX_CIPHERTEXT_BYTES"
    by (auto simp: put_object_def Let_def split: if_splits sum.splits)
  from ensure_private_directory_result [OF os] obtain m es where
    a: "os = Area m es" "\<And>n. bt_get es n = area_entry (c_objects c) n" by blast
  let ?d = "c_hash c bs"
  have entry: "area_entry os n = area_entry (c_objects c) n" for n
    using a by (simp add: area_entry_def)
  show "d = ?d"
    using put os len a by (auto simp: put_object_def Let_def split: if_splits option.splits)
  show "c_artifacts c' = c_artifacts c"
    using put os len by (auto simp: put_object_def Let_def split: if_splits option.splits)
  show "area_entry (c_objects c') n = Some e" if "area_entry (c_objects c) n = Some e" for n e
    using put os len a that entry
    by (auto simp: put_object_def Let_def split: if_splits option.splits)
  show "\<exists>bs'. get_object c' d = Inr bs' \<and> c_hash c bs' = ?d \<and> (area_entry (c_objects c) d = None \<longrightarrow> bs' = bs)"
  proof (cases "area_entry (c_objects c) ?d")
    case None
    with put os len a entry have c': "c' = c\<lparr>c_objects := set_entry os ?d (EFile (private_file_meta (c_euid c)) bs)\<rparr>"
      and d: "d = ?d"
      by (auto simp: put_object_def Let_def)
    have "get_object c' ?d = Inr bs"
      using digest_hex [OF dig] len
      by (simp add: get_object_def c' a open_private_entry_def read_bounded_iff)
    with d show ?thesis by blast
  next
    case (Some e)
    with put os len entry have "is_ok (get_object c' ?d)" and d: "d = ?d" and h: "c_hash c' = c_hash c"
      by (auto simp: put_object_def Let_def)
    then obtain bs' where "get_object c' ?d = Inr bs'" by (auto simp: is_ok_iff)
    moreover from get_object_sound [OF this] h have "c_hash c bs' = ?d" by simp
    ultimately show ?thesis using Some d by auto
  qed
qed

section \<open>Artifacts round trip\<close>

lemma bundle_files:
  "bt_get (bt_of_list [(CIPHERTEXT_NAME, x), (ENVELOPE_NAME, y)]) =
     [CIPHERTEXT_NAME \<mapsto> x, ENVELOPE_NAME \<mapsto> y]"
  "set (bt_keys (bt_of_list [(CIPHERTEXT_NAME, x), (ENVELOPE_NAME, y)])) = {CIPHERTEXT_NAME, ENVELOPE_NAME}"
proof -
  have ne: "CIPHERTEXT_NAME \<noteq> ENVELOPE_NAME"
    by (simp add: CIPHERTEXT_NAME_def ENVELOPE_NAME_def)
  then show "bt_get (bt_of_list [(CIPHERTEXT_NAME, x), (ENVELOPE_NAME, y)]) =
     [CIPHERTEXT_NAME \<mapsto> x, ENVELOPE_NAME \<mapsto> y]"
    by (simp add: bt_of_list_def fun_eq_iff)
  then show "set (bt_keys (bt_of_list [(CIPHERTEXT_NAME, x), (ENVELOPE_NAME, y)])) = {CIPHERTEXT_NAME, ENVELOPE_NAME}"
    using ne by (auto simp: set_eq_iff bt_contains_def)
qed

lemma load_bundle:
  assumes "area_entry (c_artifacts c) key = Some (artifact_bundle (c_euid c) content envelope)"
    and "is_digest key" "length content \<le> MAX_CIPHERTEXT_BYTES" "length envelope \<le> MAX_ENVELOPE_BYTES"
  shows "load_artifact_by_key c key =
    Inr (\<lparr>ar_key = key, ar_ciphertext_hash = c_hash c content, ar_envelope = envelope\<rparr>, content)"
proof -
  have ne: "CIPHERTEXT_NAME \<noteq> ENVELOPE_NAME"
    by (simp add: CIPHERTEXT_NAME_def ENVELOPE_NAME_def)
  show ?thesis
    using assms ne
    by (simp add: load_artifact_by_key_def artifact_layout_def artifact_bundle_def bundle_files
        leaf_length_def open_private_leaf_def copy_and_hash_file read_bounded_iff not_less)
qed

lemma stage_artifact_result:
  assumes st: "stage_artifact c tmp key input envelope = (c1, Inr h)" and "[] \<notin> set input"
  shows "is_digest key" "length envelope \<le> MAX_ENVELOPE_BYTES"
    "length (concat input) \<le> MAX_CIPHERTEXT_BYTES" "h = c_hash c (concat input)"
    "\<not> path_exists (area_entry (c_artifacts c) key)"
    "\<exists>m es. c1 = c\<lparr>c_artifacts := Area m (bt_insert tmp (artifact_bundle (c_euid c) (concat input) envelope) es)\<rparr>
       \<and> (\<forall>n. bt_get es n = area_entry (c_artifacts c) n)"
proof -
  from st obtain as where as: "ensure_private_directory (c_euid c) (c_artifacts c) = Inr as"
    by (auto simp: stage_artifact_def split: if_splits sum.splits)
  from ensure_private_directory_result [OF as] obtain m es where
    a: "as = Area m es" "\<And>n. bt_get es n = area_entry (c_artifacts c) n" by blast
  have entry: "area_entry as key = area_entry (c_artifacts c) key"
    using a by (simp add: area_entry_def)
  have "is_digest key \<and> length envelope \<le> MAX_ENVELOPE_BYTES
     \<and> length (concat input) \<le> MAX_CIPHERTEXT_BYTES \<and> h = c_hash c (concat input)
     \<and> \<not> path_exists (area_entry (c_artifacts c) key)
     \<and> c1 = c\<lparr>c_artifacts := set_entry as tmp (artifact_bundle (c_euid c) (concat input) envelope)\<rparr>"
    using st as entry by (auto simp: stage_artifact_def copy_and_hash_correct [OF assms(2)] Let_def split: if_splits)
  then show "is_digest key" "length envelope \<le> MAX_ENVELOPE_BYTES"
    "length (concat input) \<le> MAX_CIPHERTEXT_BYTES" "h = c_hash c (concat input)"
    "\<not> path_exists (area_entry (c_artifacts c) key)"
    "\<exists>m es. c1 = c\<lparr>c_artifacts := Area m (bt_insert tmp (artifact_bundle (c_euid c) (concat input) envelope) es)\<rparr>
       \<and> (\<forall>n. bt_get es n = area_entry (c_artifacts c) n)"
    using a by (auto simp: set_entry_def)
qed

text \<open>Whatever happens, entries other than the transaction are left alone.\<close>

lemma stage_artifact_frame:
  assumes "stage_artifact c tmp key input envelope = (c1, r)" and "n \<noteq> tmp"
  shows "area_entry (c_artifacts c1) n = area_entry (c_artifacts c) n" and "c_objects c1 = c_objects c"
proof -
  have eq: "area_entry as n = area_entry (c_artifacts c) n \<and> area_entry (set_entry as tmp e) n = area_entry (c_artifacts c) n"
    if "ensure_private_directory (c_euid c) (c_artifacts c) = Inr as" for as e
    using ensure_private_directory_result [OF that] assms(2) by (auto simp: area_entry_def set_entry_def)
  show "area_entry (c_artifacts c1) n = area_entry (c_artifacts c) n"
    using assms(1) eq by (auto simp: stage_artifact_def Let_def split: if_splits sum.splits prod.splits)
  show "c_objects c1 = c_objects c"
    using assms(1) by (auto simp: stage_artifact_def Let_def split: if_splits sum.splits prod.splits)
qed

lemma publish_artifact_frame:
  assumes "publish_artifact c tmp key = (c1, r)" and "n \<noteq> tmp" and "area_entry (c_artifacts c) n = Some e"
  shows "area_entry (c_artifacts c1) n = Some e" and "c_objects c1 = c_objects c"
proof -
  have keep: "area_entry a' n = Some e" if "rename_noreplace (c_artifacts c) tmp key = Inr a'" for a'
    using that assms(2,3)
    by (cases "c_artifacts c")
      (auto simp: rename_noreplace_def area_entry_def set_entry_def remove_entry_def bt_get_filter
        split: option.splits if_splits)
  show "area_entry (c_artifacts c1) n = Some e"
    using assms keep by (auto simp: publish_artifact_def split: sum.splits)
  show "c_objects c1 = c_objects c"
    using assms(1) by (auto simp: publish_artifact_def split: sum.splits)
qed

lemma put_artifact_frame:
  assumes "put_artifact_by_key c tmp key input envelope = (c', r)" and "n \<noteq> tmp"
    and "area_entry (c_artifacts c) n = Some e"
  shows "area_entry (c_artifacts c') n = Some e"
proof -
  obtain c1 r1 where st: "stage_artifact c tmp key input envelope = (c1, r1)" by force
  have c1: "area_entry (c_artifacts c1) n = Some e"
    using stage_artifact_frame(1) [OF st assms(2)] assms(3) by simp
  obtain c2 r2 where pub: "publish_artifact c1 tmp key = (c2, r2)" by force
  have "area_entry (c_artifacts c2) n = Some e"
    by (rule publish_artifact_frame(1) [OF pub assms(2) c1])
  with assms(1) st pub c1 show ?thesis
    by (auto simp: put_artifact_by_key_def split: sum.splits)
qed

lemma put_artifact_result:
  assumes put: "put_artifact_by_key c tmp key input envelope = (c', Inr r)" and ne: "[] \<notin> set input"
    and tmp: "area_entry (c_artifacts c) tmp = None" "tmp \<noteq> key"
  shows "area_entry (c_artifacts c) key = None"
    and "load_artifact_by_key c' key = Inr (r, concat input)"
    and "r = \<lparr>ar_key = key, ar_ciphertext_hash = c_hash c (concat input), ar_envelope = envelope\<rparr>"
    and "area_entry (c_artifacts c') tmp = None"
proof -
  obtain c1 h where st: "stage_artifact c tmp key input envelope = (c1, Inr h)"
    and pub: "publish_artifact c1 tmp key = (c', Inr ())"
    and r: "r = \<lparr>ar_key = key, ar_ciphertext_hash = h, ar_envelope = envelope\<rparr>"
    using put by (auto simp: put_artifact_by_key_def split: prod.splits sum.splits)
  note s = stage_artifact_result [OF st ne]
  from s(6) obtain m es where
    c1: "c1 = c\<lparr>c_artifacts := Area m (bt_insert tmp (artifact_bundle (c_euid c) (concat input) envelope) es)\<rparr>"
    and es: "\<And>n. bt_get es n = area_entry (c_artifacts c) n" by blast
  have "area_entry (c_artifacts c1) key = None"
    and a': "area_entry (c_artifacts c') n = (if n = key then Some (artifact_bundle (c_euid c) (concat input) envelope)
        else if n = tmp then None else area_entry (c_artifacts c) n)"
    and euid: "c_euid c' = c_euid c" "c_hash c' = c_hash c" for n
    using pub es tmp
    by (auto simp: publish_artifact_def rename_noreplace_def c1 area_entry_def set_entry_def
        remove_entry_def bt_get_filter split: option.splits if_splits sum.splits)
  then show "area_entry (c_artifacts c) key = None"
    using es tmp(2) by (simp add: c1 area_entry_def)
  show "r = \<lparr>ar_key = key, ar_ciphertext_hash = c_hash c (concat input), ar_envelope = envelope\<rparr>"
    using r s(4) by simp
  have "area_entry (c_artifacts c') key = Some (artifact_bundle (c_euid c') (concat input) envelope)"
    using a' euid by simp
  from load_bundle [OF this s(1,3,2)] show "load_artifact_by_key c' key = Inr (r, concat input)"
    using r s(4) euid by simp
  show "area_entry (c_artifacts c') tmp = None"
    using a' tmp(2) by simp
qed

section \<open>Garbage collection\<close>

text \<open>
  The loops over objects and over artifacts share one contract: a step fails and changes
  nothing, or counts its entry as retained, or counts it as a candidate with its bytes and
  removes it when the run executes.
\<close>

locale collector =
  fixes step :: "area \<times> gc_report \<Rightarrow> string \<times> entry \<Rightarrow> (area \<times> gc_report) \<times> cache_error option"
    and execute :: bool
    and retained :: "string set"
    and kept :: "gc_report \<Rightarrow> nat"
    and candidates :: "gc_report \<Rightarrow> nat"
    and weight :: "string \<times> entry \<Rightarrow> nat"
    and frame :: "gc_report \<Rightarrow> 'f"
  assumes step_error: "step (a, rep) x = ((a', rep'), Some err) \<Longrightarrow> a' = a"
    and step_ok: "step (a, rep) x = ((a', rep'), None) \<Longrightarrow>
      a' = (if execute \<and> fst x \<notin> retained then remove_entry a (fst x) else a)
      \<and> kept rep' = kept rep + of_bool (fst x \<in> retained)
      \<and> candidates rep' = candidates rep + of_bool (fst x \<notin> retained)
      \<and> gr_candidate_bytes rep' = gr_candidate_bytes rep + (if fst x \<in> retained then 0 else weight x)
      \<and> frame rep' = frame rep"
begin

lemma step_cases:
  assumes "step (a, rep) x = ((a', rep'), r)"
  shows "a' = a \<or> execute \<and> fst x \<notin> retained \<and> a' = remove_entry a (fst x)"
  using assms by (cases r) (auto dest: step_error step_ok split: if_splits)

lemma run_any:
  "fold_until step (a, rep) es = ((a', rep'), r) \<Longrightarrow>
     (\<not> execute \<longrightarrow> a' = a) \<and> (\<forall>n \<in> retained. area_entry a' n = area_entry a n)"
proof (induction es arbitrary: a rep)
  case (Cons x es)
  obtain a1 rep1 r1 where s: "step (a, rep) x = ((a1, rep1), r1)" by (metis surj_pair)
  then have one: "(\<not> execute \<longrightarrow> a1 = a) \<and> (\<forall>n \<in> retained. area_entry a1 n = area_entry a n)"
    using step_cases [OF s] by auto
  show ?case
  proof (cases r1)
    case None
    then show ?thesis using Cons.IH [of a1 rep1] Cons.prems s one by auto
  next
    case (Some e)
    then show ?thesis using Cons.prems s one by auto
  qed
qed simp

lemma run_ok:
  "fold_until step (a, rep) es = ((a', rep'), None) \<Longrightarrow>
     (\<forall>n. area_entry a' n = (if execute \<and> n \<in> fst ` set es - retained then None else area_entry a n))
     \<and> kept rep' = kept rep + length (filter (\<lambda>x. fst x \<in> retained) es)
     \<and> candidates rep' = candidates rep + length (filter (\<lambda>x. fst x \<notin> retained) es)
     \<and> gr_candidate_bytes rep' =
         gr_candidate_bytes rep + sum_list (map weight (filter (\<lambda>x. fst x \<notin> retained) es))
     \<and> frame rep' = frame rep"
proof (induction es arbitrary: a rep)
  case (Cons x es)
  obtain a1 rep1 where s: "step (a, rep) x = ((a1, rep1), None)"
    and rest: "fold_until step (a1, rep1) es = ((a', rep'), None)"
    using Cons.prems by (auto split: prod.splits option.splits)
  from step_ok [OF s] Cons.IH [OF rest] show ?case by auto
qed simp

end

definition object_bytes_of :: "cache \<Rightarrow> string \<times> entry \<Rightarrow> nat" where
  "object_bytes_of c x = (case verified_object c x of Inr bs \<Rightarrow> length bs | Inl _ \<Rightarrow> 0)"

definition artifact_bytes_of :: "cache \<Rightarrow> string \<times> entry \<Rightarrow> nat" where
  "artifact_bytes_of c x =
     (case load_artifact_by_key c (fst x) of Inr (r, bs) \<Rightarrow> length bs + length (ar_envelope r) | Inl _ \<Rightarrow> 0)"

interpretation gc_objects: collector "gc_object c req" "gc_execute req" "gc_retained_objects req"
  gr_retained_objects gr_candidate_objects
  "object_bytes_of c" "\<lambda>rep. (gr_executed rep, gr_retained_artifacts rep, gr_candidate_artifacts rep)"
  for c req
  by unfold_locales
    (auto simp: gc_object_def object_bytes_of_def add_u64_def split: sum.splits if_splits prod.splits)

interpretation gc_artifacts: collector "gc_artifact c req" "gc_execute req" "gc_retained_artifacts req"
  gr_retained_artifacts gr_candidate_artifacts
  "artifact_bytes_of c"
  "\<lambda>rep. (gr_executed rep, gr_retained_objects rep, gr_candidate_objects rep)"
  for c req
  by unfold_locales
    (auto simp: gc_artifact_def artifact_bytes_of_def add_u64_def split: sum.splits if_splits prod.splits)

lemma cache_same [simp]: "c\<lparr>c_objects := c_objects c\<rparr> = c" "c\<lparr>c_artifacts := c_artifacts c\<rparr> = c"
  by simp_all

lemma garbage_collect_dry:
  assumes "garbage_collect c req = (c', r)" and "\<not> gc_execute req"
  shows "c' = c"
proof -
  have ob: "ob = c_objects c" if "fold_until (gc_object c req) (c_objects c, rep0) os = ((ob, rep1), r1)" for rep0 os ob rep1 r1
    using gc_objects.run_any [OF that] assms(2) by simp
  have ar: "a = c_artifacts c" if "fold_until (gc_artifact c1 req) (c_artifacts c, rep0) as = ((a, rep1), r1)" for c1 rep0 as a rep1 r1
    using gc_artifacts.run_any [OF that] assms(2) by simp
  show ?thesis
    using assms(1) by (auto simp: garbage_collect_def Let_def dest!: ob ar
        split: if_splits sum.splits prod.splits option.splits)
qed

lemma garbage_collect_retains:
  assumes "garbage_collect c req = (c', r)"
  shows "n \<in> gc_retained_objects req \<Longrightarrow> area_entry (c_objects c') n = area_entry (c_objects c) n"
    and "n \<in> gc_retained_artifacts req \<Longrightarrow> area_entry (c_artifacts c') n = area_entry (c_artifacts c) n"
  using assms
  by (auto simp: garbage_collect_def Let_def dest: gc_objects.run_any gc_artifacts.run_any
      split: if_splits sum.splits prod.splits option.splits)

lemma fst_items: "n \<in> fst ` set (items m) \<longleftrightarrow> bt_get m n \<noteq> None"
  by (force simp flip: bt_items_get)

lemma read_area_entries:
  "read_area a = Inr es \<Longrightarrow> n \<in> fst ` set es \<longleftrightarrow> area_entry a n \<noteq> None"
  using fst_items by (auto simp: read_area_def area_entry_def simp del: not_None_eq split: area.splits)

text \<open>Artifacts do not depend on the objects.\<close>

lemma private_objects [simp]:
  "private_ok (c\<lparr>c_objects := os\<rparr>) = private_ok c" "private_file (c\<lparr>c_objects := os\<rparr>) = private_file c"
  by (simp_all add: private_file_def private_ok_def fun_eq_iff)

lemma leaf_objects [simp]:
  "leaf_length (c\<lparr>c_objects := os\<rparr>) l = leaf_length c l"
  "open_private_leaf (c\<lparr>c_objects := os\<rparr>) l = open_private_leaf c l"
  by (simp_all add: leaf_length_def open_private_leaf_def split: option.split leaf.split)

lemma artifact_layout_objects [simp]:
  "artifact_layout (c\<lparr>c_objects := os\<rparr>) key = artifact_layout c key"
  by (simp add: artifact_layout_def split: option.split entry.split)

lemma load_artifact_objects [simp]:
  "load_artifact_by_key (c\<lparr>c_objects := os\<rparr>) key = load_artifact_by_key c key"
  by (simp add: load_artifact_by_key_def)

lemma garbage_collect_ok:
  assumes "garbage_collect c req = (c', Inr rep)"
  obtains os as where "read_area (c_objects c) = Inr os" and "read_area (c_artifacts c) = Inr as"
    and "\<And>n. area_entry (c_objects c') n =
      (if gc_execute req \<and> n \<notin> gc_retained_objects req then None else area_entry (c_objects c) n)"
    and "\<And>n. area_entry (c_artifacts c') n =
      (if gc_execute req \<and> n \<notin> gc_retained_artifacts req then None else area_entry (c_artifacts c) n)"
    and "gr_executed rep = gc_execute req"
    and "gr_candidate_objects rep = length (filter (\<lambda>x. fst x \<notin> gc_retained_objects req) os)"
    and "gr_retained_objects rep = length (filter (\<lambda>x. fst x \<in> gc_retained_objects req) os)"
    and "gr_candidate_artifacts rep = length (filter (\<lambda>x. fst x \<notin> gc_retained_artifacts req) as)"
    and "gr_retained_artifacts rep = length (filter (\<lambda>x. fst x \<in> gc_retained_artifacts req) as)"
    and "gr_candidate_bytes rep =
      sum_list (map (object_bytes_of c) (filter (\<lambda>x. fst x \<notin> gc_retained_objects req) os))
      + sum_list (map (artifact_bytes_of c) (filter (\<lambda>x. fst x \<notin> gc_retained_artifacts req) as))"
proof -
  let ?rep0 = "\<lparr>gr_executed = gc_execute req, gr_retained_artifacts = 0, gr_retained_objects = 0,
          gr_candidate_artifacts = 0, gr_candidate_objects = 0, gr_candidate_bytes = 0\<rparr>"
  obtain os as objects rep1 artifacts where
    os: "read_area (c_objects c) = Inr os" and as: "read_area (c_artifacts c) = Inr as"
    and o: "fold_until (gc_object c req) (c_objects c, ?rep0) os = ((objects, rep1), None)"
    and a: "fold_until (gc_artifact (c\<lparr>c_objects := objects\<rparr>) req) (c_artifacts c, rep1) as = ((artifacts, rep), None)"
    and c': "c' = c\<lparr>c_objects := objects, c_artifacts := artifacts\<rparr>"
    using assms by (auto simp: garbage_collect_def Let_def split: if_splits sum.splits prod.splits option.splits)
  note o = gc_objects.run_ok [OF o] and a = gc_artifacts.run_ok [OF a]
  have kept: "n \<in> fst ` set as \<longleftrightarrow> area_entry (c_artifacts c) n \<noteq> None"
    "n \<in> fst ` set os \<longleftrightarrow> area_entry (c_objects c) n \<noteq> None" for n
    using read_area_entries [OF as] read_area_entries [OF os] by auto
  have weight: "artifact_bytes_of (c\<lparr>c_objects := objects\<rparr>) = artifact_bytes_of c"
    by (simp add: artifact_bytes_of_def fun_eq_iff)
  show thesis
    by (rule that [OF os as]) (use o a [unfolded weight] kept in \<open>auto simp: c' simp del: not_None_eq\<close>)
qed

section \<open>Recovery\<close>

definition recoverable :: "cache \<Rightarrow> string \<times> entry \<Rightarrow> bool" where
  "recoverable c = (\<lambda>(name, e). starts_with name TRANSACTION_PREFIX \<longrightarrow>
     (case e of EDir m _ \<Rightarrow> private_ok c m | EFile m _ \<Rightarrow> private_file c m | _ \<Rightarrow> False))"

lemma recover_fold:
  "fold_until (recover_entry c) a es = (a', r) \<Longrightarrow>
     (\<forall>n. \<not> starts_with n TRANSACTION_PREFIX \<longrightarrow> area_entry a' n = area_entry a n)
     \<and> (r = None \<longleftrightarrow> (\<forall>x \<in> set es. recoverable c x))
     \<and> (r = None \<longrightarrow> (\<forall>n. starts_with n TRANSACTION_PREFIX \<longrightarrow>
          area_entry a' n = (if n \<in> fst ` set es then None else area_entry a n)))"
proof (induction es arbitrary: a)
  case (Cons x es)
  obtain n e where x: "x = (n, e)" by force
  show ?case
  proof (cases "recoverable c x")
    case True
    let ?a1 = "if starts_with n TRANSACTION_PREFIX then remove_entry a n else a"
    have "recover_entry c a x = (?a1, None)"
      using True by (cases e) (auto simp: recoverable_def recover_entry_def x)
    then have "fold_until (recover_entry c) ?a1 es = (a', r)" using Cons.prems by simp
    from Cons.IH [OF this] True x show ?thesis by auto
  next
    case False
    then have "recover_entry c a x = (a, Some CUnsafeMetadata)"
      by (auto simp: recoverable_def recover_entry_def x split: entry.splits)
    then show ?thesis using Cons.prems False by auto
  qed
qed simp

section \<open>Addresses are injective\<close>

lemma length_be64 [simp]: "length (be64 w) = 8"
  by (simp add: be64_def)

lemma be64_inject [simp]: "be64 v = be64 w \<longleftrightarrow> v = w"
proof
  assume eq: "be64 v = be64 w"
  have byte: "bit v (s + k) = bit w (s + k)" if "s \<in> set [56, 48, 40, 32, 24, 16, 8, 0]" "k < 8" for s k
  proof -
    have "char_of (unat (drop_bit s v)) = (char_of (unat (drop_bit s w)) :: char)"
      using eq that(1) unfolding be64_def map_eq_conv by blast
    then have "(of_char (char_of (unat (drop_bit s v)) :: char) :: nat) =
        of_char (char_of (unat (drop_bit s w)) :: char)"
      by (rule arg_cong)
    then have "take_bit 8 (unat (drop_bit s v)) = take_bit 8 (unat (drop_bit s w))"
      unfolding of_char_of take_bit_eq_mod by (simp only: power_numeral Num.pow.simps Num.sqr.simps)
    then have "bit (unat (drop_bit s v)) k = bit (unat (drop_bit s w)) k"
      using that(2) by (metis bit_take_bit_iff)
    then show ?thesis by (simp add: bit_unsigned_iff bit_drop_bit_eq)
  qed
  show "v = w"
  proof (rule bit_word_eqI)
    fix n
    assume "n < LENGTH(64)"
    then have "8 * (n div 8) \<in> set [56, 48, 40, 32, 24, 16, 8, 0 :: nat]" by simp presburger
    from byte [OF this, of "n mod 8"] show "bit v n = bit w n" by simp
  qed
qed simp

lemma field_inject:
  assumes "be64 (word_of_nat (length x)) @ x @ r = be64 (word_of_nat (length y)) @ y @ s"
    and "length x < 2 ^ 64" "length y < 2 ^ 64"
  shows "x = y \<and> r = s"
proof -
  have "be64 (word_of_nat (length x)) = be64 (word_of_nat (length y))" and rest: "x @ r = y @ s"
    using assms(1) by (auto simp: append_eq_append_conv)
  then have "(word_of_nat (length x) :: 64 word) = word_of_nat (length y)" by simp
  then have "unat (word_of_nat (length x) :: 64 word) = unat (word_of_nat (length y) :: 64 word)" by simp
  then have "length x = length y" using assms(2,3) by (simp add: unat_of_nat)
  with rest show ?thesis by simp
qed

lemma fields_inject:
  assumes "concat (map (\<lambda>field. be64 (word_of_nat (length field)) @ field) xs) @ r
      = concat (map (\<lambda>field. be64 (word_of_nat (length field)) @ field) ys) @ s"
    and "length xs = length ys"
    and "\<forall>x \<in> set xs. length x < 2 ^ 64" "\<forall>y \<in> set ys. length y < 2 ^ 64"
  shows "xs = ys \<and> r = s"
  using assms(2,1,3,4)
proof (induction xs ys arbitrary: r s rule: list_induct2)
  case (Cons x xs y ys)
  from Cons.prems have "be64 (word_of_nat (length x)) @ x @ concat (map (\<lambda>field. be64 (word_of_nat (length field)) @ field) xs) @ r
      = be64 (word_of_nat (length y)) @ y @ concat (map (\<lambda>field. be64 (word_of_nat (length field)) @ field) ys) @ s"
    by simp
  from field_inject [OF this] Cons.prems have "x = y"
    and "concat (map (\<lambda>field. be64 (word_of_nat (length field)) @ field) xs) @ r
      = concat (map (\<lambda>field. be64 (word_of_nat (length field)) @ field) ys) @ s" by auto
  with Cons.IH [OF this(2)] Cons.prems show ?case by simp
qed simp

lemma address_bytes_inject:
  assumes "address_bytes a = address_bytes b"
    and "\<forall>field \<in> set (address_fields a). length field < 2 ^ 64"
    and "\<forall>field \<in> set (address_fields b). length field < 2 ^ 64"
  shows "a = b"
proof -
  have "address_fields a = address_fields b
      \<and> be64 (aa_artifact_generation a) = be64 (aa_artifact_generation b)"
    by (rule fields_inject [OF _ _ assms(2,3)])
      (use assms(1) in \<open>auto simp: address_bytes_def address_fields_def\<close>)
  then show ?thesis by (simp add: address_fields_def)
qed

lemma address_key_ok:
  "address_key hash a = Inr k \<longleftrightarrow>
     address_validate a = Inr () \<and> (\<forall>field \<in> set (address_fields a). length field < 2 ^ 64)
     \<and> k = hash (address_bytes a)"
  by (auto simp: address_key_def)

section \<open>Transactions and digests\<close>

lemma digest_not_transaction: "is_digest d \<Longrightarrow> \<not> starts_with d TRANSACTION_PREFIX"
  by (cases d) (auto simp: is_digest_def is_lower_hex_def starts_with_def TRANSACTION_PREFIX_def is_ascii_digit_def)

lemma recover_area_result:
  assumes "recover_area c a = (a', r)"
  shows "\<not> starts_with n TRANSACTION_PREFIX \<Longrightarrow> area_entry a' n = area_entry a n"
    and "r = None \<longleftrightarrow> a \<noteq> NotDirectory
      \<and> (\<forall>n e. area_entry a n = Some e \<longrightarrow> recoverable c (n, e))"
    and "r = None \<Longrightarrow> starts_with n TRANSACTION_PREFIX \<Longrightarrow> area_entry a' n = None"
proof -
  show "\<not> starts_with n TRANSACTION_PREFIX \<Longrightarrow> area_entry a' n = area_entry a n"
    using assms recover_fold [of c a _ a' r]
    by (auto simp: recover_area_def split: sum.splits)
  show "r = None \<longleftrightarrow> a \<noteq> NotDirectory \<and> (\<forall>n e. area_entry a n = Some e \<longrightarrow> recoverable c (n, e))"
    using assms recover_fold [of c a _ a' r]
    by (cases a) (auto simp: recover_area_def read_area_def area_entry_def bt_ball_items)
  show "area_entry a' n = None" if "r = None" "starts_with n TRANSACTION_PREFIX"
  proof -
    from assms that(1) obtain es where es: "read_area a = Inr es"
      and f: "fold_until (recover_entry c) a es = (a', None)"
      by (auto simp: recover_area_def split: sum.splits)
    from recover_fold [OF f] that(2) read_area_entries [OF es, of n] show ?thesis by auto
  qed
qed

lemma recover_transactions_result:
  assumes "recover_transactions c = (c', r)"
  shows "\<not> starts_with n TRANSACTION_PREFIX \<Longrightarrow>
      area_entry (c_objects c') n = area_entry (c_objects c) n
      \<and> area_entry (c_artifacts c') n = area_entry (c_artifacts c) n"
    and "r = Inr () \<longleftrightarrow> c_objects c \<noteq> NotDirectory \<and> c_artifacts c \<noteq> NotDirectory
      \<and> (\<forall>n e. area_entry (c_objects c) n = Some e \<longrightarrow> recoverable c (n, e))
      \<and> (\<forall>n e. area_entry (c_artifacts c) n = Some e \<longrightarrow> recoverable c (n, e))"
    and "r = Inr () \<Longrightarrow> starts_with n TRANSACTION_PREFIX \<Longrightarrow>
      area_entry (c_objects c') n = None \<and> area_entry (c_artifacts c') n = None"
proof -
  obtain ob ro where ro: "recover_area c (c_objects c) = (ob, ro)" by force
  obtain ar ra where ra: "recover_area c (c_artifacts c) = (ar, ra)" by force
  note o = recover_area_result [OF ro] and a = recover_area_result [OF ra]
  have c': "c' = (if ro = None then c\<lparr>c_objects := ob, c_artifacts := ar\<rparr> else c\<lparr>c_objects := ob\<rparr>)"
    and r: "r = Inr () \<longleftrightarrow> ro = None \<and> ra = None"
    using assms ro ra by (auto simp: recover_transactions_def split: option.splits)
  show "\<not> starts_with n TRANSACTION_PREFIX \<Longrightarrow>
      area_entry (c_objects c') n = area_entry (c_objects c) n
      \<and> area_entry (c_artifacts c') n = area_entry (c_artifacts c) n"
    using o(1) a(1) c' by simp
  show "r = Inr () \<longleftrightarrow> c_objects c \<noteq> NotDirectory \<and> c_artifacts c \<noteq> NotDirectory
      \<and> (\<forall>n e. area_entry (c_objects c) n = Some e \<longrightarrow> recoverable c (n, e))
      \<and> (\<forall>n e. area_entry (c_artifacts c) n = Some e \<longrightarrow> recoverable c (n, e))"
    using r o(2) a(2) by blast
  show "r = Inr () \<Longrightarrow> starts_with n TRANSACTION_PREFIX \<Longrightarrow>
      area_entry (c_objects c') n = None \<and> area_entry (c_artifacts c') n = None"
    using r c' o(3) a(3) by simp
qed

lemma put_artifact_key:
  assumes "put_artifact c tmp a input envelope = (c', Inr r)"
  obtains key where "address_key (c_hash c) a = Inr key" "is_digest key"
    "put_artifact_by_key c tmp key input envelope = (c', Inr r)" "c_hash c' = c_hash c"
proof -
  from assms obtain key where key: "address_key (c_hash c) a = Inr key"
    and put: "put_artifact_by_key c tmp key input envelope = (c', Inr r)"
    by (auto simp: put_artifact_def split: sum.splits)
  from put have "is_digest key" "c_hash c' = c_hash c"
    by (auto simp: put_artifact_by_key_def stage_artifact_def publish_artifact_def Let_def
        split: if_splits sum.splits prod.splits)
  with key put show thesis using that by blast
qed

lemma load_artifact_by_key_dir:
  assumes "load_artifact_by_key c key = Inr (r, bs)"
  shows "\<exists>m files. area_entry (c_artifacts c) key = Some (EDir m files) \<and> private_ok c m"
  using assms
  by (auto simp: load_artifact_by_key_def artifact_layout_def split: option.splits entry.splits if_splits)

lemma put_artifact_loads:
  assumes put: "put_artifact c tmp a input envelope = (c', Inr r)" and ne: "[] \<notin> set input"
    and tmp: "starts_with tmp TRANSACTION_PREFIX" "area_entry (c_artifacts c) tmp = None"
  shows "load_artifact c a = Inr None \<and> load_artifact c' a = Inr (Some r)
    \<and> load_artifact_by_key c' (ar_key r) = Inr (r, concat input)
    \<and> ar_envelope r = envelope \<and> ar_ciphertext_hash r = c_hash c (concat input)
    \<and> area_entry (c_artifacts c') tmp = None"
proof -
  from put obtain key where key: "address_key (c_hash c) a = Inr key" "is_digest key"
    and by_key: "put_artifact_by_key c tmp key input envelope = (c', Inr r)" and h: "c_hash c' = c_hash c"
    by (rule put_artifact_key)
  have "tmp \<noteq> key" using tmp(1) digest_not_transaction [OF key(2)] by auto
  note res = put_artifact_result [OF by_key ne tmp(2) this]
  from load_artifact_by_key_dir [OF res(2)] have "load_artifact c' a = Inr (Some r)"
    using key h res(2) by (auto simp: load_artifact_def)
  with res key show ?thesis by (auto simp: load_artifact_def)
qed

end
