(* ===== verification/Cache_Properties.thy ===== *)
theory Cache_Properties
  imports Cache_Store
begin

text \<open>
  The properties of the ciphertext cache, each with a witness on a small cache whose digest
  function is a concrete one.
\<close>

section \<open>A small cache\<close>

definition example_digest :: "bytes \<Rightarrow> string" where
  "example_digest bs = (if bs = ''sealed'' then replicate 64 CHR ''a''
     else if bs = ''other'' then replicate 64 CHR ''b'' else replicate 64 CHR ''c'')"

definition empty_cache :: cache where
  "empty_cache = \<lparr>c_objects = Absent, c_artifacts = Absent, c_euid = 1000,
     c_allow_foreign_owner = False, c_hash = example_digest\<rparr>"

definition example_address :: artifact_address where
  "example_address = \<lparr>aa_artifact_policy_hash = replicate 64 CHR ''1'',
     aa_source_ciphertext_hash = replicate 64 CHR ''2'', aa_recipient_fingerprint = replicate 64 CHR ''3'',
     aa_target_id = ''host/web'', aa_secret_id = ''db/password'', aa_artifact_generation = 1\<rparr>"

definition object_cache :: cache where
  "object_cache = fst (put_object (fst (put_object empty_cache ''sealed'')) ''other'')"

definition artifact_cache :: cache where
  "artifact_cache = fst (put_artifact object_cache ''.nix-seal-txn-1'' example_address [''sea'', ''led''] ''envelope'')"

section \<open>Objects\<close>

text \<open>
  Storing bytes returns their digest, after which the digest reads back bytes with that
  digest: the stored bytes themselves when it was new. Objects already there are
  untouched, artifacts too.
\<close>

theorem object_roundtrip:
  assumes "put_object c bs = (c', Inr d)" and "is_digest (c_hash c bs)"
  shows "d = c_hash c bs
    \<and> (\<exists>bs'. get_object c' d = Inr bs' \<and> c_hash c bs' = d \<and> (area_entry (c_objects c) d = None \<longrightarrow> bs' = bs))
    \<and> (\<forall>n e. area_entry (c_objects c) n = Some e \<longrightarrow> area_entry (c_objects c') n = Some e)
    \<and> c_artifacts c' = c_artifacts c"
  using put_object_result [OF assms] by auto

theorem object_roundtrip_witness:
  "example_digest ''sealed'' = replicate 64 CHR ''a''
   \<and> (\<exists>bs'. get_object (fst (put_object empty_cache ''sealed'')) (replicate 64 CHR ''a'') = Inr bs')"
proof -
  have "snd (put_object empty_cache ''sealed'') = Inr (replicate 64 CHR ''a'')"
    and dig: "is_digest (c_hash empty_cache ''sealed'')"
    by code_simp+
  then have "put_object empty_cache ''sealed'' = (fst (put_object empty_cache ''sealed''), Inr (replicate 64 CHR ''a''))"
    by (simp add: prod_eq_iff)
  from object_roundtrip [OF this dig] show ?thesis by (auto simp: example_digest_def)
qed

section \<open>Copying\<close>

text \<open>
  However a reader splits its input into pieces, the bounded copy writes exactly the
  input and returns the digest of all of it when it fits the limit, and otherwise fails with
  the limit error; the loop always ends.
\<close>

theorem copy_and_hash_bounded_correct:
  assumes "[] \<notin> set input"
  shows "copy_and_hash_bounded hash input limit =
     (if length (concat input) \<le> limit then Inr (concat input, hash (concat input)) else Inl CLimit)"
  by (rule copy_and_hash_correct [OF assms])

theorem copy_and_hash_bounded_correct_witness:
  "copy_and_hash_bounded example_digest [''sea'', ''led''] 6 = Inr (''sealed'', replicate 64 CHR ''a'')
   \<and> copy_and_hash_bounded example_digest [''sea'', ''led''] 5 = Inl CLimit"
  using copy_and_hash_bounded_correct [of "[''sea'', ''led'']" example_digest 6]
    copy_and_hash_bounded_correct [of "[''sea'', ''led'']" example_digest 5]
  by (simp add: example_digest_def)

section \<open>Artifacts\<close>

text \<open>
  C13. An artifact put under an address was not there before, and afterwards loads from that
  address with its envelope, the digest of its ciphertext and the ciphertext itself; the
  transaction is gone.
\<close>

theorem artifact_roundtrip:
  assumes put: "put_artifact c tmp a input envelope = (c', Inr r)" and ne: "[] \<notin> set input"
    and tmp: "starts_with tmp TRANSACTION_PREFIX" "area_entry (c_artifacts c) tmp = None"
  shows "load_artifact c a = Inr None \<and> load_artifact c' a = Inr (Some r)
    \<and> load_artifact_by_key c' (ar_key r) = Inr (r, concat input)
    \<and> ar_envelope r = envelope \<and> ar_ciphertext_hash r = c_hash c (concat input)
    \<and> area_entry (c_artifacts c') tmp = None"
  by (rule put_artifact_loads [OF assms])

theorem artifact_roundtrip_witness:
  "load_artifact object_cache example_address = Inr None
   \<and> load_artifact artifact_cache example_address =
       Inr (Some \<lparr>ar_key = replicate 64 CHR ''c'', ar_ciphertext_hash = replicate 64 CHR ''a'', ar_envelope = ''envelope''\<rparr>)"
proof -
  have "put_artifact object_cache ''.nix-seal-txn-1'' example_address [''sea'', ''led''] ''envelope'' =
      (artifact_cache, Inr \<lparr>ar_key = replicate 64 CHR ''c'', ar_ciphertext_hash = replicate 64 CHR ''a'', ar_envelope = ''envelope''\<rparr>)"
    unfolding prod_eq_iff fst_conv snd_conv
    by (intro conjI, simp add: artifact_cache_def, code_simp)
  moreover have "starts_with ''.nix-seal-txn-1'' TRANSACTION_PREFIX"
    "area_entry (c_artifacts object_cache) ''.nix-seal-txn-1'' = None"
    by code_simp+
  ultimately show ?thesis
    using artifact_roundtrip [of object_cache "''.nix-seal-txn-1''" example_address "[''sea'', ''led'']"] by simp
qed

text \<open>
  C34. No outcome of putting an artifact replaces or removes an entry of the store other than
  the transaction's own, and putting to an address that already loads is always an error.
\<close>

theorem artifact_never_replaced:
  assumes put: "put_artifact c tmp a input envelope = (c', res)" and tmp: "starts_with tmp TRANSACTION_PREFIX"
  shows "(\<forall>n e. n \<noteq> tmp \<longrightarrow> area_entry (c_artifacts c) n = Some e \<longrightarrow> area_entry (c_artifacts c') n = Some e)
    \<and> (\<forall>r. load_artifact c a = Inr (Some r) \<longrightarrow> \<not> is_ok res)"
proof (intro conjI allI impI)
  fix n e
  assume e: "n \<noteq> tmp" "area_entry (c_artifacts c) n = Some e"
  show "area_entry (c_artifacts c') n = Some e"
    using put e(2) put_artifact_frame [OF _ e, of _ _ _ c' res]
    by (cases "address_key (c_hash c) a") (auto simp: put_artifact_def)
next
  fix r
  assume load: "load_artifact c a = Inr (Some r)"
  then obtain key where key: "address_key (c_hash c) a = Inr key"
    by (auto simp: load_artifact_def)
  have "\<exists>m files. area_entry (c_artifacts c) key = Some (EDir m files)"
    using load key by (auto simp: load_artifact_def split: option.splits entry.splits)
  then obtain m files where e: "area_entry (c_artifacts c) key = Some (EDir m files)" by blast
  have "area_entry as key = Some (EDir m files)"
    if "ensure_private_directory (c_euid c) (c_artifacts c) = Inr as" for as
    using ensure_private_directory_result [OF that] e by (auto simp: area_entry_def)
  then show "\<not> is_ok res"
    using put key e
    by (auto simp: put_artifact_def put_artifact_by_key_def stage_artifact_def path_exists_def Let_def
        split: if_splits sum.splits prod.splits)
qed

theorem artifact_never_replaced_witness:
  "\<not> is_ok (snd (put_artifact artifact_cache ''.nix-seal-txn-2'' example_address [''other''] ''envelope''))
   \<and> area_entry (c_artifacts (fst (put_artifact artifact_cache ''.nix-seal-txn-2'' example_address [''other''] ''envelope'')))
        (replicate 64 CHR ''c'') = area_entry (c_artifacts artifact_cache) (replicate 64 CHR ''c'')"
proof -
  have pre: "starts_with ''.nix-seal-txn-2'' TRANSACTION_PREFIX"
    "load_artifact artifact_cache example_address =
       Inr (Some \<lparr>ar_key = replicate 64 CHR ''c'', ar_ciphertext_hash = replicate 64 CHR ''a'', ar_envelope = ''envelope''\<rparr>)"
    "area_entry (c_artifacts artifact_cache) (replicate 64 CHR ''c'') = Some (artifact_bundle 1000 ''sealed'' ''envelope'')"
    "replicate 64 CHR ''c'' \<noteq> ''.nix-seal-txn-2''"
    by code_simp+
  obtain c' res where "put_artifact artifact_cache ''.nix-seal-txn-2'' example_address [''other''] ''envelope'' = (c', res)"
    by force
  from artifact_never_replaced [OF this pre(1)] this pre show ?thesis by auto
qed

section \<open>Recovery\<close>

text \<open>
  Recovery removes nothing but transactions, in every outcome. It succeeds exactly
  when both directories can be listed and every transaction in them is a private file or
  directory, and then no transaction is left.
\<close>

theorem recover_transactions_correct:
  assumes "recover_transactions c = (c', r)"
  shows "(\<forall>n. \<not> starts_with n TRANSACTION_PREFIX \<longrightarrow>
        area_entry (c_objects c') n = area_entry (c_objects c) n
        \<and> area_entry (c_artifacts c') n = area_entry (c_artifacts c) n)
    \<and> (r = Inr () \<longleftrightarrow> c_objects c \<noteq> NotDirectory \<and> c_artifacts c \<noteq> NotDirectory
        \<and> (\<forall>n e. area_entry (c_objects c) n = Some e \<longrightarrow> recoverable c (n, e))
        \<and> (\<forall>n e. area_entry (c_artifacts c) n = Some e \<longrightarrow> recoverable c (n, e)))
    \<and> (r = Inr () \<longrightarrow> (\<forall>n. starts_with n TRANSACTION_PREFIX \<longrightarrow>
        area_entry (c_objects c') n = None \<and> area_entry (c_artifacts c') n = None))"
  using recover_transactions_result [OF assms] by blast

definition crashed_cache :: cache where
  "crashed_cache = fst (stage_artifact object_cache ''.nix-seal-txn-1'' (replicate 64 CHR ''d'') [''sealed''] ''envelope'')"

theorem recover_transactions_correct_witness:
  "area_entry (c_artifacts crashed_cache) ''.nix-seal-txn-1'' \<noteq> None
   \<and> area_entry (c_artifacts (fst (recover_transactions crashed_cache))) ''.nix-seal-txn-1'' = None
   \<and> area_entry (c_objects (fst (recover_transactions crashed_cache))) (replicate 64 CHR ''a'')
      = area_entry (c_objects crashed_cache) (replicate 64 CHR ''a'')"
proof -
  have pre: "snd (recover_transactions crashed_cache) = Inr ()" "starts_with ''.nix-seal-txn-1'' TRANSACTION_PREFIX"
    "\<not> starts_with (replicate 64 CHR ''a'') TRANSACTION_PREFIX"
    "\<not> Option.is_none (area_entry (c_artifacts crashed_cache) ''.nix-seal-txn-1'')"
    by code_simp+
  obtain c' res where eq: "recover_transactions crashed_cache = (c', res)" by force
  from recover_transactions_correct [OF this] pre show ?thesis by (auto simp: eq Option.is_none_def)
qed

text \<open>
  C18. A process that dies after staging an artifact and before publishing it loses nothing:
  opening the cache again succeeds and every entry is as it was before.
\<close>

theorem crash_before_publish_recovers:
  assumes st: "stage_artifact c tmp key input envelope = (c1, Inr h)" and ne: "[] \<notin> set input"
    and tmp: "starts_with tmp TRANSACTION_PREFIX"
    and clean: "\<forall>n. starts_with n TRANSACTION_PREFIX \<longrightarrow>
      area_entry (c_objects c) n = None \<and> area_entry (c_artifacts c) n = None"
    and listable: "c_objects c \<noteq> NotDirectory"
  shows "\<exists>c2. recover_transactions c1 = (c2, Inr ())
    \<and> (\<forall>n. area_entry (c_objects c2) n = area_entry (c_objects c) n
         \<and> area_entry (c_artifacts c2) n = area_entry (c_artifacts c) n)"
proof -
  obtain c2 r where r: "recover_transactions c1 = (c2, r)" by force
  note rec = recover_transactions_result [OF r]
  from stage_artifact_result(6) [OF st ne] obtain m es where
    c1: "c1 = c\<lparr>c_artifacts := Area m (bt_insert tmp (artifact_bundle (c_euid c) (concat input) envelope) es)\<rparr>"
    and es: "\<And>n. bt_get es n = area_entry (c_artifacts c) n" by blast
  have entries: "area_entry (c_artifacts c1) n =
      (if n = tmp then Some (artifact_bundle (c_euid c) (concat input) envelope) else area_entry (c_artifacts c) n)"
    "c_objects c1 = c_objects c" for n
    using es by (simp_all add: c1 area_entry_def)
  have "private_ok c1 (private_directory_meta (c_euid c))" by (simp add: c1)
  then have "r = Inr ()"
    unfolding rec(2) entries using listable clean
    by (auto simp: recoverable_def artifact_bundle_def c1)
  with rec(1,3) clean tmp entries r show ?thesis by (metis (no_types, lifting))
qed

theorem crash_before_publish_recovers_witness:
  "\<exists>c2. recover_transactions crashed_cache = (c2, Inr ())
    \<and> (\<forall>n. area_entry (c_objects c2) n = area_entry (c_objects object_cache) n
         \<and> area_entry (c_artifacts c2) n = area_entry (c_artifacts object_cache) n)"
proof -
  have st: "stage_artifact object_cache ''.nix-seal-txn-1'' (replicate 64 CHR ''d'') [''sealed''] ''envelope''
      = (crashed_cache, Inr (replicate 64 CHR ''a''))"
    unfolding prod_eq_iff fst_conv snd_conv by (intro conjI, simp add: crashed_cache_def, code_simp)
  have tmp: "starts_with ''.nix-seal-txn-1'' TRANSACTION_PREFIX" by code_simp
  have obj: "c_artifacts object_cache = Absent"
    "c_objects object_cache = Area (private_directory_meta 1000) (bt_of_list
      [(replicate 64 CHR ''a'', EFile (private_file_meta 1000) ''sealed''),
       (replicate 64 CHR ''b'', EFile (private_file_meta 1000) ''other'')])"
    "\<not> starts_with (replicate 64 CHR ''a'') TRANSACTION_PREFIX"
    "\<not> starts_with (replicate 64 CHR ''b'') TRANSACTION_PREFIX"
    by code_simp+
  have "\<forall>n. starts_with n TRANSACTION_PREFIX \<longrightarrow>
      area_entry (c_objects object_cache) n = None \<and> area_entry (c_artifacts object_cache) n = None"
    using obj(3,4) unfolding obj(1,2)
    by (auto simp: area_entry_def bt_of_list_def)
  from crash_before_publish_recovers [OF st _ tmp this] obj show ?thesis by simp
qed

section \<open>Garbage collection\<close>

text \<open>
  C24. A collection that succeeds removes, when it executes, exactly the entries that are not
  retained, and nothing in a dry run; its report counts the candidates and the retained
  entries of both stores and sums the bytes of the candidates.
\<close>

theorem garbage_collect_exact:
  assumes "garbage_collect c req = (c', Inr rep)"
  shows "(\<forall>n. area_entry (c_objects c') n =
        (if gc_execute req \<and> n \<notin> gc_retained_objects req then None else area_entry (c_objects c) n))
    \<and> (\<forall>n. area_entry (c_artifacts c') n =
        (if gc_execute req \<and> n \<notin> gc_retained_artifacts req then None else area_entry (c_artifacts c) n))
    \<and> (\<exists>os as. read_area (c_objects c) = Inr os \<and> read_area (c_artifacts c) = Inr as
        \<and> gr_candidate_objects rep = length (filter (\<lambda>x. fst x \<notin> gc_retained_objects req) os)
        \<and> gr_retained_objects rep = length (filter (\<lambda>x. fst x \<in> gc_retained_objects req) os)
        \<and> gr_candidate_artifacts rep = length (filter (\<lambda>x. fst x \<notin> gc_retained_artifacts req) as)
        \<and> gr_retained_artifacts rep = length (filter (\<lambda>x. fst x \<in> gc_retained_artifacts req) as)
        \<and> gr_candidate_bytes rep =
            sum_list (map (object_bytes_of c) (filter (\<lambda>x. fst x \<notin> gc_retained_objects req) os))
            + sum_list (map (artifact_bytes_of c) (filter (\<lambda>x. fst x \<notin> gc_retained_artifacts req) as)))"
  using assms by (rule garbage_collect_ok) blast

definition example_request :: "bool \<Rightarrow> gc_request" where
  "example_request execute = \<lparr>gc_retained_artifacts = {}, gc_retained_objects = {replicate 64 CHR ''a''},
     gc_execute = execute\<rparr>"

theorem garbage_collect_exact_witness:
  "area_entry (c_objects (fst (garbage_collect artifact_cache (example_request True)))) (replicate 64 CHR ''b'') = None
   \<and> area_entry (c_artifacts (fst (garbage_collect artifact_cache (example_request True)))) (replicate 64 CHR ''c'') = None
   \<and> area_entry (c_objects (fst (garbage_collect artifact_cache (example_request True)))) (replicate 64 CHR ''a'')
       = Some (EFile (private_file_meta 1000) ''sealed'')"
proof -
  have "snd (garbage_collect artifact_cache (example_request True)) =
      Inr \<lparr>gr_executed = True, gr_retained_artifacts = 0, gr_retained_objects = 1,
        gr_candidate_artifacts = 1, gr_candidate_objects = 1, gr_candidate_bytes = 19\<rparr>"
    by code_simp
  then have "garbage_collect artifact_cache (example_request True) =
      (fst (garbage_collect artifact_cache (example_request True)),
       Inr \<lparr>gr_executed = True, gr_retained_artifacts = 0, gr_retained_objects = 1,
        gr_candidate_artifacts = 1, gr_candidate_objects = 1, gr_candidate_bytes = 19\<rparr>)"
    by (simp add: prod_eq_iff)
  from garbage_collect_exact [OF this]
  have "\<forall>n. area_entry (c_objects (fst (garbage_collect artifact_cache (example_request True)))) n =
      (if gc_execute (example_request True) \<and> n \<notin> gc_retained_objects (example_request True) then None
       else area_entry (c_objects artifact_cache) n)"
    and "\<forall>n. area_entry (c_artifacts (fst (garbage_collect artifact_cache (example_request True)))) n =
      (if gc_execute (example_request True) \<and> n \<notin> gc_retained_artifacts (example_request True) then None
       else area_entry (c_artifacts artifact_cache) n)"
    by blast+
  moreover have "gc_execute (example_request True)"
    "replicate 64 CHR ''b'' \<notin> gc_retained_objects (example_request True)"
    "replicate 64 CHR ''c'' \<notin> gc_retained_artifacts (example_request True)"
    "replicate 64 CHR ''a'' \<in> gc_retained_objects (example_request True)"
    "area_entry (c_objects artifact_cache) (replicate 64 CHR ''a'') = Some (EFile (private_file_meta 1000) ''sealed'')"
    by code_simp+
  ultimately show ?thesis by simp
qed

text \<open>
  Whatever the outcome, a collection never touches a retained entry, and a dry run
  leaves the cache exactly as it was.
\<close>

theorem garbage_collect_safe:
  assumes "garbage_collect c req = (c', res)"
  shows "(\<not> gc_execute req \<longrightarrow> c' = c)
    \<and> (\<forall>n \<in> gc_retained_objects req. area_entry (c_objects c') n = area_entry (c_objects c) n)
    \<and> (\<forall>n \<in> gc_retained_artifacts req. area_entry (c_artifacts c') n = area_entry (c_artifacts c) n)"
  using garbage_collect_dry [OF assms] garbage_collect_retains [OF assms] by blast

definition corrupt_cache :: cache where
  "corrupt_cache = object_cache\<lparr>c_objects := set_entry (c_objects object_cache) (replicate 64 CHR ''b'')
     (EFile (private_file_meta 1000) ''damaged'')\<rparr>"

theorem garbage_collect_safe_witness:
  "fst (garbage_collect corrupt_cache (example_request False)) = corrupt_cache
   \<and> area_entry (c_objects (fst (garbage_collect corrupt_cache (example_request True)))) (replicate 64 CHR ''a'')
      = area_entry (c_objects corrupt_cache) (replicate 64 CHR ''a'')"
proof -
  have pre: "\<not> gc_execute (example_request False)" "replicate 64 CHR ''a'' \<in> gc_retained_objects (example_request True)"
    by (simp_all add: example_request_def)
  show ?thesis
    using garbage_collect_safe [of corrupt_cache "example_request False", OF prod.collapse [symmetric]]
      garbage_collect_safe [of corrupt_cache "example_request True", OF prod.collapse [symmetric]] pre
    by blast
qed

text \<open>
  An executing collection removes candidates while it still validates: when a later entry is
  damaged it fails, and the candidates seen before are already gone.
\<close>

lemma garbage_collect_partial:
  "snd (garbage_collect corrupt_cache \<lparr>gc_retained_artifacts = {}, gc_retained_objects = {}, gc_execute = True\<rparr>)
     = Inl CHashMismatch
   \<and> area_entry (c_objects corrupt_cache) (replicate 64 CHR ''a'') = Some (EFile (private_file_meta 1000) ''sealed'')
   \<and> area_entry (c_objects (fst (garbage_collect corrupt_cache
        \<lparr>gc_retained_artifacts = {}, gc_retained_objects = {}, gc_execute = True\<rparr>))) (replicate 64 CHR ''a'') = None"
  by (intro conjI; code_simp)

section \<open>Addresses\<close>

text \<open>
  Different valid addresses are hashed from different bytes, so two addresses share a
  key only through a collision of the digest function.
\<close>

theorem address_key_injective:
  assumes "address_key hash a = Inr k" and "address_key hash b = Inr k"
    and "\<And>x y. hash x = hash y \<Longrightarrow> x \<in> {address_bytes a, address_bytes b} \<Longrightarrow>
      y \<in> {address_bytes a, address_bytes b} \<Longrightarrow> x = y"
  shows "a = b"
  using assms address_bytes_inject [of a b] unfolding address_key_ok by blast

definition tagged_digest :: "bytes \<Rightarrow> string" where
  "tagged_digest bs = bs"

theorem address_key_injective_witness:
  "address_key tagged_digest example_address = Inr (address_bytes example_address)
   \<and> address_key tagged_digest (example_address\<lparr>aa_artifact_generation := 2\<rparr>) \<noteq> Inr (address_bytes example_address)"
proof -
  have key: "address_key tagged_digest example_address = Inr (address_bytes example_address)" by code_simp
  moreover have "example_address\<lparr>aa_artifact_generation := 2\<rparr> \<noteq> example_address"
    by (simp add: example_address_def)
  ultimately show ?thesis
    using address_key_injective [of tagged_digest "example_address\<lparr>aa_artifact_generation := 2\<rparr>"
        "address_bytes example_address" example_address]
    by (auto simp: tagged_digest_def)
qed

text \<open>
  The cache admits identifiers the rest of the program rejects: \<open>is_id\<close> compares whole path
  segments with two dots where \<open>Id::parse\<close> refuses them anywhere.
\<close>

lemma cache_id_wider: "is_id ''a..b'' \<and> \<not> is_ok (Id_parse ''a..b'')"
  by code_simp

end
