(* ===== verification/Traced.thy ===== *)
theory Traced
  imports Prelude
begin

text \<open>
  Computations that change a store in several steps and may fail: the result and the list of
  the states passed through, one for each change, so that a crash leaves the store in one of
  them. An invariant of all these states is proved along the structure of the computation.
\<close>

named_theorems keeps_intros

type_synonym ('s, 'e, 'a) traced = "'s \<Rightarrow> 's list \<times> ('e + 'a)"

definition final_state :: "'s \<Rightarrow> 's list \<Rightarrow> 's" where
  "final_state s tr = (if tr = [] then s else last tr)"

definition t_return :: "'a \<Rightarrow> ('s, 'e, 'a) traced" where
  "t_return x s = ([], Inr x)"

definition t_fail :: "'e \<Rightarrow> ('s, 'e, 'a) traced" where
  "t_fail e s = ([], Inl e)"

text \<open>Reading the store, or a computation that does not touch it.\<close>

definition t_get :: "('s \<Rightarrow> 'e + 'a) \<Rightarrow> ('s, 'e, 'a) traced" where
  "t_get f s = ([], f s)"

definition t_modify :: "('s \<Rightarrow> 's) \<Rightarrow> ('s, 'e, unit) traced" where
  "t_modify g s = ([g s], Inr ())"

definition t_bind :: "('s, 'e, 'a) traced \<Rightarrow> ('a \<Rightarrow> ('s, 'e, 'b) traced) \<Rightarrow> ('s, 'e, 'b) traced" where
  "t_bind m f s =
     (case m s of
        (tr, Inl e) \<Rightarrow> (tr, Inl e)
      | (tr, Inr x) \<Rightarrow> (case f x (final_state s tr) of (tr', r) \<Rightarrow> (tr @ tr', r)))"

text \<open>Clean up after an error, ignore what the cleanup reports, and keep the error.\<close>

definition t_on_error :: "('s, 'e, 'a) traced \<Rightarrow> ('s, 'e, 'b) traced \<Rightarrow> ('s, 'e, 'a) traced" where
  "t_on_error m cleanup s =
     (case m s of
        (tr, Inl e) \<Rightarrow> (case cleanup (final_state s tr) of (tr', _) \<Rightarrow> (tr @ tr', Inl e))
      | (tr, Inr x) \<Rightarrow> (tr, Inr x))"

text \<open>Run a computation and ignore its error; run a cleanup after either outcome.\<close>

definition t_ignore :: "('s, 'e, 'a) traced \<Rightarrow> ('s, 'e, unit) traced" where
  "t_ignore m s = (case m s of (tr, _) \<Rightarrow> (tr, Inr ()))"

definition t_finally :: "('s, 'e, 'a) traced \<Rightarrow> ('s, 'e, 'b) traced \<Rightarrow> ('s, 'e, 'a) traced" where
  "t_finally m cleanup s =
     (case m s of (tr, r) \<Rightarrow> (case cleanup (final_state s tr) of (tr', _) \<Rightarrow> (tr @ tr', r)))"

fun t_for_each :: "('a \<Rightarrow> ('s, 'e, unit) traced) \<Rightarrow> 'a list \<Rightarrow> ('s, 'e, unit) traced" where
  "t_for_each f [] = t_return ()"
| "t_for_each f (x # xs) = t_bind (f x) (\<lambda>_. t_for_each f xs)"

text \<open>The whole run: the state at the end and the result.\<close>

definition exec :: "('s, 'e, 'a) traced \<Rightarrow> 's \<Rightarrow> 's \<times> ('e + 'a)" where
  "exec m s = (case m s of (tr, r) \<Rightarrow> (final_state s tr, r))"

lemma final_state_simps [simp]:
  "final_state s [] = s" "final_state s (tr @ tr') = final_state (final_state s tr) tr'"
  "final_state s (s' # tr) = final_state s' tr"
  by (auto simp: final_state_def)

lemma exec_simps [simp]:
  "exec (t_return x) s = (s, Inr x)" "exec (t_fail e) s = (s, Inl e)"
  "exec (t_get f) s = (s, f s)" "exec (t_modify g) s = (g s, Inr ())"
  by (auto simp: exec_def t_return_def t_fail_def t_get_def t_modify_def)

lemma exec_bind:
  "exec (t_bind m f) s = (case exec m s of (s1, Inl e) \<Rightarrow> (s1, Inl e) | (s1, Inr x) \<Rightarrow> exec (f x) s1)"
  by (auto simp: exec_def t_bind_def split: prod.splits sum.splits)

lemma exec_on_error:
  "exec (t_on_error m cleanup) s =
     (case exec m s of (s1, Inl e) \<Rightarrow> (fst (exec cleanup s1), Inl e) | (s1, Inr x) \<Rightarrow> (s1, Inr x))"
  by (auto simp: exec_def t_on_error_def split: prod.splits sum.splits)

lemma exec_ignore: "exec (t_ignore m) s = (fst (exec m s), Inr ())"
  by (auto simp: exec_def t_ignore_def split: prod.splits)

lemma exec_finally: "exec (t_finally m cleanup) s = (fst (exec cleanup (fst (exec m s))), snd (exec m s))"
  by (auto simp: exec_def t_finally_def split: prod.splits)

lemma exec_bind_Inr:
  "exec (t_bind m f) s = (s', Inr y) \<longleftrightarrow> (\<exists>s1 x. exec m s = (s1, Inr x) \<and> exec (f x) s1 = (s', Inr y))"
  by (auto simp: exec_bind split: prod.splits sum.splits)

lemma exec_for_each_simps [simp]:
  "exec (t_for_each f []) s = (s, Inr ())"
  "exec (t_for_each f (x # xs)) s =
     (case exec (f x) s of (s1, Inl e) \<Rightarrow> (s1, Inl e) | (s1, Inr _) \<Rightarrow> exec (t_for_each f xs) s1)"
  by (simp_all add: exec_bind)

section \<open>Invariants of all states passed through\<close>

definition keeps :: "('s \<Rightarrow> bool) \<Rightarrow> ('s, 'e, 'a) traced \<Rightarrow> bool" where
  "keeps P m \<longleftrightarrow> (\<forall>s. P s \<longrightarrow> (\<forall>s' \<in> set (fst (m s)). P s'))"

lemma keeps_final: "keeps P m \<Longrightarrow> P s \<Longrightarrow> P (final_state s (fst (m s)))"
  by (auto simp: keeps_def final_state_def)

lemma keeps_exec: "keeps P m \<Longrightarrow> P s \<Longrightarrow> exec m s = (s', r) \<Longrightarrow> P s'"
  using keeps_final by (fastforce simp: exec_def split: prod.splits)

lemma keeps_basic [keeps_intros]:
  "keeps P (t_return x)" "keeps P (t_fail e)" "keeps P (t_get f)"
  by (simp_all add: keeps_def t_return_def t_fail_def t_get_def)

lemma keeps_modify [keeps_intros]: "(\<And>s. P s \<Longrightarrow> P (g s)) \<Longrightarrow> keeps P (t_modify g)"
  by (simp add: keeps_def t_modify_def)

lemma keepsI: "(\<And>s s'. P s \<Longrightarrow> s' \<in> set (fst (m s)) \<Longrightarrow> P s') \<Longrightarrow> keeps P m"
  by (simp add: keeps_def)

lemma keepsD: "keeps P m \<Longrightarrow> P s \<Longrightarrow> m s = (tr, r) \<Longrightarrow> (\<forall>s' \<in> set tr. P s') \<and> P (final_state s tr)"
  using keeps_final [of P m s] by (auto simp: keeps_def)

lemma keeps_bind [keeps_intros]:
  assumes m: "keeps P m" and f: "\<And>x. keeps P (f x)"
  shows "keeps P (t_bind m f)"
proof (rule keepsI)
  fix s s'
  assume s: "P s" and s': "s' \<in> set (fst (t_bind m f s))"
  obtain tr r where mr: "m s = (tr, r)" by force
  note first = keepsD [OF m s mr]
  show "P s'"
  proof (cases r)
    case (Inl e)
    with s' mr first show ?thesis by (simp add: t_bind_def)
  next
    case (Inr x)
    obtain tr' r' where fr: "f x (final_state s tr) = (tr', r')" by force
    with keepsD [OF f _ fr] first s' mr Inr show ?thesis by (auto simp: t_bind_def)
  qed
qed

lemma keeps_on_error [keeps_intros]:
  assumes m: "keeps P m" and c: "keeps P c"
  shows "keeps P (t_on_error m c)"
proof (rule keepsI)
  fix s s'
  assume s: "P s" and s': "s' \<in> set (fst (t_on_error m c s))"
  obtain tr r where mr: "m s = (tr, r)" by force
  note first = keepsD [OF m s mr]
  show "P s'"
  proof (cases r)
    case (Inl e)
    obtain tr' r' where cr: "c (final_state s tr) = (tr', r')" by force
    with keepsD [OF c _ cr] first s' mr Inl show ?thesis by (auto simp: t_on_error_def)
  next
    case (Inr x)
    with s' mr first show ?thesis by (simp add: t_on_error_def)
  qed
qed

lemma keeps_ignore [keeps_intros]: "keeps P m \<Longrightarrow> keeps P (t_ignore m)"
  by (auto simp: keeps_def t_ignore_def split: prod.splits)

lemma keeps_finally [keeps_intros]:
  assumes m: "keeps P m" and c: "keeps P c"
  shows "keeps P (t_finally m c)"
proof (rule keepsI)
  fix s s'
  assume s: "P s" and s': "s' \<in> set (fst (t_finally m c s))"
  obtain tr r where mr: "m s = (tr, r)" by force
  note first = keepsD [OF m s mr]
  obtain tr' r' where cr: "c (final_state s tr) = (tr', r')" by force
  with keepsD [OF c _ cr] first s' mr show "P s'" by (auto simp: t_finally_def)
qed

lemma keeps_for_each [keeps_intros]: "(\<And>x. x \<in> set xs \<Longrightarrow> keeps P (f x)) \<Longrightarrow> keeps P (t_for_each f xs)"
  by (induction xs) (auto intro: keeps_intros)

lemma keeps_if [keeps_intros]: "keeps P a \<Longrightarrow> keeps P b \<Longrightarrow> keeps P (if c then a else b)"
  by simp

section \<open>Contracts\<close>

text \<open>
  \<open>run_ok I P m Q E\<close>: from a state with \<open>P\<close> every state passed through has \<open>I\<close>,
  success ends in \<open>Q\<close> of the result and failure in \<open>E\<close>.
\<close>

definition run_ok ::
  "('s \<Rightarrow> bool) \<Rightarrow> ('s \<Rightarrow> bool) \<Rightarrow> ('s, 'e, 'a) traced \<Rightarrow> ('a \<Rightarrow> 's \<Rightarrow> bool) \<Rightarrow> ('e \<Rightarrow> 's \<Rightarrow> bool) \<Rightarrow> bool" where
  "run_ok I P m Q E \<longleftrightarrow> (\<forall>s tr r. P s \<longrightarrow> m s = (tr, r) \<longrightarrow>
     (\<forall>s' \<in> set tr. I s')
     \<and> (case r of Inr x \<Rightarrow> Q x (final_state s tr) | Inl e \<Rightarrow> E e (final_state s tr)))"

lemma run_okD:
  assumes "run_ok I P m Q E" "P s" "m s = (tr, r)"
  shows "\<forall>s' \<in> set tr. I s'" "r = Inr x \<Longrightarrow> Q x (final_state s tr)" "r = Inl e \<Longrightarrow> E e (final_state s tr)"
  using assms by (auto simp: run_ok_def split: sum.splits)

lemma run_ok_exec:
  assumes "run_ok I P m Q E" "P s" "exec m s = (s', r)"
  shows "r = Inr x \<Longrightarrow> Q x s'" "r = Inl e \<Longrightarrow> E e s'"
  using assms run_okD(2,3) [OF assms(1,2)] by (auto simp: exec_def split: prod.splits)

lemma run_ok_bind:
  assumes m: "run_ok I P m Q E" and f: "\<And>x. run_ok I (Q x) (f x) R E"
  shows "run_ok I P (t_bind m f) R E"
  unfolding run_ok_def
proof (intro allI impI)
  fix s tr r
  assume s: "P s" and run: "t_bind m f s = (tr, r)"
  obtain tr1 r1 where m1: "m s = (tr1, r1)" by force
  note first = run_okD [OF m s m1]
  show "(\<forall>s' \<in> set tr. I s') \<and> (case r of Inr x \<Rightarrow> R x (final_state s tr) | Inl e \<Rightarrow> E e (final_state s tr))"
  proof (cases r1)
    case (Inl e)
    with run m1 first show ?thesis by (auto simp: t_bind_def)
  next
    case (Inr x)
    obtain tr2 r2 where f2: "f x (final_state s tr1) = (tr2, r2)" by force
    from first(2) [OF Inr] have "Q x (final_state s tr1)" .
    note second = run_okD [OF f this f2]
    from run m1 Inr f2 have "tr = tr1 @ tr2" "r = r2" by (simp_all add: t_bind_def)
    with first(1) second show ?thesis by (auto split: sum.splits)
  qed
qed

lemma run_ok_bind_value:
  assumes m: "run_ok I P m (\<lambda>x s. x = v \<and> Q s) E" and f: "run_ok I Q (f v) R E"
  shows "run_ok I P (t_bind m f) R E"
proof (rule run_ok_bind [OF m])
  fix x
  show "run_ok I (\<lambda>s. x = v \<and> Q s) (f x) R E"
    using f by (cases "x = v") (auto simp: run_ok_def)
qed

lemma run_ok_on_error:
  assumes m: "run_ok I P m Q F" and c: "\<And>e. run_ok I (F e) c (\<lambda>_. E e) (\<lambda>_. E e)"
  shows "run_ok I P (t_on_error m c) Q E"
  unfolding run_ok_def
proof (intro allI impI)
  fix s tr r
  assume s: "P s" and run: "t_on_error m c s = (tr, r)"
  obtain tr1 r1 where m1: "m s = (tr1, r1)" by force
  note first = run_okD [OF m s m1]
  show "(\<forall>s' \<in> set tr. I s') \<and> (case r of Inr x \<Rightarrow> Q x (final_state s tr) | Inl e \<Rightarrow> E e (final_state s tr))"
  proof (cases r1)
    case (Inr x)
    with run m1 first show ?thesis by (auto simp: t_on_error_def)
  next
    case (Inl e)
    obtain tr2 r2 where c2: "c (final_state s tr1) = (tr2, r2)" by force
    from first(3) [OF Inl] have "F e (final_state s tr1)" .
    note second = run_okD [OF c this c2]
    from run m1 Inl c2 have "tr = tr1 @ tr2" "r = Inl e" by (simp_all add: t_on_error_def)
    with first(1) second show ?thesis by (cases r2) auto
  qed
qed

lemma run_okI:
  assumes "\<And>s tr r. P s \<Longrightarrow> m s = (tr, r) \<Longrightarrow> \<forall>s' \<in> set tr. I s'"
    and "\<And>s tr x. P s \<Longrightarrow> m s = (tr, Inr x) \<Longrightarrow> Q x (final_state s tr)"
    and "\<And>s tr e. P s \<Longrightarrow> m s = (tr, Inl e) \<Longrightarrow> E e (final_state s tr)"
  shows "run_ok I P m Q E"
  using assms by (auto simp: run_ok_def split: sum.split)

lemma run_ok_return: "(\<And>s. P s \<Longrightarrow> Q x s) \<Longrightarrow> run_ok I P (t_return x) Q E"
  by (rule run_okI) (auto simp: t_return_def)

lemma run_ok_fail: "(\<And>s. P s \<Longrightarrow> E e s) \<Longrightarrow> run_ok I P (t_fail e) Q E"
  by (rule run_okI) (auto simp: t_fail_def)

lemma run_ok_get:
  "(\<And>s x. P s \<Longrightarrow> f s = Inr x \<Longrightarrow> Q x s) \<Longrightarrow> (\<And>s e. P s \<Longrightarrow> f s = Inl e \<Longrightarrow> E e s) \<Longrightarrow>
   run_ok I P (t_get f) Q E"
  by (rule run_okI) (auto simp: t_get_def)

lemma run_ok_modify: "(\<And>s. P s \<Longrightarrow> I (g s) \<and> Q () (g s)) \<Longrightarrow> run_ok I P (t_modify g) Q E"
  by (rule run_okI) (auto simp: t_modify_def)

lemmas run_ok_basic = run_ok_return run_ok_fail run_ok_get run_ok_modify

lemma run_ok_weaken:
  assumes "run_ok I P m Q E" and "\<And>s. P' s \<Longrightarrow> P s"
    and "\<And>x s. Q x s \<Longrightarrow> Q' x s" and "\<And>e s. E e s \<Longrightarrow> E' e s" and "\<And>s. I s \<Longrightarrow> I' s"
  shows "run_ok I' P' m Q' E'"
proof (rule run_okI)
  fix s tr r
  assume "P' s" "m s = (tr, r)"
  from run_okD(1) [OF assms(1) assms(2) [OF this(1)] this(2)] show "\<forall>s' \<in> set tr. I' s'"
    using assms(5) by blast
next
  fix s tr x
  assume "P' s" "m s = (tr, Inr x)"
  from run_okD(2) [OF assms(1) assms(2) [OF this(1)] this(2) refl] show "Q' x (final_state s tr)"
    by (rule assms(3))
next
  fix s tr e
  assume "P' s" "m s = (tr, Inl e)"
  from run_okD(3) [OF assms(1) assms(2) [OF this(1)] this(2) refl] show "E' e (final_state s tr)"
    by (rule assms(4))
qed

lemma run_ok_keeps: "keeps P m \<Longrightarrow> run_ok P P m (\<lambda>_. P) (\<lambda>_. P)"
  by (rule run_okI) (auto dest: keepsD)

text \<open>Add an invariant to a contract, and prove a contract for one start state at a time.\<close>

lemma run_ok_frame:
  assumes "run_ok I P m Q E" and "keeps J m"
  shows "run_ok I (\<lambda>s. P s \<and> J s) m (\<lambda>x s. Q x s \<and> J s) (\<lambda>e s. E e s \<and> J s)"
  using assms(1) keepsD [OF assms(2)] unfolding run_ok_def by (fastforce split: sum.splits)

lemma run_ok_point: "(\<And>s. P s \<Longrightarrow> run_ok I (\<lambda>t. t = s) m Q E) \<Longrightarrow> run_ok I P m Q E"
  unfolding run_ok_def by blast

lemma run_ok_ignore: "run_ok I P m (\<lambda>_. R) (\<lambda>_. R) \<Longrightarrow> run_ok I P (t_ignore m) (\<lambda>_. R) E"
  unfolding run_ok_def t_ignore_def by (fastforce split: sum.splits prod.splits)

lemma run_ok_finally:
  assumes m: "run_ok I P m Q E" and c: "\<And>x. run_ok I (Q x) c (\<lambda>_. Q' x) (\<lambda>_. Q' x)"
    and e: "\<And>e. run_ok I (E e) c (\<lambda>_. E' e) (\<lambda>_. E' e)"
  shows "run_ok I P (t_finally m c) Q' E'"
  unfolding run_ok_def
proof (intro allI impI)
  fix s tr r
  assume s: "P s" and run: "t_finally m c s = (tr, r)"
  obtain tr1 r1 where m1: "m s = (tr1, r1)" by force
  obtain tr2 r2 where c2: "c (final_state s tr1) = (tr2, r2)" by force
  note first = run_okD [OF m s m1]
  from run m1 c2 have "tr = tr1 @ tr2" "r = r1" by (simp_all add: t_finally_def)
  with first run_okD [OF c _ c2] run_okD [OF e _ c2]
  show "(\<forall>s' \<in> set tr. I s') \<and> (case r of Inr x \<Rightarrow> Q' x (final_state s tr) | Inl e \<Rightarrow> E' e (final_state s tr))"
    by (cases r1; cases r2) auto
qed

lemma run_ok_trivial: "run_ok (\<lambda>_. True) (\<lambda>_. True) m (\<lambda>_ _. True) (\<lambda>_ _. True)"
  by (auto simp: run_ok_def split: sum.splits)

end
