(* ===== verification/Template.thy ===== *)
theory Template
  imports Readers Manifest Crypto
begin

text \<open>
  Runtime templates of \<open>crates/nix-seal-runtime/src/lib.rs\<close>: the scanner for
  \<open>{{nix-seal:name}}\<close> markers, the bounded writer, and the three streaming transforms from
  secret bytes to text. Offsets never exceed the length of the source, so their checked
  additions cannot fail. A failed rendering is discarded with its transaction, so an error
  carries no output. The base64 encoder is a parameter.
\<close>

section \<open>Errors and limits\<close>

datatype io_kind = NotFound | OtherIo

datatype runtime_error =
    RIo io_kind | RUnsafeSource | RInvalidDestination | RCompatibilityPath | RLimit | REnvelope
  | RInvalidSpec | RTemplateSyntax | RTemplateEncoding | RUnknownAccount
  | RServiceAction string | RServiceTimeout string | RPendingPostSwitch
  | RManifest manifest_error | RCrypto crypto_error

definition MAX_TEMPLATE_SOURCE_BYTES :: nat where
  "MAX_TEMPLATE_SOURCE_BYTES = 2 * 1024 * 1024"

definition MAX_TEMPLATE_OUTPUT_BYTES :: nat where
  "MAX_TEMPLATE_OUTPUT_BYTES = 128 * 1024 * 1024"

definition is_runtime_placeholder_name :: "string \<Rightarrow> bool" where
  "is_runtime_placeholder_name value \<longleftrightarrow>
     value \<noteq> [] \<and> length value \<le> 128
     \<and> (is_ascii_lowercase (hd value) \<or> is_ascii_digit (hd value))
     \<and> (\<forall>b \<in> set value. is_ascii_lowercase b \<or> is_ascii_digit b \<or> b \<in> set ''_-.'')"

section \<open>Scanning a template\<close>

text \<open>\<open>TemplatePlaceholderSpecV1\<close> has the fields of the plan's placeholder.\<close>

datatype template_part = Literal bytes | Placeholder template_placeholder

type_synonym placeholders = "(string, template_placeholder) btree_map"

function visit_loop ::
  "('s \<Rightarrow> template_part \<Rightarrow> runtime_error + 's) \<Rightarrow> placeholders \<Rightarrow> string \<Rightarrow> nat \<Rightarrow> nat \<Rightarrow> string set \<Rightarrow> 's
    \<Rightarrow> runtime_error + nat \<times> string set \<times> 's" where
  "visit_loop visitor placeholders source literal_start search_start used s =
     (case str_find (drop search_start source) ''{{'' of
        None \<Rightarrow> Inr (literal_start, used, s)
      | Some relative_start \<Rightarrow>
          (let start = search_start + relative_start; remainder = drop start source in
           if starts_with remainder ''{{nix-seal:''
           then
             and_then (visitor s (Literal (take (start - literal_start) (drop literal_start source)))) (\<lambda>s1.
             let name_start = start + length ''{{nix-seal:'' in
             and_then (ok_or (str_find (drop name_start source) ''}}'') RTemplateSyntax) (\<lambda>relative_end.
             let finish = name_start + relative_end;
                 name = take relative_end (drop name_start source) in
             and_then (check (is_runtime_placeholder_name name) RTemplateSyntax) (\<lambda>_.
             and_then (ok_or (bt_get placeholders name) RTemplateSyntax) (\<lambda>placeholder.
             and_then (visitor s1 (Placeholder placeholder)) (\<lambda>s2.
             visit_loop visitor placeholders source (finish + 2) (finish + 2) (insert name used) s2)))))
           else if starts_with remainder ''{{nix-seal'' then Inl RTemplateSyntax
           else visit_loop visitor placeholders source literal_start (start + 2) used s))"
  by pat_completeness auto
termination
proof (relation "measure (\<lambda>(visitor, placeholders, source, literal_start, search_start, used, s).
    length source - search_start)", goal_cases)
  case (2 visitor placeholders source literal_start search_start used s rel start remainder s1 name_start rel_end)
  from str_find_Some [OF 2(1)] have "search_start < length source"
    by (cases "search_start < length source") auto
  with 2 show ?case by auto
next
  case (3 visitor placeholders source literal_start search_start used s rel start remainder)
  from str_find_Some [OF 3(1)] have "search_start < length source"
    by (cases "search_start < length source") auto
  with 3 show ?case by auto
qed simp

declare visit_loop.simps [simp del]

definition visit_template_source ::
  "('s \<Rightarrow> template_part \<Rightarrow> runtime_error + 's) \<Rightarrow> bytes \<Rightarrow> placeholders \<Rightarrow> 's \<Rightarrow> runtime_error + 's" where
  "visit_template_source visitor source placeholders s =
     and_then (check (valid_utf8 source) RTemplateSyntax) (\<lambda>_.
     and_then (visit_loop visitor placeholders source 0 0 {} s) (\<lambda>(literal_start, used, s1).
     and_then (visitor s1 (Literal (drop literal_start source))) (\<lambda>s2.
     and_then (check (\<not> (card used \<noteq> bt_len placeholders
         \<or> (\<exists>name \<in> set (bt_keys placeholders). name \<notin> used))) RTemplateSyntax) (\<lambda>_.
     Inr s2))))"

definition validate_template_source :: "bytes \<Rightarrow> placeholders \<Rightarrow> runtime_error + unit" where
  "validate_template_source source placeholders =
     visit_template_source (\<lambda>_ _. Inr ()) source placeholders ()"

section \<open>Writing and rendering\<close>

text \<open>
  \<open>LimitedWriter\<close> with everything it has written; the inner writer is a regular file, whose
  writes take all bytes.
\<close>

definition template_write_all :: "bytes \<Rightarrow> bytes \<Rightarrow> runtime_error + bytes" where
  "template_write_all written bs =
     (if MAX_TEMPLATE_OUTPUT_BYTES - length written < length bs then Inl RLimit else Inr (written @ bs))"

definition render_template_into ::
  "bytes \<Rightarrow> placeholders \<Rightarrow> (bytes \<Rightarrow> template_placeholder \<Rightarrow> runtime_error + bytes) \<Rightarrow> runtime_error + bytes" where
  "render_template_into source placeholders render_placeholder =
     visit_template_source (\<lambda>written part. case part of
         Literal literal \<Rightarrow> template_write_all written literal
       | Placeholder placeholder \<Rightarrow> render_placeholder written placeholder) source placeholders []"

section \<open>Transforms\<close>

function copy_utf8 :: "bytes list \<Rightarrow> bytes \<Rightarrow> bytes \<Rightarrow> runtime_error + bytes" where
  "copy_utf8 input carried written =
     (case read_some (8 * 1024 + 3 - length carried) input of (piece, rest) \<Rightarrow>
        if piece = [] then (if carried \<noteq> [] then Inl RTemplateEncoding else Inr written)
        else
          (let buffer = carried @ piece in
           case from_utf8 buffer of
             Utf8Ok \<Rightarrow> and_then (template_write_all written buffer) (\<lambda>written'. copy_utf8 rest [] written')
           | Utf8Err valid incomplete \<Rightarrow>
               if incomplete
               then and_then (template_write_all written (take valid buffer)) (\<lambda>written'.
                 if 3 < length buffer - valid then Inl RTemplateEncoding
                 else copy_utf8 rest (drop valid buffer) written')
               else Inl RTemplateEncoding))"
  by pat_completeness auto
termination
  by (relation "measure (\<lambda>(input, carried, written). length (concat input))")
    (auto dest: read_some_shorter [OF sym])

declare copy_utf8.simps [simp del]

function copy_base64 :: "(bytes \<Rightarrow> string) \<Rightarrow> bytes list \<Rightarrow> bytes \<Rightarrow> bytes \<Rightarrow> runtime_error + bytes" where
  "copy_base64 encode input carried written =
     (case read_some (8 * 1024 + 2 - length carried) input of (piece, rest) \<Rightarrow>
        (let total = carried @ piece;
             complete = (if piece = [] then length total else length total div 3 * 3) in
         and_then
           (if complete \<noteq> 0
            then (let encoded = encode (take complete total) in
                  if 11 * 1024 < length encoded then Inl RLimit else template_write_all written encoded)
            else Inr written) (\<lambda>written'.
         if piece = [] then Inr written'
         else copy_base64 encode rest (drop complete total) written')))"
  by pat_completeness auto
termination
  by (relation "measure (\<lambda>(encode, input, carried, written). length (concat input))")
    (auto dest: read_some_shorter [OF sym])

declare copy_base64.simps [simp del]

definition HEX :: string where
  "HEX = ''0123456789abcdef''"

definition hex_byte :: "char \<Rightarrow> string" where
  "hex_byte b = [HEX ! (byte_value b div 16), HEX ! (byte_value b mod 16)]"

function copy_hex :: "bytes list \<Rightarrow> bytes \<Rightarrow> runtime_error + bytes" where
  "copy_hex input written =
     (case read_some (8 * 1024) input of (piece, rest) \<Rightarrow>
        if piece = [] then Inr written
        else and_then (template_write_all written (concat (map hex_byte piece))) (\<lambda>written'.
          copy_hex rest written'))"
  by pat_completeness auto
termination
  by (relation "measure (\<lambda>(input, written). length (concat input))") (auto dest: read_some_shorter [OF sym])

declare copy_hex.simps [simp del]

text \<open>
  The closure of \<open>Generation::render_template\<close> for one placeholder, on the decrypted secret
  file it opens. \<open>limit\<close> is \<open>MAX_CIPHERTEXT_BYTES\<close>.
\<close>

definition render_secret ::
  "(bytes \<Rightarrow> string) \<Rightarrow> template_encoding \<Rightarrow> bytes \<Rightarrow> bytes \<Rightarrow> runtime_error + bytes" where
  "render_secret encode encoding secret written =
     and_then (check (length secret \<le> 70 * 1024 * 1024) RLimit) (\<lambda>_.
     case encoding of
       Utf8 \<Rightarrow> copy_utf8 (file_reader secret) [] written
     | Base64 \<Rightarrow> copy_base64 encode (file_reader secret) [] written
     | Hex \<Rightarrow> copy_hex (file_reader secret) written)"

section \<open>Streaming is encoding\<close>

lemma template_write_all_Inr:
  "length written \<le> MAX_TEMPLATE_OUTPUT_BYTES \<Longrightarrow>
   template_write_all written bs = Inr out \<longleftrightarrow>
     out = written @ bs \<and> length written + length bs \<le> MAX_TEMPLATE_OUTPUT_BYTES"
  by (auto simp: template_write_all_def)

text \<open>
  The contract of a transform: whatever pieces the reader returns, it appends the encoding of
  the whole input when there is one and it fits the limit, and fails otherwise.
\<close>

locale secret_transform =
  fixes copy :: "bytes list \<Rightarrow> bytes \<Rightarrow> runtime_error + bytes"
    and enc :: "bytes \<Rightarrow> bytes option"
  assumes copy_iff: "[] \<notin> set input \<Longrightarrow> length written \<le> MAX_TEMPLATE_OUTPUT_BYTES \<Longrightarrow>
    copy input written = Inr out \<longleftrightarrow>
      (\<exists>e. enc (concat input) = Some e \<and> out = written @ e \<and> length out \<le> MAX_TEMPLATE_OUTPUT_BYTES)"
begin

lemma pieces_irrelevant:
  assumes "[] \<notin> set input" "[] \<notin> set input'" "concat input = concat input'"
    and "length written \<le> MAX_TEMPLATE_OUTPUT_BYTES"
  shows "copy input written = Inr out \<longleftrightarrow> copy input' written = Inr out"
  using assms by (simp add: copy_iff)

lemma file_iff:
  "length written \<le> MAX_TEMPLATE_OUTPUT_BYTES \<Longrightarrow>
   copy (file_reader content) written = Inr out \<longleftrightarrow>
     (\<exists>e. enc content = Some e \<and> out = written @ e \<and> length out \<le> MAX_TEMPLATE_OUTPUT_BYTES)"
  by (subst copy_iff) (auto simp: file_reader_def)

end

lemma hex_length [simp]: "length (concat (map hex_byte bs)) = 2 * length bs"
  by (induction bs) (auto simp: hex_byte_def)

lemma copy_hex_iff:
  "[] \<notin> set input \<Longrightarrow> length written \<le> MAX_TEMPLATE_OUTPUT_BYTES \<Longrightarrow>
   copy_hex input written = Inr out \<longleftrightarrow>
     out = written @ concat (map hex_byte (concat input)) \<and> length out \<le> MAX_TEMPLATE_OUTPUT_BYTES"
proof (induction input written rule: copy_hex.induct)
  case (1 input written)
  obtain piece rest where rs: "read_some (8 * 1024) input = (piece, rest)" by force
  note pieces = read_some_pieces [OF rs "1.prems"(1)]
  show ?case
  proof (cases "piece = []")
    case True
    then show ?thesis using pieces rs "1.prems" by (subst copy_hex.simps) auto
  next
    case False
    have "copy_hex input written = Inr out \<longleftrightarrow>
        length written + 2 * length piece \<le> MAX_TEMPLATE_OUTPUT_BYTES
        \<and> copy_hex rest (written @ concat (map hex_byte piece)) = Inr out"
      using rs False "1.prems"(2) by (subst copy_hex.simps) (auto simp: template_write_all_Inr)
    moreover have "copy_hex rest (written @ concat (map hex_byte piece)) = Inr out \<longleftrightarrow>
        out = (written @ concat (map hex_byte piece)) @ concat (map hex_byte (concat rest))
        \<and> length out \<le> MAX_TEMPLATE_OUTPUT_BYTES"
      if "length written + 2 * length piece \<le> MAX_TEMPLATE_OUTPUT_BYTES"
      by (rule "1.IH" [OF rs [symmetric] False]) (use that pieces "1.prems" in \<open>auto simp: template_write_all_Inr\<close>)
    ultimately show ?thesis using pieces by auto
  qed
qed

interpretation hex_transform: secret_transform copy_hex "\<lambda>bs. Some (concat (map hex_byte bs))"
  by unfold_locales (simp add: copy_hex_iff)

lemma copy_utf8_iff:
  "[] \<notin> set input \<Longrightarrow> length written \<le> MAX_TEMPLATE_OUTPUT_BYTES \<Longrightarrow> carried = [] \<or> utf8_head carried = Short \<Longrightarrow>
   copy_utf8 input carried written = Inr out \<longleftrightarrow>
     valid_utf8 (carried @ concat input) \<and> out = written @ carried @ concat input
     \<and> length out \<le> MAX_TEMPLATE_OUTPUT_BYTES"
proof (induction input carried written rule: copy_utf8.induct)
  case (1 input carried written)
  have short: "length carried \<le> 3" using "1.prems"(3) utf8_head_Short by auto
  obtain piece rest where rs: "read_some (8 * 1024 + 3 - length carried) input = (piece, rest)" by force
  note pieces = read_some_pieces [OF rs "1.prems"(1)]
  show ?case
  proof (cases "piece = []")
    case True
    have "carried \<noteq> [] \<Longrightarrow> \<not> valid_utf8 carried"
      using "1.prems"(3) by (subst from_utf8.simps) simp
    then show ?thesis using True pieces short rs "1.prems"(2) by (subst copy_utf8.simps) auto
  next
    case False
    let ?buffer = "carried @ piece"
    have split: "carried @ concat input = ?buffer @ concat rest" using pieces short by auto
    show ?thesis
    proof (cases "from_utf8 ?buffer")
      case Utf8Ok
      have "copy_utf8 input carried written = Inr out \<longleftrightarrow>
          length written + length ?buffer \<le> MAX_TEMPLATE_OUTPUT_BYTES \<and> copy_utf8 rest [] (written @ ?buffer) = Inr out"
        using rs False Utf8Ok "1.prems"(2)
        by (subst copy_utf8.simps) (auto simp: template_write_all_Inr Let_def)
      moreover have "copy_utf8 rest [] (written @ ?buffer) = Inr out \<longleftrightarrow>
          valid_utf8 ([] @ concat rest) \<and> out = (written @ ?buffer) @ [] @ concat rest \<and> length out \<le> MAX_TEMPLATE_OUTPUT_BYTES"
        if "length written + length ?buffer \<le> MAX_TEMPLATE_OUTPUT_BYTES"
        by (rule "1.IH"(1) [OF rs [symmetric] False refl Utf8Ok])
          (use that pieces short "1.prems" in \<open>auto simp: template_write_all_Inr\<close>)
      ultimately show ?thesis
        using valid_utf8_append [OF Utf8Ok] split by auto
    next
      case (Utf8Err v incomplete)
      note err = from_utf8_error [OF Utf8Err]
      show ?thesis
      proof (cases incomplete)
        case True
        with err have v: "v < length ?buffer" "valid_utf8 (take v ?buffer)" "utf8_head (drop v ?buffer) = Short" by auto
        from utf8_head_Short [OF v(3)] have few: "\<not> 3 < length ?buffer - v" by simp
        have "copy_utf8 input carried written = Inr out \<longleftrightarrow>
            length written + v \<le> MAX_TEMPLATE_OUTPUT_BYTES
            \<and> copy_utf8 rest (drop v ?buffer) (written @ take v ?buffer) = Inr out"
          using rs False Utf8Err True "1.prems"(2) v(1) few
          by (subst copy_utf8.simps) (auto simp: template_write_all_Inr Let_def)
        moreover have "copy_utf8 rest (drop v ?buffer) (written @ take v ?buffer) = Inr out \<longleftrightarrow>
            valid_utf8 (drop v ?buffer @ concat rest) \<and> out = (written @ take v ?buffer) @ drop v ?buffer @ concat rest
            \<and> length out \<le> MAX_TEMPLATE_OUTPUT_BYTES"
          if "length written + v \<le> MAX_TEMPLATE_OUTPUT_BYTES"
          by (rule "1.IH"(2) [OF rs [symmetric] False refl Utf8Err True])
            (use that pieces short "1.prems" v few in \<open>auto simp: template_write_all_Inr\<close>)
        moreover have "valid_utf8 (?buffer @ concat rest) \<longleftrightarrow> valid_utf8 (drop v ?buffer @ concat rest)"
          using valid_utf8_append [OF v(2), of "drop v ?buffer @ concat rest"]
          by (simp only: append_assoc [symmetric] append_take_drop_id)
        moreover have "(written @ take v ?buffer) @ drop v ?buffer @ concat rest = written @ ?buffer @ concat rest"
          by (metis append.assoc append_take_drop_id)
        ultimately show ?thesis unfolding split using v(1) by auto
      next
        case False
        then have "\<not> valid_utf8 (?buffer @ concat rest)"
          using from_utf8_broken [of ?buffer v] Utf8Err by simp
        moreover have "copy_utf8 input carried written = Inl RTemplateEncoding"
          using rs \<open>piece \<noteq> []\<close> Utf8Err False by (subst copy_utf8.simps) (simp add: Let_def)
        ultimately show ?thesis unfolding split by simp
      qed
    qed
  qed
qed

interpretation utf8_transform: secret_transform "\<lambda>input. copy_utf8 input []"
  "\<lambda>bs. if valid_utf8 bs then Some bs else None"
  by unfold_locales (auto simp: copy_utf8_iff)

text \<open>What RFC 4648 says of the encoder: groups of three bytes are encoded independently,
  four characters for each started group.\<close>

definition base64_documented :: "(bytes \<Rightarrow> string) \<Rightarrow> bool" where
  "base64_documented encode \<longleftrightarrow>
     (\<forall>xs ys. length xs mod 3 = 0 \<longrightarrow> encode (xs @ ys) = encode xs @ encode ys)
     \<and> (\<forall>xs. length (encode xs) = (length xs + 2) div 3 * 4)"

lemma base64_append:
  "base64_documented encode \<Longrightarrow> length xs mod 3 = 0 \<Longrightarrow> encode (xs @ ys) = encode xs @ encode ys"
  unfolding base64_documented_def by simp

lemma base64_empty: "base64_documented encode \<Longrightarrow> encode [] = []"
  by (metis base64_documented_def add_cancel_left_right list.size(3) mod_0 length_0_conv
      self_append_conv2 append_Nil2 length_append)

lemma base64_step:
  assumes doc: "base64_documented encode" and "length buffer \<le> 8 * 1024 + 2"
    and "length written \<le> MAX_TEMPLATE_OUTPUT_BYTES"
  shows "(if complete \<noteq> 0
            then (let encoded = encode (take complete buffer) in
                  if 11 * 1024 < length encoded then Inl RLimit else template_write_all written encoded)
            else Inr written) = Inr out \<longleftrightarrow>
     out = written @ encode (take complete buffer) \<and> length out \<le> MAX_TEMPLATE_OUTPUT_BYTES"
proof -
  have "length (encode (take complete buffer)) = (length (take complete buffer) + 2) div 3 * 4"
    using doc by (simp add: base64_documented_def)
  also have "\<dots> \<le> (8 * 1024 + 2 + 2) div 3 * 4"
    using assms(2) by (intro mult_le_mono1 div_le_mono) auto
  finally have "\<not> 11 * 1024 < length (encode (take complete buffer))" by simp
  then show ?thesis
    using assms(3) base64_empty [OF doc] by (auto simp: template_write_all_Inr Let_def)
qed

lemma copy_base64_iff:
  "base64_documented encode \<Longrightarrow> [] \<notin> set input \<Longrightarrow> length written \<le> MAX_TEMPLATE_OUTPUT_BYTES \<Longrightarrow> length carried \<le> 2 \<Longrightarrow>
   copy_base64 encode input carried written = Inr out \<longleftrightarrow>
     out = written @ encode (carried @ concat input) \<and> length out \<le> MAX_TEMPLATE_OUTPUT_BYTES"
proof (induction encode input carried written rule: copy_base64.induct)
  case (1 encode input carried written)
  obtain piece rest where rs: "read_some (8 * 1024 + 2 - length carried) input = (piece, rest)" by force
  note pieces = read_some_pieces [OF rs "1.prems"(2)]
  let ?total = "carried @ piece"
  let ?complete = "if piece = [] then length ?total else length ?total div 3 * 3"
  let ?w = "written @ encode (take ?complete ?total)"
  have "length ?total \<le> 8 * 1024 + 2" using pieces(4) "1.prems"(4) by auto
  note step = base64_step [OF "1.prems"(1) this "1.prems"(3), of ?complete]
  have unfold: "copy_base64 encode input carried written = Inr out \<longleftrightarrow>
      length ?w \<le> MAX_TEMPLATE_OUTPUT_BYTES
      \<and> (if piece = [] then Inr ?w else copy_base64 encode rest (drop ?complete ?total) ?w) = Inr out"
    by (subst copy_base64.simps) (simp only: rs prod.case Let_def [of ?total] Let_def [of ?complete] and_then_eq_Inr step, blast)
  show ?case
  proof (cases "piece = []")
    case True
    then show ?thesis using unfold pieces "1.prems"(4) by auto
  next
    case False
    let ?c = "length ?total div 3 * 3"
    have split: "carried @ concat input = take ?c ?total @ (drop ?c ?total @ concat rest)"
    proof -
      have "concat input = piece @ concat rest" using pieces(1) "1.prems"(4) by simp
      then show ?thesis by (simp only: append_assoc [symmetric] append_take_drop_id)
    qed
    have "?c \<le> length ?total" by simp
    then have "length (take ?c ?total) = ?c" by (simp only: length_take min_absorb2)
    then have "length (take ?c ?total) mod 3 = 0" by (simp only: mod_mult_self2_is_0)
    then have enc: "encode (carried @ concat input) = encode (take ?c ?total) @ encode (drop ?c ?total @ concat rest)"
      unfolding split by (rule base64_append [OF "1.prems"(1)])
    have "copy_base64 encode rest (drop ?c ?total) ?w = Inr out \<longleftrightarrow>
        out = ?w @ encode (drop ?c ?total @ concat rest) \<and> length out \<le> MAX_TEMPLATE_OUTPUT_BYTES"
      if "length ?w \<le> MAX_TEMPLATE_OUTPUT_BYTES"
    proof -
      have "length (drop ?c ?total) \<le> 2" by simp
      with "1.IH" [OF rs [symmetric] refl refl _ False, of ?w] False that step "1.prems" pieces show ?thesis
        by simp
    qed
    then show ?thesis using unfold False enc by auto
  qed
qed

section \<open>What the scanner accepts\<close>

datatype segment = Text bytes | Hole string

definition segment_source :: "segment \<Rightarrow> bytes" where
  "segment_source seg = (case seg of Text u \<Rightarrow> u | Hole name \<Rightarrow> ''{{nix-seal:'' @ name @ ''}}'')"

definition segment_part :: "placeholders \<Rightarrow> segment \<Rightarrow> template_part" where
  "segment_part placeholders seg =
     (case seg of Text u \<Rightarrow> Literal u | Hole name \<Rightarrow> Placeholder (the (bt_get placeholders name)))"

definition holes :: "segment list \<Rightarrow> string set" where
  "holes segs = {name. Hole name \<in> set segs}"

text \<open>A marker in literal text is always preceded by one more brace.\<close>

definition braced :: "bytes \<Rightarrow> bool" where
  "braced u \<longleftrightarrow> (\<forall>i. starts_with (drop i u) ''{{nix-seal'' \<longrightarrow> 0 < i \<and> u ! (i - 1) = CHR ''{'')"

definition segments_ok :: "placeholders \<Rightarrow> segment list \<Rightarrow> bool" where
  "segments_ok placeholders segs \<longleftrightarrow> (\<forall>seg \<in> set segs.
     case seg of Text u \<Rightarrow> braced u
     | Hole name \<Rightarrow> is_runtime_placeholder_name name \<and> bt_contains placeholders name)"

lemma str_find_first:
  "str_find s p = Some k \<Longrightarrow> i < k \<Longrightarrow> \<not> starts_with (drop i s) p"
proof (induction s arbitrary: k i)
  case (Cons c cs)
  then obtain j where "\<not> starts_with (c # cs) p" "str_find cs p = Some j" "k = Suc j"
    by (auto split: if_splits)
  with Cons show ?case by (cases i) auto
qed (simp split: if_splits)

lemma str_find_never:
  assumes "str_find s p = None" and "p \<noteq> []"
  shows "\<not> starts_with (drop i s) p"
proof
  assume "starts_with (drop i s) p"
  then have "sublist p (drop i s)"
    by (simp add: starts_with_iff_prefix prefix_imp_sublist)
  moreover have "sublist (drop i s) s" by (simp add: sublist_drop)
  ultimately show False using assms(1) by (auto simp: str_find_None dest: sublist_order.order_trans)
qed

text \<open>Positions from \<open>lo\<close> up to \<open>hi\<close> where a marker starts follow a brace.\<close>

definition braced_between :: "bytes \<Rightarrow> nat \<Rightarrow> nat \<Rightarrow> bool" where
  "braced_between source lo hi \<longleftrightarrow> (\<forall>i. lo \<le> i \<and> i < hi \<and> starts_with (drop i source) ''{{nix-seal'' \<longrightarrow>
     lo < i \<and> source ! (i - 1) = CHR ''{'')"

lemma starts_with_take: "starts_with (drop i (take n u)) p \<Longrightarrow> starts_with (drop i u) p"
  by (auto simp: starts_with_iff_prefix drop_take intro: prefix_order.order_trans take_is_prefix)

lemma braced_slice:
  assumes "braced_between source lo hi"
  shows "braced (take (hi - lo) (drop lo source))"
  unfolding braced_def
proof (intro allI impI)
  fix i
  assume m: "starts_with (drop i (take (hi - lo) (drop lo source))) ''{{nix-seal''"
  then have i: "i < hi - lo" "i < length (take (hi - lo) (drop lo source))"
    by (auto simp: not_le [symmetric])
  from m have "starts_with (drop (lo + i) source) ''{{nix-seal''"
    by (auto dest: starts_with_take simp: add.commute)
  with assms i(1) have "lo < lo + i \<and> source ! (lo + i - 1) = CHR ''{''"
    by (auto simp: braced_between_def)
  then show "0 < i \<and> take (hi - lo) (drop lo source) ! (i - 1) = CHR ''{''"
    using i by auto
qed

lemma braced_between_step:
  assumes "braced_between source lo search" and "lo \<le> search"
    and "str_find (drop search source) ''{{'' = Some r" and "\<not> starts_with (drop (search + r) source) ''{{nix-seal''"
  shows "braced_between source lo (search + r + 2)"
  unfolding braced_between_def
proof (intro allI impI)
  fix i
  assume i: "lo \<le> i \<and> i < search + r + 2 \<and> starts_with (drop i source) ''{{nix-seal''"
  then have open2: "starts_with (drop i source) ''{{''"
    by (auto simp: starts_with_iff_prefix intro: prefix_order.order_trans [of _ "''{{nix-seal''"])
  have brace: "source ! (search + r) = CHR ''{''"
    using str_find_Some [OF assms(3)]
    by (metis (no_types, lifting) append.assoc append_Cons append_take_drop_id length_append nth_append_length
        length_take min.absorb2 nat_le_linear drop_all append_is_Nil_conv list.distinct(1))
  have "search \<le> i \<Longrightarrow> \<not> i - search < r"
    using str_find_first [OF assms(3), of "i - search"] open2 by auto
  then have "i < search \<or> search + r \<le> i" by arith
  moreover have "i \<noteq> search + r" using i assms(4) by auto
  ultimately have "i < search \<or> i = search + r + 1" using i by arith
  then show "lo < i \<and> source ! (i - 1) = CHR ''{''"
    using i assms(1,2) brace by (auto simp: braced_between_def)
qed

lemma slice_split: "lo \<le> hi \<Longrightarrow> drop lo s = take (hi - lo) (drop lo s) @ drop hi s"
  by (metis append_take_drop_id drop_drop le_add_diff_inverse2)

lemma drop_prefix: "drop k s = p @ u \<Longrightarrow> drop (k + length p) s = u"
  by (metis add.commute append_eq_conv_conj drop_drop)

lemma str_find_bound:
  assumes "str_find (drop k s) p = Some r" and "p \<noteq> []"
  shows "k + r + length p \<le> length s"
proof -
  from str_find_Some [OF assms(1)] obtain u v where uv: "drop k s = u @ p @ v" "length u = r" by blast
  have "length s - k = r + length p + length v" using arg_cong [OF uv(1), of length] uv(2) by simp
  moreover have "0 < length p" using assms(2) by simp
  ultimately show ?thesis by linarith
qed

lemma marker_length: "length ''{{nix-seal:'' = 11"
  by simp

lemma marker_split:
  assumes "starts_with (drop start source) ''{{nix-seal:''" and "str_find (drop (start + 11) source) ''}}'' = Some r"
  shows "drop start source = segment_source (Hole (take r (drop (start + 11) source))) @ drop (start + 11 + r + 2) source"
    and "start + 11 + r + 2 \<le> length source"
proof -
  from assms(1) obtain u where u: "drop start source = ''{{nix-seal:'' @ u"
    by (auto simp: starts_with_iff_prefix prefix_def)
  from drop_prefix [OF u] have d: "drop (start + 11) source = u" by (simp only: marker_length)
  from str_find_Some [OF assms(2)] obtain a b where ab: "u = a @ ''}}'' @ b" "length a = r"
    unfolding d by blast
  have "drop (start + 11) source = (a @ ''}}'') @ b" using d ab by simp
  from drop_prefix [OF this] have "drop (start + 11 + r + 2) source = b" using ab(2) by (simp add: add.assoc)
  with u ab d show "drop start source = segment_source (Hole (take r (drop (start + 11) source))) @ drop (start + 11 + r + 2) source"
    by (simp add: segment_source_def)
  show "start + 11 + r + 2 \<le> length source" using str_find_bound [OF assms(2)] by simp
qed

lemma visit_loop_sound:
  assumes "visit_loop visitor placeholders source lo search used s = Inr (lo', used', s')"
    and "lo \<le> search" "search \<le> length source" "braced_between source lo search"
  shows "\<exists>segs. drop lo source = concat (map segment_source segs) @ drop lo' source
    \<and> segments_ok placeholders segs \<and> used' = used \<union> holes segs
    \<and> fold_result visitor s (map (segment_part placeholders) segs) = Inr s'
    \<and> braced (drop lo' source)"
  using assms
proof (induction visitor placeholders source lo search used s rule: visit_loop.induct)
  case (1 visitor placeholders source lo search used s)
  note eq = "1.prems"(1) [unfolded visit_loop.simps [of visitor placeholders source lo search used s]
      marker_length]
  show ?case
  proof (cases "str_find (drop search source) ''{{''")
    case None
    have "braced_between source lo (length source)"
      unfolding braced_between_def
    proof (intro allI impI)
      fix i
      assume i: "lo \<le> i \<and> i < length source \<and> starts_with (drop i source) ''{{nix-seal''"
      have "\<not> starts_with (drop (i - search) (drop search source)) ''{{''"
        by (rule str_find_never [OF None]) simp
      moreover have "starts_with (drop i source) ''{{''"
        using i by (auto simp: starts_with_iff_prefix intro: prefix_order.order_trans [of _ "''{{nix-seal''"])
      ultimately have "i < search" by (cases "search \<le> i") auto
      then show "lo < i \<and> source ! (i - 1) = CHR ''{''" using i "1.prems"(4) by (auto simp: braced_between_def)
    qed
    from braced_slice [OF this] have "braced (drop lo source)" by simp
    moreover have "lo' = lo" "used' = used" "s' = s"
      using eq None by simp_all
    ultimately show ?thesis
      by (intro exI [of _ "[]"]) (auto simp: segments_ok_def holes_def)
  next
    case (Some r)
    let ?start = "search + r"
    show ?thesis
    proof (cases "starts_with (drop ?start source) ''{{nix-seal:''")
      case True
      let ?u = "take (?start - lo) (drop lo source)"
      from eq Some True obtain s1 r2 p s2 where
        s1: "visitor s (Literal ?u) = Inr s1" and r2: "str_find (drop (?start + 11) source) ''}}'' = Some r2"
        and name: "is_runtime_placeholder_name (take r2 (drop (?start + 11) source))"
        and p: "bt_get placeholders (take r2 (drop (?start + 11) source)) = Some p"
        and s2: "visitor s1 (Placeholder p) = Inr s2"
        and rest: "visit_loop visitor placeholders source (?start + 11 + r2 + 2) (?start + 11 + r2 + 2)
          (insert (take r2 (drop (?start + 11) source)) used) s2 = Inr (lo', used', s')"
        by (auto simp: Let_def)
      let ?name = "take r2 (drop (?start + 11) source)"
      note mark = marker_split [OF True r2]
      have "\<exists>segs. drop (?start + 11 + r2 + 2) source = concat (map segment_source segs) @ drop lo' source
          \<and> segments_ok placeholders segs \<and> used' = insert ?name used \<union> holes segs
          \<and> fold_result visitor s2 (map (segment_part placeholders) segs) = Inr s' \<and> braced (drop lo' source)"
      proof (rule "1.IH"(1) [OF Some refl refl True s1 _ _ refl refl _ _ s2 rest])
        show "?start + 11 = ?start + length ''{{nix-seal:''" by simp
      qed (use mark(2) r2 name p in \<open>auto simp: braced_between_def\<close>)
      then obtain segs where segs: "drop (?start + 11 + r2 + 2) source = concat (map segment_source segs) @ drop lo' source"
        "segments_ok placeholders segs" "used' = insert ?name used \<union> holes segs"
        "fold_result visitor s2 (map (segment_part placeholders) segs) = Inr s'" "braced (drop lo' source)"
        by blast
      have "braced_between source lo ?start"
        unfolding braced_between_def
      proof (intro allI impI)
        fix i
        assume i: "lo \<le> i \<and> i < ?start \<and> starts_with (drop i source) ''{{nix-seal''"
        then have "starts_with (drop i source) ''{{''"
          by (auto simp: starts_with_iff_prefix intro: prefix_order.order_trans [of _ "''{{nix-seal''"])
        then have "search \<le> i \<Longrightarrow> \<not> i - search < r"
          using str_find_first [OF Some, of "i - search"] by auto
        with i have "i < search" by arith
        then show "lo < i \<and> source ! (i - 1) = CHR ''{''" using i "1.prems"(4) by (auto simp: braced_between_def)
      qed
      from braced_slice [OF this] have "braced ?u" .
      with segs(2) name p have ok: "segments_ok placeholders (Text ?u # Hole ?name # segs)"
        by (simp add: segments_ok_def bt_contains_def)
      have "drop lo source = concat (map segment_source (Text ?u # Hole ?name # segs)) @ drop lo' source"
        using slice_split [of lo ?start source] "1.prems"(2) mark(1) segs(1) by (simp add: segment_source_def)
      moreover have "used' = used \<union> holes (Text ?u # Hole ?name # segs)"
        using segs(3) by (auto simp: holes_def)
      moreover have "fold_result visitor s (map (segment_part placeholders) (Text ?u # Hole ?name # segs)) = Inr s'"
        using s1 s2 p segs(4) by (simp add: segment_part_def)
      ultimately show ?thesis using ok segs(5) by blast
    next
      case False
      with eq Some have no: "\<not> starts_with (drop ?start source) ''{{nix-seal''"
        and rest: "visit_loop visitor placeholders source lo (?start + 2) used s = Inr (lo', used', s')"
        by (simp_all add: Let_def split: if_splits)
      have "?start + 2 \<le> length source" using str_find_bound [OF Some] by simp
      then show ?thesis
        using "1.IH"(2) [OF Some refl refl False no rest] braced_between_step [OF "1.prems"(4,2) Some no] "1.prems"(2)
        by simp
    qed
  qed
qed

lemma visit_template_source_sound:
  assumes "visit_template_source visitor source placeholders s = Inr s'"
  shows "\<exists>segs. source = concat (map segment_source segs) \<and> segments_ok placeholders segs
    \<and> holes segs = set (bt_keys placeholders)
    \<and> fold_result visitor s (map (segment_part placeholders) segs) = Inr s'"
proof -
  from assms obtain lo used s1 where loop: "visit_loop visitor placeholders source 0 0 {} s = Inr (lo, used, s1)"
    and last: "visitor s1 (Literal (drop lo source)) = Inr s'"
    and used: "set (bt_keys placeholders) \<subseteq> used"
    by (auto simp: visit_template_source_def)
  from visit_loop_sound [OF loop] obtain segs where
    segs: "source = concat (map segment_source segs) @ drop lo source" "segments_ok placeholders segs"
      "used = holes segs" "fold_result visitor s (map (segment_part placeholders) segs) = Inr s1"
      "braced (drop lo source)"
    by (auto simp: braced_between_def)
  let ?all = "segs @ [Text (drop lo source)]"
  have "holes segs \<subseteq> set (bt_keys placeholders)"
    using segs(2) by (force simp: holes_def segments_ok_def bt_contains_def)
  then have "holes ?all = set (bt_keys placeholders)"
    using used segs(3) by (auto simp: holes_def)
  moreover have "source = concat (map segment_source ?all)"
    using segs(1) by (simp add: segment_source_def)
  moreover have "segments_ok placeholders ?all"
    using segs(2,5) by (simp add: segments_ok_def)
  moreover have "fold_result visitor s (map (segment_part placeholders) ?all) = Inr s'"
    using segs(4) last by (simp add: fold_result_append segment_part_def)
  ultimately show ?thesis by blast
qed

text \<open>Scanning does not depend on the visitor: it visits the parts in order.\<close>

definition collect_part :: "template_part list \<Rightarrow> template_part \<Rightarrow> runtime_error + template_part list" where
  "collect_part parts part = Inr (parts @ [part])"

definition template_parts :: "bytes \<Rightarrow> placeholders \<Rightarrow> runtime_error + template_part list" where
  "template_parts source placeholders = visit_template_source collect_part source placeholders []"

lemma fold_collect [simp]: "fold_result collect_part acc parts = Inr (acc @ parts)"
  by (induction parts arbitrary: acc) (auto simp: collect_part_def)

lemma collect_extends:
  "visit_loop collect_part placeholders source lo search used acc = Inr (lo', used', out) \<Longrightarrow> prefix acc out"
proof (induction "collect_part" placeholders source lo search used acc rule: visit_loop.induct)
  case (1 placeholders source lo search used acc)
  note eq = "1.prems" [unfolded visit_loop.simps [of collect_part placeholders source lo search used acc]]
  show ?case
  proof (cases "str_find (drop search source) ''{{''")
    case None
    then show ?thesis using eq by simp
  next
    case (Some r)
    show ?thesis
    proof (cases "starts_with (drop (search + r) source) ''{{nix-seal:''")
      case False
      then show ?thesis
        using eq Some "1.hyps"(2) [OF Some refl refl False] by (auto simp: Let_def split: if_splits)
    next
      case True
      let ?ns = "search + r + length ''{{nix-seal:''"
      from eq Some True obtain e p s2 where e: "str_find (drop ?ns source) ''}}'' = Some e"
        and p: "is_runtime_placeholder_name (take e (drop ?ns source))" "bt_get placeholders (take e (drop ?ns source)) = Some p"
        and s2: "s2 = acc @ [Literal (take (search + r - lo) (drop lo source)), Placeholder p]"
        and rest: "visit_loop collect_part placeholders source (?ns + e + 2) (?ns + e + 2)
          (insert (take e (drop ?ns source)) used) s2 = Inr (lo', used', out)"
        by (auto simp: Let_def collect_part_def)
      have "prefix s2 out"
        by (rule "1.hyps"(1) [OF Some refl refl True _ refl _ refl refl _ _ _ rest])
          (use e p s2 in \<open>auto simp: collect_part_def\<close>)
      then show ?thesis using s2 by (auto simp: prefix_def)
    qed
  qed
qed

lemma visit_loop_collect:
  "visit_loop visitor placeholders source lo search used s = Inr (lo', used', s') \<longleftrightarrow>
     (\<exists>parts. visit_loop collect_part placeholders source lo search used acc = Inr (lo', used', acc @ parts)
       \<and> fold_result visitor s parts = Inr s')"
proof (induction visitor placeholders source lo search used s arbitrary: acc rule: visit_loop.induct)
  case (1 visitor placeholders source lo search used s)
  note eqs = visit_loop.simps [of visitor placeholders source lo search used s]
    visit_loop.simps [of collect_part placeholders source lo search used acc]
  show ?case
  proof (cases "str_find (drop search source) ''{{''")
    case None
    then show ?thesis unfolding eqs by auto
  next
    case (Some r)
    let ?start = "search + r"
    show ?thesis
    proof (cases "starts_with (drop ?start source) ''{{nix-seal:''")
      case False
      then show ?thesis
        unfolding eqs using Some "1.IH"(2) [OF Some refl refl False]
        by (cases "starts_with (drop ?start source) ''{{nix-seal''") (auto simp: Let_def)
    next
      case True
      let ?ns = "?start + length ''{{nix-seal:''"
      show ?thesis
      proof (cases "str_find (drop ?ns source) ''}}''")
        case None
        then show ?thesis unfolding eqs using Some True by (auto simp: Let_def)
      next
        case end_: (Some e)
        let ?name = "take e (drop ?ns source)"
        show ?thesis
        proof (cases "is_runtime_placeholder_name ?name \<and> bt_contains placeholders ?name")
          case False
          then show ?thesis unfolding eqs using Some True end_ by (auto simp: Let_def bt_contains_def)
        next
          case ok: True
          then obtain p where p: "bt_get placeholders ?name = Some p" by (auto simp: bt_contains_def)
          let ?lit = "Literal (take (?start - lo) (drop lo source))"
          let ?n = "?ns + e + 2"
          have collected: "visit_loop collect_part placeholders source lo search used acc =
              visit_loop collect_part placeholders source ?n ?n (insert ?name used) (acc @ [?lit, Placeholder p])"
            unfolding eqs using Some True end_ ok p by (simp add: Let_def collect_part_def)
          have visited: "visit_loop visitor placeholders source lo search used s = Inr (lo', used', s') \<longleftrightarrow>
              (\<exists>s1 s2. visitor s ?lit = Inr s1 \<and> visitor s1 (Placeholder p) = Inr s2
                \<and> visit_loop visitor placeholders source ?n ?n (insert ?name used) s2 = Inr (lo', used', s'))"
            unfolding eqs using Some True end_ ok p by (auto simp: Let_def)
          have IH: "visit_loop visitor placeholders source ?n ?n (insert ?name used) s2 = Inr (lo', used', s') \<longleftrightarrow>
              (\<exists>parts. visit_loop collect_part placeholders source ?n ?n (insert ?name used) (acc @ [?lit, Placeholder p])
                  = Inr (lo', used', (acc @ [?lit, Placeholder p]) @ parts) \<and> fold_result visitor s2 parts = Inr s')"
            if "visitor s ?lit = Inr s1" "visitor s1 (Placeholder p) = Inr s2" for s1 s2
            by (rule "1.IH"(1) [OF Some refl refl True that(1) refl _ refl refl _ _ that(2)]) (use end_ ok p in auto)
          have longer: "\<exists>more. parts = [?lit, Placeholder p] @ more"
            if "visit_loop collect_part placeholders source lo search used acc = Inr (lo', used', acc @ parts)" for parts
          proof -
            from collect_extends [OF that [unfolded collected]]
            have "prefix (acc @ [?lit, Placeholder p]) (acc @ parts)" .
            then have "\<exists>more. acc @ parts = (acc @ [?lit, Placeholder p]) @ more" by (auto simp: prefix_def)
            then show ?thesis by simp
          qed
          show ?thesis unfolding visited using IH collected longer by fastforce
        qed
      qed
    qed
  qed
qed

lemma visit_template_source_iff:
  "visit_template_source visitor source placeholders s = Inr s' \<longleftrightarrow>
     (\<exists>parts. template_parts source placeholders = Inr parts \<and> fold_result visitor s parts = Inr s')"
proof -
  have loop: "visit_loop visitor placeholders source 0 0 {} s = Inr (lo, used, s1) \<longleftrightarrow>
      (\<exists>parts. visit_loop collect_part placeholders source 0 0 {} [] = Inr (lo, used, parts)
        \<and> fold_result visitor s parts = Inr s1)" for lo used s1
    using visit_loop_collect [of visitor placeholders source 0 0 "{}" s lo used s1 "[]"] by simp
  show ?thesis
    unfolding template_parts_def visit_template_source_def
    by (auto simp: loop fold_result_append collect_part_def)
qed

lemma fold_unit [simp]: "fold_result (\<lambda>_ _. Inr ()) () parts = (Inr () :: 'e + unit)"
  by (induction parts) auto

lemma validate_template_source_iff:
  "validate_template_source source placeholders = Inr () \<longleftrightarrow> (\<exists>parts. template_parts source placeholders = Inr parts)"
  by (simp add: validate_template_source_def visit_template_source_iff)

section \<open>What rendering writes\<close>

definition encode_secret :: "(bytes \<Rightarrow> string) \<Rightarrow> template_encoding \<Rightarrow> bytes \<Rightarrow> bytes option" where
  "encode_secret encode encoding secret =
     (if 70 * 1024 * 1024 < length secret then None
      else case encoding of
        Utf8 \<Rightarrow> if valid_utf8 secret then Some secret else None
      | Base64 \<Rightarrow> Some (encode secret)
      | Hex \<Rightarrow> Some (concat (map hex_byte secret)))"

definition part_text :: "(bytes \<Rightarrow> string) \<Rightarrow> (id \<Rightarrow> bytes) \<Rightarrow> template_part \<Rightarrow> bytes option" where
  "part_text encode plain part =
     (case part of Literal u \<Rightarrow> Some u
      | Placeholder p \<Rightarrow> encode_secret encode (ph_encoding p) (plain (ph_secret p)))"

lemma render_secret_iff:
  assumes "base64_documented encode" and "length written \<le> MAX_TEMPLATE_OUTPUT_BYTES"
  shows "render_secret encode encoding secret written = Inr out \<longleftrightarrow>
    (\<exists>e. encode_secret encode encoding secret = Some e \<and> out = written @ e \<and> length out \<le> MAX_TEMPLATE_OUTPUT_BYTES)"
proof -
  have "copy_base64 encode (file_reader secret) [] written = Inr out \<longleftrightarrow>
      out = written @ encode secret \<and> length out \<le> MAX_TEMPLATE_OUTPUT_BYTES"
    using assms by (subst copy_base64_iff) (auto simp: file_reader_def)
  then show ?thesis
    using utf8_transform.file_iff [OF assms(2)] hex_transform.file_iff [OF assms(2)]
    by (cases encoding) (auto simp: render_secret_def encode_secret_def)
qed

lemma render_fold:
  assumes "base64_documented encode"
  shows "length written \<le> MAX_TEMPLATE_OUTPUT_BYTES \<Longrightarrow>
   fold_result (\<lambda>written part. case part of
         Literal literal \<Rightarrow> template_write_all written literal
       | Placeholder p \<Rightarrow> render_secret encode (ph_encoding p) (plain (ph_secret p)) written) written parts = Inr out \<longleftrightarrow>
     (\<exists>texts. map (part_text encode plain) parts = map Some texts \<and> out = written @ concat texts
       \<and> length out \<le> MAX_TEMPLATE_OUTPUT_BYTES)"
proof (induction parts arbitrary: written)
  case Nil
  then show ?case by auto
next
  case (Cons part parts)
  let ?visitor = "\<lambda>written part. case part of
         Literal literal \<Rightarrow> template_write_all written literal
       | Placeholder p \<Rightarrow> render_secret encode (ph_encoding p) (plain (ph_secret p)) written"
  have step: "?visitor written part = Inr w \<longleftrightarrow>
      (\<exists>e. part_text encode plain part = Some e \<and> w = written @ e \<and> length w \<le> MAX_TEMPLATE_OUTPUT_BYTES)" for w
    using Cons.prems render_secret_iff [OF assms Cons.prems]
    by (cases part) (auto simp: part_text_def template_write_all_Inr)
  have "fold_result ?visitor written (part # parts) = Inr out \<longleftrightarrow>
      (\<exists>e. part_text encode plain part = Some e \<and> length (written @ e) \<le> MAX_TEMPLATE_OUTPUT_BYTES
        \<and> fold_result ?visitor (written @ e) parts = Inr out)"
    using step by auto
  also have "\<dots> \<longleftrightarrow> (\<exists>e texts. part_text encode plain part = Some e \<and> length (written @ e) \<le> MAX_TEMPLATE_OUTPUT_BYTES
      \<and> map (part_text encode plain) parts = map Some texts \<and> out = (written @ e) @ concat texts
      \<and> length out \<le> MAX_TEMPLATE_OUTPUT_BYTES)"
    using Cons.IH by blast
  also have "\<dots> \<longleftrightarrow> (\<exists>texts. map (part_text encode plain) (part # parts) = map Some texts
      \<and> out = written @ concat texts \<and> length out \<le> MAX_TEMPLATE_OUTPUT_BYTES)"
  proof
    assume "\<exists>texts. map (part_text encode plain) (part # parts) = map Some texts
      \<and> out = written @ concat texts \<and> length out \<le> MAX_TEMPLATE_OUTPUT_BYTES"
    then show "\<exists>e texts. part_text encode plain part = Some e \<and> length (written @ e) \<le> MAX_TEMPLATE_OUTPUT_BYTES
      \<and> map (part_text encode plain) parts = map Some texts \<and> out = (written @ e) @ concat texts
      \<and> length out \<le> MAX_TEMPLATE_OUTPUT_BYTES"
      by (auto simp: Cons_eq_map_conv)
  qed (metis append.assoc concat.simps(2) list.simps(9))
  finally show ?case .
qed

end
