(* ===== verification/Activation_Spec.thy ===== *)
theory Activation_Spec
  imports Template
begin

text \<open>
  The public activation document of \<open>crates/nix-seal-runtime/src/lib.rs\<close> and its
  validation before any file is touched, with the specification it decides.
\<close>

unbundle bit_operations_syntax

section \<open>Data\<close>

definition ACTIVATION_SCHEMA :: string where
  "ACTIVATION_SCHEMA = ''nix-seal.activation.v2''"

datatype runtime_storage = Persistent | VolatileTmpfs | VolatileTmpfsNoSwap

datatype service_manager = SystemdSystem | SystemdUser | LaunchdSystem | LaunchdUser

record post_switch_spec =
  ps_executable :: string
  ps_manager :: service_manager
  ps_reload_units :: "string list"
  ps_restart_units :: "string list"
  ps_timeout_seconds :: "64 word"

record activation_artifact_spec =
  as_secret_id :: id
  as_phase :: activation_phase
  as_mode :: string
  as_owner :: string
  as_group :: string
  as_compatibility_symlink :: "string option"

record activation_template_spec =
  tpl_source :: string
  tpl_template_id :: id
  tpl_phase :: activation_phase
  tpl_placeholders :: placeholders
  tpl_mode :: string
  tpl_owner :: string
  tpl_group :: string

record activation_spec =
  sp_schema :: string
  sp_runtime_root :: string
  sp_runtime_storage :: runtime_storage
  sp_runtime_generation :: "64 word option"
  sp_plan :: string
  sp_artifact_cache_root :: string
  sp_target_id :: id
  sp_phase :: activation_phase
  sp_allowed_clock_skew :: "64 word"
  sp_artifacts :: "activation_artifact_spec list"
  sp_templates :: "activation_template_spec list"
  sp_post_switch :: "post_switch_spec option"

section \<open>Names, paths and modes\<close>

definition validate_mode :: "32 word \<Rightarrow> runtime_error + unit" where
  "validate_mode mode =
     check (\<not> (mode = 0 \<or> 0x1C0 < mode \<or> mode AND 0x3F \<noteq> 0)) RInvalidDestination"

definition parse_mode :: "string \<Rightarrow> runtime_error + 32 word" where
  "parse_mode value =
     (if length value \<noteq> 4 \<or> \<not> starts_with value ''0'' then Inl RInvalidSpec
      else
        and_then (ok_or (parse_unsigned 8 (2 ^ 32) value) RInvalidSpec) (\<lambda>n.
        let mode = word_of_nat n in
        and_then (validate_mode mode) (\<lambda>_. Inr mode)))"

definition is_account_name :: "string \<Rightarrow> bool" where
  "is_account_name value \<longleftrightarrow>
     value \<noteq> [] \<and> length value \<le> 256
     \<and> \<not> (\<exists>b \<in> set value. is_ascii_control b \<or> b = CHR ''/'' \<or> b = CHR '':'' \<or> is_ascii_whitespace b)"

definition is_unit_name :: "string \<Rightarrow> bool" where
  "is_unit_name value \<longleftrightarrow>
     value \<noteq> [] \<and> length value \<le> 256 \<and> (\<forall>b \<in> set value. is_ascii_alphanumeric b \<or> b \<in> set ''_-.@:'')"

definition template_output_id :: "id \<Rightarrow> runtime_error + id" where
  "template_output_id template_id =
     map_err (\<lambda>_. RInvalidSpec) (Id_parse (''templates/'' @ as_str template_id))"

definition is_normalized_absolute_path :: "string \<Rightarrow> bool" where
  "is_normalized_absolute_path path \<longleftrightarrow>
     path_is_absolute path \<and> (\<forall>c \<in> set (path_components path). root_or_normal c)"

text \<open>\<open>Path::parent\<close> drops a whole component.\<close>

definition has_absolute_parent :: "string \<Rightarrow> bool" where
  "has_absolute_parent path \<longleftrightarrow>
     path_is_absolute path \<and> path_components path \<noteq> [] \<and> last (path_components path) \<noteq> RootDir"

definition valid_compatibility_path :: "string \<Rightarrow> string \<Rightarrow> bool" where
  "valid_compatibility_path path runtime_root \<longleftrightarrow>
     valid_compatibility_symlink path \<and> \<not> path_starts_with path runtime_root \<and> has_absolute_parent path"

section \<open>Validation\<close>

text \<open>Service actions: a unit occurs once over both lists.\<close>

definition add_unit :: "string set \<Rightarrow> string \<Rightarrow> runtime_error + string set" where
  "add_unit units unit =
     (if \<not> is_unit_name unit \<or> unit \<in> units then Inl RInvalidSpec else Inr (insert unit units))"

definition is_launchd :: "service_manager \<Rightarrow> bool" where
  "is_launchd m \<longleftrightarrow> m = LaunchdSystem \<or> m = LaunchdUser"

definition post_switch_validate :: "post_switch_spec \<Rightarrow> runtime_error + unit" where
  "post_switch_validate actions =
     (if \<not> path_is_absolute (ps_executable actions)
         \<or> ps_timeout_seconds actions = 0 \<or> 60 < ps_timeout_seconds actions
         \<or> 256 < length (ps_reload_units actions) \<or> 256 < length (ps_restart_units actions)
         \<or> is_launchd (ps_manager actions) \<and> ps_reload_units actions \<noteq> []
      then Inl RInvalidSpec
      else and_then (fold_result add_unit {} (ps_reload_units actions @ ps_restart_units actions)) (\<lambda>_. Inr ()))"

text \<open>The sets the loops of \<open>ActivationSpecV2::validate\<close> fill.\<close>

record seen =
  seen_destinations :: "string set"
  seen_secret_ids :: "id set"
  seen_compatibility :: "string set"

definition validate_artifact_spec ::
  "activation_spec \<Rightarrow> seen \<Rightarrow> activation_artifact_spec \<Rightarrow> runtime_error + seen" where
  "validate_artifact_spec spec seen a =
     (if as_phase a \<noteq> sp_phase spec
         \<or> as_str (as_secret_id a) \<in> seen_destinations seen
         \<or> as_secret_id a \<in> seen_secret_ids seen
         \<or> \<not> is_ok (parse_mode (as_mode a))
         \<or> \<not> is_account_name (as_owner a) \<or> \<not> is_account_name (as_group a)
         \<or> (case as_compatibility_symlink a of None \<Rightarrow> False
            | Some path \<Rightarrow> \<not> valid_compatibility_path path (sp_runtime_root spec)
                \<or> path \<in> seen_compatibility seen)
      then Inl RInvalidSpec
      else Inr (seen\<lparr>seen_destinations := insert (as_str (as_secret_id a)) (seen_destinations seen),
             seen_secret_ids := insert (as_secret_id a) (seen_secret_ids seen),
             seen_compatibility := set_option (as_compatibility_symlink a) \<union> seen_compatibility seen\<rparr>))"

definition validate_template_spec ::
  "activation_spec \<Rightarrow> seen \<Rightarrow> activation_template_spec \<Rightarrow> runtime_error + seen" where
  "validate_template_spec spec seen t =
     and_then (template_output_id (tpl_template_id t)) (\<lambda>destination.
     if \<not> is_normalized_absolute_path (tpl_source t)
         \<or> tpl_phase t \<noteq> sp_phase spec
         \<or> as_str destination \<in> seen_destinations seen
         \<or> tpl_placeholders t = bt_empty \<or> 256 < bt_len (tpl_placeholders t)
         \<or> \<not> is_ok (parse_mode (tpl_mode t))
         \<or> \<not> is_account_name (tpl_owner t) \<or> \<not> is_account_name (tpl_group t)
         \<or> (\<exists>(name, placeholder) \<in> set (items (tpl_placeholders t)).
              \<not> is_runtime_placeholder_name name \<or> ph_secret placeholder \<notin> seen_secret_ids seen)
      then Inl RInvalidSpec
      else Inr (seen\<lparr>seen_destinations := insert (as_str destination) (seen_destinations seen)\<rparr>))"

definition activation_spec_validate :: "activation_spec \<Rightarrow> runtime_error + unit" where
  "activation_spec_validate spec =
     (if sp_schema spec \<noteq> ACTIVATION_SCHEMA
         \<or> \<not> is_normalized_absolute_path (sp_runtime_root spec)
         \<or> \<not> is_normalized_absolute_path (sp_plan spec)
         \<or> \<not> is_normalized_absolute_path (sp_artifact_cache_root spec)
         \<or> sp_runtime_generation spec = Some 0
         \<or> 86400 < sp_allowed_clock_skew spec
         \<or> sp_artifacts spec = [] \<or> 10000 < length (sp_artifacts spec)
         \<or> 1024 < length (sp_templates spec)
      then Inl RInvalidSpec
      else
        and_then (fold_result (validate_artifact_spec spec)
          \<lparr>seen_destinations = {}, seen_secret_ids = {}, seen_compatibility = {}\<rparr> (sp_artifacts spec)) (\<lambda>seen.
        and_then (fold_result (validate_template_spec spec) seen (sp_templates spec)) (\<lambda>_.
        case sp_post_switch spec of None \<Rightarrow> Inr () | Some actions \<Rightarrow> post_switch_validate actions)))"

section \<open>Modes\<close>

lemma and_low6: "(w :: 32 word) AND 0x3F = take_bit 6 w"
  by (simp add: take_bit_eq_mask mask_eq_exp_minus_1)

lemma low6_zero_iff: "(w :: 32 word) AND 0x3F = 0 \<longleftrightarrow> 6 \<le> trailing_zeros w"
proof -
  have "take_bit 6 w = 0 \<longleftrightarrow> (\<forall>i < 6. \<not> bit w i)"
    by (auto simp: bit_eq_iff bit_take_bit_iff)
  also have "\<dots> \<longleftrightarrow> 6 \<le> trailing_zeros w" by (subst le_trailing_zeros) auto
  finally show ?thesis by (simp add: and_low6)
qed

lemma validate_mode_iff: "validate_mode mode = Inr () \<longleftrightarrow> mode \<noteq> 0 \<and> mode \<le> 448 \<and> 6 \<le> trailing_zeros mode"
  by (auto simp: validate_mode_def simp flip: low6_zero_iff)

section \<open>What validation decides\<close>

definition artifact_spec_ok :: "activation_spec \<Rightarrow> activation_artifact_spec \<Rightarrow> bool" where
  "artifact_spec_ok spec a \<longleftrightarrow>
     as_phase a = sp_phase spec \<and> is_ok (parse_mode (as_mode a))
     \<and> is_account_name (as_owner a) \<and> is_account_name (as_group a)
     \<and> (\<forall>path. as_compatibility_symlink a = Some path \<longrightarrow> valid_compatibility_path path (sp_runtime_root spec))"

definition template_spec_ok :: "activation_spec \<Rightarrow> id set \<Rightarrow> activation_template_spec \<Rightarrow> bool" where
  "template_spec_ok spec ids t \<longleftrightarrow>
     is_ok (template_output_id (tpl_template_id t)) \<and> is_normalized_absolute_path (tpl_source t)
     \<and> tpl_phase t = sp_phase spec \<and> tpl_placeholders t \<noteq> bt_empty \<and> bt_len (tpl_placeholders t) \<le> 256
     \<and> is_ok (parse_mode (tpl_mode t)) \<and> is_account_name (tpl_owner t) \<and> is_account_name (tpl_group t)
     \<and> (\<forall>name p. bt_get (tpl_placeholders t) name = Some p \<longrightarrow> is_runtime_placeholder_name name \<and> ph_secret p \<in> ids)"

definition compatibility_paths :: "activation_artifact_spec list \<Rightarrow> string list" where
  "compatibility_paths as = List.map_filter as_compatibility_symlink as"

definition artifact_outputs :: "activation_artifact_spec list \<Rightarrow> string list" where
  "artifact_outputs as = map (\<lambda>a. as_str (as_secret_id a)) as"

definition template_outputs :: "activation_template_spec list \<Rightarrow> string list" where
  "template_outputs ts = map (\<lambda>t. ''templates/'' @ as_str (tpl_template_id t)) ts"

definition unit_actions_ok :: "post_switch_spec \<Rightarrow> bool" where
  "unit_actions_ok actions \<longleftrightarrow>
     path_is_absolute (ps_executable actions) \<and> 0 < ps_timeout_seconds actions \<and> ps_timeout_seconds actions \<le> 60
     \<and> length (ps_reload_units actions) \<le> 256 \<and> length (ps_restart_units actions) \<le> 256
     \<and> (is_launchd (ps_manager actions) \<longrightarrow> ps_reload_units actions = [])
     \<and> distinct (ps_reload_units actions @ ps_restart_units actions)
     \<and> (\<forall>unit \<in> set (ps_reload_units actions @ ps_restart_units actions). is_unit_name unit)"

lemma fold_add_unit:
  "fold_result add_unit units us = Inr units' \<longleftrightarrow>
     (\<forall>u \<in> set us. is_unit_name u) \<and> distinct us \<and> units \<inter> set us = {} \<and> units' = units \<union> set us"
  by (induction us arbitrary: units) (auto simp: add_unit_def)

lemma post_switch_validate_iff: "post_switch_validate actions = Inr () \<longleftrightarrow> unit_actions_ok actions"
  by (auto simp: post_switch_validate_def unit_actions_ok_def fold_add_unit not_less word_gt_0)

lemma as_str_eq_iff [simp]: "as_str a = as_str b \<longleftrightarrow> a = b"
  by (auto intro: id.expand)

lemma fold_artifact_specs:
  "fold_result (validate_artifact_spec spec) s as = Inr s' \<longleftrightarrow>
     (\<forall>a \<in> set as. artifact_spec_ok spec a)
     \<and> distinct (artifact_outputs as) \<and> seen_destinations s \<inter> set (artifact_outputs as) = {}
     \<and> seen_secret_ids s \<inter> as_secret_id ` set as = {}
     \<and> distinct (compatibility_paths as) \<and> seen_compatibility s \<inter> set (compatibility_paths as) = {}
     \<and> s' = s\<lparr>seen_destinations := seen_destinations s \<union> set (artifact_outputs as),
          seen_secret_ids := seen_secret_ids s \<union> as_secret_id ` set as,
          seen_compatibility := seen_compatibility s \<union> set (compatibility_paths as)\<rparr>"
proof (induction as arbitrary: s)
  case Nil
  then show ?case by (auto simp: artifact_outputs_def compatibility_paths_def List.map_filter_def)
next
  case (Cons a as)
  let ?s1 = "s\<lparr>seen_destinations := insert (as_str (as_secret_id a)) (seen_destinations s),
             seen_secret_ids := insert (as_secret_id a) (seen_secret_ids s),
             seen_compatibility := set_option (as_compatibility_symlink a) \<union> seen_compatibility s\<rparr>"
  have step: "validate_artifact_spec spec s a = Inr s1 \<longleftrightarrow>
      artifact_spec_ok spec a \<and> as_str (as_secret_id a) \<notin> seen_destinations s \<and> as_secret_id a \<notin> seen_secret_ids s
      \<and> (\<forall>p. as_compatibility_symlink a = Some p \<longrightarrow> p \<notin> seen_compatibility s) \<and> s1 = ?s1" for s1
    by (auto simp: validate_artifact_spec_def artifact_spec_ok_def split: option.splits)
  have outputs: "artifact_outputs (a # as) = as_str (as_secret_id a) # artifact_outputs as"
    by (simp add: artifact_outputs_def)
  have fresh: "as_str (as_secret_id a) \<in> set (artifact_outputs as) \<longleftrightarrow> as_secret_id a \<in> as_secret_id ` set as"
    by (auto simp: artifact_outputs_def)
  have paths: "compatibility_paths (a # as) =
      (case as_compatibility_symlink a of None \<Rightarrow> compatibility_paths as | Some p \<Rightarrow> p # compatibility_paths as)"
    by (simp add: compatibility_paths_def map_filter_simps split: option.split)
  show ?case
    unfolding fold_result.simps and_then_eq_Inr step Cons.IH outputs paths
    using fresh by (cases "as_compatibility_symlink a") auto
qed

lemma template_output_id_str:
  "template_output_id i = Inr d \<Longrightarrow> as_str d = ''templates/'' @ as_str i"
  by (auto simp: template_output_id_def Id_parse_iff)

lemma fold_template_specs:
  "fold_result (validate_template_spec spec) s ts = Inr s' \<longleftrightarrow>
     (\<forall>t \<in> set ts. template_spec_ok spec (seen_secret_ids s) t)
     \<and> distinct (template_outputs ts) \<and> seen_destinations s \<inter> set (template_outputs ts) = {}
     \<and> s' = s\<lparr>seen_destinations := seen_destinations s \<union> set (template_outputs ts)\<rparr>"
proof (induction ts arbitrary: s)
  case Nil
  then show ?case by (auto simp: template_outputs_def)
next
  case (Cons t ts)
  let ?out = "''templates/'' @ as_str (tpl_template_id t)"
  let ?s1 = "s\<lparr>seen_destinations := insert ?out (seen_destinations s)\<rparr>"
  have step: "validate_template_spec spec s t = Inr s1 \<longleftrightarrow>
      template_spec_ok spec (seen_secret_ids s) t \<and> ?out \<notin> seen_destinations s \<and> s1 = ?s1" for s1
    using template_output_id_str [of "tpl_template_id t"] bt_ball_items [of "tpl_placeholders t"
        "\<lambda>(name, p). is_runtime_placeholder_name name \<and> ph_secret p \<in> seen_secret_ids s"]
    by (cases "template_output_id (tpl_template_id t)")
      (auto simp: validate_template_spec_def template_spec_ok_def not_less simp del: as_str_eq_iff)
  have "template_outputs (t # ts) = ?out # template_outputs ts"
    by (simp add: template_outputs_def)
  then show ?case
    unfolding fold_result.simps and_then_eq_Inr step Cons.IH by auto
qed

definition activation_spec_ok :: "activation_spec \<Rightarrow> bool" where
  "activation_spec_ok spec \<longleftrightarrow>
     sp_schema spec = ACTIVATION_SCHEMA
     \<and> is_normalized_absolute_path (sp_runtime_root spec) \<and> is_normalized_absolute_path (sp_plan spec)
     \<and> is_normalized_absolute_path (sp_artifact_cache_root spec)
     \<and> sp_runtime_generation spec \<noteq> Some 0 \<and> sp_allowed_clock_skew spec \<le> 86400
     \<and> sp_artifacts spec \<noteq> [] \<and> length (sp_artifacts spec) \<le> 10000 \<and> length (sp_templates spec) \<le> 1024
     \<and> (\<forall>a \<in> set (sp_artifacts spec). artifact_spec_ok spec a)
     \<and> (\<forall>t \<in> set (sp_templates spec). template_spec_ok spec (as_secret_id ` set (sp_artifacts spec)) t)
     \<and> distinct (artifact_outputs (sp_artifacts spec) @ template_outputs (sp_templates spec))
     \<and> distinct (compatibility_paths (sp_artifacts spec))
     \<and> (\<forall>actions. sp_post_switch spec = Some actions \<longrightarrow> unit_actions_ok actions)"

lemma activation_spec_validate_iff:
  "activation_spec_validate spec = Inr () \<longleftrightarrow> activation_spec_ok spec"
  unfolding activation_spec_validate_def activation_spec_ok_def
  by (auto simp: fold_artifact_specs fold_template_specs post_switch_validate_iff not_less split: option.splits)

end
