(* ===== verification/Generations.thy ===== *)
theory Generations
  imports Traced Activation_Spec Envelope
begin

text \<open>
  The runtime root of \<open>crates/nix-seal-runtime/src/lib.rs\<close>: numbered generation
  directories, the link \<open>current\<close>, the marker of a pending service action, and the
  compatibility links outside the root. Every change of the root is a step of a traced
  computation, so the states a crash can leave are explicit.

  A directory is a list of named entries in listing order; file names are strings. The
  activation lock is held throughout, so nobody else changes the root. Synchronisation to disk
  and operating-system faults are not modelled: an operation fails for the reasons the code
  tests. Which owners the kernel lets the process set, whether the parent of a compatibility link
  passes the ownership and link checks, the digest function, and the service manager
  are fields of an environment.
\<close>

section \<open>Files and directories\<close>

record gfile =
  gf_uid :: nat
  gf_gid :: nat
  gf_mode :: "32 word"
  gf_nlink :: nat
  gf_content :: bytes

datatype dtree = DFile gfile | DDir "(string \<times> dtree) list" | DOther

text \<open>An entry of the runtime root: a file or directory, or a symbolic link with its target.\<close>

datatype rnode = RNode dtree | RLink string

datatype lnode = LTarget string | LOccupied

record runtime_root =
  rr_entries :: "(string, rnode) btree_map"
  rr_links :: "(string, lnode) btree_map"

record runtime_env =
  re_euid :: nat
  re_egid :: nat
  re_root :: string
  re_chown :: "nat \<Rightarrow> nat \<Rightarrow> bool"
  re_parent_ok :: "string \<Rightarrow> bool"
  re_hash :: "bytes \<Rightarrow> string"
  re_run :: "post_switch_spec \<Rightarrow> string \<Rightarrow> string list \<Rightarrow> runtime_error + int option"

text \<open>\<open>re_run\<close> is \<open>run_manager_action\<close> with the exit code of the manager.\<close>

fun tree_open :: "dtree \<Rightarrow> string list \<Rightarrow> runtime_error + gfile" where
  "tree_open (DFile f) [] = (if gf_nlink f = 1 then Inr f else Inl RUnsafeSource)"
| "tree_open (DDir _) [] = Inl RUnsafeSource"
| "tree_open DOther [] = Inl RUnsafeSource"
| "tree_open (DFile _) (_ # _) = Inl (RIo OtherIo)"
| "tree_open DOther (_ # _) = Inl RUnsafeSource"
| "tree_open (DDir es) (c # cs) =
     (case map_of es c of None \<Rightarrow> Inl (RIo NotFound) | Some t \<Rightarrow> tree_open t cs)"

definition replace_entry :: "string \<Rightarrow> dtree \<Rightarrow> (string \<times> dtree) list \<Rightarrow> (string \<times> dtree) list" where
  "replace_entry name t es = map (\<lambda>(n, x). if n = name then (n, t) else (n, x)) es"

text \<open>\<open>create_secret_file_relative\<close>: directories on the way are created or entered, the
  leaf is created exclusively.\<close>

fun tree_create :: "dtree \<Rightarrow> string list \<Rightarrow> gfile \<Rightarrow> runtime_error + dtree" where
  "tree_create (DDir es) [leaf] f =
     (if map_of es leaf \<noteq> None then Inl (RIo OtherIo) else Inr (DDir (es @ [(leaf, DFile f)])))"
| "tree_create (DDir es) (c # d # cs) f =
     (case map_of es c of
        None \<Rightarrow> and_then (tree_create (DDir []) (d # cs) f) (\<lambda>t. Inr (DDir (es @ [(c, t)])))
      | Some (DDir sub) \<Rightarrow> and_then (tree_create (DDir sub) (d # cs) f) (\<lambda>t. Inr (DDir (replace_entry c t es)))
      | Some _ \<Rightarrow> Inl RInvalidDestination)"
| "tree_create _ _ _ = Inl RInvalidDestination"

definition id_path :: "id \<Rightarrow> string list" where
  "id_path i = split_on (CHR ''/'') (as_str i)"

text \<open>The candidate directory of a transaction after a file has been created and filled.\<close>

definition create_file_owned ::
  "runtime_env \<Rightarrow> dtree \<Rightarrow> id \<Rightarrow> 32 word \<Rightarrow> nat \<Rightarrow> nat \<Rightarrow> bytes \<Rightarrow> runtime_error + dtree" where
  "create_file_owned env candidate i mode uid gid content =
     and_then (validate_mode mode) (\<lambda>_.
     and_then (tree_create candidate (id_path i)
       \<lparr>gf_uid = uid, gf_gid = gid, gf_mode = mode AND 0x1C0, gf_nlink = 1, gf_content = content\<rparr>) (\<lambda>t.
     and_then (check (uid = re_euid env \<and> gid = re_egid env \<or> re_chown env uid gid) (RIo OtherIo)) (\<lambda>_.
     Inr t)))"

section \<open>Comparing generations\<close>

definition hash_bounded :: "runtime_env \<Rightarrow> bytes \<Rightarrow> nat \<Rightarrow> runtime_error + string" where
  "hash_bounded env content limit =
     (if limit < length content then Inl RLimit else Inr (re_hash env content))"

definition regular_files_equal ::
  "runtime_env \<Rightarrow> dtree \<Rightarrow> string list \<Rightarrow> dtree \<Rightarrow> string list \<Rightarrow> runtime_error + bool" where
  "regular_files_equal env left lpath right rpath =
     and_then (tree_open left lpath) (\<lambda>l.
     case tree_open right rpath of
       Inl (RIo NotFound) \<Rightarrow> Inr False
     | Inl e \<Rightarrow> Inl e
     | Inr r \<Rightarrow>
         if gf_uid l \<noteq> gf_uid r \<or> gf_gid l \<noteq> gf_gid r \<or> gf_mode l AND 0x1FF \<noteq> gf_mode r AND 0x1FF then Inr False
         else if length (gf_content l) \<noteq> length (gf_content r) then Inr False
         else
           and_then (hash_bounded env (gf_content l) MAX_TEMPLATE_OUTPUT_BYTES) (\<lambda>hl.
           and_then (hash_bounded env (gf_content r) MAX_TEMPLATE_OUTPUT_BYTES) (\<lambda>hr.
           Inr (hl = hr))))"

definition count_entry :: "dtree list \<times> nat \<Rightarrow> string \<times> dtree \<Rightarrow> runtime_error + dtree list \<times> nat" where
  "count_entry = (\<lambda>(directories, files) (_, t).
     case t of
       DDir es \<Rightarrow> Inr (DDir es # directories, files)
     | DFile _ \<Rightarrow> Inr (directories, files + 1)
     | DOther \<Rightarrow> Inl RInvalidDestination)"

fun nodes :: "dtree \<Rightarrow> nat" where
  "nodes (DDir es) = Suc (sum_list (map (\<lambda>(_, t). nodes t) es))"
| "nodes _ = 1"

lemma count_entry_simps [simp]:
  "count_entry (ds, n) (name, DFile f) = Inr (ds, Suc n)"
  "count_entry (ds, n) (name, DDir es) = Inr (DDir es # ds, n)"
  "count_entry (ds, n) (name, DOther) = Inl RInvalidDestination"
  by (simp_all add: count_entry_def)

lemma count_entry_nodes:
  "fold_result count_entry (ds, n) es = Inr (ds', n') \<Longrightarrow>
     sum_list (map nodes ds') \<le> sum_list (map nodes ds) + sum_list (map (\<lambda>(_, t). nodes t) es)"
proof (induction es arbitrary: ds n)
  case (Cons x es)
  obtain name t where x: "x = (name, t)" by force
  show ?case
  proof (cases t)
    case (DFile f)
    with Cons.prems Cons.IH [of ds "Suc n"] show ?thesis by (simp add: x)
  next
    case (DDir sub)
    with Cons.prems Cons.IH [of "DDir sub # ds" n] show ?thesis by (simp add: x)
  next
    case DOther
    with Cons.prems show ?thesis by (simp add: x)
  qed
qed simp

function count_loop :: "dtree list \<Rightarrow> nat \<Rightarrow> runtime_error + nat" where
  "count_loop [] files = Inr files"
| "count_loop (d # ds) files =
     (if 10000 < length ds \<or> 10000 < files then Inl RLimit
      else case d of
        DDir es \<Rightarrow> and_then (fold_result count_entry (ds, files) es) (\<lambda>(ds', files'). count_loop ds' files')
      | _ \<Rightarrow> Inl (RIo OtherIo))"
  by pat_completeness auto
termination
  by (relation "measure (\<lambda>(ds, files). sum_list (map nodes ds))") (auto dest!: count_entry_nodes simp: less_Suc_eq_le)

definition count_regular_files :: "dtree \<Rightarrow> runtime_error + nat" where
  "count_regular_files root = count_loop [root] 0"

section \<open>Generation names\<close>

definition is_dir :: "rnode \<Rightarrow> bool" where
  "is_dir n = (case n of RNode (DDir _) \<Rightarrow> True | _ \<Rightarrow> False)"

definition GENERATION_PREFIX :: string where
  "GENERATION_PREFIX = ''generation-''"

definition generation_name :: "nat \<Rightarrow> string" where
  "generation_name n = GENERATION_PREFIX @ show_nat n"

definition all_digits :: "string \<Rightarrow> bool" where
  "all_digits s \<longleftrightarrow> s \<noteq> [] \<and> (\<forall>b \<in> set s. is_ascii_digit b)"

definition parse_u64 :: "string \<Rightarrow> nat option" where
  "parse_u64 s = parse_unsigned 10 (2 ^ 64) s"

definition next_generation_entry :: "nat \<Rightarrow> string \<times> rnode \<Rightarrow> runtime_error + nat" where
  "next_generation_entry maximum = (\<lambda>(name, node).
     case strip_prefix name GENERATION_PREFIX of
       None \<Rightarrow> Inr maximum
     | Some tail \<Rightarrow>
         if \<not> is_dir node \<or> \<not> all_digits tail then Inl RInvalidDestination
         else and_then (ok_or (parse_u64 tail) RInvalidDestination) (\<lambda>value. Inr (max maximum value)))"

definition next_generation :: "runtime_root \<Rightarrow> runtime_error + nat" where
  "next_generation root =
     and_then (fold_result next_generation_entry 0 (items (rr_entries root))) (\<lambda>maximum.
     if maximum + 1 < 2 ^ 64 then Inr (maximum + 1) else Inl RInvalidDestination)"

definition current_generation :: "runtime_root \<Rightarrow> runtime_error + (string \<times> dtree) option" where
  "current_generation root =
     (case bt_get (rr_entries root) ''current'' of
        None \<Rightarrow> Inr None
      | Some (RNode _) \<Rightarrow> Inl RInvalidDestination
      | Some (RLink target) \<Rightarrow>
          (case strip_prefix target GENERATION_PREFIX of
             None \<Rightarrow> Inl RInvalidDestination
           | Some tail \<Rightarrow>
               if \<not> all_digits tail then Inl RInvalidDestination
               else (case bt_get (rr_entries root) target of
                       None \<Rightarrow> Inl (RIo NotFound)
                     | Some (RNode (DDir es)) \<Rightarrow> Inr (Some (target, DDir es))
                     | Some _ \<Rightarrow> Inl RInvalidDestination)))"

definition generation_number :: "string \<Rightarrow> runtime_error + nat" where
  "generation_number name =
     (case strip_prefix name GENERATION_PREFIX of
        None \<Rightarrow> Inl RInvalidDestination
      | Some tail \<Rightarrow> ok_or (parse_u64 tail) RInvalidDestination)"

text \<open>The name and contents of the active generation when the candidate equals it.\<close>

definition matching_current ::
  "runtime_env \<Rightarrow> runtime_root \<Rightarrow> dtree \<Rightarrow> id list \<Rightarrow> runtime_error + string option" where
  "matching_current env root candidate outputs =
     and_then (current_generation root) (\<lambda>c. case c of
       None \<Rightarrow> Inr None
     | Some (name, current) \<Rightarrow>
         and_then (count_regular_files current) (\<lambda>n.
         if n \<noteq> length outputs then Inr None
         else
           and_then (fold_result (\<lambda>same i. if \<not> same then Inr False
               else regular_files_equal env candidate (id_path i) current (id_path i)) True outputs) (\<lambda>same.
           Inr (if same then Some name else None))))"

section \<open>Changing the root\<close>

type_synonym 'a root_op = "(runtime_root, runtime_error, 'a) traced"

definition put_entry :: "string \<Rightarrow> rnode \<Rightarrow> runtime_root \<Rightarrow> runtime_root" where
  "put_entry name node root = root\<lparr>rr_entries := bt_insert name node (rr_entries root)\<rparr>"

definition drop_entry :: "string \<Rightarrow> runtime_root \<Rightarrow> runtime_root" where
  "drop_entry name root = root\<lparr>rr_entries := bt_filter (\<lambda>(n, _). n \<noteq> name) (rr_entries root)\<rparr>"

text \<open>\<open>std::fs::rename\<close> of an existing entry over a free name or a file or link.\<close>

definition rename_entry :: "string \<Rightarrow> string \<Rightarrow> runtime_root \<Rightarrow> runtime_root" where
  "rename_entry source destination root =
     (case bt_get (rr_entries root) source of
        None \<Rightarrow> root
      | Some node \<Rightarrow> put_entry destination node (drop_entry source root))"

definition open_root_file :: "runtime_root \<Rightarrow> string \<Rightarrow> runtime_error + gfile" where
  "open_root_file root name =
     (case bt_get (rr_entries root) name of
        None \<Rightarrow> Inl (RIo NotFound)
      | Some (RLink _) \<Rightarrow> Inl RUnsafeSource
      | Some (RNode t) \<Rightarrow> tree_open t [])"

definition secret_file :: "runtime_env \<Rightarrow> bytes \<Rightarrow> rnode" where
  "secret_file env content =
     RNode (DFile \<lparr>gf_uid = re_euid env, gf_gid = re_egid env, gf_mode = 0x180, gf_nlink = 1, gf_content = content\<rparr>)"

section \<open>The pending marker\<close>

definition PENDING_MARKER :: string where
  "PENDING_MARKER = ''.post-switch-pending-v1''"

definition PENDING_NEXT :: string where
  "PENDING_NEXT = ''.post-switch-next''"

definition pending_payload :: "string \<Rightarrow> string \<Rightarrow> bytes" where
  "pending_payload generation plan_hash =
     ''nix-seal.post-switch.v1'' @ [CHR 0x0A] @ generation @ [CHR 0x0A] @ plan_hash @ [CHR 0x0A]"

definition pending_marker_exists :: "runtime_root \<Rightarrow> runtime_error + bool" where
  "pending_marker_exists root =
     (case bt_get (rr_entries root) PENDING_MARKER of
        None \<Rightarrow> Inr False
      | Some (RNode (DFile _)) \<Rightarrow> Inr True
      | Some _ \<Rightarrow> Inl RInvalidDestination)"

definition runtime_read_bounded :: "bytes \<Rightarrow> nat \<Rightarrow> runtime_error + bytes" where
  "runtime_read_bounded input limit = (if limit < length input then Inl RLimit else Inr input)"

definition pending_matches :: "runtime_root \<Rightarrow> string \<Rightarrow> string \<Rightarrow> runtime_error + bool" where
  "pending_matches root generation plan_hash =
     and_then (pending_marker_exists root) (\<lambda>present.
     if \<not> present then Inr False
     else
       and_then (open_root_file root PENDING_MARKER) (\<lambda>f.
       and_then (runtime_read_bounded (gf_content f) 1024) (\<lambda>bs.
       Inr (bs = pending_payload generation plan_hash))))"

definition write_pending :: "runtime_env \<Rightarrow> string \<Rightarrow> string \<Rightarrow> unit root_op" where
  "write_pending env generation plan_hash =
     t_bind (t_get (\<lambda>root.
       if bt_contains (rr_entries root) PENDING_NEXT
       then and_then (open_root_file root PENDING_NEXT) (\<lambda>_. Inr True) else Inr False)) (\<lambda>stale.
     t_bind (if stale then t_modify (drop_entry PENDING_NEXT) else t_return ()) (\<lambda>_.
     t_bind (t_modify (put_entry PENDING_NEXT (secret_file env []))) (\<lambda>_.
     t_bind (t_modify (put_entry PENDING_NEXT (secret_file env (pending_payload generation plan_hash)))) (\<lambda>_.
     t_modify (rename_entry PENDING_NEXT PENDING_MARKER)))))"

definition clear_pending :: "unit root_op" where
  "clear_pending =
     t_bind (t_get pending_marker_exists) (\<lambda>present.
     if present
     then t_bind (t_get (\<lambda>root. open_root_file root PENDING_MARKER)) (\<lambda>_.
       t_modify (drop_entry PENDING_MARKER))
     else t_return ())"

section \<open>Service actions\<close>

definition manager_arguments :: "nat \<Rightarrow> service_manager \<Rightarrow> bool \<Rightarrow> string \<Rightarrow> runtime_error + string list" where
  "manager_arguments euid manager reload unit =
     (case (manager, reload) of
        (SystemdSystem, True) \<Rightarrow> Inr [''reload'', unit]
      | (SystemdUser, True) \<Rightarrow> Inr [''--user'', ''reload'', unit]
      | (LaunchdSystem, True) \<Rightarrow> Inl RInvalidSpec
      | (LaunchdUser, True) \<Rightarrow> Inl RInvalidSpec
      | (SystemdSystem, False) \<Rightarrow> Inr [''try-restart'', unit]
      | (SystemdUser, False) \<Rightarrow> Inr [''--user'', ''try-restart'', unit]
      | (LaunchdSystem, False) \<Rightarrow> Inr [''kickstart'', ''-k'', ''system/'' @ unit]
      | (LaunchdUser, False) \<Rightarrow> Inr [''kickstart'', ''-k'', ''gui/'' @ show_nat euid @ ''/'' @ unit])"

definition reload_unit :: "runtime_env \<Rightarrow> post_switch_spec \<Rightarrow> string \<Rightarrow> runtime_error + unit" where
  "reload_unit env actions unit =
     and_then (manager_arguments (re_euid env) (ps_manager actions) True unit) (\<lambda>arguments.
     and_then (re_run env actions unit arguments) (\<lambda>code.
     check (code = Some 0) (RServiceAction unit)))"

definition unit_is_active :: "runtime_env \<Rightarrow> post_switch_spec \<Rightarrow> string \<Rightarrow> runtime_error + bool" where
  "unit_is_active env actions unit =
     (if ps_manager actions = SystemdSystem \<or> ps_manager actions = SystemdUser
      then
        and_then (re_run env actions unit
          ((if ps_manager actions = SystemdUser then [''--user''] else []) @ [''is-active'', ''--quiet'', unit])) (\<lambda>code.
        if code = Some 0 then Inr True
        else if code = Some 3 \<or> code = Some 4 then Inr False
        else Inl (RServiceAction unit))
      else Inr True)"

definition restart_unit :: "runtime_env \<Rightarrow> post_switch_spec \<Rightarrow> string \<Rightarrow> runtime_error + unit" where
  "restart_unit env actions unit =
     and_then (unit_is_active env actions unit) (\<lambda>active.
     if \<not> active then Inr ()
     else
       and_then (manager_arguments (re_euid env) (ps_manager actions) False unit) (\<lambda>arguments.
       and_then (re_run env actions unit arguments) (\<lambda>code.
       check (code = Some 0) (RServiceAction unit))))"

definition run_post_switch :: "runtime_env \<Rightarrow> post_switch_spec \<Rightarrow> runtime_error + unit" where
  "run_post_switch env actions =
     and_then (post_switch_validate actions) (\<lambda>_.
     and_then (for_each (reload_unit env actions) (ps_reload_units actions)) (\<lambda>_.
     for_each (restart_unit env actions) (ps_restart_units actions)))"

section \<open>Compatibility links\<close>

text \<open>
  \<open>install_compatibility_symlink\<close>: the link is created under a private temporary name and
  renamed without replacing; with nobody else in that directory this is one step. The result
  tells whether it was created.
\<close>

definition install_compatibility_symlink :: "runtime_env \<Rightarrow> string \<Rightarrow> string \<Rightarrow> bool root_op" where
  "install_compatibility_symlink env path link_target =
     t_bind (t_get (\<lambda>root.
       if \<not> re_parent_ok env path then Inl RCompatibilityPath
       else case bt_get (rr_links root) path of
         None \<Rightarrow> Inr True
       | Some LOccupied \<Rightarrow> Inl RCompatibilityPath
       | Some (LTarget existing) \<Rightarrow>
           if existing = link_target then Inr False else Inl RCompatibilityPath)) (\<lambda>create.
     if create
     then t_bind (t_modify (\<lambda>root. root\<lparr>rr_links := bt_insert path (LTarget link_target) (rr_links root)\<rparr>)) (\<lambda>_.
       t_return True)
     else t_return False)"

definition remove_compatibility_symlink_if_matches :: "runtime_env \<Rightarrow> string \<Rightarrow> string \<Rightarrow> unit root_op" where
  "remove_compatibility_symlink_if_matches env path link_target =
     t_bind (t_get (\<lambda>root.
       if \<not> re_parent_ok env path then Inl RCompatibilityPath
       else case bt_get (rr_links root) path of
         None \<Rightarrow> Inr False
       | Some LOccupied \<Rightarrow> Inl RCompatibilityPath
       | Some (LTarget existing) \<Rightarrow>
           if existing = link_target then Inr True else Inl RCompatibilityPath)) (\<lambda>present.
     if present
     then t_modify (\<lambda>root. root\<lparr>rr_links := bt_filter (\<lambda>(p, _). p \<noteq> path) (rr_links root)\<rparr>)
     else t_return ())"

definition remove_compatibility_symlinks :: "runtime_env \<Rightarrow> (string \<times> string) list \<Rightarrow> unit root_op" where
  "remove_compatibility_symlinks env links =
     t_for_each (\<lambda>(path, link_target). remove_compatibility_symlink_if_matches env path link_target) (rev links)"

definition stable_path :: "runtime_env \<Rightarrow> id \<Rightarrow> string" where
  "stable_path env secret_id = path_join (path_join (re_root env) ''current'') (as_str secret_id)"

fun ensure_links :: "runtime_env \<Rightarrow> (string \<times> string) list \<Rightarrow> (string \<times> id) list \<Rightarrow> (string \<times> string) list root_op" where
  "ensure_links env created [] = t_return created"
| "ensure_links env created ((path, secret_id) # links) =
     t_bind (t_on_error (install_compatibility_symlink env path (stable_path env secret_id))
         (remove_compatibility_symlinks env created)) (\<lambda>is_new.
     ensure_links env (if is_new then created @ [(path, stable_path env secret_id)] else created) links)"

definition ensure_compatibility_symlinks :: "runtime_env \<Rightarrow> (string \<times> id) list \<Rightarrow> (string \<times> string) list root_op" where
  "ensure_compatibility_symlinks env links = ensure_links env [] links"

section \<open>Switching and pruning\<close>

fun has_special :: "dtree \<Rightarrow> bool" where
  "has_special (DFile _) = False"
| "has_special DOther = True"
| "has_special (DDir es) = list_ex (\<lambda>(_, t). has_special t) es"

text \<open>\<open>sync_tree\<close> fails when the tree holds anything but files and directories.\<close>

definition sync_tree :: "runtime_root \<Rightarrow> string \<Rightarrow> runtime_error + unit" where
  "sync_tree root name =
     (case bt_get (rr_entries root) name of
        Some (RNode t) \<Rightarrow> check (\<not> has_special t) RInvalidDestination
      | _ \<Rightarrow> Inl (RIo NotFound))"

definition CURRENT_NEXT :: string where
  "CURRENT_NEXT = ''.current-next''"

definition switch_current :: "nat \<Rightarrow> unit root_op" where
  "switch_current generation =
     t_bind (t_get (\<lambda>root.
       case bt_get (rr_entries root) ''current'' of
         None \<Rightarrow> Inr ()
       | Some (RNode _) \<Rightarrow> Inl RInvalidDestination
       | Some (RLink link_target) \<Rightarrow>
           check (case strip_prefix link_target GENERATION_PREFIX of None \<Rightarrow> False | Some tail \<Rightarrow> all_digits tail)
             RInvalidDestination)) (\<lambda>_.
     t_bind (t_get (\<lambda>root.
       case bt_get (rr_entries root) CURRENT_NEXT of
         None \<Rightarrow> Inr False
       | Some (RNode _) \<Rightarrow> Inl RInvalidDestination
       | Some (RLink _) \<Rightarrow> Inr True)) (\<lambda>stale.
     t_bind (if stale then t_modify (drop_entry CURRENT_NEXT) else t_return ()) (\<lambda>_.
     t_bind (t_modify (put_entry CURRENT_NEXT (RLink (generation_name generation)))) (\<lambda>_.
     t_modify (rename_entry CURRENT_NEXT ''current'')))))"

text \<open>
  \<open>remove_generation_tree\<close>: nothing is left, or what was left when a symbolic link or
  special file stopped it.
\<close>

fun remove_node :: "dtree \<Rightarrow> dtree option" and remove_entries :: "(string \<times> dtree) list \<Rightarrow> (string \<times> dtree) list" where
  "remove_node (DFile _) = None"
| "remove_node DOther = Some DOther"
| "remove_node (DDir es) = (case remove_entries es of [] \<Rightarrow> None | rest \<Rightarrow> Some (DDir rest))"
| "remove_entries [] = []"
| "remove_entries ((name, t) # es) =
     (case remove_node t of None \<Rightarrow> remove_entries es | Some t' \<Rightarrow> (name, t') # es)"

definition prune_entry :: "nat \<Rightarrow> string \<times> rnode \<Rightarrow> unit root_op" where
  "prune_entry current = (\<lambda>(name, node).
     case strip_prefix name GENERATION_PREFIX of
       None \<Rightarrow> t_return ()
     | Some tail \<Rightarrow>
         (case parse_u64 tail of
            None \<Rightarrow> t_fail RInvalidDestination
          | Some generation \<Rightarrow>
              (case node of
                 RNode (DDir es) \<Rightarrow>
                   if generation \<noteq> current
                   then (case remove_node (DDir es) of
                           None \<Rightarrow> t_modify (drop_entry name)
                         | Some rest \<Rightarrow> t_bind (t_modify (put_entry name (RNode rest))) (\<lambda>_. t_fail RInvalidDestination))
                   else t_return ()
               | _ \<Rightarrow> t_fail RInvalidDestination)))"

definition prune_superseded_generations :: "nat \<Rightarrow> unit root_op" where
  "prune_superseded_generations current =
     t_bind (t_get (\<lambda>root. Inr (items (rr_entries root)))) (\<lambda>entries.
     t_for_each (prune_entry current) entries)"

section \<open>Committing a generation\<close>

definition finish_unchanged :: "runtime_env \<Rightarrow> string \<Rightarrow> string \<Rightarrow> post_switch_spec option \<Rightarrow> unit root_op" where
  "finish_unchanged env current plan_hash actions =
     t_bind (t_get pending_marker_exists) (\<lambda>present.
     if \<not> present then t_return ()
     else
       t_bind (t_get (\<lambda>root. pending_matches root current plan_hash)) (\<lambda>matches.
       if \<not> matches then t_fail RPendingPostSwitch
       else case actions of
         None \<Rightarrow> t_fail RPendingPostSwitch
       | Some a \<Rightarrow>
           t_bind (t_get (\<lambda>_. run_post_switch env a)) (\<lambda>_. clear_pending)))"

definition undo_publication :: "runtime_env \<Rightarrow> string \<Rightarrow> (string \<times> string) list \<Rightarrow> unit root_op" where
  "undo_publication env destination created =
     t_bind (t_modify (drop_entry destination)) (\<lambda>_.
     t_ignore (remove_compatibility_symlinks env created))"

definition commit_and_switch_optional ::
  "runtime_env \<Rightarrow> string \<Rightarrow> nat option \<Rightarrow> string \<Rightarrow> post_switch_spec option \<Rightarrow> (string \<times> id) list \<Rightarrow> string root_op" where
  "commit_and_switch_optional env temporary generation plan_hash actions compatibility =
     t_bind (t_get pending_marker_exists) (\<lambda>present.
     if present then t_fail RPendingPostSwitch
     else
     t_bind (t_get (\<lambda>root. case generation of Some n \<Rightarrow> Inr n | None \<Rightarrow> next_generation root)) (\<lambda>n.
     t_bind (ensure_compatibility_symlinks env compatibility) (\<lambda>created.
     t_bind (t_on_error (t_get (\<lambda>root. sync_tree root temporary)) (remove_compatibility_symlinks env created)) (\<lambda>_.
     let destination = generation_name n in
     t_bind (t_get (\<lambda>root. Inr (bt_contains (rr_entries root) destination))) (\<lambda>occupied.
     if occupied
     then t_bind (remove_compatibility_symlinks env created) (\<lambda>_. t_fail RInvalidDestination)
     else
     t_bind (t_modify (rename_entry temporary destination)) (\<lambda>_.
     t_bind (t_on_error (case actions of Some _ \<Rightarrow> write_pending env destination plan_hash | None \<Rightarrow> clear_pending)
         (undo_publication env destination created)) (\<lambda>_.
     t_bind (t_on_error (switch_current n)
         (t_bind (t_modify (drop_entry destination)) (\<lambda>_.
          t_bind (t_ignore clear_pending) (\<lambda>_.
          t_ignore (remove_compatibility_symlinks env created))))) (\<lambda>_.
     t_bind (case actions of
         None \<Rightarrow> t_return ()
       | Some a \<Rightarrow> t_bind (t_get (\<lambda>_. run_post_switch env a)) (\<lambda>_. clear_pending)) (\<lambda>_.
     t_bind (prune_superseded_generations n) (\<lambda>_.
     t_return destination))))))))))"

section \<open>The active generation\<close>

text \<open>What a reader of \<open>current\<close> sees.\<close>

definition active :: "runtime_root \<Rightarrow> dtree option" where
  "active root =
     (case bt_get (rr_entries root) ''current'' of
        Some (RLink link_target) \<Rightarrow>
          (case bt_get (rr_entries root) link_target of Some (RNode (DDir es)) \<Rightarrow> Some (DDir es) | _ \<Rightarrow> None)
      | _ \<Rightarrow> None)"

end
