(* ===== verification/Generation_Switch.thy ===== *)
theory Generation_Switch
  imports Generations
begin

text \<open>
  Lemmas about committing a generation: which entries of the root each operation may change, that
  the switch is atomic for a reader of \<open>current\<close>, and how the pending marker evolves.
\<close>

section \<open>Frames\<close>

lemma entry_simps [simp]:
  "bt_get (rr_entries (put_entry name node root)) n = (if n = name then Some node else bt_get (rr_entries root) n)"
  "bt_get (rr_entries (drop_entry name root)) n = (if n = name then None else bt_get (rr_entries root) n)"
  by (auto simp: put_entry_def drop_entry_def bt_get_filter split: option.splits)

lemma rename_entry_get:
  "bt_get (rr_entries root) source = Some node \<Longrightarrow> bt_get (rr_entries (rename_entry source destination root)) n =
     (if n = destination then Some node else if n = source then None else bt_get (rr_entries root) n)"
  by (simp add: rename_entry_def)

definition same_except :: "string set \<Rightarrow> runtime_root \<Rightarrow> runtime_root \<Rightarrow> bool" where
  "same_except names s s' \<longleftrightarrow> (\<forall>n. n \<notin> names \<longrightarrow> bt_get (rr_entries s') n = bt_get (rr_entries s) n)"

lemma same_except_refl [simp]: "same_except names s s"
  by (simp add: same_except_def)

lemma frame_states: "keeps (same_except names s) m \<Longrightarrow> s' \<in> set (fst (m s)) \<Longrightarrow> same_except names s s'"
  using same_except_refl unfolding keeps_def by blast

lemma same_except_mono: "same_except a s s' \<Longrightarrow> a \<subseteq> b \<Longrightarrow> same_except b s s'"
  by (auto simp: same_except_def)

lemma same_except_trans: "same_except a s s' \<Longrightarrow> same_except b s' s'' \<Longrightarrow> same_except (a \<union> b) s s''"
  by (simp add: same_except_def)

lemma same_except_steps [simp]:
  "same_except names s root \<Longrightarrow> name \<in> names \<Longrightarrow> same_except names s (put_entry name node root)"
  "same_except names s root \<Longrightarrow> name \<in> names \<Longrightarrow> same_except names s (drop_entry name root)"
  "same_except names s root \<Longrightarrow> name \<in> names \<Longrightarrow> destination \<in> names \<Longrightarrow>
     same_except names s (rename_entry name destination root)"
  "same_except names s (root\<lparr>rr_links := links\<rparr>) = same_except names s root"
  by (auto simp: same_except_def rename_entry_def split: option.splits)

lemma links_frame [keeps_intros]:
  "keeps (same_except names s) (install_compatibility_symlink env path link_target)"
  "keeps (same_except names s) (remove_compatibility_symlink_if_matches env path link_target)"
  unfolding install_compatibility_symlink_def remove_compatibility_symlink_if_matches_def
  by (intro keeps_intros; simp)+

lemma remove_links_frame [keeps_intros]:
  "keeps (same_except names s) (remove_compatibility_symlinks env links)"
  unfolding remove_compatibility_symlinks_def by (auto intro!: keeps_intros)

lemma ensure_links_frame [keeps_intros]:
  "keeps (same_except names s) (ensure_links env created links)"
  by (induction env created links rule: ensure_links.induct) (auto intro!: keeps_intros)

lemma write_pending_frame [keeps_intros]:
  "{PENDING_NEXT, PENDING_MARKER} \<subseteq> names \<Longrightarrow> keeps (same_except names s) (write_pending env g h)"
  unfolding write_pending_def by (intro keeps_intros; simp)

lemma clear_pending_frame [keeps_intros]:
  "PENDING_MARKER \<in> names \<Longrightarrow> keeps (same_except names s) clear_pending"
  unfolding clear_pending_def by (intro keeps_intros; simp)

lemma undo_publication_frame [keeps_intros]:
  "destination \<in> names \<Longrightarrow> keeps (same_except names s) (undo_publication env destination created)"
  unfolding undo_publication_def by (intro keeps_intros; simp)

section \<open>Names\<close>

lemma show_nat_nonempty [simp]: "show_nat n \<noteq> []"
  by (subst show_nat.simps) simp

lemma parse_u64_show: "n < 2 ^ 64 \<Longrightarrow> parse_u64 (show_nat n) = Some n"
proof -
  assume n: "n < 2 ^ 64"
  obtain c cs where s: "show_nat n = c # cs" by (cases "show_nat n") auto
  then have "is_ascii_digit c" using show_nat_digits [of c n] by simp
  then have "c \<noteq> CHR ''+''" by (auto simp: is_ascii_digit_def)
  then show ?thesis
    using n digits_value_show_nat [of n] by (simp add: parse_u64_def parse_unsigned_def s)
qed

lemma generation_name_prefix [simp]: "strip_prefix (generation_name n) GENERATION_PREFIX = Some (show_nat n)"
  by (simp add: generation_name_def strip_prefix_eq_Some)

lemma generation_name_digits: "all_digits (show_nat n)"
  unfolding all_digits_def using show_nat_digits [of _ n] by (cases "show_nat n") auto

lemma special_names [simp]:
  "strip_prefix ''current'' GENERATION_PREFIX = None" "strip_prefix PENDING_NEXT GENERATION_PREFIX = None"
  "strip_prefix PENDING_MARKER GENERATION_PREFIX = None" "strip_prefix CURRENT_NEXT GENERATION_PREFIX = None"
  "PENDING_NEXT \<noteq> PENDING_MARKER" "PENDING_NEXT \<noteq> CURRENT_NEXT" "PENDING_MARKER \<noteq> CURRENT_NEXT"
  "PENDING_NEXT \<noteq> ''current''" "PENDING_MARKER \<noteq> ''current''" "CURRENT_NEXT \<noteq> ''current''"
  by (simp_all add: strip_prefix_def starts_with_def GENERATION_PREFIX_def PENDING_NEXT_def PENDING_MARKER_def CURRENT_NEXT_def)

lemmas special_names_sym [simp] = special_names(5-10) [symmetric]

lemma not_generation [simp]:
  "strip_prefix name GENERATION_PREFIX = None \<Longrightarrow> name \<noteq> generation_name n"
  "strip_prefix name GENERATION_PREFIX = None \<Longrightarrow> generation_name n \<noteq> name"
  by auto

section \<open>The switch is atomic\<close>

text \<open>The state the commit starts from: the candidate is staged, \<open>current\<close> is absent or in order.\<close>

definition staged :: "string \<Rightarrow> dtree \<Rightarrow> runtime_root \<Rightarrow> bool" where
  "staged temporary candidate s \<longleftrightarrow>
     bt_get (rr_entries s) temporary = Some (RNode candidate) \<and> (\<exists>es. candidate = DDir es)
     \<and> strip_prefix temporary GENERATION_PREFIX = None \<and> temporary \<noteq> ''current''
     \<and> is_ok (current_generation s)"

definition switched :: "string \<Rightarrow> dtree \<Rightarrow> runtime_root \<Rightarrow> bool" where
  "switched destination candidate s \<longleftrightarrow>
     bt_get (rr_entries s) ''current'' = Some (RLink destination)
     \<and> bt_get (rr_entries s) destination = Some (RNode candidate)"

lemma active_switched: "switched destination (DDir es) s \<Longrightarrow> active s = Some (DDir es)"
  by (simp add: switched_def active_def)

text \<open>The entries a reader of \<open>current\<close> depends on.\<close>

definition current_names :: "runtime_root \<Rightarrow> string set" where
  "current_names s = {''current''} \<union>
     (case bt_get (rr_entries s) ''current'' of Some (RLink t) \<Rightarrow> {t} | _ \<Rightarrow> {})"

lemma active_same: "same_except names s s' \<Longrightarrow> names \<inter> current_names s = {} \<Longrightarrow> active s' = active s"
  by (auto simp: same_except_def current_names_def active_def split: option.splits rnode.splits)

lemma current_names_ok:
  assumes "is_ok (current_generation s)" and "t \<in> current_names s" and "t \<noteq> ''current''"
  shows "strip_prefix t GENERATION_PREFIX \<noteq> None \<and> bt_contains (rr_entries s) t"
  using assms
  by (auto simp: current_names_def current_generation_def bt_contains_def split: option.splits rnode.splits if_splits)

text \<open>Pruning touches superseded generations only.\<close>

definition superseded :: "nat \<Rightarrow> string set" where
  "superseded n = {name. \<exists>tail g. strip_prefix name GENERATION_PREFIX = Some tail \<and> parse_u64 tail = Some g \<and> g \<noteq> n}"

lemma not_superseded [simp]:
  "strip_prefix name GENERATION_PREFIX = None \<Longrightarrow> name \<notin> superseded n"
  "n < 2 ^ 64 \<Longrightarrow> generation_name n \<notin> superseded n"
  by (auto simp: superseded_def parse_u64_show)

lemma prune_entry_frame [keeps_intros]: "keeps (same_except (superseded n) s) (prune_entry n x)"
proof -
  obtain name node where x: "x = (name, node)" by force
  show ?thesis
  proof (cases "name \<in> superseded n")
    case True
    then have "keeps (same_except (superseded n) s) (t_modify (drop_entry name))"
      "\<And>t. keeps (same_except (superseded n) s) (t_modify (put_entry name t))"
      by (auto intro!: keeps_modify)
    then show ?thesis
      by (auto simp: prune_entry_def x intro!: keeps_basic keeps_bind split: option.split rnode.split dtree.split)
  next
    case False
    then show ?thesis
      by (auto simp: prune_entry_def x superseded_def intro!: keeps_basic split: option.split rnode.split dtree.split)
  qed
qed

lemma prune_frame: "keeps (same_except (superseded n) s) (prune_superseded_generations n)"
  unfolding prune_superseded_generations_def by (intro keeps_intros)

lemma switched_frame:
  "same_except names s s' \<Longrightarrow> ''current'' \<notin> names \<Longrightarrow> destination \<notin> names \<Longrightarrow>
     switched destination candidate s' = switched destination candidate s"
  by (simp add: switched_def same_except_def)

text \<open>After pruning, the only generations left are numbered \<open>n\<close>.\<close>

definition only_generation :: "nat \<Rightarrow> string set \<Rightarrow> runtime_root \<Rightarrow> bool" where
  "only_generation n others s \<longleftrightarrow> (\<forall>name tail. bt_contains (rr_entries s) name \<longrightarrow> name \<notin> others \<longrightarrow>
     strip_prefix name GENERATION_PREFIX = Some tail \<longrightarrow> parse_u64 tail = Some n)"

lemma prune_entry_result:
  "exec (prune_entry n (name, node)) s = (s', Inr u) \<Longrightarrow>
     s' = drop_entry name s \<or> s' = s \<and> (\<forall>tail. strip_prefix name GENERATION_PREFIX = Some tail \<longrightarrow> parse_u64 tail = Some n)"
  by (auto simp: prune_entry_def exec_bind split: option.splits rnode.splits dtree.splits if_splits)

lemma prune_entry_only:
  assumes "exec (prune_entry n (name, node)) s = (s', Inr u)" and "only_generation n (insert name others) s"
  shows "only_generation n others s'"
  using prune_entry_result [OF assms(1)] assms(2)
  by (elim disjE conjE) (fastforce simp: only_generation_def bt_contains_def split: if_splits)+

lemma prune_entries_only:
  "exec (t_for_each (prune_entry n) xs) s = (s', Inr u) \<Longrightarrow> only_generation n (fst ` set xs \<union> others) s \<Longrightarrow>
     only_generation n others s'"
proof (induction xs arbitrary: s)
  case (Cons x xs)
  obtain name node where x: "x = (name, node)" by force
  from Cons.prems(1) obtain s1 v where one: "exec (prune_entry n (name, node)) s = (s1, Inr v)"
    and rest: "exec (t_for_each (prune_entry n) xs) s1 = (s', Inr u)"
    by (auto simp only: x t_for_each.simps exec_bind_Inr)
  from prune_entry_only [OF one] Cons.prems(2) have "only_generation n (fst ` set xs \<union> others) s1"
    by (simp add: x)
  from Cons.IH [OF rest this] show ?case .
qed simp

lemma prune_only:
  assumes "exec (prune_superseded_generations n) s = (s', Inr ())"
  shows "only_generation n {} s'"
proof (rule prune_entries_only)
  show "exec (t_for_each (prune_entry n) (items (rr_entries s))) s = (s', Inr ())"
    using assms by (simp add: prune_superseded_generations_def exec_bind)
  show "only_generation n (fst ` set (items (rr_entries s)) \<union> {}) s"
    by (force simp: only_generation_def bt_contains_iff simp flip: bt_items_get)
qed

text \<open>\<open>switch_current\<close> changes \<open>current\<close> last and only on success.\<close>

lemma switch_current_ok:
  assumes "bt_get (rr_entries s1) (generation_name n) = Some (RNode candidate)"
  shows "run_ok (\<lambda>s. same_except {CURRENT_NEXT} s1 s \<or> switched (generation_name n) candidate s)
    (same_except {} s1) (switch_current n)
    (\<lambda>_ s. switched (generation_name n) candidate s \<and> same_except {CURRENT_NEXT, ''current''} s1 s)
    (\<lambda>_. same_except {CURRENT_NEXT} s1)"
  unfolding switch_current_def
proof (rule run_ok_bind [where Q = "\<lambda>_. same_except {} s1"], rule run_ok_get)
  fix x :: unit
  let ?I = "\<lambda>s. same_except {CURRENT_NEXT} s1 s \<or> switched (generation_name n) candidate s"
  let ?E = "\<lambda>_ :: runtime_error. same_except {CURRENT_NEXT} s1"
  show "run_ok ?I (same_except {} s1) (t_bind (t_get (\<lambda>root.
       case bt_get (rr_entries root) CURRENT_NEXT of
         None \<Rightarrow> Inr False
       | Some (RNode _) \<Rightarrow> Inl RInvalidDestination
       | Some (RLink _) \<Rightarrow> Inr True)) (\<lambda>stale.
     t_bind (if stale then t_modify (drop_entry CURRENT_NEXT) else t_return ()) (\<lambda>_.
     t_bind (t_modify (put_entry CURRENT_NEXT (RLink (generation_name n)))) (\<lambda>_.
     t_modify (rename_entry CURRENT_NEXT ''current'')))))
    (\<lambda>_ s. switched (generation_name n) candidate s \<and> same_except {CURRENT_NEXT, ''current''} s1 s) ?E"
    apply (rule run_ok_bind [where Q = "\<lambda>_. same_except {} s1"], rule run_ok_get)
      apply (simp, simp add: same_except_def)
    apply (rule run_ok_bind [where Q = "\<lambda>_. same_except {CURRENT_NEXT} s1"])
     apply (auto intro!: run_ok_modify run_ok_return simp: same_except_def)[1]
    apply (rule run_ok_bind [where Q = "\<lambda>_ s. same_except {CURRENT_NEXT} s1 s
        \<and> bt_get (rr_entries s) CURRENT_NEXT = Some (RLink (generation_name n))"])
     apply (rule run_ok_modify, simp)
    apply (rule run_ok_modify)
    using assms apply (auto simp: switched_def rename_entry_get same_except_def)
    done
qed (auto simp: same_except_def)

section \<open>Contracts of the steps of a commit\<close>

definition marker_absent :: "runtime_root \<Rightarrow> bool" where
  "marker_absent s \<longleftrightarrow> bt_get (rr_entries s) PENDING_MARKER = None"

definition marker_is :: "runtime_env \<Rightarrow> string \<Rightarrow> string \<Rightarrow> runtime_root \<Rightarrow> bool" where
  "marker_is env generation plan_hash s \<longleftrightarrow>
     bt_get (rr_entries s) PENDING_MARKER = Some (secret_file env (pending_payload generation plan_hash))"

definition commit_names :: "string \<Rightarrow> nat \<Rightarrow> string set" where
  "commit_names temporary n = {temporary, generation_name n, PENDING_NEXT, PENDING_MARKER, CURRENT_NEXT}"

definition published :: "string \<Rightarrow> nat \<Rightarrow> dtree \<Rightarrow> runtime_root \<Rightarrow> runtime_root \<Rightarrow> bool" where
  "published temporary n candidate s0 s \<longleftrightarrow>
     same_except (commit_names temporary n) s0 s \<and> bt_get (rr_entries s) (generation_name n) = Some (RNode candidate)"

definition in_commit :: "string \<Rightarrow> nat \<Rightarrow> dtree \<Rightarrow> runtime_root \<Rightarrow> runtime_root \<Rightarrow> bool" where
  "in_commit temporary n candidate s0 s \<longleftrightarrow>
     same_except (commit_names temporary n) s0 s \<or> switched (generation_name n) candidate s"

definition marked :: "runtime_env \<Rightarrow> nat \<Rightarrow> string \<Rightarrow> post_switch_spec option \<Rightarrow> runtime_root \<Rightarrow> bool" where
  "marked env n plan_hash actions s \<longleftrightarrow>
     (if actions = None then marker_absent s else marker_is env (generation_name n) plan_hash s)"

definition rolled_back :: "string \<Rightarrow> nat \<Rightarrow> runtime_root \<Rightarrow> runtime_root \<Rightarrow> bool" where
  "rolled_back temporary n s0 s \<longleftrightarrow> same_except (commit_names temporary n) s0 s
     \<and> \<not> bt_contains (rr_entries s) (generation_name n) \<and> marker_absent s"

lemmas commit_preds = marker_absent_def marker_is_def commit_names_def published_def in_commit_def marked_def
  rolled_back_def

lemma marker_absent_iff: "pending_marker_exists s = Inr False \<longleftrightarrow> marker_absent s"
  by (auto simp: marker_absent_def pending_marker_exists_def split: option.splits rnode.splits dtree.splits)

lemma clear_pending_ok:
  "(\<And>s. P s \<Longrightarrow> I (drop_entry PENDING_MARKER s) \<and> P (drop_entry PENDING_MARKER s)) \<Longrightarrow>
   run_ok I (\<lambda>s. P s \<and> (marker_absent s \<or> marker_is env g h s)) clear_pending (\<lambda>_ s. P s \<and> marker_absent s) E"
  unfolding run_ok_def clear_pending_def
  by (auto simp: t_bind_def t_get_def t_return_def t_modify_def pending_marker_exists_def open_root_file_def
      marker_absent_def marker_is_def secret_file_def)

lemma write_pending_ok:
  "run_ok (in_commit temporary n candidate s0) (\<lambda>s. published temporary n candidate s0 s \<and> marker_absent s)
     (write_pending env (generation_name n) plan_hash)
     (\<lambda>_ s. published temporary n candidate s0 s \<and> marker_is env (generation_name n) plan_hash s)
     (\<lambda>_ s. published temporary n candidate s0 s \<and> marker_absent s)"
  unfolding run_ok_def write_pending_def
  by (auto simp: t_bind_def t_get_def t_return_def t_modify_def commit_preds same_except_def rename_entry_def
      split: if_splits sum.splits)

lemma links_keep_in_commit [simp]:
  "in_commit temporary n candidate s0 (s\<lparr>rr_links := links\<rparr>) = in_commit temporary n candidate s0 s"
  by (simp add: in_commit_def switched_def)

lemma same_entries: "same_except {} s s' \<longleftrightarrow> bt_get (rr_entries s') = bt_get (rr_entries s)"
  by (auto simp: same_except_def fun_eq_iff)

lemma keeps_entries:
  assumes m: "\<And>s. keeps (same_except {} s) m"
    and P: "\<And>s s'. bt_get (rr_entries s') = bt_get (rr_entries s) \<Longrightarrow> P s \<Longrightarrow> P s'"
  shows "keeps P m"
proof (rule keepsI)
  fix s s'
  assume s: "P s" and "s' \<in> set (fst (m s))"
  with frame_states [OF m] have "same_except {} s s'" by blast
  with s show "P s'" using P by (simp add: same_entries)
qed

lemma commit_frames:
  assumes m: "\<And>s. keeps (same_except {} s) m"
  shows "keeps (published temporary n candidate s0) m" "keeps (rolled_back temporary n s0) m"
    "keeps (in_commit temporary n candidate s0) m" "keeps marker_absent m"
  by (rule keeps_entries [OF m]; simp add: commit_preds switched_def bt_contains_def same_except_def)+

lemmas link_frames = commit_frames [OF remove_links_frame] commit_frames [OF ensure_links_frame]

lemma run_ok_keeps_within:
  "keeps P m \<Longrightarrow> (\<And>s. P s \<Longrightarrow> I s) \<Longrightarrow> run_ok I P m (\<lambda>_. P) (\<lambda>_. P)"
  by (rule run_ok_weaken [OF run_ok_keeps])

text \<open>Undoing a publication, after a failure of the marker or of the switch.\<close>

lemma drop_destination_ok:
  "run_ok (in_commit temporary n candidate s0) (\<lambda>s. published temporary n candidate s0 s \<and> R s)
     (t_modify (drop_entry (generation_name n)))
     (\<lambda>_ s. same_except (commit_names temporary n) s0 s \<and> \<not> bt_contains (rr_entries s) (generation_name n) \<and> R s) E"
  if "\<And>s. R s \<Longrightarrow> R (drop_entry (generation_name n) s)"
  using that by (intro run_ok_modify) (auto simp: published_def in_commit_def commit_names_def bt_contains_def)

lemma remove_links_ok:
  "run_ok (in_commit temporary n candidate s0) (rolled_back temporary n s0) (remove_compatibility_symlinks env created)
     (\<lambda>_. rolled_back temporary n s0) (\<lambda>_. rolled_back temporary n s0)"
  by (rule run_ok_keeps_within [OF link_frames(2)]) (simp add: rolled_back_def in_commit_def)

lemma undo_publication_ok:
  "run_ok (in_commit temporary n candidate s0) (\<lambda>s. published temporary n candidate s0 s \<and> marker_absent s)
     (undo_publication env (generation_name n) created) (\<lambda>_. rolled_back temporary n s0) (\<lambda>_. rolled_back temporary n s0)"
  unfolding undo_publication_def
proof (rule run_ok_bind)
  show "run_ok (in_commit temporary n candidate s0) (\<lambda>s. published temporary n candidate s0 s \<and> marker_absent s)
    (t_modify (drop_entry (generation_name n))) (\<lambda>_. rolled_back temporary n s0) (\<lambda>_. rolled_back temporary n s0)"
    by (rule run_ok_weaken [OF drop_destination_ok [where R = marker_absent]])
      (auto simp: rolled_back_def marker_absent_def)
  show "run_ok (in_commit temporary n candidate s0) (rolled_back temporary n s0)
     (t_ignore (remove_compatibility_symlinks env created)) (\<lambda>_. rolled_back temporary n s0) (\<lambda>_. rolled_back temporary n s0)"
    by (rule run_ok_ignore [OF remove_links_ok])
qed

lemma cleanup_switch_ok:
  "run_ok (in_commit temporary n candidate s0) (\<lambda>s. published temporary n candidate s0 s \<and> marked env n plan_hash actions s)
     (t_bind (t_modify (drop_entry (generation_name n))) (\<lambda>_.
      t_bind (t_ignore clear_pending) (\<lambda>_. t_ignore (remove_compatibility_symlinks env created))))
     (\<lambda>_. rolled_back temporary n s0) (\<lambda>_. rolled_back temporary n s0)"
proof (rule run_ok_bind, rule drop_destination_ok)
  fix u :: unit
  let ?P = "\<lambda>s. same_except (commit_names temporary n) s0 s \<and> \<not> bt_contains (rr_entries s) (generation_name n)"
  have "run_ok (in_commit temporary n candidate s0)
    (\<lambda>s. ?P s \<and> (marker_absent s \<or> marker_is env (generation_name n) plan_hash s))
    clear_pending (\<lambda>_ s. ?P s \<and> marker_absent s) (\<lambda>_ s. ?P s \<and> marker_absent s)"
    by (rule clear_pending_ok) (simp add: in_commit_def commit_names_def bt_contains_def)
  then have "run_ok (in_commit temporary n candidate s0)
    (\<lambda>s. same_except (commit_names temporary n) s0 s \<and> \<not> bt_contains (rr_entries s) (generation_name n)
      \<and> marked env n plan_hash actions s)
    clear_pending (\<lambda>_. rolled_back temporary n s0) (\<lambda>_. rolled_back temporary n s0)"
    by (rule run_ok_weaken) (auto simp: rolled_back_def marked_def split: if_splits)
  then show "run_ok (in_commit temporary n candidate s0)
    (\<lambda>s. same_except (commit_names temporary n) s0 s \<and> \<not> bt_contains (rr_entries s) (generation_name n)
      \<and> marked env n plan_hash actions s)
    (t_bind (t_ignore clear_pending) (\<lambda>_. t_ignore (remove_compatibility_symlinks env created)))
    (\<lambda>_. rolled_back temporary n s0) (\<lambda>_. rolled_back temporary n s0)"
    by (rule run_ok_bind [OF run_ok_ignore]) (rule run_ok_ignore [OF remove_links_ok])
qed (simp add: marked_def marker_absent_def marker_is_def split: if_splits)

lemma switch_ok:
  "run_ok (in_commit temporary n candidate s0) (\<lambda>s. published temporary n candidate s0 s \<and> marked env n plan_hash actions s)
     (switch_current n)
     (\<lambda>_ s. switched (generation_name n) candidate s \<and> marked env n plan_hash actions s)
     (\<lambda>_ s. published temporary n candidate s0 s \<and> marked env n plan_hash actions s)"
proof (rule run_ok_point)
  fix s1
  assume s1: "published temporary n candidate s0 s1 \<and> marked env n plan_hash actions s1"
  then have c: "bt_get (rr_entries s1) (generation_name n) = Some (RNode candidate)" by (simp add: published_def)
  have pub: "published temporary n candidate s0 s" if "same_except {CURRENT_NEXT} s1 s" for s
    using s1 that by (auto simp: published_def same_except_def commit_names_def)
  have mark: "marked env n plan_hash actions s" if "same_except {CURRENT_NEXT, ''current''} s1 s" for s
    using s1 that by (auto simp: marked_def marker_absent_def marker_is_def same_except_def)
  show "run_ok (in_commit temporary n candidate s0) (\<lambda>t. t = s1) (switch_current n)
     (\<lambda>_ s. switched (generation_name n) candidate s \<and> marked env n plan_hash actions s)
     (\<lambda>_ s. published temporary n candidate s0 s \<and> marked env n plan_hash actions s)"
    by (rule run_ok_weaken [OF switch_current_ok [OF c]])
      (use pub mark in \<open>auto simp: in_commit_def published_def dest: same_except_mono\<close>)
qed

definition post_failed :: "runtime_env \<Rightarrow> post_switch_spec option \<Rightarrow> runtime_error \<Rightarrow> bool" where
  "post_failed env actions e \<longleftrightarrow> (\<exists>a. actions = Some a \<and> run_post_switch env a = Inl e)"

lemma post_switch_ok:
  "run_ok (in_commit temporary n candidate s0)
     (\<lambda>s. switched (generation_name n) candidate s \<and> marked env n plan_hash actions s)
     (case actions of None \<Rightarrow> t_return ()
       | Some a \<Rightarrow> t_bind (t_get (\<lambda>_. run_post_switch env a)) (\<lambda>_. clear_pending))
     (\<lambda>_ s. switched (generation_name n) candidate s \<and> marker_absent s)
     (\<lambda>e s. switched (generation_name n) candidate s \<and> marked env n plan_hash actions s \<and> post_failed env actions e)"
proof (cases actions)
  case (Some a)
  show ?thesis
    unfolding Some option.case
  proof (rule run_ok_bind [where Q = "\<lambda>_ s. switched (generation_name n) candidate s
      \<and> (marker_absent s \<or> marker_is env (generation_name n) plan_hash s)"], rule run_ok_get)
    show "run_ok (in_commit temporary n candidate s0)
      (\<lambda>s. switched (generation_name n) candidate s \<and> (marker_absent s \<or> marker_is env (generation_name n) plan_hash s))
      clear_pending (\<lambda>_ s. switched (generation_name n) candidate s \<and> marker_absent s)
      (\<lambda>e s. switched (generation_name n) candidate s \<and> marked env n plan_hash (Some a) s \<and> post_failed env (Some a) e)"
      by (rule clear_pending_ok) (simp add: switched_def in_commit_def)
  qed (auto simp: marked_def post_failed_def)
qed (auto intro!: run_ok_return simp: marked_def)

lemma prune_ok:
  assumes n: "n < 2 ^ 64"
  shows "run_ok (in_commit temporary n candidate s0) (\<lambda>s. switched (generation_name n) candidate s \<and> marker_absent s)
     (prune_superseded_generations n)
     (\<lambda>_ s. switched (generation_name n) candidate s \<and> marker_absent s \<and> only_generation n {} s)
     (\<lambda>_ s. switched (generation_name n) candidate s \<and> marker_absent s)"
proof -
  let ?P = "\<lambda>s. switched (generation_name n) candidate s \<and> marker_absent s"
  have "keeps ?P (prune_superseded_generations n)"
  proof (rule keepsI)
    fix s s'
    assume s: "?P s" and "s' \<in> set (fst (prune_superseded_generations n s))"
    then have "same_except (superseded n) s s'" using frame_states [OF prune_frame] by blast
    with s n show "?P s'" by (simp add: switched_def marker_absent_def same_except_def)
  qed
  then have "run_ok (in_commit temporary n candidate s0) ?P (prune_superseded_generations n) (\<lambda>_. ?P) (\<lambda>_. ?P)"
    by (rule run_ok_keeps_within) (simp add: in_commit_def)
  moreover have "only_generation n {} (final_state s tr)" if "prune_superseded_generations n s = (tr, Inr u)" for s tr u
    using that by (intro prune_only [of n s]) (simp add: exec_def)
  ultimately show ?thesis by (fastforce simp: run_ok_def split: sum.splits)
qed

section \<open>The whole commit\<close>

definition chosen_generation :: "nat option \<Rightarrow> runtime_root \<Rightarrow> runtime_error + nat" where
  "chosen_generation generation root = (case generation of Some n \<Rightarrow> Inr n | None \<Rightarrow> next_generation root)"

definition commit_failed ::
  "runtime_env \<Rightarrow> string \<Rightarrow> nat \<Rightarrow> string \<Rightarrow> post_switch_spec option \<Rightarrow> dtree \<Rightarrow> runtime_root \<Rightarrow> runtime_error \<Rightarrow> runtime_root \<Rightarrow> bool" where
  "commit_failed env temporary n plan_hash actions candidate s0 e s \<longleftrightarrow>
     same_except {} s0 s \<or> rolled_back temporary n s0 s
     \<or> switched (generation_name n) candidate s
       \<and> (marker_absent s \<or> marked env n plan_hash actions s \<and> post_failed env actions e)"

lemma links_ok:
  assumes "keeps (same_except {} s0) m"
  shows "run_ok (in_commit temporary n candidate s0) (same_except {} s0) m
    (\<lambda>_. same_except {} s0) (commit_failed env temporary n plan_hash actions candidate s0)"
  by (rule run_ok_weaken [OF run_ok_keeps [OF assms]])
    (auto simp: in_commit_def commit_failed_def elim: same_except_mono)

lemma publish_ok:
  assumes staged: "staged temporary candidate s0" and free: "\<not> bt_contains (rr_entries s0) (generation_name n)"
    and unmarked: "marker_absent s0" and n: "n < 2 ^ 64"
  shows "run_ok (in_commit temporary n candidate s0) (same_except {} s0)
    (t_bind (t_modify (rename_entry temporary (generation_name n))) (\<lambda>_.
     t_bind (t_on_error (case actions of Some _ \<Rightarrow> write_pending env (generation_name n) plan_hash | None \<Rightarrow> clear_pending)
         (undo_publication env (generation_name n) created)) (\<lambda>_.
     t_bind (t_on_error (switch_current n)
         (t_bind (t_modify (drop_entry (generation_name n))) (\<lambda>_.
          t_bind (t_ignore clear_pending) (\<lambda>_.
          t_ignore (remove_compatibility_symlinks env created))))) (\<lambda>_.
     t_bind (case actions of
         None \<Rightarrow> t_return ()
       | Some a \<Rightarrow> t_bind (t_get (\<lambda>_. run_post_switch env a)) (\<lambda>_. clear_pending)) (\<lambda>_.
     t_bind (prune_superseded_generations n) (\<lambda>_.
     t_return (generation_name n)))))))
    (\<lambda>r s. r = generation_name n \<and> switched (generation_name n) candidate s \<and> marker_absent s \<and> only_generation n {} s)
    (commit_failed env temporary n plan_hash actions candidate s0)"
    (is "run_ok ?I _ _ ?Q ?E")
proof -
  let ?pub = "published temporary n candidate s0" and ?sw = "switched (generation_name n) candidate"
    and ?marked = "marked env n plan_hash actions" and ?rb = "rolled_back temporary n s0"
  have rename: "run_ok ?I (same_except {} s0) (t_modify (rename_entry temporary (generation_name n)))
      (\<lambda>_ s. ?pub s \<and> marker_absent s) ?E"
    by (rule run_ok_modify)
      (use staged unmarked in \<open>auto simp: staged_def same_entries published_def in_commit_def marker_absent_def
         rename_entry_get commit_names_def same_except_def\<close>)
  have mark: "run_ok ?I (\<lambda>s. ?pub s \<and> marker_absent s)
      (case actions of Some _ \<Rightarrow> write_pending env (generation_name n) plan_hash | None \<Rightarrow> clear_pending)
      (\<lambda>_ s. ?pub s \<and> ?marked s) (\<lambda>_ s. ?pub s \<and> marker_absent s)"
  proof (cases actions)
    case None
    have "run_ok ?I (\<lambda>s. ?pub s \<and> (marker_absent s \<or> marker_is env g h s)) clear_pending (\<lambda>_ s. ?pub s \<and> marker_absent s)
        (\<lambda>_ s. ?pub s \<and> marker_absent s)" for g h
      by (rule clear_pending_ok) (simp add: published_def in_commit_def commit_names_def)
    then have "run_ok ?I (\<lambda>s. ?pub s \<and> marker_absent s) clear_pending (\<lambda>_ s. ?pub s \<and> marker_absent s)
        (\<lambda>_ s. ?pub s \<and> marker_absent s)"
      by (rule run_ok_weaken) auto
    then show ?thesis by (simp add: None marked_def)
  next
    case (Some a)
    then show ?thesis using write_pending_ok by (simp add: marked_def)
  qed
  show ?thesis
    apply (rule run_ok_bind [OF rename], rule run_ok_bind)
     apply (rule run_ok_on_error [OF mark], rule run_ok_weaken [OF undo_publication_ok])
        apply (assumption | simp add: commit_failed_def)+
    apply (rule run_ok_bind, rule run_ok_on_error [OF switch_ok], rule run_ok_weaken [OF cleanup_switch_ok])
        apply (assumption | simp add: commit_failed_def)+
    apply (rule run_ok_bind, rule run_ok_weaken [OF post_switch_ok])
        apply (assumption | simp add: commit_failed_def)+
    apply (rule run_ok_bind, rule run_ok_weaken [OF prune_ok [OF n]])
        apply (assumption | simp add: commit_failed_def)+
    by (rule run_ok_return) simp
qed

lemma commit_ok:
  assumes staged: "staged temporary candidate s0" and number: "chosen_generation generation s0 = Inr n"
    and n: "n < 2 ^ 64" and free: "\<not> bt_contains (rr_entries s0) (generation_name n)"
  shows "run_ok (in_commit temporary n candidate s0) (\<lambda>s. s = s0)
    (commit_and_switch_optional env temporary generation plan_hash actions compatibility)
    (\<lambda>r s. r = generation_name n \<and> switched (generation_name n) candidate s \<and> marker_absent s \<and> only_generation n {} s)
    (commit_failed env temporary n plan_hash actions candidate s0)" (is "run_ok ?I _ ?m ?Q ?E")
proof -
  have E: "?E e s" if "same_except {} s0 s" for e s using that by (simp add: commit_failed_def)
  consider (absent) "marker_absent s0" | (present) "pending_marker_exists s0 = Inr True"
    | (error) e where "pending_marker_exists s0 = Inl e"
    using marker_absent_iff [of s0] by (metis (full_types) obj_sumE)
  then show ?thesis
  proof cases
    case absent
    note tail = publish_ok [OF staged free absent n]
    show ?thesis
      unfolding commit_and_switch_optional_def Let_def
      apply (rule run_ok_bind_value [where v = False and Q = "\<lambda>s. s = s0"], rule run_ok_get)
        apply (use absent in \<open>auto simp: E simp flip: marker_absent_iff\<close>)[2]
      apply (simp only: if_False simp_thms)
      apply (rule run_ok_bind_value [where v = n and Q = "\<lambda>s. s = s0"], rule run_ok_get)
        apply (use number in \<open>auto simp: chosen_generation_def E\<close>)[2]
      apply (rule run_ok_bind [where Q = "\<lambda>_. same_except {} s0"], rule run_ok_weaken [OF links_ok, of s0])
           apply (auto simp: ensure_compatibility_symlinks_def intro: keeps_intros)[5]
      apply (rule run_ok_bind, rule links_ok, intro keeps_intros)
      apply (rule run_ok_bind_value [where v = False and Q = "same_except {} s0"], rule run_ok_get)
        apply (use free in \<open>auto simp: same_entries bt_contains_def\<close>)[2]
      apply (simp only: if_False)
      apply (rule tail)
      done
  next
    case present
    then show ?thesis
      by (auto simp: commit_and_switch_optional_def run_ok_def t_bind_def t_get_def t_fail_def E)
  next
    case error
    then show ?thesis
      by (auto simp: commit_and_switch_optional_def run_ok_def t_bind_def t_get_def t_fail_def E)
  qed
qed

text \<open>A commit that cannot get its directory changes nothing.\<close>

lemma commit_unready:
  assumes "\<And>n. chosen_generation generation s0 = Inr n \<Longrightarrow> bt_contains (rr_entries s0) (generation_name n)"
  shows "run_ok (same_except {} s0) (\<lambda>s. s = s0)
    (commit_and_switch_optional env temporary generation plan_hash actions compatibility)
    (\<lambda>_ _. False) (\<lambda>_. same_except {} s0)"
proof (cases "chosen_generation generation s0")
  case (Inl e)
  show ?thesis
    unfolding commit_and_switch_optional_def
    apply (rule run_ok_bind [where Q = "\<lambda>_ s. s = s0"], rule run_ok_get, simp, simp)
    apply (split if_split, intro conjI impI, rule run_ok_fail, simp)
    apply (rule run_ok_bind [where Q = "\<lambda>_ _. False"], rule run_ok_get)
      apply (use Inl in \<open>auto simp: chosen_generation_def run_ok_def split: sum.splits\<close>)
    done
next
  case (Inr n)
  then have occupied: "bt_contains (rr_entries s0) (generation_name n)" by (rule assms)
  have keep: "run_ok (same_except {} s0) (same_except {} s0) m (\<lambda>_. same_except {} s0) (\<lambda>_. same_except {} s0)"
    if "keeps (same_except {} s0) m" for m :: "'b root_op" using run_ok_keeps [OF that] .
  show ?thesis
    unfolding commit_and_switch_optional_def Let_def
    apply (rule run_ok_bind [where Q = "\<lambda>_ s. s = s0"], rule run_ok_get, simp, simp)
    apply (split if_split, intro conjI impI, rule run_ok_fail, simp)
    apply (rule run_ok_bind_value [where v = n and Q = "same_except {} s0"], rule run_ok_get)
      apply (use Inr in \<open>auto simp: chosen_generation_def\<close>)[2]
    apply (rule run_ok_bind [OF run_ok_keeps], simp add: ensure_compatibility_symlinks_def keeps_intros)
    apply (rule run_ok_bind [OF run_ok_keeps], intro keeps_intros)
    apply (rule run_ok_bind_value [where v = True and Q = "same_except {} s0"], rule run_ok_get)
      apply (use occupied in \<open>auto simp: same_entries bt_contains_def\<close>)[2]
    apply (simp only: if_True)
    apply (rule run_ok_bind [OF run_ok_keeps], intro keeps_intros)
    apply (rule run_ok_fail, simp)
    done
qed

lemma chosen_generation_bound:
  "chosen_generation (map_option unat (g :: 64 word option)) s = Inr n \<Longrightarrow> n < 2 ^ 64"
  using unsigned_less [of "the g"]
  by (auto simp: chosen_generation_def next_generation_def split: option.splits if_splits)

text \<open>A reader of \<open>current\<close> sees the old generation or the new one.\<close>

lemma staged_disjoint:
  assumes "staged temporary candidate s0" "\<not> bt_contains (rr_entries s0) (generation_name n)"
  shows "commit_names temporary n \<inter> current_names s0 = {}"
proof (rule ccontr)
  assume "commit_names temporary n \<inter> current_names s0 \<noteq> {}"
  then obtain t where t: "t \<in> commit_names temporary n" "t \<in> current_names s0" by blast
  with assms(1) have "t \<noteq> ''current''" by (auto simp: commit_names_def staged_def)
  with current_names_ok [OF _ t(2)] assms t(1) show False
    by (auto simp: commit_names_def staged_def)
qed

lemma commit_failed_in:
  "commit_failed env temporary n plan_hash actions candidate s0 e s \<Longrightarrow> in_commit temporary n candidate s0 s"
  by (auto simp: commit_failed_def in_commit_def rolled_back_def dest: same_except_mono)

lemma in_commit_active:
  assumes "staged temporary candidate s0" "\<not> bt_contains (rr_entries s0) (generation_name n)"
    and "in_commit temporary n candidate s0 s"
  shows "active s = active s0 \<or> active s = Some candidate"
  using assms(3) unfolding in_commit_def
proof
  assume "same_except (commit_names temporary n) s0 s"
  with active_same [OF _ staged_disjoint [OF assms(1,2)]] show ?thesis by blast
next
  assume "switched (generation_name n) candidate s"
  with assms(1) show ?thesis by (auto simp: staged_def active_switched)
qed

lemma commit_failed_cases:
  assumes "commit_failed env temporary n plan_hash actions candidate s0 e s"
    and "staged temporary candidate s0" "\<not> bt_contains (rr_entries s0) (generation_name n)"
  shows "active s = active s0 \<and> (marker_absent s
      \<or> bt_get (rr_entries s) PENDING_MARKER = bt_get (rr_entries s0) PENDING_MARKER)
    \<or> active s = Some candidate \<and> (marker_absent s
      \<or> marker_is env (generation_name n) plan_hash s \<and> post_failed env actions e)"
proof -
  from assms(2) obtain es where es: "candidate = DDir es" by (auto simp: staged_def)
  from assms(1) consider (same) "same_except {} s0 s" | (undone) "rolled_back temporary n s0 s"
    | (late) "switched (generation_name n) candidate s"
        "marker_absent s \<or> marked env n plan_hash actions s \<and> post_failed env actions e"
    by (auto simp: commit_failed_def)
  then show ?thesis
  proof cases
    case same
    from active_same [OF same] have "active s = active s0" by simp
    with same show ?thesis by (simp add: same_entries)
  next
    case undone
    then have "same_except (commit_names temporary n) s0 s" "marker_absent s" by (auto simp: rolled_back_def)
    with active_same [OF this(1) staged_disjoint [OF assms(2,3)]] show ?thesis by blast
  next
    case late
    with es show ?thesis by (auto simp: active_switched marked_def post_failed_def)
  qed
qed

end
