(* ===== verification/Age.thy ===== *)
theory Age
  imports Crypto Readers Approval_Signing
begin

text \<open>
  The streaming operations of \<open>crates/nix-seal-crypto/src/lib.rs\<close>: encryption, decryption
  and rekeying around the \<open>age\<close> crate, the bounded reader and the structural check of
  the age header, and the protocol with the isolated plugin worker.

  The \<open>age\<close> crate is a record of functions. An operation gives the bytes it has written
  when it succeeds; what it wrote before an error is not part of the result. The error of the
  underlying reader or writer is not modelled.
\<close>

section \<open>Limits\<close>

definition MAX_SECRET_BYTES :: nat where
  "MAX_SECRET_BYTES = 64 * 1024 * 1024"

definition MAX_IDENTITY_FILE_BYTES :: nat where
  "MAX_IDENTITY_FILE_BYTES = 1024 * 1024"

definition MAX_AGE_HEADER_BYTES :: nat where
  "MAX_AGE_HEADER_BYTES = 1024 * 1024"

definition MAX_PLUGIN_FIELD_BYTES :: nat where
  "MAX_PLUGIN_FIELD_BYTES = 64 * 1024"

definition MAX_PLUGIN_RECIPIENTS :: nat where
  "MAX_PLUGIN_RECIPIENTS = 256"

definition MAX_PLUGIN_CIPHERTEXT_BYTES :: nat where
  "MAX_PLUGIN_CIPHERTEXT_BYTES = MAX_SECRET_BYTES + 2 * 1024 * 1024"

definition PLUGIN_WORKER_MAGIC :: bytes where
  "PLUGIN_WORKER_MAGIC = ''nix-seal-age-plugin-worker-v1'' @ [CHR 0x0A]"

section \<open>The age crate\<close>

datatype age_recipient = NativeRecipient string | PluginRecipient string | SshRecipient string

datatype age_identity = NativeIdentity string | PluginIdentity string | SshIdentity string | ScryptIdentity string

record age_engine =
  ae_plugin_ready :: "string \<Rightarrow> bool"
  ae_header_ok :: "bytes \<Rightarrow> bool"
  ae_is_scrypt :: "bytes \<Rightarrow> bool"
  ae_open :: "age_identity \<Rightarrow> bytes \<Rightarrow> (bytes \<times> bool) option"
  ae_recipients_ok :: "age_recipient list \<Rightarrow> bool"
  ae_seal :: "nat \<Rightarrow> age_recipient list \<Rightarrow> bytes \<Rightarrow> bytes"
  ae_seal_passphrase :: "nat \<Rightarrow> string \<Rightarrow> bytes \<Rightarrow> bytes"

text \<open>
  \<open>ae_plugin_ready\<close>: the binary of the plugin with that name can be started
  (\<open>RecipientPluginV1::new\<close>, \<open>IdentityPluginV1::new\<close>); \<open>ae_header_ok\<close>:
  \<open>Decryptor::new\<close> accepts the ciphertext; \<open>ae_open\<close>: \<open>Decryptor::decrypt\<close>
  with one identity, the plaintext its reader gives and whether the reader ends without an
  error; \<open>ae_recipients_ok\<close>: \<open>Encryptor::with_recipients\<close> and
  \<open>wrap_output\<close> succeed; \<open>ae_seal\<close>: the ciphertext, from the random choices, the
  recipients and the plaintext.
\<close>

section \<open>The age header\<close>

definition newline_end :: "bytes \<Rightarrow> nat option" where
  "newline_end bs = map_option Suc (List.find (\<lambda>i. bs ! i = CHR 0x0A) [0..<length bs])"

lemma newline_end_positive: "newline_end bs = Some n \<Longrightarrow> 0 < n"
  by (auto simp: newline_end_def)

lemma header_progress:
  assumes "available \<noteq> []" "0 < readable"
    and "consumed = (case newline_end (take readable available) of None \<Rightarrow> readable | Some n \<Rightarrow> n)"
  shows "length (concat (if drop consumed available = [] then pieces else drop consumed available # pieces))
    < length (concat (available # pieces))"
proof -
  have "0 < consumed" using assms by (auto dest: newline_end_positive split: option.splits)
  with assms(1) show ?thesis by (cases available) auto
qed

text \<open>The pieces are what \<open>fill_buf\<close> makes available.\<close>

function read_header_loop :: "bytes list \<Rightarrow> bytes \<Rightarrow> nat \<Rightarrow> crypto_error + bytes \<times> bytes list" where
  "read_header_loop [] header line_start = Inl CryptoDecrypt"
| "read_header_loop (available # pieces) header line_start =
     (if available = [] \<or> length header = MAX_AGE_HEADER_BYTES then Inl CryptoDecrypt
      else if MAX_AGE_HEADER_BYTES < length header then Inl CryptoInputTooLarge
      else
        (let readable = min (length available) (MAX_AGE_HEADER_BYTES - length header);
             consumed = (case newline_end (take readable available) of None \<Rightarrow> readable | Some n \<Rightarrow> n);
             completed_line = consumed \<le> readable \<and> available ! (consumed - 1) = CHR 0x0A;
             header' = header @ take consumed available;
             rest = (if drop consumed available = [] then pieces else drop consumed available # pieces) in
         if \<not> completed_line then read_header_loop rest header' line_start
         else if starts_with (drop line_start header') ''--- '' then Inr (header', rest)
         else read_header_loop rest header' (length header')))"
  by pat_completeness auto
termination
proof (relation "measure (\<lambda>(pieces, _, _). length (concat pieces))", goal_cases)
  case (2 available pieces header line_start readable consumed completed_line header' rest)
  then show ?case using header_progress [of available readable consumed pieces] by simp
next
  case (3 available pieces header line_start readable consumed completed_line header' rest)
  then show ?case using header_progress [of available readable consumed pieces] by simp
qed simp

declare read_header_loop.simps [simp del]

definition read_age_header :: "bytes list \<Rightarrow> crypto_error + bytes \<times> bytes list" where
  "read_age_header pieces = read_header_loop pieces [] 0"

text \<open>\<open>slice::split_inclusive\<close> on a newline.\<close>

fun split_lines :: "bytes \<Rightarrow> bytes list" where
  "split_lines [] = []"
| "split_lines (c # cs) =
     (if c = CHR 0x0A then [c] # split_lines cs
      else case split_lines cs of [] \<Rightarrow> [[c]] | l # ls \<Rightarrow> (c # l) # ls)"

definition strip_newline :: "bytes \<Rightarrow> bytes" where
  "strip_newline line = (if line \<noteq> [] \<and> last line = CHR 0x0A then butlast line else line)"

definition valid_fields :: "bytes list \<Rightarrow> bool" where
  "valid_fields words =
     (case words of
        [] \<Rightarrow> False
      | f # _ \<Rightarrow>
          if f = ''X25519'' then length words = 2
          else if f = ''ssh-ed25519'' then length words = 3
          else True)"

record header_state =
  hs_stanza_count :: "16 word"
  hs_expects_body :: bool
  hs_long_body :: bool
  hs_grease :: bool

definition in_body :: "header_state \<Rightarrow> bytes \<Rightarrow> bool" where
  "in_body st line \<longleftrightarrow> hs_expects_body st
     \<and> \<not> (hs_grease st \<and> (starts_with line ''-> '' \<or> starts_with line ''--- ''))"

fun validate_header_lines :: "header_state \<Rightarrow> bytes list \<Rightarrow> crypto_error + unit" where
  "validate_header_lines st [] = Inl CryptoDecrypt"
| "validate_header_lines st (raw_line # lines) =
     (let line = strip_newline raw_line in
      if in_body st line
      then
        (if starts_with line ''->'' \<or> starts_with line ''---'' \<or> 64 < length line
            \<or> \<not> hs_long_body st \<and> length line = 64
         then Inl CryptoDecrypt
         else if hs_long_body st \<and> length line = 64 then validate_header_lines st lines
         else validate_header_lines (st\<lparr>hs_expects_body := False\<rparr>) lines)
      else case strip_prefix line ''-> '' of
        Some stanza \<Rightarrow>
          (let words = split_on (CHR '' '') stanza in
           if \<not> valid_fields words \<or> [] \<in> set words then Inl CryptoDecrypt
           else
             and_then (ok_or (checked_add (hs_stanza_count st) 1) CryptoInputTooLarge) (\<lambda>count.
             validate_header_lines \<lparr>hs_stanza_count = count, hs_expects_body = True,
               hs_long_body = hd words \<noteq> ''X25519'' \<and> hd words \<noteq> ''ssh-ed25519'',
               hs_grease = ends_with (hd words) ''-grease''\<rparr> lines))
      | None \<Rightarrow>
          if starts_with line ''--- '' \<and> 0 < hs_stanza_count st then Inr () else Inl CryptoDecrypt)"

definition AGE_VERSION_LINE :: bytes where
  "AGE_VERSION_LINE = ''age-encryption.org/v1'' @ [CHR 0x0A]"

definition validate_age_header_structure :: "bytes \<Rightarrow> crypto_error + unit" where
  "validate_age_header_structure ciphertext =
     (case split_lines ciphertext of
        [] \<Rightarrow> Inl CryptoDecrypt
      | first # lines \<Rightarrow>
          if first \<noteq> AGE_VERSION_LINE then Inl CryptoDecrypt
          else validate_header_lines
            \<lparr>hs_stanza_count = 0, hs_expects_body = False, hs_long_body = False, hs_grease = False\<rparr> lines)"

text \<open>The header read and checked, followed by the rest of the input.\<close>

definition prepare_ciphertext :: "bytes list \<Rightarrow> bool \<Rightarrow> crypto_error + bytes" where
  "prepare_ciphertext input allow_legacy_ssh_rsa_stanzas =
     and_then (read_age_header input) (\<lambda>(header, reader).
     and_then (validate_age_header_structure header) (\<lambda>_.
     and_then (check (\<not> (\<not> allow_legacy_ssh_rsa_stanzas
         \<and> (\<exists>line \<in> set (split_lines header). starts_with line ''-> ssh-rsa ''))) CryptoDecrypt) (\<lambda>_.
     Inr (header @ concat reader))))"

definition validate_ciphertext_header :: "age_engine \<Rightarrow> bytes list \<Rightarrow> crypto_error + unit" where
  "validate_ciphertext_header age input =
     and_then (prepare_ciphertext input True) (\<lambda>ciphertext.
     check (ae_header_ok age ciphertext) CryptoDecrypt)"

section \<open>Reading the header in pieces\<close>

text \<open>The same on the whole input: the lines up to the first one that starts with \<open>--- \<close>.\<close>

fun age_header_from :: "bytes \<Rightarrow> bytes \<Rightarrow> (bytes \<times> bytes) option" where
  "age_header_from line [] = None"
| "age_header_from line (c # cs) =
     (if c \<noteq> CHR 0x0A then map_option (apfst ((#) c)) (age_header_from (line @ [c]) cs)
      else if starts_with (line @ [c]) ''--- '' then Some ([c], cs)
      else map_option (apfst ((#) c)) (age_header_from [] cs))"

definition age_header :: "bytes \<Rightarrow> (bytes \<times> bytes) option" where
  "age_header input = age_header_from [] input"

lemma age_header_from_split: "age_header_from line input = Some (h, r) \<Longrightarrow> input = h @ r \<and> h \<noteq> []"
  by (induction line input arbitrary: h rule: age_header_from.induct) (auto split: if_splits)

lemma age_header_from_plain:
  "CHR 0x0A \<notin> set xs \<Longrightarrow>
   age_header_from line (xs @ ys) = map_option (apfst ((@) xs)) (age_header_from (line @ xs) ys)"
proof (induction xs arbitrary: line)
  case Nil
  show ?case by (cases "age_header_from line ys") auto
next
  case (Cons c cs)
  then show ?case by (cases "age_header_from (line @ c # cs) ys") auto
qed

lemma age_header_from_line:
  "CHR 0x0A \<notin> set xs \<Longrightarrow>
   age_header_from line (xs @ CHR 0x0A # ys) =
     (if starts_with (line @ xs @ [CHR 0x0A]) ''--- '' then Some (xs @ [CHR 0x0A], ys)
      else map_option (apfst ((@) (xs @ [CHR 0x0A]))) (age_header_from [] ys))"
  by (cases "age_header_from [] ys") (auto simp: age_header_from_plain)

lemma newline_end_cases:
  "newline_end bs = None \<Longrightarrow> CHR 0x0A \<notin> set bs"
  "newline_end bs = Some n \<Longrightarrow> n \<le> length bs \<and> (\<exists>xs. take n bs = xs @ [CHR 0x0A] \<and> CHR 0x0A \<notin> set xs)"
proof -
  assume "newline_end bs = None"
  then have "\<forall>i < length bs. bs ! i \<noteq> CHR 0x0A" by (auto simp: newline_end_def find_None_iff)
  then show "CHR 0x0A \<notin> set bs" by (auto simp: in_set_conv_nth)
next
  assume "newline_end bs = Some n"
  then obtain i where n: "n = Suc i" "List.find (\<lambda>i. bs ! i = CHR 0x0A) [0..<length bs] = Some i"
    by (auto simp: newline_end_def)
  then have i: "i < length bs" "bs ! i = CHR 0x0A" "\<forall>j < i. bs ! j \<noteq> CHR 0x0A"
    by (auto simp: find_Some_iff)
  then have "take n bs = take i bs @ [CHR 0x0A]" "CHR 0x0A \<notin> set (take i bs)"
    by (auto simp: n(1) take_Suc_conv_app_nth in_set_conv_nth)
  then show "n \<le> length bs \<and> (\<exists>xs. take n bs = xs @ [CHR 0x0A] \<and> CHR 0x0A \<notin> set xs)"
    using i(1) n(1) by auto
qed

definition flat_header :: "crypto_error + bytes \<times> bytes list \<Rightarrow> crypto_error + bytes \<times> bytes" where
  "flat_header r = (case r of Inl e \<Rightarrow> Inl e | Inr (h, pieces) \<Rightarrow> Inr (h, concat pieces))"

definition bounded_header :: "bytes \<Rightarrow> (bytes \<times> bytes) option \<Rightarrow> crypto_error + bytes \<times> bytes" where
  "bounded_header header found =
     (case found of
        Some (h, r) \<Rightarrow> if length header + length h \<le> MAX_AGE_HEADER_BYTES then Inr (header @ h, r) else Inl CryptoDecrypt
      | None \<Rightarrow> Inl CryptoDecrypt)"

lemma bounded_header_prepend:
  "bounded_header header (map_option (apfst ((@) xs)) found) = bounded_header (header @ xs) found"
  by (cases found) (auto simp: bounded_header_def)

lemma bounded_header_full:
  "MAX_AGE_HEADER_BYTES \<le> length header \<Longrightarrow> bounded_header header (age_header_from line input) = Inl CryptoDecrypt"
  using age_header_from_split [of line input]
  by (cases "age_header_from line input") (auto simp: bounded_header_def simp flip: length_greater_0_conv)

lemma read_header_loop_flat:
  "[] \<notin> set pieces \<Longrightarrow> length header \<le> MAX_AGE_HEADER_BYTES \<Longrightarrow> line_start \<le> length header \<Longrightarrow>
   flat_header (read_header_loop pieces header line_start) =
     bounded_header header (age_header_from (drop line_start header) (concat pieces))"
proof (induction pieces header line_start rule: read_header_loop.induct)
  case (1 header line_start)
  show ?case by (simp add: read_header_loop.simps flat_header_def bounded_header_def)
next
  case (2 available pieces header line_start)
  show ?case
  proof (cases "length header = MAX_AGE_HEADER_BYTES")
    case True
    with bounded_header_full [of header] show ?thesis
      by (simp add: read_header_loop.simps flat_header_def)
  next
    case False
    with "2.prems" have h: "length header < MAX_AGE_HEADER_BYTES" and a: "available \<noteq> []" by auto
    define readable where "readable = min (length available) (MAX_AGE_HEADER_BYTES - length header)"
    define consumed where "consumed = (case newline_end (take readable available) of None \<Rightarrow> readable | Some n \<Rightarrow> n)"
    define header' where "header' = header @ take consumed available"
    define rest where "rest = (if drop consumed available = [] then pieces else drop consumed available # pieces)"
    define completed where "completed \<longleftrightarrow> consumed \<le> readable \<and> available ! (consumed - 1) = CHR 0x0A"
    have step: "read_header_loop (available # pieces) header line_start =
        (if \<not> completed then read_header_loop rest header' line_start
         else if starts_with (drop line_start header') ''--- '' then Inr (header', rest)
         else read_header_loop rest header' (length header'))"
      using h a False unfolding read_header_loop.simps completed_def header'_def rest_def consumed_def readable_def Let_def
      by simp
    have r: "0 < readable" "readable \<le> length available" "length header + readable \<le> MAX_AGE_HEADER_BYTES"
      using h a by (auto simp: readable_def)
    have nonempty: "[] \<notin> set rest" using "2.prems"(1) by (simp add: rest_def)
    have flat: "concat (available # pieces) = take consumed available @ concat rest"
      by (simp add: rest_def flip: append_assoc)
    note IH = "2.IH" [OF _ _ readable_def consumed_def completed_def header'_def rest_def]
    show ?thesis
    proof (cases "newline_end (take readable available)")
      case None
      then have c: "consumed = readable" by (simp add: consumed_def)
      from newline_end_cases(1) [OF None] have plain: "CHR 0x0A \<notin> set (take consumed available)" by (simp add: c)
      have "available ! (consumed - 1) \<in> set (take consumed available)"
        using r by (auto simp: c in_set_conv_nth intro!: exI [of _ "readable - 1"])
      with plain have "\<not> completed" by (auto simp: completed_def)
      moreover have "length header' \<le> MAX_AGE_HEADER_BYTES" "line_start \<le> length header'"
        using r "2.prems"(3) by (auto simp: header'_def c)
      ultimately have "flat_header (read_header_loop (available # pieces) header line_start)
          = bounded_header header' (age_header_from (drop line_start header') (concat rest))"
        using IH(1) h a False nonempty by (simp add: step)
      also have "\<dots> = bounded_header header (age_header_from (drop line_start header) (concat (available # pieces)))"
        unfolding flat using "2.prems"(3)
        by (simp add: age_header_from_plain [OF plain] bounded_header_prepend header'_def)
      finally show ?thesis .
    next
      case (Some n)
      then have c: "consumed = n" by (simp add: consumed_def)
      from newline_end_cases(2) [OF Some] obtain xs where n: "n \<le> readable"
        and xs: "take n available = xs @ [CHR 0x0A]" "CHR 0x0A \<notin> set xs"
        using r(2) by (auto simp: min_def split: if_splits)
      have fin: completed
      proof -
        have "length (take n available) = n" using n r(2) by simp
        with xs(1) have "n = Suc (length xs)" by simp
        moreover have "take n available ! length xs = CHR 0x0A" by (simp add: xs(1))
        ultimately have "available ! (n - 1) = CHR 0x0A" by simp
        with n show ?thesis by (simp add: completed_def c)
      qed
      have line: "drop line_start header' = drop line_start header @ xs @ [CHR 0x0A]"
        using "2.prems"(3) xs(1) by (simp add: header'_def c)
      have whole: "concat (available # pieces) = xs @ CHR 0x0A # concat rest"
        using flat xs(1) by (simp add: c)
      have len: "length header' \<le> MAX_AGE_HEADER_BYTES" using r n by (simp add: header'_def c)
      show ?thesis
      proof (cases "starts_with (drop line_start header') ''--- ''")
        case True
        with fin len show ?thesis unfolding step whole age_header_from_line [OF xs(2)]
          using line xs(1) by (simp add: flat_header_def bounded_header_def header'_def c)
      next
        case False
        from IH(2) [OF _ _ _ False nonempty len] fin h a \<open>length header \<noteq> _\<close>
        have "flat_header (read_header_loop rest header' (length header')) =
            bounded_header header' (age_header_from [] (concat rest))" by simp
        with False fin line xs(1) show ?thesis unfolding step whole age_header_from_line [OF xs(2)]
          by (simp add: bounded_header_prepend header'_def c)
      qed
    qed
  qed
qed

lemma read_age_header_flat:
  "[] \<notin> set pieces \<Longrightarrow> flat_header (read_age_header pieces) = bounded_header [] (age_header (concat pieces))"
  using read_header_loop_flat [of pieces "[]" 0] by (simp add: read_age_header_def age_header_def)

section \<open>Headers the age format writes\<close>

record age_stanza =
  st_tag :: string
  st_args :: "string list"
  st_body :: string

function wrap64 :: "string \<Rightarrow> string list" where
  "wrap64 s = (if length s < 64 then [s] else take 64 s # wrap64 (drop 64 s))"
  by pat_completeness auto
termination
  by (relation "measure length") auto

declare wrap64.simps [simp del]

definition stanza_lines :: "age_stanza \<Rightarrow> string list" where
  "stanza_lines s = (''-> '' @ join_with (CHR '' '') (st_tag s # st_args s)) # wrap64 (st_body s)"

definition terminated :: "string list \<Rightarrow> bytes list" where
  "terminated ls = map (\<lambda>l. l @ [CHR 0x0A]) ls"

definition header_lines :: "age_stanza list \<Rightarrow> string \<Rightarrow> string list" where
  "header_lines stanzas mac = ''age-encryption.org/v1'' # concat (map stanza_lines stanzas) @ [''--- '' @ mac]"

definition print_age_header :: "age_stanza list \<Rightarrow> string \<Rightarrow> bytes" where
  "print_age_header stanzas mac = concat (terminated (header_lines stanzas mac))"

definition is_base64_char :: "char \<Rightarrow> bool" where
  "is_base64_char c \<longleftrightarrow> is_ascii_alphanumeric c \<or> c = CHR ''+'' \<or> c = CHR ''/'' \<or> c = CHR ''=''"

definition plain_word :: "string \<Rightarrow> bool" where
  "plain_word w \<longleftrightarrow> w \<noteq> [] \<and> CHR '' '' \<notin> set w \<and> CHR 0x0A \<notin> set w"

definition stanza_ok :: "age_stanza \<Rightarrow> bool" where
  "stanza_ok s \<longleftrightarrow> (\<forall>w \<in> set (st_tag s # st_args s). plain_word w) \<and> list_all is_base64_char (st_body s)
     \<and> (st_tag s = ''X25519'' \<longrightarrow> length (st_args s) = 1 \<and> length (st_body s) < 64)
     \<and> (st_tag s = ''ssh-ed25519'' \<longrightarrow> length (st_args s) = 2 \<and> length (st_body s) < 64)"

lemma wrap64_lines: "l \<in> set (wrap64 s) \<Longrightarrow> set l \<subseteq> set s \<and> length l \<le> 64"
proof (induction s rule: wrap64.induct)
  case (1 s)
  show ?case
  proof (cases "length s < 64")
    case True
    with 1 show ?thesis by (simp add: wrap64.simps)
  next
    case False
    with "1.prems" have "l = take 64 s \<or> l \<in> set (wrap64 (drop 64 s))" by (subst (asm) wrap64.simps) simp
    then show ?thesis
    proof
      assume "l \<in> set (wrap64 (drop 64 s))"
      from "1.IH" [OF False this] show ?thesis using set_drop_subset [of 64 s] by blast
    qed (auto dest: in_set_takeD)
  qed
qed

lemma base64_not_special:
  "list_all is_base64_char l \<Longrightarrow> CHR 0x0A \<notin> set l \<and> \<not> starts_with l ''->'' \<and> \<not> starts_with l ''---''
     \<and> \<not> starts_with l ''-> '' \<and> \<not> starts_with l ''--- ''"
  by (cases l) (auto simp: list_all_iff is_base64_char_def is_ascii_alphanumeric_def is_ascii_lowercase_def
      is_ascii_uppercase_def is_ascii_digit_def)

lemma strip_newline_line [simp]: "strip_newline (l @ [CHR 0x0A]) = l"
  by (simp add: strip_newline_def)

lemma validate_body:
  assumes "hs_expects_body st" and "list_all is_base64_char body" and "hs_long_body st \<or> length body < 64"
  shows "validate_header_lines st (terminated (wrap64 body) @ rest) =
    validate_header_lines (st\<lparr>hs_expects_body := False\<rparr>) rest"
  using assms(2,3)
proof (induction body rule: wrap64.induct)
  case (1 body)
  have line: "in_body st l" "\<not> starts_with l ''->''" "\<not> starts_with l ''---''"
    if "list_all is_base64_char l" for l
    using base64_not_special [OF that] assms(1) by (auto simp: in_body_def)
  show ?case
  proof (cases "length body < 64")
    case True
    with line [OF "1.prems"(1)] show ?thesis by (simp add: wrap64.simps terminated_def)
  next
    case False
    have take: "list_all is_base64_char (take 64 body)" and drop: "list_all is_base64_char (drop 64 body)"
      using "1.prems"(1) by (auto simp: list_all_iff dest: in_set_takeD in_set_dropD)
    from False "1.prems"(2) have "hs_long_body st" by simp
    with False line [OF take] "1.IH" [OF False drop] show ?thesis
      by (subst wrap64.simps) (simp add: terminated_def)
  qed
qed

lemma validate_stanza_line:
  assumes "strip_prefix l ''-> '' = Some j" "\<not> in_body st l" "split_on (CHR '' '') j = w # ws"
    and "valid_fields (w # ws)" "[] \<notin> set (w # ws)" "checked_add (hs_stanza_count st) 1 = Some count"
  shows "validate_header_lines st ((l @ [CHR 0x0A]) # ls) =
    validate_header_lines \<lparr>hs_stanza_count = count, hs_expects_body = True,
      hs_long_body = w \<noteq> ''X25519'' \<and> w \<noteq> ''ssh-ed25519'', hs_grease = ends_with w ''-grease''\<rparr> ls"
  using assms by (simp del: checked_add_Some)

lemma validate_mac_line:
  assumes "starts_with l ''--- ''" "strip_prefix l ''-> '' = None" "\<not> in_body st l" "0 < hs_stanza_count st"
  shows "validate_header_lines st ((l @ [CHR 0x0A]) # ls) = Inr ()"
  using assms by simp

lemma validate_stanza:
  assumes s: "stanza_ok s" and "\<not> hs_expects_body st" and count: "unat (hs_stanza_count st) < 65535"
  shows "\<exists>st'. validate_header_lines st (terminated (stanza_lines s) @ rest) = validate_header_lines st' rest
    \<and> \<not> hs_expects_body st' \<and> unat (hs_stanza_count st') = Suc (unat (hs_stanza_count st))"
proof -
  let ?words = "st_tag s # st_args s"
  have split: "split_on (CHR '' '') (join_with (CHR '' '') ?words) = ?words"
    using s by (intro split_join) (auto simp: stanza_ok_def plain_word_def)
  have fields: "valid_fields ?words" "[] \<notin> set ?words"
    using s by (auto simp: stanza_ok_def plain_word_def valid_fields_def)
  have add: "checked_add (hs_stanza_count st) 1 = Some (hs_stanza_count st + 1)"
    and inc: "unat (hs_stanza_count st + 1) = Suc (unat (hs_stanza_count st))"
    using count by (simp_all add: checked_add_def unat_word_ariths)
  let ?st = "\<lparr>hs_stanza_count = hs_stanza_count st + 1, hs_expects_body = True,
      hs_long_body = st_tag s \<noteq> ''X25519'' \<and> st_tag s \<noteq> ''ssh-ed25519'',
      hs_grease = ends_with (st_tag s) ''-grease''\<rparr>"
  have "validate_header_lines st (terminated (stanza_lines s) @ rest)
      = validate_header_lines ?st (terminated (wrap64 (st_body s)) @ rest)"
  proof -
    define l where "l = ''-> '' @ join_with (CHR '' '') ?words"
    have "strip_prefix l ''-> '' = Some (join_with (CHR '' '') ?words)"
      by (simp only: strip_prefix_eq_Some l_def)
    moreover have "\<not> in_body st l" using assms(2) by (simp add: in_body_def)
    moreover have "terminated (stanza_lines s) @ rest = (l @ [CHR 0x0A]) # terminated (wrap64 (st_body s)) @ rest"
      by (simp add: stanza_lines_def terminated_def l_def)
    ultimately show ?thesis
      using validate_stanza_line [OF _ _ split fields add] by presburger
  qed
  also have "\<dots> = validate_header_lines (?st\<lparr>hs_expects_body := False\<rparr>) rest"
    using s by (intro validate_body) (auto simp: stanza_ok_def)
  finally show ?thesis using inc by (intro exI [of _ "?st\<lparr>hs_expects_body := False\<rparr>"]) simp
qed

lemma validate_stanzas:
  assumes "list_all stanza_ok stanzas" "\<not> hs_expects_body st"
    and "unat (hs_stanza_count st) + length stanzas < 65536" "stanzas \<noteq> [] \<or> 0 < hs_stanza_count st"
  shows "validate_header_lines st (terminated (concat (map stanza_lines stanzas) @ [''--- '' @ mac])) = Inr ()"
  using assms
proof (induction stanzas arbitrary: st)
  case Nil
  have "strip_prefix (''--- '' @ mac) ''-> '' = None" by (simp add: strip_prefix_def)
  with Nil validate_mac_line [of "''--- '' @ mac" st "[]"] show ?case
    by (simp add: terminated_def in_body_def)
next
  case (Cons s stanzas)
  let ?rest = "terminated (concat (map stanza_lines stanzas) @ [''--- '' @ mac])"
  have "stanza_ok s" "unat (hs_stanza_count st) < 65535" using Cons.prems by auto
  from validate_stanza [OF this(1) Cons.prems(2) this(2), of ?rest] obtain st' where step:
    "validate_header_lines st (terminated (stanza_lines s) @ ?rest) = validate_header_lines st' ?rest"
    and st': "\<not> hs_expects_body st'" "unat (hs_stanza_count st') = Suc (unat (hs_stanza_count st))"
    by blast
  have "0 < hs_stanza_count st'" using st'(2) by (simp add: word_less_nat_alt)
  with Cons.IH [of st'] Cons.prems st' step show ?case by (simp add: terminated_def)
qed

lemma split_lines_line: "CHR 0x0A \<notin> set l \<Longrightarrow> split_lines (l @ CHR 0x0A # rest) = (l @ [CHR 0x0A]) # split_lines rest"
  by (induction l) auto

lemma split_lines_terminated:
  "(\<And>l. l \<in> set ls \<Longrightarrow> CHR 0x0A \<notin> set l) \<Longrightarrow> split_lines (concat (terminated ls)) = terminated ls"
  by (induction ls) (simp_all add: terminated_def split_lines_line)

lemma age_header_terminated:
  "(\<And>l. l \<in> set ls \<Longrightarrow> CHR 0x0A \<notin> set l \<and> \<not> starts_with (l @ [CHR 0x0A]) ''--- '') \<Longrightarrow> CHR 0x0A \<notin> set m \<Longrightarrow>
   starts_with m ''--- '' \<Longrightarrow>
   age_header (concat (terminated (ls @ [m])) @ payload) = Some (concat (terminated (ls @ [m])), payload)"
proof (induction ls)
  case Nil
  then have "starts_with (m @ [CHR 0x0A]) ''--- ''" by (auto simp: starts_with_iff_prefix)
  with Nil show ?case by (simp add: age_header_def terminated_def age_header_from_line)
next
  case (Cons l ls)
  then show ?case by (simp add: age_header_def terminated_def age_header_from_line)
qed

lemma stanza_lines_plain:
  assumes "stanza_ok s" "l \<in> set (stanza_lines s)"
  shows "CHR 0x0A \<notin> set l \<and> \<not> starts_with (l @ [CHR 0x0A]) ''--- ''"
proof -
  have join: "set (join_with d ws) \<subseteq> insert d (\<Union>(set ` set ws))" for d ws
    by (induction d ws rule: join_with.induct) auto
  from assms(2) consider "l = ''-> '' @ join_with (CHR '' '') (st_tag s # st_args s)" | "l \<in> set (wrap64 (st_body s))"
    by (auto simp: stanza_lines_def)
  then show ?thesis
  proof cases
    case 1
    with assms(1) join [of "CHR '' ''" "st_tag s # st_args s"] show ?thesis
      by (auto simp: stanza_ok_def plain_word_def)
  next
    case 2
    with wrap64_lines assms(1) have b: "list_all is_base64_char l" by (fastforce simp: stanza_ok_def list_all_iff)
    with base64_not_special [OF b] show ?thesis
      by (cases l) (auto simp: is_base64_char_def is_ascii_alphanumeric_def is_ascii_lowercase_def
          is_ascii_uppercase_def is_ascii_digit_def)
  qed
qed

lemma header_lines_plain:
  assumes "list_all stanza_ok stanzas"
    and "l \<in> set (''age-encryption.org/v1'' # concat (map stanza_lines stanzas))"
  shows "CHR 0x0A \<notin> set l \<and> \<not> starts_with (l @ [CHR 0x0A]) ''--- ''"
  using assms stanza_lines_plain by (auto simp: list_all_iff)

lemma printed_header_valid:
  assumes ok: "list_all stanza_ok stanzas" and "stanzas \<noteq> []" "length stanzas < 65536" and mac: "CHR 0x0A \<notin> set mac"
  shows "validate_age_header_structure (print_age_header stanzas mac) = Inr ()"
proof -
  have lines: "split_lines (print_age_header stanzas mac) = terminated (header_lines stanzas mac)"
    unfolding print_age_header_def
    by (rule split_lines_terminated) (use header_lines_plain [OF ok] mac in \<open>auto simp: header_lines_def\<close>)
  have "terminated (header_lines stanzas mac) = AGE_VERSION_LINE
      # terminated (concat (map stanza_lines stanzas) @ [''--- '' @ mac])"
    by (simp add: header_lines_def terminated_def AGE_VERSION_LINE_def)
  with validate_stanzas [OF ok] assms lines show ?thesis by (simp add: validate_age_header_structure_def)
qed

lemma printed_header_read:
  assumes ok: "list_all stanza_ok stanzas" and mac: "CHR 0x0A \<notin> set mac"
    and bound: "length (print_age_header stanzas mac) \<le> MAX_AGE_HEADER_BYTES"
    and pieces: "[] \<notin> set pieces" "concat pieces = print_age_header stanzas mac @ payload"
  shows "\<exists>reader. read_age_header pieces = Inr (print_age_header stanzas mac, reader) \<and> concat reader = payload"
proof -
  have "age_header (concat pieces) = Some (print_age_header stanzas mac, payload)"
    unfolding pieces(2) print_age_header_def header_lines_def append_Cons [symmetric]
    by (rule age_header_terminated) (use header_lines_plain [OF ok] mac in auto)
  with read_age_header_flat [OF pieces(1)] bound
  have "flat_header (read_age_header pieces) = Inr (print_age_header stanzas mac, payload)"
    by (simp add: bounded_header_def)
  then show ?thesis by (auto simp: flat_header_def split: sum.splits prod.splits)
qed

end
