(* ===== verification/Age_Operations.thy ===== *)
theory Age_Operations
  imports Age
begin

text \<open>
  The operations on sealed data of \<open>crates/nix-seal-crypto/src/lib.rs\<close>, direct and through
  the isolated plugin worker. A worker is a process: what it gets on standard input is the
  request \<open>write_plugin_request\<close> builds, and it runs \<open>run_plugin_worker_protocol\<close>
  on it. Time limits and the termination of a worker that hangs are not modelled.
\<close>

section \<open>Parsing recipients and identities\<close>

definition parse_recipient :: "age_api \<Rightarrow> age_engine \<Rightarrow> string \<Rightarrow> crypto_error + age_recipient" where
  "parse_recipient api age value =
     (case age_x25519_recipient api value of
        Some recipient \<Rightarrow> Inr (NativeRecipient recipient)
      | None \<Rightarrow> (case age_plugin_recipient api value of
          Some (plugin, recipient) \<Rightarrow>
            if ae_plugin_ready age plugin then Inr (PluginRecipient recipient) else Inl CryptoPlugin
        | None \<Rightarrow> (case age_ssh_recipient api value of
            None \<Rightarrow> Inl CryptoRecipient
          | Some (rsa, recipient) \<Rightarrow> if rsa then Inl CryptoRecipient else Inr (SshRecipient recipient))))"

definition parse_plugin_identity :: "age_api \<Rightarrow> age_engine \<Rightarrow> string \<Rightarrow> crypto_error + age_identity" where
  "parse_plugin_identity api age identity =
     (case age_plugin_identity api (trim identity) of
        None \<Rightarrow> Inl CryptoIdentity
      | Some plugin \<Rightarrow>
          if ae_plugin_ready age plugin then Inr (PluginIdentity (trim identity)) else Inl CryptoPlugin)"

definition parse_identity :: "age_api \<Rightarrow> age_engine \<Rightarrow> string \<Rightarrow> crypto_error + age_identity" where
  "parse_identity api age identity =
     (case age_x25519_identity api (trim identity) of
        Some _ \<Rightarrow> Inr (NativeIdentity (trim identity))
      | None \<Rightarrow>
          if is_plugin_identity api identity then parse_plugin_identity api age identity
          else (case age_ssh_identity api identity of
            None \<Rightarrow> Inl CryptoIdentity
          | Some (encrypted, recipient) \<Rightarrow>
              if encrypted then Inl CryptoIdentity
              else (case recipient of
                None \<Rightarrow> Inl CryptoIdentity
              | Some (rsa, _) \<Rightarrow> if rsa then Inl CryptoIdentity else Inr (SshIdentity identity))))"

definition parse_migration_identity :: "age_api \<Rightarrow> age_engine \<Rightarrow> string \<Rightarrow> crypto_error + age_identity" where
  "parse_migration_identity api age identity =
     (case age_x25519_identity api (trim identity) of
        Some _ \<Rightarrow> Inr (NativeIdentity (trim identity))
      | None \<Rightarrow>
          if is_plugin_identity api identity then parse_plugin_identity api age identity
          else (case age_ssh_identity api identity of
            None \<Rightarrow> Inl CryptoIdentity
          | Some (encrypted, _) \<Rightarrow> if encrypted then Inl CryptoIdentity else Inr (SshIdentity identity)))"

section \<open>Direct operations\<close>

definition encrypt_direct ::
  "age_api \<Rightarrow> age_engine \<Rightarrow> nat \<Rightarrow> bytes \<Rightarrow> string list \<Rightarrow> crypto_error + bytes" where
  "encrypt_direct api age rng input recipients =
     and_then (map_result (parse_recipient api age) recipients) (\<lambda>parsed.
     and_then (check (parsed \<noteq> []) CryptoRecipient) (\<lambda>_.
     and_then (check (ae_recipients_ok age parsed) CryptoEncrypt) (\<lambda>_.
     and_then (check (length input \<le> MAX_SECRET_BYTES) CryptoInputTooLarge) (\<lambda>_.
     Inr (ae_seal age rng parsed input)))))"

text \<open>The plaintext of an opened ciphertext, at most 64 MiB and to its end.\<close>

definition copy_plaintext :: "bytes \<times> bool \<Rightarrow> crypto_error + bytes" where
  "copy_plaintext = (\<lambda>(plaintext, complete).
     if MAX_SECRET_BYTES < length plaintext then Inl CryptoInputTooLarge
     else if \<not> complete then Inl CryptoIo
     else Inr plaintext)"

definition decrypt_with_identity ::
  "age_engine \<Rightarrow> bytes list \<Rightarrow> age_identity \<Rightarrow> bool \<Rightarrow> crypto_error + bytes" where
  "decrypt_with_identity age input identity allow_legacy_ssh_rsa_stanzas =
     and_then (prepare_ciphertext input allow_legacy_ssh_rsa_stanzas) (\<lambda>ciphertext.
     and_then (check (ae_header_ok age ciphertext) CryptoDecrypt) (\<lambda>_.
     and_then (ok_or (ae_open age identity ciphertext) CryptoDecrypt) copy_plaintext))"

definition rekey_direct_with_identity ::
  "age_api \<Rightarrow> age_engine \<Rightarrow> nat \<Rightarrow> bytes list \<Rightarrow> age_identity \<Rightarrow> string list \<Rightarrow> bool \<Rightarrow> crypto_error + bytes" where
  "rekey_direct_with_identity api age rng input identity recipients allow_legacy_ssh_rsa_stanzas =
     and_then (map_result (parse_recipient api age) recipients) (\<lambda>parsed.
     and_then (check (parsed \<noteq> []) CryptoRecipient) (\<lambda>_.
     and_then (prepare_ciphertext input allow_legacy_ssh_rsa_stanzas) (\<lambda>ciphertext.
     and_then (check (ae_header_ok age ciphertext) CryptoDecrypt) (\<lambda>_.
     and_then (ok_or (ae_open age identity ciphertext) CryptoDecrypt) (\<lambda>opened.
     and_then (check (ae_recipients_ok age parsed) CryptoEncrypt) (\<lambda>_.
     and_then (copy_plaintext opened) (\<lambda>plaintext.
     Inr (ae_seal age rng parsed plaintext))))))))"

definition rekey_direct ::
  "age_api \<Rightarrow> age_engine \<Rightarrow> nat \<Rightarrow> bytes list \<Rightarrow> string \<Rightarrow> string list \<Rightarrow> crypto_error + bytes" where
  "rekey_direct api age rng input identity recipients =
     and_then (parse_identity api age identity) (\<lambda>parsed.
     rekey_direct_with_identity api age rng input parsed recipients False)"

text \<open>Passphrase-protected identity files.\<close>

definition encrypt_passphrase_identity :: "age_engine \<Rightarrow> nat \<Rightarrow> string \<Rightarrow> string \<Rightarrow> crypto_error + bytes" where
  "encrypt_passphrase_identity age rng identity passphrase =
     Inr (ae_seal_passphrase age rng passphrase (identity @ [CHR 0x0A]))"

definition decrypt_passphrase_identity :: "age_engine \<Rightarrow> bytes \<Rightarrow> string \<Rightarrow> crypto_error + string" where
  "decrypt_passphrase_identity age input passphrase =
     and_then (check (ae_header_ok age input) CryptoDecrypt) (\<lambda>_.
     and_then (check (ae_is_scrypt age input) CryptoIdentity) (\<lambda>_.
     and_then (ok_or (ae_open age (ScryptIdentity passphrase) input) CryptoDecrypt) (\<lambda>(plaintext, complete).
     if MAX_IDENTITY_FILE_BYTES < length plaintext then Inl CryptoInputTooLarge
     else if \<not> complete then Inl CryptoIo
     else and_then (check (valid_utf8 plaintext) CryptoIdentity) (\<lambda>_. Inr plaintext))))"

section \<open>The worker protocol\<close>

datatype plugin_operation =
    PluginEncrypt "string option" "string list"
  | PluginDecrypt "string option" "string list"
  | PluginRekey "string option" "string list"
  | PluginRekeyMigration "string option" "string list"
  | PluginDecryptMigration "string option" "string list"

fun plugin_code :: "plugin_operation \<Rightarrow> nat" where
  "plugin_code (PluginEncrypt _ _) = 1"
| "plugin_code (PluginDecrypt _ _) = 2"
| "plugin_code (PluginRekey _ _) = 3"
| "plugin_code (PluginRekeyMigration _ _) = 4"
| "plugin_code (PluginDecryptMigration _ _) = 5"

fun plugin_identity :: "plugin_operation \<Rightarrow> string option" where
  "plugin_identity (PluginEncrypt i _) = i"
| "plugin_identity (PluginDecrypt i _) = i"
| "plugin_identity (PluginRekey i _) = i"
| "plugin_identity (PluginRekeyMigration i _) = i"
| "plugin_identity (PluginDecryptMigration i _) = i"

fun plugin_recipients :: "plugin_operation \<Rightarrow> string list" where
  "plugin_recipients (PluginEncrypt _ rs) = rs"
| "plugin_recipients (PluginDecrypt _ rs) = rs"
| "plugin_recipients (PluginRekey _ rs) = rs"
| "plugin_recipients (PluginRekeyMigration _ rs) = rs"
| "plugin_recipients (PluginDecryptMigration _ rs) = rs"

fun input_limit :: "plugin_operation \<Rightarrow> nat" where
  "input_limit (PluginEncrypt _ _) = MAX_SECRET_BYTES"
| "input_limit _ = MAX_PLUGIN_CIPHERTEXT_BYTES"

fun output_limit :: "plugin_operation \<Rightarrow> nat" where
  "output_limit (PluginDecrypt _ _) = MAX_SECRET_BYTES"
| "output_limit (PluginDecryptMigration _ _) = MAX_SECRET_BYTES"
| "output_limit _ = MAX_PLUGIN_CIPHERTEXT_BYTES"

definition write_plugin_u32 :: "32 word \<Rightarrow> bytes" where
  "write_plugin_u32 value = be32 value"

definition write_plugin_field :: "bytes \<Rightarrow> crypto_error + bytes" where
  "write_plugin_field value =
     (if value = [] \<or> MAX_PLUGIN_FIELD_BYTES < length value then Inl CryptoPlugin
      else Inr (write_plugin_u32 (word_of_nat (length value)) @ value))"

definition write_plugin_request :: "plugin_operation \<Rightarrow> bytes \<Rightarrow> crypto_error + bytes" where
  "write_plugin_request operation input =
     and_then (case plugin_identity operation of
         Some identity \<Rightarrow> write_plugin_field identity
       | None \<Rightarrow> Inr (write_plugin_u32 0)) (\<lambda>identity_field.
     and_then (check (length (plugin_recipients operation) \<le> MAX_PLUGIN_RECIPIENTS) CryptoPlugin) (\<lambda>_.
     and_then (map_result write_plugin_field (plugin_recipients operation)) (\<lambda>recipient_fields.
     and_then (check (length input \<le> input_limit operation) CryptoInputTooLarge) (\<lambda>_.
     Inr (PLUGIN_WORKER_MAGIC @ [char_of (plugin_code operation)] @ identity_field
       @ write_plugin_u32 (word_of_nat (length (plugin_recipients operation)))
       @ concat recipient_fields @ input)))))"

definition read_exact :: "nat \<Rightarrow> bytes \<Rightarrow> crypto_error + bytes \<times> bytes" where
  "read_exact n input = (if length input < n then Inl CryptoPlugin else Inr (take n input, drop n input))"

definition read_plugin_byte :: "bytes \<Rightarrow> crypto_error + nat \<times> bytes" where
  "read_plugin_byte input = and_then (read_exact 1 input) (\<lambda>(bs, rest). Inr (of_char (hd bs), rest))"

definition read_plugin_u32 :: "bytes \<Rightarrow> crypto_error + 32 word \<times> bytes" where
  "read_plugin_u32 input = and_then (read_exact 4 input) (\<lambda>(bs, rest). Inr (from_be32 bs, rest))"

definition read_plugin_field :: "bytes \<Rightarrow> bool \<Rightarrow> crypto_error + string option \<times> bytes" where
  "read_plugin_field input optional =
     and_then (read_plugin_u32 input) (\<lambda>(w, rest).
     let len = unat w in
     if len = 0 then (if optional then Inr (None, rest) else Inl CryptoPlugin)
     else if MAX_PLUGIN_FIELD_BYTES < len then Inl CryptoPlugin
     else
       and_then (read_exact len rest) (\<lambda>(bs, rest').
       if valid_utf8 bs then Inr (Some bs, rest') else Inl CryptoPlugin))"

fun read_plugin_recipients :: "nat \<Rightarrow> bytes \<Rightarrow> crypto_error + string list \<times> bytes" where
  "read_plugin_recipients 0 input = Inr ([], input)"
| "read_plugin_recipients (Suc n) input =
     and_then (read_plugin_field input False) (\<lambda>(field, rest).
     and_then (ok_or field CryptoPlugin) (\<lambda>recipient.
     and_then (read_plugin_recipients n rest) (\<lambda>(recipients, rest').
     Inr (recipient # recipients, rest'))))"

definition run_plugin_worker_protocol ::
  "age_api \<Rightarrow> age_engine \<Rightarrow> nat \<Rightarrow> bytes \<Rightarrow> crypto_error + bytes" where
  "run_plugin_worker_protocol api age rng input =
     and_then (read_exact (length PLUGIN_WORKER_MAGIC) input) (\<lambda>(magic, input1).
     and_then (check (magic = PLUGIN_WORKER_MAGIC) CryptoPlugin) (\<lambda>_.
     and_then (read_plugin_byte input1) (\<lambda>(operation, input2).
     and_then (check (1 \<le> operation \<and> operation \<le> 5) CryptoPlugin) (\<lambda>_.
     and_then (read_plugin_field input2 True) (\<lambda>(identity, input3).
     and_then (read_plugin_u32 input3) (\<lambda>(recipient_count, input4).
     and_then (check (unat recipient_count \<le> MAX_PLUGIN_RECIPIENTS) CryptoPlugin) (\<lambda>_.
     and_then (read_plugin_recipients (unat recipient_count) input4) (\<lambda>(recipients, payload).
     if operation = 1 then encrypt_direct api age rng payload recipients
     else
       and_then (ok_or identity CryptoPlugin) (\<lambda>identity.
       if operation = 2 then
         and_then (parse_identity api age identity) (\<lambda>parsed.
         decrypt_with_identity age [payload] parsed False)
       else if operation = 3 then rekey_direct api age rng [payload] identity recipients
       else if operation = 4 then
         and_then (parse_migration_identity api age identity) (\<lambda>parsed.
         rekey_direct_with_identity api age rng [payload] parsed recipients True)
       else
         and_then (parse_migration_identity api age identity) (\<lambda>parsed.
         decrypt_with_identity age [payload] parsed True))))))))))"

section \<open>Starting a worker\<close>

record plugin_env =
  pe_path :: "string option"
  pe_canonicalize :: "string \<Rightarrow> string option"
  pe_metadata :: "string \<Rightarrow> (bool \<times> 32 word) option"
  pe_var :: "string \<Rightarrow> string option"
  pe_worker :: "string list \<Rightarrow> (string \<times> string) list \<Rightarrow> bytes \<Rightarrow> (bytes list \<times> bool) option"

text \<open>
  \<open>pe_metadata\<close>: whether it is a regular file, and its mode; \<open>pe_worker\<close>: the
  worker started with a search path, an environment and its standard input, giving what it
  writes to standard output, piece by piece, and whether it exits successfully (\<open>None\<close>
  when it cannot be started).
\<close>

definition plugin_names :: "age_api \<Rightarrow> plugin_operation \<Rightarrow> string list" where
  "plugin_names api operation =
     map fst (List.map_filter (age_plugin_recipient api) (plugin_recipients operation))
     @ (case plugin_identity operation of
          None \<Rightarrow> []
        | Some identity \<Rightarrow>
            (case age_plugin_identity api (trim identity) of None \<Rightarrow> [] | Some plugin \<Rightarrow> [plugin]))"

definition plugin_executable :: "plugin_env \<Rightarrow> string \<Rightarrow> bool" where
  "plugin_executable env canonical =
     (case pe_metadata env canonical of
        None \<Rightarrow> False
      | Some (is_file, mode) \<Rightarrow>
          is_file \<and> mode AND 0x49 \<noteq> 0 \<and> path_starts_with canonical ''/nix/store'')"

definition find_plugin_directory :: "plugin_env \<Rightarrow> string list \<Rightarrow> string \<Rightarrow> crypto_error + string" where
  "find_plugin_directory env directories name =
     (case List.find (plugin_executable env)
         (List.map_filter (\<lambda>directory. pe_canonicalize env (path_join directory (''age-plugin-'' @ name))) directories) of
        None \<Rightarrow> Inl CryptoPlugin
      | Some canonical \<Rightarrow> ok_or (canonical_parent canonical) CryptoPlugin)"

text \<open>The directories, as a list without repetition; the joined search path has them in path order.\<close>

definition plugin_binary_directories_from_path ::
  "age_api \<Rightarrow> plugin_env \<Rightarrow> plugin_operation \<Rightarrow> string \<Rightarrow> crypto_error + string list" where
  "plugin_binary_directories_from_path api env operation path =
     (let names = remdups (plugin_names api operation) in
      if names = [] then Inl CryptoPlugin
      else
        and_then (map_result (find_plugin_directory env (split_on (CHR '':'') path)) names) (\<lambda>directories.
        if \<exists>d \<in> set directories. CHR '':'' \<in> set d then Inl CryptoPlugin
        else Inr (remdups directories)))"

definition plugin_binary_directories ::
  "age_api \<Rightarrow> plugin_env \<Rightarrow> plugin_operation \<Rightarrow> crypto_error + string list" where
  "plugin_binary_directories api env operation =
     and_then (ok_or (pe_path env) CryptoPlugin) (\<lambda>path.
     plugin_binary_directories_from_path api env operation path)"

definition copy_plugin_environment :: "plugin_env \<Rightarrow> (string \<times> string) list" where
  "copy_plugin_environment env =
     List.map_filter (\<lambda>key.
       case pe_var env key of
         None \<Rightarrow> None
       | Some value \<Rightarrow>
           if (key = ''HOME'' \<or> key = ''XDG_RUNTIME_DIR'') \<and> \<not> path_is_absolute value then None
           else Some (key, value))
       [''DBUS_SESSION_BUS_ADDRESS'', ''DISPLAY'', ''HOME'', ''WAYLAND_DISPLAY'', ''XDG_RUNTIME_DIR'']"

function crypto_copy_bounded :: "bytes list \<Rightarrow> nat \<Rightarrow> nat \<Rightarrow> bytes \<Rightarrow> crypto_error + bytes" where
  "crypto_copy_bounded input limit copied written =
     (case read_some (32 * 1024) input of (piece, rest) \<Rightarrow>
        if piece = [] then Inr written
        else if 2 ^ 64 \<le> copied + length piece then Inl CryptoInputTooLarge
        else if limit < copied + length piece then Inl CryptoInputTooLarge
        else crypto_copy_bounded rest limit (copied + length piece) (written @ piece))"
  by pat_completeness auto
termination
  by (relation "measure (\<lambda>(input, _, _, _). length (concat input))") (auto dest: read_some_shorter [OF sym])

declare crypto_copy_bounded.simps [simp del]

definition run_plugin_operation ::
  "age_api \<Rightarrow> plugin_env \<Rightarrow> plugin_operation \<Rightarrow> bytes \<Rightarrow> crypto_error + bytes" where
  "run_plugin_operation api env operation input =
     and_then (plugin_binary_directories api env operation) (\<lambda>directories.
     let request = write_plugin_request operation input;
         environment = (''NIX_SEAL_PLUGIN_WORKER'', ''1'') # copy_plugin_environment env in
     case pe_worker env directories environment (case request of Inr stream \<Rightarrow> stream | Inl _ \<Rightarrow> []) of
       None \<Rightarrow> Inl CryptoPlugin
     | Some (stdout, success) \<Rightarrow>
         (case (crypto_copy_bounded stdout (output_limit operation) 0 [], request) of
            (Inr out, Inr _) \<Rightarrow> if success then Inr out else Inl CryptoPlugin
          | _ \<Rightarrow> Inl CryptoPlugin))"

section \<open>Public operations\<close>

definition encrypt ::
  "age_api \<Rightarrow> age_engine \<Rightarrow> plugin_env \<Rightarrow> nat \<Rightarrow> bytes \<Rightarrow> string list \<Rightarrow> crypto_error + bytes" where
  "encrypt api age env rng input recipients =
     (if \<exists>r \<in> set recipients. is_plugin_recipient api r
      then run_plugin_operation api env (PluginEncrypt None recipients) input
      else encrypt_direct api age rng input recipients)"

definition decrypt ::
  "age_api \<Rightarrow> age_engine \<Rightarrow> plugin_env \<Rightarrow> bytes list \<Rightarrow> string \<Rightarrow> crypto_error + bytes" where
  "decrypt api age env input identity =
     (if is_plugin_identity api identity
      then run_plugin_operation api env (PluginDecrypt (Some identity) []) (concat input)
      else and_then (parse_identity api age identity) (\<lambda>parsed.
        decrypt_with_identity age input parsed False))"

definition decrypt_migration ::
  "age_api \<Rightarrow> age_engine \<Rightarrow> plugin_env \<Rightarrow> bytes list \<Rightarrow> string \<Rightarrow> crypto_error + bytes" where
  "decrypt_migration api age env input identity =
     (if is_plugin_identity api identity
      then run_plugin_operation api env (PluginDecryptMigration (Some identity) []) (concat input)
      else and_then (parse_migration_identity api age identity) (\<lambda>parsed.
        decrypt_with_identity age input parsed True))"

definition rekey ::
  "age_api \<Rightarrow> age_engine \<Rightarrow> plugin_env \<Rightarrow> nat \<Rightarrow> bytes list \<Rightarrow> string \<Rightarrow> string list \<Rightarrow> crypto_error + bytes" where
  "rekey api age env rng input identity recipients =
     (if is_plugin_identity api identity \<or> (\<exists>r \<in> set recipients. is_plugin_recipient api r)
      then run_plugin_operation api env (PluginRekey (Some identity) recipients) (concat input)
      else rekey_direct api age rng input identity recipients)"

definition rekey_migration ::
  "age_api \<Rightarrow> age_engine \<Rightarrow> plugin_env \<Rightarrow> nat \<Rightarrow> bytes list \<Rightarrow> string \<Rightarrow> string list \<Rightarrow> crypto_error + bytes" where
  "rekey_migration api age env rng input identity recipients =
     (if is_plugin_identity api identity \<or> (\<exists>r \<in> set recipients. is_plugin_recipient api r)
      then run_plugin_operation api env (PluginRekeyMigration (Some identity) recipients) (concat input)
      else and_then (parse_migration_identity api age identity) (\<lambda>parsed.
        rekey_direct_with_identity api age rng input parsed recipients True))"

section \<open>The worker does what was asked\<close>

lemma read_exact_append [simp]: "length x = n \<Longrightarrow> read_exact n (x @ rest) = Inr (x, rest)"
  by (auto simp: read_exact_def)

lemma read_plugin_u32_frame [simp]: "read_plugin_u32 (be32 w @ rest) = Inr (w, rest)"
  by (simp add: read_plugin_u32_def)

lemma unat_length_word: "n < 2 ^ 32 \<Longrightarrow> unat (word_of_nat n :: 32 word) = n"
  by (simp add: unat_of_nat)

lemma write_plugin_field_Inr:
  "write_plugin_field value = Inr field \<longleftrightarrow>
     value \<noteq> [] \<and> length value \<le> MAX_PLUGIN_FIELD_BYTES \<and> field = be32 (word_of_nat (length value)) @ value"
  by (auto simp: write_plugin_field_def write_plugin_u32_def)

lemma read_plugin_field_frame:
  assumes "write_plugin_field value = Inr field" and "valid_utf8 value"
  shows "read_plugin_field (field @ rest) optional = Inr (Some value, rest)"
proof -
  from assms(1) have v: "value \<noteq> []" "length value \<le> MAX_PLUGIN_FIELD_BYTES"
    "field = be32 (word_of_nat (length value)) @ value" by (auto simp: write_plugin_field_Inr)
  then have "unat (word_of_nat (length value) :: 32 word) = length value"
    by (intro unat_length_word) (simp add: MAX_PLUGIN_FIELD_BYTES_def)
  with v assms(2) show ?thesis by (simp add: read_plugin_field_def)
qed

lemma read_plugin_recipients_frame:
  "map_result write_plugin_field values = Inr frames \<Longrightarrow> (\<forall>v \<in> set values. valid_utf8 v) \<Longrightarrow>
   read_plugin_recipients (length values) (concat frames @ rest) = Inr (values, rest)"
  by (induction "values" arbitrary: frames) (auto simp: read_plugin_field_frame)

definition direct_operation ::
  "age_api \<Rightarrow> age_engine \<Rightarrow> nat \<Rightarrow> plugin_operation \<Rightarrow> bytes list \<Rightarrow> crypto_error + bytes" where
  "direct_operation api age rng operation input =
     (case operation of
        PluginEncrypt _ recipients \<Rightarrow> encrypt_direct api age rng (concat input) recipients
      | PluginDecrypt identity _ \<Rightarrow>
          and_then (ok_or identity CryptoPlugin) (\<lambda>i. and_then (parse_identity api age i) (\<lambda>parsed.
          decrypt_with_identity age input parsed False))
      | PluginRekey identity recipients \<Rightarrow>
          and_then (ok_or identity CryptoPlugin) (\<lambda>i. rekey_direct api age rng input i recipients)
      | PluginRekeyMigration identity recipients \<Rightarrow>
          and_then (ok_or identity CryptoPlugin) (\<lambda>i. and_then (parse_migration_identity api age i) (\<lambda>parsed.
          rekey_direct_with_identity api age rng input parsed recipients True))
      | PluginDecryptMigration identity _ \<Rightarrow>
          and_then (ok_or identity CryptoPlugin) (\<lambda>i. and_then (parse_migration_identity api age i) (\<lambda>parsed.
          decrypt_with_identity age input parsed True)))"

definition operation_utf8 :: "plugin_operation \<Rightarrow> bool" where
  "operation_utf8 operation \<longleftrightarrow> (\<forall>r \<in> set (plugin_recipients operation). valid_utf8 r)
     \<and> (case plugin_identity operation of None \<Rightarrow> True | Some i \<Rightarrow> valid_utf8 i)"

lemma plugin_code_byte [simp]: "plugin_code operation mod 256 = plugin_code operation"
  by (cases operation) simp_all

lemma worker_runs_request:
  assumes request: "write_plugin_request operation input = Inr stream" and utf8: "operation_utf8 operation"
  shows "run_plugin_worker_protocol api age rng stream = direct_operation api age rng operation [input]"
proof -
  from request obtain identity_field frames where
    i: "(case plugin_identity operation of Some identity \<Rightarrow> write_plugin_field identity
       | None \<Rightarrow> Inr (write_plugin_u32 0)) = Inr identity_field"
    and f: "map_result write_plugin_field (plugin_recipients operation) = Inr frames"
    and count: "length (plugin_recipients operation) \<le> MAX_PLUGIN_RECIPIENTS"
    and stream: "stream = PLUGIN_WORKER_MAGIC @ [char_of (plugin_code operation)] @ identity_field
       @ be32 (word_of_nat (length (plugin_recipients operation))) @ concat frames @ input"
    by (auto simp: write_plugin_request_def write_plugin_u32_def)
  have ident: "read_plugin_field (identity_field @ rest) True = Inr (plugin_identity operation, rest)" for rest
  proof (cases "plugin_identity operation")
    case None
    with i have "identity_field = be32 0" by (simp add: write_plugin_u32_def)
    with None show ?thesis by (simp add: read_plugin_field_def)
  next
    case (Some v)
    with i utf8 show ?thesis by (simp add: read_plugin_field_frame operation_utf8_def)
  qed
  have byte: "read_plugin_byte (char_of (plugin_code operation) # rest) = Inr (plugin_code operation, rest)" for rest
    unfolding read_plugin_byte_def read_exact_def using plugin_code_byte [of operation] by simp
  have n: "unat (word_of_nat (length (plugin_recipients operation)) :: 32 word) = length (plugin_recipients operation)"
    using count by (intro unat_length_word) (simp add: MAX_PLUGIN_RECIPIENTS_def)
  have recipients: "read_plugin_recipients (length (plugin_recipients operation)) (concat frames @ input)
      = Inr (plugin_recipients operation, input)"
    using f utf8 by (intro read_plugin_recipients_frame) (simp_all add: operation_utf8_def)
  have "1 \<le> plugin_code operation \<and> plugin_code operation \<le> 5" by (cases operation) simp_all
  then have "run_plugin_worker_protocol api age rng stream =
     (if plugin_code operation = 1 then encrypt_direct api age rng input (plugin_recipients operation)
     else
       and_then (ok_or (plugin_identity operation) CryptoPlugin) (\<lambda>identity.
       if plugin_code operation = 2 then
         and_then (parse_identity api age identity) (\<lambda>parsed.
         decrypt_with_identity age [input] parsed False)
       else if plugin_code operation = 3 then
         rekey_direct api age rng [input] identity (plugin_recipients operation)
       else if plugin_code operation = 4 then
         and_then (parse_migration_identity api age identity) (\<lambda>parsed.
         rekey_direct_with_identity api age rng [input] parsed (plugin_recipients operation) True)
       else
         and_then (parse_migration_identity api age identity) (\<lambda>parsed.
         decrypt_with_identity age [input] parsed True)))"
    using count unfolding run_plugin_worker_protocol_def stream
    by (simp add: byte ident n recipients del: One_nat_def)
  then show ?thesis by (cases operation) (simp_all add: direct_operation_def)
qed

section \<open>Rekeying is decrypting, then encrypting\<close>

lemma copy_plaintext_Inr:
  "copy_plaintext opened = Inr p \<longleftrightarrow> opened = (p, True) \<and> length p \<le> MAX_SECRET_BYTES"
  by (cases opened) (auto simp: copy_plaintext_def)

lemma rekey_decrypt_encrypt:
  "rekey_direct_with_identity api age rng input identity recipients legacy = Inr c \<longleftrightarrow>
     (\<exists>p. decrypt_with_identity age input identity legacy = Inr p \<and> encrypt_direct api age rng p recipients = Inr c)"
  by (auto simp: rekey_direct_with_identity_def decrypt_with_identity_def encrypt_direct_def copy_plaintext_Inr)

section \<open>SSH RSA is for migration only\<close>

lemma parse_recipient_normal:
  "parse_recipient api age r = Inr p \<Longrightarrow> is_ok (normalize_recipient api r)"
  by (auto simp: parse_recipient_def normalize_recipient_def normalize_recipient_inner_def
      split: option.splits prod.splits if_splits)

lemma encrypt_direct_recipients:
  "encrypt_direct api age rng input recipients = Inr c \<Longrightarrow>
     recipients \<noteq> [] \<and> (\<forall>r \<in> set recipients. is_ok (normalize_recipient api r)) \<and> length input \<le> MAX_SECRET_BYTES"
  by (auto simp: encrypt_direct_def map_result_eq_Inr list_all2_conv_all_nth in_set_conv_nth
      dest!: parse_recipient_normal)

section \<open>The isolated operation\<close>

lemma crypto_copy_bounded_eq:
  "[] \<notin> set input \<Longrightarrow> limit < 2 ^ 64 \<Longrightarrow> copied \<le> limit \<Longrightarrow>
   crypto_copy_bounded input limit copied written =
     (if copied + length (concat input) \<le> limit then Inr (written @ concat input) else Inl CryptoInputTooLarge)"
proof (induction input limit copied written rule: crypto_copy_bounded.induct)
  case (1 input limit copied written)
  obtain piece rest where r: "read_some (32 * 1024) input = (piece, rest)" by force
  from read_some_pieces [OF this "1.prems"(1)] have
    whole: "concat input = piece @ concat rest" "[] \<notin> set rest" "piece = [] \<longleftrightarrow> input = []" by auto
  show ?case
  proof (cases "piece = [] \<or> limit < copied + length piece")
    case True
    with r whole "1.prems" show ?thesis by (subst crypto_copy_bounded.simps) (auto split: if_splits)
  next
    case False
    with r whole "1.prems" "1.IH" [OF r [symmetric]] show ?thesis
      by (subst crypto_copy_bounded.simps) auto
  qed
qed

lemma output_limit_word: "output_limit operation < 2 ^ 64"
  by (cases operation) (simp_all add: MAX_SECRET_BYTES_def MAX_PLUGIN_CIPHERTEXT_BYTES_def)

text \<open>The worker process runs the protocol and writes its result.\<close>

definition worker_runs :: "age_api \<Rightarrow> age_engine \<Rightarrow> nat \<Rightarrow> plugin_env \<Rightarrow> bool" where
  "worker_runs api age rng env \<longleftrightarrow> (\<forall>directories environment stream. \<exists>pieces.
     pe_worker env directories environment stream
       = Some (pieces, is_ok (run_plugin_worker_protocol api age rng stream))
     \<and> [] \<notin> set pieces
     \<and> (\<forall>out. run_plugin_worker_protocol api age rng stream = Inr out \<longrightarrow> concat pieces = out))"

lemma run_plugin_operation_eq:
  assumes worker: "worker_runs api age rng env" and utf8: "operation_utf8 operation"
    and dirs: "plugin_binary_directories api env operation = Inr directories"
    and request: "write_plugin_request operation input = Inr stream"
  shows "run_plugin_operation api env operation input =
    (case direct_operation api age rng operation [input] of
       Inr out \<Rightarrow> if length out \<le> output_limit operation then Inr out else Inl CryptoPlugin
     | Inl _ \<Rightarrow> Inl CryptoPlugin)"
proof -
  let ?environment = "(''NIX_SEAL_PLUGIN_WORKER'', ''1'') # copy_plugin_environment env"
  let ?run = "direct_operation api age rng operation [input]"
  note run = worker_runs_request [OF request utf8, of api age rng]
  from worker [unfolded worker_runs_def, rule_format, of directories ?environment stream]
  obtain pieces where
    p: "pe_worker env directories ?environment stream = Some (pieces, is_ok ?run)" "[] \<notin> set pieces"
      "\<And>out. ?run = Inr out \<Longrightarrow> concat pieces = out"
    unfolding run by (elim exE conjE) simp
  have copy: "crypto_copy_bounded pieces (output_limit operation) 0 [] =
      (if length (concat pieces) \<le> output_limit operation then Inr (concat pieces) else Inl CryptoInputTooLarge)"
    using crypto_copy_bounded_eq [OF p(2) output_limit_word, of 0 operation "[]"] by simp
  show ?thesis
  proof (cases ?run)
    case (Inl e)
    with dirs request p(1) show ?thesis
      by (simp add: run_plugin_operation_def split: sum.split)
  next
    case (Inr out)
    with dirs request p copy show ?thesis by (auto simp: run_plugin_operation_def)
  qed
qed

lemma find_plugin_directory_store:
  assumes "find_plugin_directory env directories name = Inr d"
  shows "\<exists>directory canonical. directory \<in> set directories
    \<and> pe_canonicalize env (path_join directory (''age-plugin-'' @ name)) = Some canonical
    \<and> plugin_executable env canonical \<and> canonical_parent canonical = Some d"
proof -
  from assms obtain canonical where "canonical_parent canonical = Some d"
    and found: "List.find (plugin_executable env) (List.map_filter (\<lambda>directory.
      pe_canonicalize env (path_join directory (''age-plugin-'' @ name))) directories) = Some canonical"
    by (auto simp: find_plugin_directory_def split: option.splits)
  moreover from found have "plugin_executable env canonical"
    and "canonical \<in> set (List.map_filter (\<lambda>directory.
      pe_canonicalize env (path_join directory (''age-plugin-'' @ name))) directories)"
    by (auto simp: find_Some_iff)
  ultimately show ?thesis by (auto simp: map_filter_def)
qed

lemma plugin_directories_safe:
  assumes "plugin_binary_directories api env operation = Inr directories"
  shows "directories \<noteq> [] \<and> (\<forall>d \<in> set directories. \<exists>name canonical. name \<in> set (plugin_names api operation)
    \<and> canonical_parent canonical = Some d \<and> plugin_executable env canonical)"
proof -
  from assms obtain path ds where
    names: "remdups (plugin_names api operation) \<noteq> []"
    and ds: "map_result (find_plugin_directory env (split_on (CHR '':'') path)) (remdups (plugin_names api operation)) = Inr ds"
    and d: "directories = remdups ds"
    by (auto simp: plugin_binary_directories_def plugin_binary_directories_from_path_def Let_def split: if_splits)
  from ds have all: "list_all2 (\<lambda>name d. find_plugin_directory env (split_on (CHR '':'') path) name = Inr d)
      (remdups (plugin_names api operation)) ds" by (simp add: map_result_eq_Inr)
  then have "ds \<noteq> []" using names by (auto simp: list_all2_Cons1)
  moreover have "\<exists>name canonical. name \<in> set (plugin_names api operation)
    \<and> canonical_parent canonical = Some x \<and> plugin_executable env canonical" if "x \<in> set ds" for x
  proof -
    from that obtain i where i: "i < length ds" "ds ! i = x" by (auto simp: in_set_conv_nth)
    with all have "i < length (remdups (plugin_names api operation))"
      and found: "find_plugin_directory env (split_on (CHR '':'') path) (remdups (plugin_names api operation) ! i) = Inr x"
      by (auto simp: list_all2_conv_all_nth)
    then have "remdups (plugin_names api operation) ! i \<in> set (plugin_names api operation)"
      using nth_mem by fastforce
    with find_plugin_directory_store [OF found] show ?thesis by blast
  qed
  ultimately show ?thesis by (simp add: d)
qed

end
