(* ===== verification/Activate.thy ===== *)
theory Activate
  imports Generation_Switch Age_Operations
begin

text \<open>
  Activation, \<open>activate\<close> of \<open>crates/nix-seal-runtime/src/lib.rs\<close>: every artifact
  is read and authenticated and every template is read and checked before the runtime root is
  touched; then the files are decrypted and rendered in a private directory of the root, which
  becomes the new generation or is dropped because it equals the active one.

  The files outside the root are read once: a source is a function from paths to contents.
  Opening a source, the accounts of the system, the checks on the runtime root and its
  ancestors, and the name of the private directory are given by a record.
\<close>

section \<open>Requests\<close>

record activation_artifact =
  av_ciphertext :: string
  av_envelope :: string
  av_secret_id :: id
  av_source_ciphertext_hash :: string
  av_artifact_policy_hash :: string
  av_artifact_generation :: "64 word"
  av_approval_signers :: "(id, string) btree_map"
  av_approval_threshold :: nat
  av_mode :: "32 word"
  av_owner :: string
  av_group :: string
  av_compatibility_symlink :: "string option"

record activation_template =
  at_source :: string
  at_template_id :: id
  at_placeholders :: placeholders
  at_mode :: "32 word"
  at_owner :: string
  at_group :: string

record activation_request =
  rq_runtime_root :: string
  rq_runtime_generation :: "64 word option"
  rq_plan_hash :: string
  rq_target_id :: id
  rq_recipient_fingerprint :: string
  rq_tool_version :: string
  rq_now :: "64 word"
  rq_allowed_clock_skew :: "64 word"
  rq_target_identity :: string
  rq_artifacts :: "activation_artifact list"
  rq_templates :: "activation_template list"
  rq_post_switch :: "post_switch_spec option"

record activation_result =
  ar_generation :: string
  ar_secret_count :: nat
  ar_template_count :: nat
  ar_changed :: bool

record ('ssh, 'sig) activation_env =
  ve_runtime :: runtime_env
  ve_open :: "string \<Rightarrow> runtime_error + bytes"
  ve_user :: "string \<Rightarrow> nat option"
  ve_group :: "string \<Rightarrow> nat option"
  ve_envelope_json :: "bytes \<Rightarrow> signed_envelope option"
  ve_keys :: "('ssh, 'sig) key_api"
  ve_json :: payload_json
  ve_age_api :: age_api
  ve_age :: age_engine
  ve_plugins :: plugin_env
  ve_base64 :: "bytes \<Rightarrow> string"
  ve_root_ok :: "runtime_error + unit"
  ve_temporary :: string

text \<open>
  \<open>ve_open\<close> is \<open>open_regular_nofollow\<close> on a source path with the content of the
  file; \<open>ve_root_ok\<close> the checks of \<open>Generation::begin\<close> on the root and its
  ancestors; \<open>ve_temporary\<close> the free name \<open>tempfile\<close> chooses.
\<close>

definition MAX_CIPHERTEXT_BYTES :: nat where
  "MAX_CIPHERTEXT_BYTES = 70 * 1024 * 1024"

definition MAX_ENVELOPE_BYTES :: nat where
  "MAX_ENVELOPE_BYTES = 2 * 1024 * 1024"

section \<open>Authentication\<close>

record prepared_artifact =
  pa_ciphertext :: bytes
  pa_secret_id :: id
  pa_mode :: "32 word"
  pa_uid :: nat
  pa_gid :: nat
  pa_compatibility :: "string option"

record prepared_template =
  pt_source :: bytes
  pt_output_id :: id
  pt_placeholders :: placeholders
  pt_mode :: "32 word"
  pt_uid :: nat
  pt_gid :: nat

definition resolve_user :: "('ssh, 'sig) activation_env \<Rightarrow> string \<Rightarrow> runtime_error + nat" where
  "resolve_user env name = ok_or (ve_user env name) RUnknownAccount"

definition resolve_group :: "('ssh, 'sig) activation_env \<Rightarrow> string \<Rightarrow> runtime_error + nat" where
  "resolve_group env name = ok_or (ve_group env name) RUnknownAccount"

definition expected_artifact :: "activation_request \<Rightarrow> activation_artifact \<Rightarrow> string \<Rightarrow> expected_binding" where
  "expected_artifact request a artifact_hash =
     \<lparr>eb_tool_version = rq_tool_version request, eb_artifact_policy_hash = av_artifact_policy_hash a,
      eb_source_ciphertext_hash = av_source_ciphertext_hash a, eb_artifact_ciphertext_hash = artifact_hash,
      eb_target_id = rq_target_id request, eb_secret_id = av_secret_id a,
      eb_recipient_fingerprint = rq_recipient_fingerprint request,
      eb_artifact_generation = av_artifact_generation a,
      eb_now = rq_now request, eb_allowed_clock_skew = rq_allowed_clock_skew request\<rparr>"

definition artifact_trusted ::
  "('ssh, 'sig) activation_env \<Rightarrow> activation_artifact \<Rightarrow> runtime_error + 'ssh trusted_keys" where
  "artifact_trusted env a =
     fold_result (\<lambda>trusted encoded.
       and_then (map_err RManifest (insert_encoded (ve_keys env) trusted encoded)) (\<lambda>(trusted', _). Inr trusted'))
       bt_empty (bt_values (av_approval_signers a))"

record prepare_state =
  pr_secret_ids :: "id set"
  pr_output_ids :: "string set"
  pr_compatibility :: "string set"
  pr_prepared :: "prepared_artifact list"

definition prepare_artifact ::
  "('ssh, 'sig) activation_env \<Rightarrow> activation_request \<Rightarrow> prepare_state \<Rightarrow> activation_artifact
    \<Rightarrow> runtime_error + prepare_state" where
  "prepare_artifact env request st a =
     and_then (validate_mode (av_mode a)) (\<lambda>_.
     and_then (check (av_secret_id a \<notin> pr_secret_ids st \<and> as_str (av_secret_id a) \<notin> pr_output_ids st) RInvalidSpec) (\<lambda>_.
     and_then (check (case av_compatibility_symlink a of
         None \<Rightarrow> True
       | Some path \<Rightarrow> valid_compatibility_path path (rq_runtime_root request) \<and> path \<notin> pr_compatibility st)
       RCompatibilityPath) (\<lambda>_.
     and_then (resolve_user env (av_owner a)) (\<lambda>uid.
     and_then (resolve_group env (av_group a)) (\<lambda>gid.
     and_then (ve_open env (av_ciphertext a)) (\<lambda>ciphertext.
     and_then (hash_bounded (ve_runtime env) ciphertext MAX_CIPHERTEXT_BYTES) (\<lambda>artifact_hash.
     and_then (ve_open env (av_envelope a)) (\<lambda>envelope_file.
     and_then (runtime_read_bounded envelope_file MAX_ENVELOPE_BYTES) (\<lambda>envelope_bytes.
     and_then (ok_or (ve_envelope_json env envelope_bytes) REnvelope) (\<lambda>envelope.
     and_then (artifact_trusted env a) (\<lambda>trusted.
     and_then (map_err RManifest (verify (ve_keys env) (ve_json env) envelope trusted
       (av_approval_threshold a) (expected_artifact request a artifact_hash))) (\<lambda>_.
     Inr \<lparr>pr_secret_ids = insert (av_secret_id a) (pr_secret_ids st),
       pr_output_ids = insert (as_str (av_secret_id a)) (pr_output_ids st),
       pr_compatibility = (case av_compatibility_symlink a of None \<Rightarrow> pr_compatibility st
         | Some path \<Rightarrow> insert path (pr_compatibility st)),
       pr_prepared = pr_prepared st @ [\<lparr>pa_ciphertext = ciphertext, pa_secret_id = av_secret_id a,
         pa_mode = av_mode a, pa_uid = uid, pa_gid = gid,
         pa_compatibility = av_compatibility_symlink a\<rparr>]\<rparr>))))))))))))"

definition prepare_artifacts ::
  "('ssh, 'sig) activation_env \<Rightarrow> activation_request \<Rightarrow> runtime_error + prepare_state" where
  "prepare_artifacts env request =
     fold_result (prepare_artifact env request)
       \<lparr>pr_secret_ids = {}, pr_output_ids = {}, pr_compatibility = {}, pr_prepared = []\<rparr> (rq_artifacts request)"

definition prepare_template ::
  "('ssh, 'sig) activation_env \<Rightarrow> id set \<Rightarrow> string set \<times> prepared_template list \<Rightarrow> activation_template
    \<Rightarrow> runtime_error + string set \<times> prepared_template list" where
  "prepare_template env secret_ids = (\<lambda>(output_ids, prepared) t.
     and_then (validate_mode (at_mode t)) (\<lambda>_.
     and_then (check (\<not> (\<not> is_normalized_absolute_path (at_source t)
         \<or> at_placeholders t = bt_empty \<or> 256 < bt_len (at_placeholders t)
         \<or> (\<exists>(name, p) \<in> set (items (at_placeholders t)).
              \<not> is_runtime_placeholder_name name \<or> ph_secret p \<notin> secret_ids))) RInvalidSpec) (\<lambda>_.
     and_then (template_output_id (at_template_id t)) (\<lambda>output_id.
     and_then (check (as_str output_id \<notin> output_ids) RInvalidSpec) (\<lambda>_.
     and_then (ve_open env (at_source t)) (\<lambda>file.
     and_then (runtime_read_bounded file MAX_TEMPLATE_SOURCE_BYTES) (\<lambda>source.
     and_then (validate_template_source source (at_placeholders t)) (\<lambda>_.
     and_then (resolve_user env (at_owner t)) (\<lambda>uid.
     and_then (resolve_group env (at_group t)) (\<lambda>gid.
     Inr (insert (as_str output_id) output_ids,
       prepared @ [\<lparr>pt_source = source, pt_output_id = output_id, pt_placeholders = at_placeholders t,
         pt_mode = at_mode t, pt_uid = uid, pt_gid = gid\<rparr>])))))))))))"

definition prepare_templates ::
  "('ssh, 'sig) activation_env \<Rightarrow> activation_template list \<Rightarrow> id set \<Rightarrow> string set
    \<Rightarrow> runtime_error + prepared_template list" where
  "prepare_templates env ts secret_ids output_ids =
     and_then (fold_result (prepare_template env secret_ids) (output_ids, []) ts) (\<lambda>(_, prepared).
     Inr prepared)"

section \<open>The private generation\<close>

definition LOCK_FILE :: string where
  "LOCK_FILE = ''.activate.lock''"

definition open_activation_lock :: "runtime_env \<Rightarrow> runtime_root \<Rightarrow> runtime_error + bool" where
  "open_activation_lock env root =
     (case bt_get (rr_entries root) LOCK_FILE of
        None \<Rightarrow> Inr True
      | Some (RNode (DFile f)) \<Rightarrow>
          if gf_nlink f = 1 \<and> gf_uid f = re_euid env then Inr False else Inl RUnsafeSource
      | Some (RNode (DDir _)) \<Rightarrow> Inl (RIo OtherIo)
      | Some (RNode DOther) \<Rightarrow> Inl RUnsafeSource
      | Some (RLink _) \<Rightarrow> Inl RUnsafeSource)"

definition generation_begin :: "('ssh, 'sig) activation_env \<Rightarrow> unit root_op" where
  "generation_begin env =
     t_bind (t_get (\<lambda>_. ve_root_ok env)) (\<lambda>_.
     t_bind (t_get (open_activation_lock (ve_runtime env))) (\<lambda>create.
     t_bind (if create then t_modify (put_entry LOCK_FILE (secret_file (ve_runtime env) [])) else t_return ()) (\<lambda>_.
     t_modify (put_entry (ve_temporary env) (RNode (DDir []))))))"

text \<open>
  Creating a file in the private directory and filling it: the empty file first, then the
  bytes, which are computed once the file exists.
\<close>

definition stage_file ::
  "('ssh, 'sig) activation_env \<Rightarrow> dtree \<Rightarrow> id \<Rightarrow> 32 word \<Rightarrow> nat \<Rightarrow> nat \<Rightarrow> runtime_error + bytes \<Rightarrow> dtree root_op" where
  "stage_file env candidate i mode uid gid content =
     t_bind (t_get (\<lambda>_. create_file_owned (ve_runtime env) candidate i mode uid gid [])) (\<lambda>empty.
     t_bind (t_modify (put_entry (ve_temporary env) (RNode empty))) (\<lambda>_.
     t_bind (t_get (\<lambda>_. and_then content (create_file_owned (ve_runtime env) candidate i mode uid gid))) (\<lambda>full.
     t_bind (t_modify (put_entry (ve_temporary env) (RNode full))) (\<lambda>_.
     t_return full))))"

fun stage_artifacts ::
  "('ssh, 'sig) activation_env \<Rightarrow> string \<Rightarrow> dtree \<Rightarrow> prepared_artifact list \<Rightarrow> dtree root_op" where
  "stage_artifacts env identity candidate [] = t_return candidate"
| "stage_artifacts env identity candidate (a # as) =
     t_bind (stage_file env candidate (pa_secret_id a) (pa_mode a) (pa_uid a) (pa_gid a)
       (map_err RCrypto (decrypt (ve_age_api env) (ve_age env) (ve_plugins env)
         (file_reader (pa_ciphertext a)) identity))) (\<lambda>candidate'.
     stage_artifacts env identity candidate' as)"

definition render_from ::
  "('ssh, 'sig) activation_env \<Rightarrow> dtree \<Rightarrow> prepared_template \<Rightarrow> runtime_error + bytes" where
  "render_from env candidate t =
     render_template_into (pt_source t) (pt_placeholders t) (\<lambda>written p.
       and_then (tree_open candidate (id_path (ph_secret p))) (\<lambda>f.
       render_secret (ve_base64 env) (ph_encoding p) (gf_content f) written))"

fun stage_templates :: "('ssh, 'sig) activation_env \<Rightarrow> dtree \<Rightarrow> prepared_template list \<Rightarrow> dtree root_op" where
  "stage_templates env candidate [] = t_return candidate"
| "stage_templates env candidate (t # ts) =
     t_bind (stage_file env candidate (pt_output_id t) (pt_mode t) (pt_uid t) (pt_gid t)
       (render_from env candidate t)) (\<lambda>candidate'.
     stage_templates env candidate' ts)"

definition compatibility_of :: "prepared_artifact list \<Rightarrow> (string \<times> id) list" where
  "compatibility_of as =
     List.map_filter (\<lambda>a. map_option (\<lambda>path. (path, pa_secret_id a)) (pa_compatibility a)) as"

definition publish ::
  "('ssh, 'sig) activation_env \<Rightarrow> activation_request \<Rightarrow> dtree \<Rightarrow> id list \<Rightarrow> (string \<times> id) list \<Rightarrow> activation_result root_op" where
  "publish env request candidate outputs compatibility =
     (let finished = (\<lambda>generation changed. \<lparr>ar_generation = generation,
        ar_secret_count = length (rq_artifacts request), ar_template_count = length (rq_templates request),
        ar_changed = changed\<rparr>) in
     t_bind (t_get (\<lambda>root. matching_current (ve_runtime env) root candidate outputs)) (\<lambda>matching.
     case matching of
       Some current \<Rightarrow>
         t_bind (ensure_compatibility_symlinks (ve_runtime env) compatibility) (\<lambda>compatibility_changed.
         t_bind (finish_unchanged (ve_runtime env) current (rq_plan_hash request) (rq_post_switch request)) (\<lambda>_.
         t_bind (t_get (\<lambda>_. generation_number current)) (\<lambda>n.
         t_bind (prune_superseded_generations n) (\<lambda>_.
         t_return (finished current (compatibility_changed \<noteq> []))))))
     | None \<Rightarrow>
         t_bind (commit_and_switch_optional (ve_runtime env) (ve_temporary env)
           (map_option unat (rq_runtime_generation request)) (rq_plan_hash request) (rq_post_switch request)
           compatibility) (\<lambda>generation.
         t_return (finished generation True))))"

text \<open>The private directory is removed when \<open>activate\<close> returns, unless it was renamed.\<close>

definition activate ::
  "('ssh, 'sig) activation_env \<Rightarrow> activation_request \<Rightarrow> activation_result root_op" where
  "activate env request =
     t_bind (t_get (\<lambda>_. check (\<not> (rq_runtime_generation request = Some 0
         \<or> rq_artifacts request = [] \<or> 10000 < length (rq_artifacts request)
         \<or> 1024 < length (rq_templates request))) RInvalidDestination)) (\<lambda>_.
     t_bind (t_get (\<lambda>_. prepare_artifacts env request)) (\<lambda>st.
     t_bind (t_get (\<lambda>_. prepare_templates env (rq_templates request) (pr_secret_ids st) (pr_output_ids st))) (\<lambda>prepared_templates.
     t_bind (generation_begin env) (\<lambda>_.
     t_finally
       (t_bind (stage_artifacts env (rq_target_identity request) (DDir []) (pr_prepared st)) (\<lambda>candidate.
        t_bind (stage_templates env candidate prepared_templates) (\<lambda>candidate'.
        publish env request candidate'
          (map pa_secret_id (pr_prepared st) @ map pt_output_id prepared_templates)
          (compatibility_of (pr_prepared st)))))
       (t_modify (drop_entry (ve_temporary env)))))))"

end
