(* ===== verification/Activate_Lemmas.thy ===== *)
theory Activate_Lemmas
  imports Activate
begin

text \<open>
  Lemmas about activation: files of the private directory, what the preparation establishes,
  and the contract of each phase.
\<close>

section \<open>Files of a tree\<close>

lemma map_of_replace_entry:
  "map_of (replace_entry name t es) c = (if c = name \<and> map_of es c \<noteq> None then Some t else map_of es c)"
  unfolding replace_entry_def by (induction es) auto

lemma map_of_snoc: "map_of (es @ [(n, t)]) c = (case map_of es c of None \<Rightarrow> if c = n then Some t else None | Some x \<Rightarrow> Some x)"
  by (auto simp: map_add_def split: option.splits)

lemma tree_create_opens:
  assumes "tree_create t path f = Inr t'" and "gf_nlink f = 1"
  shows "tree_open t' path = Inr f"
  using assms
  by (induction t path f arbitrary: t' rule: tree_create.induct)
    (auto simp: map_of_replace_entry map_of_snoc split: option.splits dtree.splits if_splits)

lemma tree_create_keeps:
  assumes "tree_create t path f = Inr t'" and "tree_open t q = Inr g"
  shows "tree_open t' q = Inr g"
  using assms
proof (induction t path f arbitrary: t' q rule: tree_create.induct)
  case (1 es leaf f)
  then show ?case by (cases q) (auto simp: map_of_snoc split: option.splits if_splits)
next
  case (2 es c d cs f)
  then show ?case
    by (cases q) (auto simp: map_of_snoc map_of_replace_entry split: option.splits dtree.splits if_splits)
qed auto

lemma tree_create_dir: "tree_create t path f = Inr t' \<Longrightarrow> \<exists>es. t' = DDir es"
  by (induction t path f rule: tree_create.induct) (auto split: option.splits dtree.splits if_splits)

definition shows_file :: "dtree \<Rightarrow> id \<Rightarrow> 32 word \<Rightarrow> nat \<Rightarrow> nat \<Rightarrow> bytes \<Rightarrow> bool" where
  "shows_file tree i mode uid gid content \<longleftrightarrow> (\<exists>f. tree_open tree (id_path i) = Inr f
     \<and> gf_uid f = uid \<and> gf_gid f = gid \<and> gf_mode f AND 0x1FF = mode AND 0x1C0 \<and> gf_content f = content)"

definition extends :: "dtree \<Rightarrow> dtree \<Rightarrow> bool" where
  "extends t t' \<longleftrightarrow> (\<forall>q g. tree_open t q = Inr g \<longrightarrow> tree_open t' q = Inr g)"

lemma extends_trans: "extends a b \<Longrightarrow> extends b c \<Longrightarrow> extends a c"
  by (simp add: extends_def)

lemma extends_refl [simp]: "extends t t"
  by (simp add: extends_def)

lemma shows_file_extends: "shows_file t i mode uid gid content \<Longrightarrow> extends t t' \<Longrightarrow> shows_file t' i mode uid gid content"
  by (auto simp: shows_file_def extends_def)

lemma create_file_owned_result:
  assumes "create_file_owned env t i mode uid gid content = Inr t'"
  shows "shows_file t' i mode uid gid content" "extends t t'" "\<exists>es. t' = DDir es"
proof -
  from assms obtain t1 where "tree_create t (id_path i)
      \<lparr>gf_uid = uid, gf_gid = gid, gf_mode = mode AND 0x1C0, gf_nlink = 1, gf_content = content\<rparr> = Inr t1" "t' = t1"
    by (auto simp: create_file_owned_def)
  note c = this(1) [folded this(2)]
  have "(mode AND 0x1C0) AND 0x1FF = mode AND 0x1C0" by (simp add: and.assoc)
  with tree_create_opens [OF c] show "shows_file t' i mode uid gid content" by (simp add: shows_file_def)
  from tree_create_keeps [OF c] show "extends t t'" by (simp add: extends_def)
  from tree_create_dir [OF c] show "\<exists>es. t' = DDir es" .
qed

section \<open>Staging\<close>

definition in_private :: "('ssh, 'sig) activation_env \<Rightarrow> runtime_root \<Rightarrow> dtree \<Rightarrow> runtime_root \<Rightarrow> bool" where
  "in_private env s0 candidate s \<longleftrightarrow> same_except {ve_temporary env, LOCK_FILE} s0 s
     \<and> bt_get (rr_entries s) (ve_temporary env) = Some (RNode candidate) \<and> (\<exists>es. candidate = DDir es)"

abbreviation untouched :: "('ssh, 'sig) activation_env \<Rightarrow> runtime_root \<Rightarrow> runtime_root \<Rightarrow> bool" where
  "untouched env s0 \<equiv> same_except {ve_temporary env, LOCK_FILE} s0"

lemma generation_begin_ok:
  "run_ok (untouched env s0) (same_except {} s0) (generation_begin env) (\<lambda>_. in_private env s0 (DDir [])) (\<lambda>_. untouched env s0)"
  unfolding generation_begin_def
  apply (rule run_ok_bind [where Q = "\<lambda>_. same_except {} s0"], rule run_ok_get)
    apply (simp, blast intro: same_except_mono)
  apply (rule run_ok_bind [where Q = "\<lambda>_. same_except {} s0"], rule run_ok_get)
    apply (simp, blast intro: same_except_mono)
  apply (rule run_ok_bind [where Q = "\<lambda>_. untouched env s0"])
   apply (auto intro!: run_ok_modify run_ok_return simp: same_except_def in_private_def)
  done

lemma stage_file_ok:
  "run_ok (untouched env s0) (in_private env s0 t) (stage_file env t i mode uid gid content)
     (\<lambda>t' s. in_private env s0 t' s \<and> extends t t' \<and> (\<exists>bs. content = Inr bs \<and> shows_file t' i mode uid gid bs))
     (\<lambda>_. untouched env s0)"
  unfolding stage_file_def
  apply (rule run_ok_bind [where Q = "\<lambda>_. untouched env s0"], rule run_ok_get)
    apply (simp_all add: in_private_def)
  apply (rule run_ok_bind [where Q = "\<lambda>_. untouched env s0"], rule run_ok_modify, simp)
  apply (rule run_ok_bind [where Q = "\<lambda>t' s. untouched env s0 s \<and>
     (\<exists>bs. content = Inr bs \<and> create_file_owned (ve_runtime env) t i mode uid gid bs = Inr t')"], rule run_ok_get)
    apply simp_all
  apply (rule run_ok_bind [where Q = "\<lambda>_ s. in_private env s0 t' s \<and> extends t t' \<and>
     (\<exists>bs. content = Inr bs \<and> shows_file t' i mode uid gid bs)" for t'])
   apply (rule run_ok_modify)
   apply (auto simp: in_private_def dest: create_file_owned_result)[1]
  apply (rule run_ok_return, auto simp: in_private_def)
  done

definition artifact_shown :: "('ssh, 'sig) activation_env \<Rightarrow> string \<Rightarrow> dtree \<Rightarrow> prepared_artifact \<Rightarrow> bool" where
  "artifact_shown env identity tree a \<longleftrightarrow> (\<exists>plain.
     decrypt (ve_age_api env) (ve_age env) (ve_plugins env) (file_reader (pa_ciphertext a)) identity = Inr plain
     \<and> shows_file tree (pa_secret_id a) (pa_mode a) (pa_uid a) (pa_gid a) plain)"

definition template_shown :: "('ssh, 'sig) activation_env \<Rightarrow> (dtree \<Rightarrow> bool) \<Rightarrow> dtree \<Rightarrow> prepared_template \<Rightarrow> bool" where
  "template_shown env ok tree t \<longleftrightarrow> (\<exists>base out. ok base \<and> render_from env base t = Inr out
     \<and> shows_file tree (pt_output_id t) (pt_mode t) (pt_uid t) (pt_gid t) out)"

lemma artifact_shown_extends: "artifact_shown env identity t a \<Longrightarrow> extends t t' \<Longrightarrow> artifact_shown env identity t' a"
  unfolding artifact_shown_def using shows_file_extends by blast

lemma template_shown_extends: "template_shown env ok t a \<Longrightarrow> extends t t' \<Longrightarrow> template_shown env ok t' a"
  unfolding template_shown_def using shows_file_extends by blast

lemma stage_artifacts_ok:
  "run_ok (untouched env s0) (in_private env s0 t) (stage_artifacts env identity t as)
     (\<lambda>t' s. in_private env s0 t' s \<and> extends t t' \<and> (\<forall>a \<in> set as. artifact_shown env identity t' a))
     (\<lambda>_. untouched env s0)"
proof (induction "as" arbitrary: t)
  case Nil
  show ?case by (auto intro!: run_ok_return)
next
  case (Cons a as)
  let ?content = "map_err RCrypto (decrypt (ve_age_api env) (ve_age env) (ve_plugins env)
    (file_reader (pa_ciphertext a)) identity)"
  show ?case
    unfolding stage_artifacts.simps
  proof (rule run_ok_bind [OF stage_file_ok])
    fix t1
    let ?fact = "extends t t1 \<and> artifact_shown env identity t1 a"
    have "run_ok (untouched env s0) (\<lambda>s. in_private env s0 t1 s \<and> ?fact) (stage_artifacts env identity t1 as)
      (\<lambda>t' s. (in_private env s0 t' s \<and> extends t1 t' \<and> (\<forall>a \<in> set as. artifact_shown env identity t' a)) \<and> ?fact)
      (\<lambda>_ s. untouched env s0 s \<and> ?fact)"
      by (rule run_ok_frame [OF Cons.IH]) (simp add: keeps_def)
    then show "run_ok (untouched env s0)
      (\<lambda>s. in_private env s0 t1 s \<and> extends t t1
         \<and> (\<exists>bs. ?content = Inr bs \<and> shows_file t1 (pa_secret_id a) (pa_mode a) (pa_uid a) (pa_gid a) bs))
      (stage_artifacts env identity t1 as)
      (\<lambda>t' s. in_private env s0 t' s \<and> extends t t' \<and> (\<forall>a \<in> set (a # as). artifact_shown env identity t' a))
      (\<lambda>_. untouched env s0)"
      by (rule run_ok_weaken)
        (auto simp: artifact_shown_def intro: extends_trans shows_file_extends)
  qed
qed

lemma stage_templates_ok:
  assumes ok: "\<And>t t'. ok t \<Longrightarrow> extends t t' \<Longrightarrow> ok t'"
  shows "ok t \<Longrightarrow> run_ok (untouched env s0) (in_private env s0 t) (stage_templates env t ts)
     (\<lambda>t' s. in_private env s0 t' s \<and> extends t t' \<and> (\<forall>p \<in> set ts. template_shown env ok t' p))
     (\<lambda>_. untouched env s0)"
proof (induction ts arbitrary: t)
  case Nil
  show ?case by (auto intro!: run_ok_return)
next
  case (Cons p ts)
  show ?case
    unfolding stage_templates.simps
  proof (rule run_ok_bind [OF stage_file_ok], rule run_ok_point)
    fix t1 s1
    assume s1: "in_private env s0 t1 s1 \<and> extends t t1
      \<and> (\<exists>bs. render_from env t p = Inr bs \<and> shows_file t1 (pt_output_id p) (pt_mode p) (pt_uid p) (pt_gid p) bs)"
    then have shown: "template_shown env ok t1 p" using Cons.prems by (auto simp: template_shown_def)
    have "ok t1" using ok Cons.prems s1 by blast
    show "run_ok (untouched env s0) (\<lambda>s. s = s1) (stage_templates env t1 ts)
      (\<lambda>t' s. in_private env s0 t' s \<and> extends t t' \<and> (\<forall>q \<in> set (p # ts). template_shown env ok t' q))
      (\<lambda>_. untouched env s0)"
      by (rule run_ok_weaken [OF Cons.IH [OF \<open>ok t1\<close>]])
        (use s1 shown in \<open>auto intro: extends_trans template_shown_extends\<close>)
  qed
qed

section \<open>The unchanged generation\<close>

text \<open>The digest tells the contents of two files apart.\<close>

definition collision_free :: "runtime_env \<Rightarrow> bool" where
  "collision_free env \<longleftrightarrow> (\<forall>x y. re_hash env x = re_hash env y \<longrightarrow> x = y)"

lemma regular_files_equal_True:
  assumes "regular_files_equal env left lpath right rpath = Inr True" "collision_free env"
  shows "\<exists>l r. tree_open left lpath = Inr l \<and> tree_open right rpath = Inr r \<and> gf_uid l = gf_uid r
    \<and> gf_gid l = gf_gid r \<and> gf_mode l AND 0x1FF = gf_mode r AND 0x1FF \<and> gf_content l = gf_content r"
proof -
  from assms(1) obtain l where l: "tree_open left lpath = Inr l" by (auto simp: regular_files_equal_def)
  show ?thesis
  proof (cases "tree_open right rpath")
    case (Inl e)
    with assms(1) l show ?thesis
      by (simp add: regular_files_equal_def split: runtime_error.splits io_kind.splits)
  next
    case (Inr r)
    with assms l show ?thesis
      by (auto simp: regular_files_equal_def hash_bounded_def collision_free_def split: if_splits)
  qed
qed

lemma fold_equal_all:
  "fold_result (\<lambda>same i. if \<not> same then Inr False else f i) same is = Inr True \<Longrightarrow>
     same \<and> (\<forall>i \<in> set is. f i = Inr True)"
proof (induction "is" arbitrary: same)
  case (Cons i "is")
  show ?case
  proof (cases same)
    case True
    with Cons.prems obtain x where x: "f i = Inr x"
      "fold_result (\<lambda>same i. if \<not> same then Inr False else f i) x is = Inr True" by auto
    with Cons.IH [OF x(2)] True show ?thesis by simp
  next
    case False
    with Cons.prems Cons.IH [of False] show ?thesis by auto
  qed
qed auto

lemma current_generation_Some:
  assumes "current_generation root = Inr (Some (name, current))"
  shows "switched name current root \<and> (\<exists>es. current = DDir es)
    \<and> (\<exists>tail. strip_prefix name GENERATION_PREFIX = Some tail)"
  using assms
  by (auto simp: current_generation_def switched_def split: option.splits rnode.splits dtree.splits if_splits)

lemma matching_current_Some:
  assumes "matching_current env root candidate outputs = Inr (Some name)"
  shows "\<exists>current. current_generation root = Inr (Some (name, current))
    \<and> count_regular_files current = Inr (length outputs)
    \<and> (\<forall>i \<in> set outputs. regular_files_equal env candidate (id_path i) current (id_path i) = Inr True)"
proof -
  from assms obtain current where c: "current_generation root = Inr (Some (name, current))"
    "count_regular_files current = Inr (length outputs)"
    "fold_result (\<lambda>same i. if \<not> same then Inr False
       else regular_files_equal env candidate (id_path i) current (id_path i)) True outputs = Inr True"
    by (auto simp: matching_current_def split: option.splits if_splits)
  with fold_equal_all [OF c(3)] show ?thesis by blast
qed

lemma matching_shows_file:
  assumes "regular_files_equal env candidate (id_path i) current (id_path i) = Inr True" "collision_free env"
    and "shows_file candidate i mode uid gid content"
  shows "shows_file current i mode uid gid content"
  using regular_files_equal_True [OF assms(1,2)] assms(3) unfolding shows_file_def by fastforce

lemma finish_unchanged_frame [keeps_intros]:
  "PENDING_MARKER \<in> names \<Longrightarrow> keeps (same_except names s) (finish_unchanged env current plan_hash actions)"
  unfolding finish_unchanged_def by (cases actions) (auto intro!: keeps_intros)

lemma keeps_switched:
  assumes "\<And>s. keeps (same_except names s) m" "''current'' \<notin> names" "name \<notin> names"
  shows "keeps (switched name tree) m"
proof (rule keepsI)
  fix s s'
  assume "switched name tree s" "s' \<in> set (fst (m s))"
  with frame_states [OF assms(1)] switched_frame [OF _ assms(2,3)] show "switched name tree s'" by blast
qed

lemma current_generation_same:
  assumes "same_except names s s'" "\<And>n. n \<in> names \<Longrightarrow> strip_prefix n GENERATION_PREFIX = None \<and> n \<noteq> ''current''"
  shows "current_generation s' = current_generation s"
proof -
  have "''current'' \<notin> names" using assms(2) by blast
  moreover have "t \<notin> names" if "strip_prefix t GENERATION_PREFIX = Some tail" for t tail
    using assms(2) [of t] that by auto
  ultimately show ?thesis
    using assms(1) by (auto simp: current_generation_def same_except_def split: option.splits rnode.splits)
qed

section \<open>Publication\<close>

definition root_ready :: "('ssh, 'sig) activation_env \<Rightarrow> runtime_root \<Rightarrow> bool" where
  "root_ready env s \<longleftrightarrow> is_ok (current_generation s)
     \<and> strip_prefix (ve_temporary env) GENERATION_PREFIX = None \<and> ve_temporary env \<noteq> ''current''"

lemma lock_file_name [simp]: "strip_prefix LOCK_FILE GENERATION_PREFIX = None" "LOCK_FILE \<noteq> ''current''"
  by (simp_all add: LOCK_FILE_def strip_prefix_def GENERATION_PREFIX_def)

lemma untouched_ready:
  assumes "root_ready env s0" "untouched env s0 s"
  shows "current_generation s = current_generation s0" "active s = active s0" "root_ready env s"
proof -
  show c: "current_generation s = current_generation s0"
    by (rule current_generation_same [OF assms(2)]) (use assms(1) in \<open>auto simp: root_ready_def\<close>)
  with assms(1) show "root_ready env s" by (simp add: root_ready_def)
  have "{ve_temporary env, LOCK_FILE} \<inter> current_names s0 = {}"
    using current_names_ok [of s0] assms(1) by (fastforce simp: root_ready_def)
  with active_same [OF assms(2)] show "active s = active s0" .
qed

lemma in_private_staged:
  "root_ready env s0 \<Longrightarrow> in_private env s0 t s \<Longrightarrow> staged (ve_temporary env) t s"
  using untouched_ready [of env s0 s] by (auto simp: in_private_def staged_def root_ready_def)

text \<open>A generation with the right contents is active.\<close>

definition shows_generation :: "(dtree \<Rightarrow> bool) \<Rightarrow> runtime_root \<Rightarrow> bool" where
  "shows_generation ok s \<longleftrightarrow> (\<exists>name tree. switched name tree s \<and> (\<exists>es. tree = DDir es)
     \<and> strip_prefix name GENERATION_PREFIX \<noteq> None \<and> ok tree)"

definition seen_as :: "runtime_root \<Rightarrow> (dtree \<Rightarrow> bool) \<Rightarrow> runtime_root \<Rightarrow> bool" where
  "seen_as s0 ok s \<longleftrightarrow>
     active s = active s0 \<and> bt_get (rr_entries s) ''current'' = bt_get (rr_entries s0) ''current''
     \<or> shows_generation ok s"

lemma shows_generationI:
  "switched name (DDir es) s \<Longrightarrow> strip_prefix name GENERATION_PREFIX = Some tail \<Longrightarrow> ok (DDir es) \<Longrightarrow> shows_generation ok s"
  unfolding shows_generation_def by blast

lemma shows_generation_active: "shows_generation ok s \<Longrightarrow> \<exists>t. active s = Some t \<and> ok t"
  by (auto simp: shows_generation_def dest: active_switched)

lemma untouched_current:
  assumes "root_ready env s0" "untouched env s0 s"
  shows "bt_get (rr_entries s) ''current'' = bt_get (rr_entries s0) ''current''"
proof -
  have "''current'' \<notin> {ve_temporary env, LOCK_FILE}" using assms(1) by (auto simp: root_ready_def LOCK_FILE_def)
  with assms(2) show ?thesis unfolding same_except_def by blast
qed

lemma untouched_seen: "root_ready env s0 \<Longrightarrow> untouched env s0 s \<Longrightarrow> seen_as s0 ok s"
  using untouched_ready(2) [of env s0 s] untouched_current [of env s0 s] by (auto simp: seen_as_def)

lemma in_commit_seen:
  assumes "staged temporary candidate s0" "\<not> bt_contains (rr_entries s0) (generation_name n)" "ok candidate"
    and "in_commit temporary n candidate s0 s"
  shows "seen_as s0 ok s"
  using assms(4) unfolding in_commit_def
proof
  assume same: "same_except (commit_names temporary n) s0 s"
  with active_same [OF same staged_disjoint [OF assms(1,2)]] assms(1) show ?thesis
    by (auto simp: seen_as_def same_except_def commit_names_def staged_def)
next
  assume "switched (generation_name n) candidate s"
  with assms(1,3) have "shows_generation ok s"
    by (auto simp: staged_def intro: shows_generationI [OF _ generation_name_prefix])
  then show ?thesis by (simp add: seen_as_def)
qed

lemma run_ok_switched:
  assumes "keeps (switched current tree) m" "\<forall>s. switched current tree s \<longrightarrow> shows_generation ok s"
  shows "run_ok (seen_as s0 ok) (switched current tree) m (\<lambda>_. switched current tree) (\<lambda>_. seen_as s0 ok)"
  by (rule run_ok_weaken [OF run_ok_keeps [OF assms(1)]]) (use assms(2) in \<open>auto simp: seen_as_def\<close>)

lemma unchanged_ok:
  assumes cur: "switched current tree s1" "tree = DDir es" "strip_prefix current GENERATION_PREFIX = Some tail"
    and ok: "ok tree"
  shows "run_ok (seen_as s0 ok) (\<lambda>s. s = s1)
    (t_bind (ensure_compatibility_symlinks env compatibility) (\<lambda>changed.
     t_bind (finish_unchanged env current plan_hash actions) (\<lambda>_.
     t_bind (t_get (\<lambda>_. generation_number current)) (\<lambda>n.
     t_bind (prune_superseded_generations n) (\<lambda>_. t_return (finished current (changed \<noteq> [])))))))
    (\<lambda>_. shows_generation ok) (\<lambda>_. seen_as s0 ok)"
proof -
  let ?P = "switched current tree"
  have shown: "\<forall>s. ?P s \<longrightarrow> shows_generation ok s"
    using cur(2,3) ok by (auto intro: shows_generationI)
  have not_marker: "current \<noteq> PENDING_MARKER" using cur(3) by auto
  have links: "keeps ?P (ensure_compatibility_symlinks env compatibility)"
    unfolding ensure_compatibility_symlinks_def
    by (rule keeps_switched [where names = "{}"]) (auto intro: keeps_intros)
  have finish: "keeps ?P (finish_unchanged env current plan_hash actions)"
    by (rule keeps_switched [where names = "{PENDING_MARKER}"]) (use not_marker in \<open>auto intro: keeps_intros\<close>)
  have prune: "keeps ?P (prune_superseded_generations n)" if "generation_number current = Inr n" for n
    by (rule keeps_switched [OF prune_frame]) (use that cur(3) in \<open>auto simp: generation_number_def superseded_def\<close>)
  show ?thesis
    apply (rule run_ok_weaken [where P = ?P and Q = "\<lambda>_. shows_generation ok"
          and E = "\<lambda>_. seen_as s0 ok" and I = "seen_as s0 ok"])
        apply (rule run_ok_bind [OF run_ok_switched [OF links shown]])
        apply (rule run_ok_bind [OF run_ok_switched [OF finish shown]])
        apply (rule run_ok_bind [where Q = "\<lambda>n s. generation_number current = Inr n \<and> ?P s"], rule run_ok_get)
          apply (use shown in \<open>auto simp: seen_as_def\<close>)[2]
        apply (rule run_ok_point)
        apply (rule run_ok_bind [where Q = "\<lambda>_. ?P"], rule run_ok_weaken [OF run_ok_switched [OF prune shown]])
               apply (use cur(1) shown in \<open>auto intro!: run_ok_return\<close>)
    done
qed

lemma publish_activation_ok:
  assumes ready: "root_ready env s0" and ok: "ok t"
    and matching: "\<And>current. (\<forall>i \<in> set outputs. regular_files_equal (ve_runtime env) t (id_path i) current (id_path i) = Inr True)
      \<Longrightarrow> ok current"
  shows "run_ok (seen_as s0 ok) (in_private env s0 t) (publish env request t outputs compatibility)
    (\<lambda>_. shows_generation ok) (\<lambda>_. seen_as s0 ok)"
proof (rule run_ok_point)
  fix s1
  assume s1: "in_private env s0 t s1"
  then have touch: "untouched env s0 s1" by (simp add: in_private_def)
  note same = untouched_ready(2) [OF ready touch] and base = untouched_current [OF ready touch]
  note staged = in_private_staged [OF ready s1]
  let ?m = "matching_current (ve_runtime env) s1 t outputs"
  let ?g = "map_option unat (rq_runtime_generation request)"
  have seen: "seen_as s0 ok s" if "seen_as s1 ok s" for s
    using that same base by (auto simp: seen_as_def)
  have commit: "run_ok (seen_as s0 ok) (\<lambda>s. s = s1)
      (commit_and_switch_optional (ve_runtime env) (ve_temporary env) ?g (rq_plan_hash request)
        (rq_post_switch request) compatibility)
      (\<lambda>_. shows_generation ok) (\<lambda>_. seen_as s0 ok)"
  proof (cases "\<exists>n. chosen_generation ?g s1 = Inr n \<and> \<not> bt_contains (rr_entries s1) (generation_name n)")
    case True
    then obtain n where n: "chosen_generation ?g s1 = Inr n" "\<not> bt_contains (rr_entries s1) (generation_name n)" by blast
    from staged obtain es where es: "t = DDir es" by (auto simp: staged_def)
    show ?thesis
    proof (rule run_ok_weaken [OF commit_ok [OF staged n(1) chosen_generation_bound [OF n(1)] n(2)]])
      fix r s
      assume "r = generation_name n \<and> switched (generation_name n) t s \<and> marker_absent s \<and> only_generation n {} s"
      with es ok show "shows_generation ok s"
        by (auto intro: shows_generationI [OF _ generation_name_prefix])
    next
      fix e s
      assume "commit_failed (ve_runtime env) (ve_temporary env) n (rq_plan_hash request) (rq_post_switch request) t s1 e s"
      from in_commit_seen [where ok = ok, OF staged n(2) ok commit_failed_in [OF this]] show "seen_as s0 ok s" by (rule seen)
    next
      fix s
      assume "in_commit (ve_temporary env) n t s1 s"
      from in_commit_seen [where ok = ok, OF staged n(2) ok this] show "seen_as s0 ok s" by (rule seen)
    qed
  next
    case False
    have "seen_as s0 ok s" if "same_except {} s1 s" for s
      using active_same [OF that] that by (intro seen) (simp add: seen_as_def same_entries)
    then show ?thesis
      by (intro run_ok_weaken [OF commit_unready]) (use False in auto)
  qed
  show "run_ok (seen_as s0 ok) (\<lambda>s. s = s1) (publish env request t outputs compatibility)
    (\<lambda>_. shows_generation ok) (\<lambda>_. seen_as s0 ok)"
  proof (cases ?m)
    case (Inl e)
    show ?thesis
      unfolding publish_def Let_def
      by (rule run_ok_bind [where Q = "\<lambda>_ _. False"], rule run_ok_get)
        (use Inl same base in \<open>auto simp: seen_as_def run_ok_def\<close>)
  next
    case (Inr found)
    show ?thesis
      unfolding publish_def Let_def
    proof (rule run_ok_bind_value [where v = found and Q = "\<lambda>s. s = s1"], rule run_ok_get)
      show "run_ok (seen_as s0 ok) (\<lambda>s. s = s1)
        (case found of
           Some current \<Rightarrow>
             t_bind (ensure_compatibility_symlinks (ve_runtime env) compatibility) (\<lambda>compatibility_changed.
             t_bind (finish_unchanged (ve_runtime env) current (rq_plan_hash request) (rq_post_switch request)) (\<lambda>_.
             t_bind (t_get (\<lambda>_. generation_number current)) (\<lambda>n.
             t_bind (prune_superseded_generations n) (\<lambda>_.
             t_return \<lparr>ar_generation = current, ar_secret_count = length (rq_artifacts request),
               ar_template_count = length (rq_templates request), ar_changed = compatibility_changed \<noteq> []\<rparr>))))
         | None \<Rightarrow>
             t_bind (commit_and_switch_optional (ve_runtime env) (ve_temporary env) ?g (rq_plan_hash request)
               (rq_post_switch request) compatibility) (\<lambda>generation.
             t_return \<lparr>ar_generation = generation, ar_secret_count = length (rq_artifacts request),
               ar_template_count = length (rq_templates request), ar_changed = True\<rparr>))
        (\<lambda>_. shows_generation ok) (\<lambda>_. seen_as s0 ok)"
      proof (cases found)
        case None
        show ?thesis unfolding None option.case
          by (rule run_ok_bind [OF commit], rule run_ok_return)
      next
        case (Some name)
        with Inr matching_current_Some [of "ve_runtime env" s1 t outputs name] obtain current where
          c: "current_generation s1 = Inr (Some (name, current))" and "ok current" using matching by auto
        with current_generation_Some [OF c] show ?thesis
          unfolding Some option.case by (auto intro!: unchanged_ok [where tree = current])
      qed
    qed (use Inr same base in \<open>auto simp: seen_as_def\<close>)
  qed
qed

section \<open>What the preparation establishes\<close>

text \<open>The artifact was read, is within bounds and carries enough approvals for exactly this use.\<close>

definition authenticated ::
  "('ssh, 'sig) activation_env \<Rightarrow> activation_request \<Rightarrow> activation_artifact \<Rightarrow> prepared_artifact \<Rightarrow> bool" where
  "authenticated env request a p \<longleftrightarrow>
     ve_open env (av_ciphertext a) = Inr (pa_ciphertext p) \<and> length (pa_ciphertext p) \<le> MAX_CIPHERTEXT_BYTES
     \<and> pa_secret_id p = av_secret_id a \<and> pa_mode p = av_mode a \<and> pa_compatibility p = av_compatibility_symlink a
     \<and> ve_user env (av_owner a) = Some (pa_uid p) \<and> ve_group env (av_group a) = Some (pa_gid p)
     \<and> validate_mode (av_mode a) = Inr ()
     \<and> (\<exists>envelope trusted vm. artifact_trusted env a = Inr trusted
          \<and> approved (ve_keys env) (ve_json env) trusted (av_approval_threshold a) envelope vm
          \<and> validate_expected (vm_manifest vm)
              (expected_artifact request a (re_hash (ve_runtime env) (pa_ciphertext p))) = Inr ())"

lemma prepare_artifact_step:
  assumes "prepare_artifact env request st a = Inr st'"
  shows "\<exists>p. pr_prepared st' = pr_prepared st @ [p] \<and> authenticated env request a p
    \<and> av_secret_id a \<notin> pr_secret_ids st \<and> pr_secret_ids st' = insert (av_secret_id a) (pr_secret_ids st)
    \<and> pr_output_ids st' = insert (as_str (av_secret_id a)) (pr_output_ids st)"
proof -
  from assms obtain uid gid ciphertext artifact_hash envelope trusted vm where
    mode: "validate_mode (av_mode a) = Inr ()" and fresh: "av_secret_id a \<notin> pr_secret_ids st"
    and own: "ve_user env (av_owner a) = Some uid" "ve_group env (av_group a) = Some gid"
    and c: "ve_open env (av_ciphertext a) = Inr ciphertext"
    and h: "hash_bounded (ve_runtime env) ciphertext MAX_CIPHERTEXT_BYTES = Inr artifact_hash"
    and t: "artifact_trusted env a = Inr trusted"
    and v: "verify (ve_keys env) (ve_json env) envelope trusted (av_approval_threshold a)
      (expected_artifact request a artifact_hash) = Inr vm"
    and st': "st' = \<lparr>pr_secret_ids = insert (av_secret_id a) (pr_secret_ids st),
       pr_output_ids = insert (as_str (av_secret_id a)) (pr_output_ids st),
       pr_compatibility = (case av_compatibility_symlink a of None \<Rightarrow> pr_compatibility st
         | Some path \<Rightarrow> insert path (pr_compatibility st)),
       pr_prepared = pr_prepared st @ [\<lparr>pa_ciphertext = ciphertext, pa_secret_id = av_secret_id a,
         pa_mode = av_mode a, pa_uid = uid, pa_gid = gid, pa_compatibility = av_compatibility_symlink a\<rparr>]\<rparr>"
    by (auto simp: prepare_artifact_def resolve_user_def resolve_group_def)
  have "length ciphertext \<le> MAX_CIPHERTEXT_BYTES" "artifact_hash = re_hash (ve_runtime env) ciphertext"
    using h by (auto simp: hash_bounded_def split: if_splits)
  with mode fresh own c t verify_approved [OF v] show ?thesis by (auto simp: st' authenticated_def)
qed

lemma prepare_artifacts_fold:
  assumes "fold_result (prepare_artifact env request) st as = Inr st'"
  shows "\<exists>ps. pr_prepared st' = pr_prepared st @ ps \<and> list_all2 (authenticated env request) as ps
    \<and> distinct (map av_secret_id as) \<and> pr_secret_ids st \<inter> av_secret_id ` set as = {}
    \<and> pr_secret_ids st' = pr_secret_ids st \<union> av_secret_id ` set as"
  using assms
proof (induction "as" arbitrary: st)
  case (Cons a as)
  then obtain st1 where one: "prepare_artifact env request st a = Inr st1"
    and rest: "fold_result (prepare_artifact env request) st1 as = Inr st'" by auto
  from prepare_artifact_step [OF one] obtain p where
    "pr_prepared st1 = pr_prepared st @ [p]" "authenticated env request a p"
    "av_secret_id a \<notin> pr_secret_ids st" "pr_secret_ids st1 = insert (av_secret_id a) (pr_secret_ids st)" by blast
  moreover from Cons.IH [OF rest] obtain ps where
    "pr_prepared st' = pr_prepared st1 @ ps" "list_all2 (authenticated env request) as ps" "distinct (map av_secret_id as)"
    "pr_secret_ids st1 \<inter> av_secret_id ` set as = {}" "pr_secret_ids st' = pr_secret_ids st1 \<union> av_secret_id ` set as" by blast
  ultimately show ?case by (intro exI [of _ "p # ps"]) auto
qed simp

lemma prepare_artifacts_result:
  assumes "prepare_artifacts env request = Inr st"
  shows "list_all2 (authenticated env request) (rq_artifacts request) (pr_prepared st)"
    "distinct (map av_secret_id (rq_artifacts request))"
    "pr_secret_ids st = av_secret_id ` set (rq_artifacts request)"
  using prepare_artifacts_fold [OF assms [unfolded prepare_artifacts_def]] by auto

section \<open>Activation as a whole\<close>

definition generation_complete ::
  "('ssh, 'sig) activation_env \<Rightarrow> activation_request \<Rightarrow> prepare_state \<Rightarrow> prepared_template list \<Rightarrow> dtree \<Rightarrow> bool" where
  "generation_complete env request st ts tree \<longleftrightarrow>
     (\<forall>a \<in> set (pr_prepared st). artifact_shown env (rq_target_identity request) tree a)
     \<and> (\<forall>t \<in> set ts. template_shown env
          (\<lambda>base. \<forall>a \<in> set (pr_prepared st). artifact_shown env (rq_target_identity request) base a) tree t)"

lemma matching_complete:
  assumes "generation_complete env request st ts t" and "collision_free (ve_runtime env)"
    and "\<forall>i \<in> set (map pa_secret_id (pr_prepared st) @ map pt_output_id ts).
      regular_files_equal (ve_runtime env) t (id_path i) current (id_path i) = Inr True"
  shows "generation_complete env request st ts current"
proof -
  have same: "shows_file current i mode uid gid content"
    if "shows_file t i mode uid gid content" "i \<in> pa_secret_id ` set (pr_prepared st) \<union> pt_output_id ` set ts"
    for i mode uid gid content
    using matching_shows_file [OF _ assms(2) that(1)] assms(3) that(2) by auto
  then show ?thesis
    using assms(1) unfolding generation_complete_def artifact_shown_def template_shown_def by (meson UnI1 UnI2 imageI)
qed

lemma drop_temporary_seen:
  assumes ready: "root_ready env s0" and s: "seen_as s0 ok s"
  shows "seen_as s0 ok (drop_entry (ve_temporary env) s)"
    "shows_generation ok s \<Longrightarrow> shows_generation ok (drop_entry (ve_temporary env) s)"
proof -
  have temp: "ve_temporary env \<noteq> ''current''" "strip_prefix (ve_temporary env) GENERATION_PREFIX = None"
    using ready by (auto simp: root_ready_def)
  show shown: "shows_generation ok (drop_entry (ve_temporary env) s)" if "shows_generation ok s"
    using that temp unfolding shows_generation_def switched_def by (metis (no_types, lifting) entry_simps(2))
  show "seen_as s0 ok (drop_entry (ve_temporary env) s)"
  proof (cases "shows_generation ok s")
    case True
    with shown show ?thesis by (simp add: seen_as_def)
  next
    case False
    with s have same: "active s = active s0" "bt_get (rr_entries s) ''current'' = bt_get (rr_entries s0) ''current''"
      by (auto simp: seen_as_def)
    have "t \<noteq> ve_temporary env" if "bt_get (rr_entries s) ''current'' = Some (RLink t)" for t
      using that same(2) ready temp
      by (auto simp: root_ready_def current_generation_def split: option.splits)
    then have "active (drop_entry (ve_temporary env) s) = active s"
      using temp by (auto simp: active_def split: option.splits rnode.splits)
    with same temp show ?thesis by (simp add: seen_as_def)
  qed
qed

lemma activate_ok:
  assumes ready: "root_ready env s0" and hash: "collision_free (ve_runtime env)"
    and st: "prepare_artifacts env request = Inr st"
    and ts: "prepare_templates env (rq_templates request) (pr_secret_ids st) (pr_output_ids st) = Inr ts"
  shows "run_ok (seen_as s0 (generation_complete env request st ts)) (\<lambda>s. s = s0) (activate env request)
    (\<lambda>_. shows_generation (generation_complete env request st ts))
    (\<lambda>_. seen_as s0 (generation_complete env request st ts))"
proof -
  let ?ok = "generation_complete env request st ts"
  let ?I = "seen_as s0 ?ok"
  let ?arts = "\<lambda>t. \<forall>a \<in> set (pr_prepared st). artifact_shown env (rq_target_identity request) t a"
  have seen: "?I s" if "untouched env s0 s" for s by (rule untouched_seen [OF ready that])
  have here: "?I s0" by (simp add: seen_as_def)
  have begin_ok: "run_ok ?I (\<lambda>s. s = s0) (generation_begin env) (\<lambda>_. in_private env s0 (DDir [])) (\<lambda>_. ?I)"
    by (rule run_ok_weaken [OF generation_begin_ok [of env s0]]) (auto intro: seen)
  have arts: "run_ok ?I (in_private env s0 (DDir [])) (stage_artifacts env (rq_target_identity request) (DDir []) (pr_prepared st))
      (\<lambda>t s. in_private env s0 t s \<and> ?arts t) (\<lambda>_. ?I)"
    by (rule run_ok_weaken [OF stage_artifacts_ok]) (auto intro: seen)
  have temps: "run_ok ?I (\<lambda>s. in_private env s0 t s \<and> ?arts t) (stage_templates env t ts)
      (\<lambda>t' s. in_private env s0 t' s \<and> ?ok t') (\<lambda>_. ?I)" for t
  proof (cases "?arts t")
    case True
    have "?arts u'" if "?arts u" "extends u u'" for u u' using that artifact_shown_extends by blast
    note staged = stage_templates_ok [of ?arts, OF this True, where env = env and ?s0.0 = s0 and ts = ts]
    show ?thesis
      by (rule run_ok_weaken [OF staged])
        (use True in \<open>auto intro: seen artifact_shown_extends simp: generation_complete_def\<close>)
  next
    case False
    then show ?thesis by (auto simp: run_ok_def)
  qed
  have pub: "run_ok ?I (\<lambda>s. in_private env s0 t s \<and> ?ok t) (publish env request t
      (map pa_secret_id (pr_prepared st) @ map pt_output_id ts) (compatibility_of (pr_prepared st)))
      (\<lambda>_. shows_generation ?ok) (\<lambda>_. ?I)" for t
  proof (cases "?ok t")
    case True
    from publish_activation_ok [of env s0 ?ok t, OF ready True matching_complete [OF True hash]]
    show ?thesis by (rule run_ok_weaken) auto
  next
    case False
    then show ?thesis by (auto simp: run_ok_def)
  qed
  have drop_ok: "run_ok ?I P (t_modify (drop_entry (ve_temporary env))) (\<lambda>_. R) (\<lambda>_. R)"
    if "\<And>s. P s \<Longrightarrow> ?I s" "\<And>s. P s \<Longrightarrow> R (drop_entry (ve_temporary env) s)" for P R
    by (rule run_ok_modify) (use that drop_temporary_seen(1) [OF ready] in auto)
  show ?thesis
    unfolding activate_def
    apply (rule run_ok_bind [where Q = "\<lambda>_ s. s = s0"], rule run_ok_get)
      apply (simp, simp add: here)
    apply (rule run_ok_bind_value [where v = st and Q = "\<lambda>s. s = s0"], rule run_ok_get)
      apply (use st here in auto)[2]
    apply (rule run_ok_bind_value [where v = ts and Q = "\<lambda>s. s = s0"], rule run_ok_get)
      apply (use ts here in auto)[2]
    apply (rule run_ok_bind [OF begin_ok])
    apply (rule run_ok_finally [OF run_ok_bind [OF arts run_ok_bind [OF temps pub]]])
     apply (rule drop_ok)
      apply (simp add: seen_as_def)
     apply (rule drop_temporary_seen(2) [OF ready], simp add: seen_as_def, assumption)
    apply (rule drop_ok, assumption, rule drop_temporary_seen(1) [OF ready], assumption)
    done
qed

end
