(* ===== verification/Example_Activation.thy ===== *)
theory Example_Activation
  imports Activate_Lemmas Manifest_Properties
begin

text \<open>
  A concrete activation on which the witnesses of the runtime properties compute: one artifact,
  one template that uses it, and a root whose active generation is \<open>generation-1\<close>.
\<close>

definition example_header :: bytes where
  "example_header = print_age_header [\<lparr>st_tag = ''X25519'', st_args = [''abc''], st_body = ''Zm9v''\<rparr>] ''mac''"

definition example_ciphertext :: bytes where
  "example_ciphertext = example_header @ ''sealed''"

definition example_hash :: "bytes \<Rightarrow> string" where
  "example_hash content = (if content = example_ciphertext then example_digest else CHR ''x'' # content)"

definition example_service :: "post_switch_spec \<Rightarrow> string \<Rightarrow> string list \<Rightarrow> runtime_error + int option" where
  "example_service actions unit arguments = Inr (Some (if unit = ''bad.service'' then 1 else 0))"

definition example_runtime :: runtime_env where
  "example_runtime = \<lparr>re_euid = 0, re_egid = 0, re_root = ''/run/nix-seal'', re_chown = (\<lambda>_ _. True),
     re_parent_ok = (\<lambda>_. True), re_hash = example_hash, re_run = example_service\<rparr>"

definition example_age_api :: age_api where
  "example_age_api = \<lparr>age_x25519_recipient = Some,
     age_plugin_recipient = (\<lambda>v. if v = ''age1plugin'' then Some (''token'', v) else None),
     age_ssh_recipient = (\<lambda>_. None), age_x25519_identity = (\<lambda>v. if v = ''plugin-identity'' then None else Some v),
     age_plugin_identity = (\<lambda>v. if v = ''plugin-identity'' then Some ''token'' else None),
     age_ssh_identity = (\<lambda>_. None), age_blake3 = (\<lambda>b. b)\<rparr>"

definition example_age :: age_engine where
  "example_age = \<lparr>ae_plugin_ready = (\<lambda>_. True), ae_header_ok = (\<lambda>_. True), ae_is_scrypt = (\<lambda>_. False),
     ae_open = (\<lambda>_ c. if c = example_ciphertext then Some (''s3cret'', True) else None),
     ae_recipients_ok = (\<lambda>_. True), ae_seal = (\<lambda>_ _ p. p), ae_seal_passphrase = (\<lambda>_ _ p. p)\<rparr>"

definition example_worker :: "string list \<Rightarrow> (string \<times> string) list \<Rightarrow> bytes \<Rightarrow> (bytes list \<times> bool) option" where
  "example_worker directories environment stream =
     (case run_plugin_worker_protocol example_age_api example_age 0 stream of
        Inr out \<Rightarrow> Some (file_reader out, True)
      | Inl _ \<Rightarrow> Some ([], False))"

definition example_plugins :: plugin_env where
  "example_plugins = \<lparr>pe_path = Some ''/usr/bin:/nix/store/token/bin'',
     pe_canonicalize = (\<lambda>p. if p = ''/nix/store/token/bin/age-plugin-token'' then Some p else None),
     pe_metadata = (\<lambda>_. Some (True, 0x16D)), pe_var = (\<lambda>_. None), pe_worker = example_worker\<rparr>"

definition example_activation_env :: "(string, string) activation_env" where
  "example_activation_env = \<lparr>ve_runtime = example_runtime,
     ve_open = (\<lambda>p. if p = ''/c'' then Inr example_ciphertext else if p = ''/e'' then Inr ''{envelope}''
       else if p = ''/t'' then Inr ''password={{nix-seal:pw}}'' else Inl (RIo NotFound)),
     ve_user = (\<lambda>_. Some 0), ve_group = (\<lambda>_. Some 0),
     ve_envelope_json = (\<lambda>b. if b = ''{envelope}'' then Some example_envelope else None),
     ve_keys = plain_keys, ve_json = example_json, ve_age_api = example_age_api, ve_age = example_age,
     ve_plugins = example_plugins, ve_base64 = plain_encode, ve_root_ok = Inr (), ve_temporary = ''.generation-a''\<rparr>"

definition example_artifact :: activation_artifact where
  "example_artifact = \<lparr>av_ciphertext = ''/c'', av_envelope = ''/e'', av_secret_id = Id ''db'',
     av_source_ciphertext_hash = example_digest, av_artifact_policy_hash = example_digest,
     av_artifact_generation = 1,
     av_approval_signers = bt_of_list [(Id ''admin'', PUBLIC_KEY_PREFIX @ plain_encode (plain_public example_seed_key))],
     av_approval_threshold = 1, av_mode = 0x100, av_owner = ''root'', av_group = ''root'',
     av_compatibility_symlink = None\<rparr>"

definition example_request :: "post_switch_spec option \<Rightarrow> activation_request" where
  "example_request actions = \<lparr>rq_runtime_root = ''/run/nix-seal'', rq_runtime_generation = None,
     rq_plan_hash = example_digest, rq_target_id = Id ''host'', rq_recipient_fingerprint = example_digest,
     rq_tool_version = ''1'', rq_now = 15, rq_allowed_clock_skew = 0, rq_target_identity = ''key'',
     rq_artifacts = [example_artifact],
     rq_templates = [\<lparr>at_source = ''/t'', at_template_id = Id ''app'',
       at_placeholders = bt_of_list [(''pw'', \<lparr>ph_secret = Id ''db'', ph_encoding = Utf8\<rparr>)],
       at_mode = 0x100, at_owner = ''root'', at_group = ''root''\<rparr>],
     rq_post_switch = actions\<rparr>"

definition example_actions :: "string \<Rightarrow> post_switch_spec" where
  "example_actions unit = \<lparr>ps_executable = ''/bin/systemctl'', ps_manager = SystemdSystem,
     ps_reload_units = [unit], ps_restart_units = [], ps_timeout_seconds = 10\<rparr>"

definition old_generation :: dtree where
  "old_generation = DDir [(''db'', DFile \<lparr>gf_uid = 0, gf_gid = 0, gf_mode = 0x100, gf_nlink = 1, gf_content = ''old''\<rparr>)]"

definition example_root :: runtime_root where
  "example_root = \<lparr>rr_entries = bt_of_list [(''current'', RLink ''generation-1''), (''generation-1'', RNode old_generation)],
     rr_links = bt_empty\<rparr>"

end
