(* ===== verification/Runtime_Properties.thy ===== *)
theory Runtime_Properties
  imports Example_Activation Policy_Types
begin

text \<open>
  Properties of the runtime: activation, the switch between generations, the marker of pending
  service actions, templates and the activation document.
\<close>

section \<open>Activation\<close>





lemma example_activates: "is_ok (snd (activate example_activation_env (example_request None) example_root))"
  by code_simp


text \<open>
  C4. Authentication comes first. When an artifact is refused (unreadable, too large, or without
  enough valid approvals for this target, secret, policy and digest) the activation fails
  and changes nothing; conversely whenever activation has changed the root or succeeded, every
  artifact of the request was read, bounded and approved by its threshold of distinct trusted
  signers over its own digest.
\<close>

theorem activate_authenticates_first:
  "(prepare_artifacts env request = Inl e \<longrightarrow> fst (activate env request s) = [] \<and> \<not> is_ok (snd (activate env request s)))
   \<and> (fst (activate env request s) \<noteq> [] \<or> is_ok (snd (activate env request s)) \<longrightarrow>
        (\<exists>st. prepare_artifacts env request = Inr st
           \<and> list_all2 (authenticated env request) (rq_artifacts request) (pr_prepared st)))"
proof -
  have refused: "fst (activate env request s) = [] \<and> \<not> is_ok (snd (activate env request s))"
    if "prepare_artifacts env request = Inl e" for e
    using that by (auto simp: activate_def t_bind_def t_get_def split: sum.split)
  then show ?thesis
    using prepare_artifacts_result(1) [of env request] by (cases "prepare_artifacts env request") auto
qed

theorem activate_authenticates_first_witness:
  "\<exists>st. prepare_artifacts example_activation_env (example_request None) = Inr st
     \<and> list_all2 (authenticated example_activation_env (example_request None)) [example_artifact] (pr_prepared st)"
proof -
  from example_activates activate_authenticates_first [of example_activation_env "example_request None" _ example_root] show ?thesis
    by (simp add: example_request_def)
qed

section \<open>Switching generations\<close>


text \<open>The root of the example with its private directory in place.\<close>

definition staged_root :: runtime_root where
  "staged_root = put_entry ''.generation-a'' (RNode (DDir [])) example_root"




section \<open>Pending service actions\<close>

lemma payload_names:
  assumes "pending_payload g h = pending_payload c h'" "CHR 0x0A \<notin> set g" "CHR 0x0A \<notin> set c"
  shows "g = c"
proof -
  from assms(1) have "g @ CHR 0x0A # h @ [CHR 0x0A] = c @ CHR 0x0A # h' @ [CHR 0x0A]"
    by (simp add: pending_payload_def)
  then have "takeWhile (\<lambda>x. x \<noteq> CHR 0x0A) (g @ CHR 0x0A # h @ [CHR 0x0A])
      = takeWhile (\<lambda>x. x \<noteq> CHR 0x0A) (c @ CHR 0x0A # h' @ [CHR 0x0A])" by (rule arg_cong)
  moreover have "takeWhile (\<lambda>x. x \<noteq> CHR 0x0A) (w @ CHR 0x0A # z) = w" if "CHR 0x0A \<notin> set w" for w z
    using that by (induction w) auto
  ultimately show ?thesis using assms(2,3) by simp
qed

lemma length_show_nat: "0 < k \<Longrightarrow> n < 10 ^ k \<Longrightarrow> length (show_nat n) \<le> k"
proof (induction k arbitrary: n)
  case (Suc k)
  show ?case
  proof (cases "n < 10")
    case False
    with Suc.prems have "0 < k" "n div 10 < 10 ^ k" by (auto intro: gr0I)
    from Suc.IH [OF this] False show ?thesis by (subst show_nat.simps) simp
  qed (subst show_nat.simps, simp)
qed simp

lemma payload_bound:
  assumes "n < 2 ^ 64" "length plan_hash \<le> 900"
  shows "length (pending_payload (generation_name n) plan_hash) \<le> 1024"
proof -
  have "n < 10 ^ 20" using assms(1) by (rule less_le_trans) simp
  then have "length (show_nat n) \<le> 20" by (intro length_show_nat) auto
  with assms(2) show ?thesis by (simp add: pending_payload_def generation_name_def GENERATION_PREFIX_def)
qed

lemma marker_is_exists: "marker_is env g h s \<Longrightarrow> pending_marker_exists s = Inr True"
  by (simp add: marker_is_def pending_marker_exists_def secret_file_def)

lemma pending_matches_marker:
  assumes "marker_is env g h s" "length (pending_payload g h) \<le> 1024"
  shows "pending_matches s c h' = Inr (pending_payload g h = pending_payload c h')"
  using assms
  by (simp add: pending_matches_def marker_is_exists [OF assms(1)] marker_is_def open_root_file_def secret_file_def
      runtime_read_bounded_def)

lemma commit_refused:
  "pending_marker_exists s = Inr True \<Longrightarrow>
   commit_and_switch_optional env temporary generation plan_hash actions compatibility s = ([], Inl RPendingPostSwitch)"
  by (simp add: commit_and_switch_optional_def t_bind_def t_get_def t_fail_def)




section \<open>A crash between the marker and the switch\<close>

text \<open>The marker names a generation that \<open>current\<close> does not point to.\<close>

definition unswitched_marker :: "runtime_env \<Rightarrow> nat \<Rightarrow> string \<Rightarrow> runtime_root \<Rightarrow> bool" where
  "unswitched_marker env n plan_hash s \<longleftrightarrow> marker_is env (generation_name n) plan_hash s
     \<and> bt_get (rr_entries s) ''current'' \<noteq> Some (RLink (generation_name n))"

lemma unswitched_marker_same:
  "same_except names s s' \<Longrightarrow> PENDING_MARKER \<notin> names \<Longrightarrow> ''current'' \<notin> names \<Longrightarrow>
   unswitched_marker env n plan_hash s \<Longrightarrow> unswitched_marker env n plan_hash s'"
  by (simp add: unswitched_marker_def marker_is_def same_except_def)

lemma generation_name_line:
  "strip_prefix name GENERATION_PREFIX = Some tail \<Longrightarrow> all_digits tail \<Longrightarrow> CHR 0x0A \<notin> set name"
  by (auto simp: strip_prefix_eq_Some GENERATION_PREFIX_def all_digits_def is_ascii_digit_def)

lemma publish_blocked:
  assumes n: "n < 2 ^ 64" and hash: "length plan_hash \<le> 900"
  shows "run_ok (\<lambda>_. True) (unswitched_marker env0 n plan_hash) (publish env request candidate outputs compatibility)
    (\<lambda>_ _. False) (\<lambda>_. unswitched_marker env0 n plan_hash)"
proof (rule run_ok_point)
  let ?Z = "unswitched_marker env0 n plan_hash"
  fix s1
  assume z: "?Z s1"
  let ?m = "matching_current (ve_runtime env) s1 candidate outputs"
  have commit: "commit_and_switch_optional env' temporary generation ph actions links s1 = ([], Inl RPendingPostSwitch)"
    for env' temporary generation ph actions links
    using z marker_is_exists unfolding unswitched_marker_def by (blast intro: commit_refused)
  have finish: "finish_unchanged env' name ph actions s = ([], Inl RPendingPostSwitch)"
    if "?Z s" "name \<noteq> generation_name n" "CHR 0x0A \<notin> set name" for env' name ph actions s
  proof -
    have m: "marker_is env0 (generation_name n) plan_hash s" using that(1) by (simp add: unswitched_marker_def)
    have "pending_payload (generation_name n) plan_hash \<noteq> pending_payload name ph"
      using payload_names generation_name_line [OF generation_name_prefix generation_name_digits] that(2,3) by metis
    then have "pending_matches s name ph = Inr False"
      by (simp add: pending_matches_marker [OF m payload_bound [OF n hash]])
    then show ?thesis
      by (simp add: finish_unchanged_def t_bind_def t_get_def t_fail_def marker_is_exists [OF m])
  qed
  have links: "run_ok (\<lambda>_. True) ?Z (ensure_compatibility_symlinks env' ls) (\<lambda>_. ?Z) (\<lambda>_. ?Z)" for env' ls
  proof -
    have "keeps ?Z (ensure_compatibility_symlinks env' ls)"
      unfolding ensure_compatibility_symlinks_def
      by (rule keeps_entries [OF ensure_links_frame]) (simp add: unswitched_marker_def marker_is_def)
    from run_ok_keeps [OF this] show ?thesis by (rule run_ok_weaken) auto
  qed
  show "run_ok (\<lambda>_. True) (\<lambda>s. s = s1) (publish env request candidate outputs compatibility)
    (\<lambda>_ _. False) (\<lambda>_. ?Z)"
  proof (cases "\<exists>name. ?m = Inr (Some name)")
    case False
    then show ?thesis
      using z commit by (cases ?m) (auto simp: publish_def Let_def run_ok_def t_bind_def t_get_def split: option.splits)
  next
    case True
    then obtain name current where name: "?m = Inr (Some name)" "current_generation s1 = Inr (Some (name, current))"
      using matching_current_Some by blast
    then have line: "bt_get (rr_entries s1) ''current'' = Some (RLink name)" "CHR 0x0A \<notin> set name"
      by (auto simp: current_generation_def dest: generation_name_line
          split: option.splits rnode.splits dtree.splits if_splits)
    with z have ne: "name \<noteq> generation_name n" by (auto simp: unswitched_marker_def)
    show ?thesis
      unfolding publish_def Let_def
      apply (rule run_ok_bind_value [where v = "Some name" and Q = ?Z], rule run_ok_get)
        apply (use name(1) z in auto)[2]
      apply (simp only: option.case)
      apply (rule run_ok_bind [OF links])
      apply (rule run_ok_bind [where Q = "\<lambda>_ _. False"])
       apply (use finish [OF _ ne line(2)] in \<open>auto simp: run_ok_def\<close>)
      done
  qed
qed

text \<open>
  C33. The order of the two durable steps has a gap. When the marker of a new generation is on disk
  and \<open>current\<close> does not point to that generation, which is the state a crash between
  \<open>write_pending\<close> and \<open>switch_current\<close> leaves, every later activation fails, whatever its
  request and environment, and leaves the root in such a state again: the old generation is never
  replaced until the marker is removed by hand.
\<close>

theorem interrupted_commit_blocks:
  assumes z: "unswitched_marker env0 n plan_hash s" and n: "n < 2 ^ 64" and hash: "length plan_hash \<le> 900"
    and name: "ve_temporary env \<noteq> PENDING_MARKER" "ve_temporary env \<noteq> ''current''"
  shows "\<not> is_ok (snd (activate env request s))
    \<and> unswitched_marker env0 n plan_hash (final_state s (fst (activate env request s)))"
proof -
  let ?Z = "unswitched_marker env0 n plan_hash"
  have lock: "LOCK_FILE \<noteq> PENDING_MARKER" "''current'' \<noteq> LOCK_FILE" by (simp_all add: LOCK_FILE_def PENDING_MARKER_def)
  have keep: "?Z s'" if "untouched env s s'" for s'
    by (rule unswitched_marker_same [OF that]) (use z name lock in auto)
  have fail: "run_ok (\<lambda>_. True) ?Z (t_get (f :: runtime_root \<Rightarrow> runtime_error + 'x)) (\<lambda>_. ?Z) (\<lambda>_. ?Z)" for f
    by (rule run_ok_get)
  have begin_ok: "run_ok (\<lambda>_. True) (\<lambda>x. x = s) (generation_begin env) (\<lambda>_. in_private env s (DDir [])) (\<lambda>_. ?Z)"
    by (rule run_ok_weaken [OF generation_begin_ok [of env s]]) (auto intro: keep)
  have arts: "run_ok (\<lambda>_. True) (in_private env s (DDir [])) (stage_artifacts env identity (DDir []) as)
      (\<lambda>t. in_private env s t) (\<lambda>_. ?Z)" for identity "as"
    by (rule run_ok_weaken [OF stage_artifacts_ok]) (auto intro: keep)
  have temps: "run_ok (\<lambda>_. True) (in_private env s t) (stage_templates env t ts) (\<lambda>_. ?Z) (\<lambda>_. ?Z)" for t ts
    by (rule run_ok_weaken [OF stage_templates_ok [of "\<lambda>_. True"]]) (auto intro: keep simp: in_private_def)
  have drop_ok: "run_ok (\<lambda>_. True) P (t_modify (drop_entry (ve_temporary env))) (\<lambda>_. R) (\<lambda>_. R)"
    if "\<And>x. P x \<Longrightarrow> R (drop_entry (ve_temporary env) x)" for P R
    by (rule run_ok_modify) (use that in auto)
  have "run_ok (\<lambda>_. True) (\<lambda>x. x = s) (activate env request) (\<lambda>_ _. False) (\<lambda>_. ?Z)"
    unfolding activate_def
    apply (rule run_ok_bind [where Q = "\<lambda>_ x. x = s"], rule run_ok_get, simp, simp add: z)
    apply (rule run_ok_bind [where Q = "\<lambda>_ x. x = s"], rule run_ok_get, simp, simp add: z)
    apply (rule run_ok_bind [where Q = "\<lambda>_ x. x = s"], rule run_ok_get, simp, simp add: z)
    apply (rule run_ok_bind [OF begin_ok])
    apply (rule run_ok_finally [OF run_ok_bind [OF arts run_ok_bind [OF temps publish_blocked [OF n hash]]]])
     apply (rule drop_ok, simp)
    apply (rule drop_ok, use name in \<open>simp add: unswitched_marker_def marker_is_def\<close>)
    done
  from run_okD [OF this refl prod.collapse [symmetric]] show ?thesis
    by (cases "snd (activate env request s)") auto
qed

text \<open>A state on the way of a commit that succeeds: the marker is written, the link is still the old one.\<close>

definition crashed_root :: runtime_root where
  "crashed_root = fst (commit_and_switch_optional example_runtime ''.generation-a'' None example_digest
     (Some (example_actions ''ok.service'')) [] staged_root) ! 3"

theorem interrupted_commit_blocks_witness:
  "crashed_root \<in> set (fst (commit_and_switch_optional example_runtime ''.generation-a'' None example_digest
      (Some (example_actions ''ok.service'')) [] staged_root))
   \<and> \<not> is_ok (snd (activate example_activation_env (example_request None) crashed_root))"
proof -
  have len: "3 < length (fst (commit_and_switch_optional example_runtime ''.generation-a'' None example_digest
      (Some (example_actions ''ok.service'')) [] staged_root))"
    by code_simp
  have "unswitched_marker example_runtime 2 example_digest crashed_root"
    unfolding unswitched_marker_def marker_is_def by (intro conjI; code_simp)
  moreover have "length example_digest \<le> 900" by (simp add: example_digest_def)
  moreover have "ve_temporary example_activation_env \<noteq> PENDING_MARKER" "ve_temporary example_activation_env \<noteq> ''current''"
    by code_simp+
  ultimately have "\<not> is_ok (snd (activate example_activation_env (example_request None) crashed_root))"
    using interrupted_commit_blocks [of example_runtime 2 example_digest crashed_root example_activation_env] by simp
  with len show ?thesis unfolding crashed_root_def by simp
qed

section \<open>Templates\<close>

text \<open>
  C35. Scanning a template loses nothing and invents nothing: an accepted source is, byte for byte, the
  concatenation of literal texts and placeholders, in the order in which the parts are visited;
  every placeholder is well formed and declared, every declared one occurs, and where a
  literal text contains the reserved marker it is preceded by one more brace.
\<close>

theorem template_scan_correct:
  assumes "template_parts source placeholders = Inr parts"
  shows "\<exists>segs. source = concat (map segment_source segs) \<and> parts = map (segment_part placeholders) segs
    \<and> segments_ok placeholders segs \<and> holes segs = set (bt_keys placeholders)"
  using visit_template_source_sound [OF assms [unfolded template_parts_def]] by auto

definition example_template :: bytes where
  "example_template = ''user=app password={{nix-seal:pw}} {{other}}''"

definition example_placeholders :: placeholders where
  "example_placeholders = bt_of_list [(''pw'', \<lparr>ph_secret = Id ''db'', ph_encoding = Base64\<rparr>)]"

theorem template_scan_correct_witness:
  "\<exists>segs. example_template = concat (map segment_source segs) \<and> holes segs = {''pw''}"
proof -
  have "is_ok (template_parts example_template example_placeholders)" by code_simp
  then obtain parts where "template_parts example_template example_placeholders = Inr parts" by (auto simp: is_ok_iff)
  from template_scan_correct [OF this] show ?thesis
    by (auto simp: example_placeholders_def bt_keys_def bt_of_list_def items_insert)
qed

text \<open>
  C22. Rendering writes exactly what the template says: it succeeds if and only if the source is
  accepted, every placeholder's secret is within bounds and fits its encoding, and the whole
  output is at most 128 MiB; the output is then the literal texts and the encoded secrets in
  order, although secrets are streamed in pieces of 8 KiB and Base64 and UTF-8 carry bytes over
  from one piece to the next. Base64 is a parameter that encodes groups of three bytes to four.
\<close>

theorem render_template_correct:
  assumes "base64_documented encode"
  shows "render_template_into source placeholders
      (\<lambda>written p. render_secret encode (ph_encoding p) (plain (ph_secret p)) written) = Inr out \<longleftrightarrow>
    (\<exists>parts texts. template_parts source placeholders = Inr parts
       \<and> map (part_text encode plain) parts = map Some texts
       \<and> out = concat texts \<and> length out \<le> MAX_TEMPLATE_OUTPUT_BYTES)"
  unfolding render_template_into_def visit_template_source_iff
  using render_fold [OF assms, of "[]" plain] by auto

text \<open>The encoder of RFC 4648 with padding.\<close>

definition base64_alphabet :: string where
  "base64_alphabet = ''ABCDEFGHIJKLMNOPQRSTUVWXYZabcdefghijklmnopqrstuvwxyz0123456789+/''"

definition base64_digit :: "nat \<Rightarrow> char" where
  "base64_digit n = base64_alphabet ! (n mod 64)"

fun rfc4648 :: "bytes \<Rightarrow> string" where
  "rfc4648 (a # b # c # rest) =
     (let n = (byte_value a * 256 + byte_value b) * 256 + byte_value c in
      [base64_digit (n div 262144), base64_digit (n div 4096), base64_digit (n div 64), base64_digit n] @ rfc4648 rest)"
| "rfc4648 [a, b] =
     (let n = (byte_value a * 256 + byte_value b) * 4 in
      [base64_digit (n div 4096), base64_digit (n div 64), base64_digit n, CHR ''=''])"
| "rfc4648 [a] =
     (let n = byte_value a * 16 in [base64_digit (n div 64), base64_digit n, CHR ''='', CHR ''=''])"
| "rfc4648 [] = []"

lemma rfc4648_append: "length xs mod 3 = 0 \<Longrightarrow> rfc4648 (xs @ ys) = rfc4648 xs @ rfc4648 ys"
  by (induction xs rule: rfc4648.induct) (simp_all add: Let_def)

lemma rfc4648_length: "length (rfc4648 xs) = (length xs + 2) div 3 * 4"
proof (induction xs rule: rfc4648.induct)
  case (1 a b c rest)
  have "length (a # b # c # rest) + 2 = (length rest + 2) + 3" by simp
  with 1 show ?case by (simp only: div_add_self2) (simp add: Let_def)
qed (simp_all add: Let_def)

lemma rfc4648_documented: "base64_documented rfc4648"
  unfolding base64_documented_def by (simp add: rfc4648_append rfc4648_length)

theorem render_template_correct_witness:
  "\<exists>parts texts. template_parts example_template example_placeholders = Inr parts
     \<and> map (part_text rfc4648 (\<lambda>_. ''s3cret'')) parts = map Some texts
     \<and> ''user=app password=czNjcmV0 {{other}}'' = concat texts"
proof -
  have "render_template_into example_template example_placeholders
      (\<lambda>written p. render_secret rfc4648 (ph_encoding p) ''s3cret'' written)
      = Inr ''user=app password=czNjcmV0 {{other}}''" by code_simp
  with render_template_correct [OF rfc4648_documented, where plain = "\<lambda>_. ''s3cret''"] show ?thesis by auto
qed

section \<open>The activation document\<close>

text \<open>
  C36. Validating an activation document decides its specification: schema and absolute paths, a
  non-zero generation, bounded clock skew and counts, owner-only modes, account names,
  compatibility links outside the root, templates over declared secrets, no two outputs and no
  two links at the same place, and service actions that the manager can perform.
\<close>

theorem activation_spec_validate_correct:
  "activation_spec_validate spec = Inr () \<longleftrightarrow> activation_spec_ok spec"
  by (rule activation_spec_validate_iff)

text \<open>
  The two crates agree on modes: the runtime parses exactly the modes that plan validation
  accepts, and these are the seven owner-only modes 0100 to 0700, although one tests the low
  bits with a mask and the other counts trailing zeros.
\<close>

theorem runtime_modes_agree:
  "(is_ok (parse_mode v) \<longleftrightarrow> is_private_runtime_mode v)
   \<and> (is_ok (parse_mode v) \<longleftrightarrow> v \<in> {''0100'', ''0200'', ''0300'', ''0400'', ''0500'', ''0600'', ''0700''})"
proof -
  have "is_ok (parse_mode v) \<longleftrightarrow> is_private_runtime_mode v"
    by (auto simp: parse_mode_def is_private_runtime_mode_def is_ok_iff Let_def validate_mode_iff split: option.splits)
  with private_mode_iff show ?thesis by blast
qed

end
