(* ===== verification/Age_Properties.thy ===== *)
theory Age_Properties
  imports Example_Activation
begin

text \<open>
  Properties of the operations on sealed data: headers, rekeying, and the isolated worker.
\<close>

section \<open>Headers\<close>

lemma stanza_line_rsa:
  assumes "stanza_ok s" "starts_with ((''-> '' @ join_with (CHR '' '') (st_tag s # st_args s)) @ [CHR 0x0A]) ''-> ssh-rsa ''"
  shows "st_tag s = ''ssh-rsa''"
proof -
  have plain: "CHR '' '' \<notin> set (st_tag s)" using assms(1) by (simp add: stanza_ok_def plain_word_def)
  have head: "takeWhile (\<lambda>c. c \<noteq> CHR '' '') (w @ CHR '' '' # z) = w" if "CHR '' '' \<notin> set w" for w z
    using that by (induction w) auto
  from assms(2) obtain z where "join_with (CHR '' '') (st_tag s # st_args s) @ [CHR 0x0A] = ''ssh-rsa'' @ CHR '' '' # z"
    by (auto simp: starts_with_iff_prefix prefix_def)
  then have eq: "takeWhile (\<lambda>c. c \<noteq> CHR '' '') (join_with (CHR '' '') (st_tag s # st_args s) @ [CHR 0x0A]) = ''ssh-rsa''"
    using head [of "''ssh-rsa''" z] by simp
  show ?thesis
  proof (cases "st_args s")
    case Nil
    have "takeWhile (\<lambda>c. c \<noteq> CHR '' '') (st_tag s @ [CHR 0x0A]) = st_tag s @ [CHR 0x0A]"
      using plain by (induction "st_tag s") (auto simp: takeWhile_eq_all_conv)
    with eq Nil have "last (st_tag s @ [CHR 0x0A]) = last ''ssh-rsa''" by simp
    then show ?thesis by simp
  next
    case (Cons a as)
    with eq head [OF plain] show ?thesis by simp
  qed
qed

lemma rsa_free_lines:
  assumes ok: "list_all stanza_ok stanzas" and rsa: "\<forall>s \<in> set stanzas. st_tag s \<noteq> ''ssh-rsa''"
    and line: "line \<in> set (terminated (header_lines stanzas mac))"
  shows "\<not> starts_with line ''-> ssh-rsa ''"
proof -
  from line consider "line = ''age-encryption.org/v1'' @ [CHR 0x0A]" | "line = (''--- '' @ mac) @ [CHR 0x0A]"
    | s l where "s \<in> set stanzas" "l \<in> set (stanza_lines s)" "line = l @ [CHR 0x0A]"
    by (auto simp: terminated_def header_lines_def)
  then show ?thesis
  proof cases
    case (3 s l)
    then have s: "stanza_ok s" "st_tag s \<noteq> ''ssh-rsa''" using ok rsa by (auto simp: list_all_iff)
    from 3(2) consider "l = ''-> '' @ join_with (CHR '' '') (st_tag s # st_args s)" | "l \<in> set (wrap64 (st_body s))"
      by (auto simp: stanza_lines_def)
    then show ?thesis
    proof cases
      case 1
      with stanza_line_rsa [OF s(1)] s(2) 3(3) show ?thesis by blast
    next
      case 2
      with wrap64_lines s(1) have "list_all is_base64_char l" by (fastforce simp: stanza_ok_def list_all_iff)
      with 3(3) show ?thesis by (cases l) (auto simp: is_base64_char_def is_ascii_alphanumeric_def
          is_ascii_lowercase_def is_ascii_uppercase_def is_ascii_digit_def)
    qed
  qed simp_all
qed

lemma printed_header_prepared:
  assumes ok: "list_all stanza_ok stanzas" and some: "stanzas \<noteq> []" and count: "length stanzas < 65536"
    and mac: "CHR 0x0A \<notin> set mac" and bound: "length (print_age_header stanzas mac) \<le> MAX_AGE_HEADER_BYTES"
    and pieces: "[] \<notin> set pieces" "concat pieces = print_age_header stanzas mac @ payload"
    and rsa: "legacy \<or> (\<forall>s \<in> set stanzas. st_tag s \<noteq> ''ssh-rsa'')"
  shows "prepare_ciphertext pieces legacy = Inr (concat pieces)"
proof -
  from printed_header_read [OF ok mac bound pieces] obtain reader where
    read: "read_age_header pieces = Inr (print_age_header stanzas mac, reader)" "concat reader = payload" by blast
  have lines: "split_lines (print_age_header stanzas mac) = terminated (header_lines stanzas mac)"
    unfolding print_age_header_def
    by (rule split_lines_terminated) (use header_lines_plain [OF ok] mac in \<open>auto simp: header_lines_def\<close>)
  have "\<not> starts_with line ''-> ssh-rsa ''" if "line \<in> set (terminated (header_lines stanzas mac))" "\<not> legacy" for line
    using rsa_free_lines [OF ok _ that(1)] rsa that(2) by blast
  with read lines printed_header_valid [OF ok some count mac] pieces(2) show ?thesis
    by (auto simp: prepare_ciphertext_def)
qed

text \<open>
  C37. A header written in the age format is never refused and never altered: whatever pieces the
  input arrives in, whatever follows the header, and however long the bodies of its stanzas
  are, multiples of 64 columns and empty bodies included, the structural check accepts it and
  the decryption library gets exactly the bytes that were read. Without the migration flag this
  holds of every header that has no SSH RSA stanza.
\<close>

theorem age_header_accepted:
  assumes ok: "list_all stanza_ok stanzas" and some: "stanzas \<noteq> []" and count: "length stanzas < 65536"
    and mac: "CHR 0x0A \<notin> set mac" and bound: "length (print_age_header stanzas mac) \<le> MAX_AGE_HEADER_BYTES"
    and pieces: "[] \<notin> set pieces" "concat pieces = print_age_header stanzas mac @ payload"
    and rsa: "legacy \<or> (\<forall>s \<in> set stanzas. st_tag s \<noteq> ''ssh-rsa'')"
  shows "prepare_ciphertext pieces legacy = Inr (concat pieces)"
  by (rule printed_header_prepared [OF assms])

theorem age_header_accepted_witness:
  "prepare_ciphertext [take 40 example_ciphertext, drop 40 example_ciphertext] False = Inr example_ciphertext"
proof -
  let ?stanza = "\<lparr>st_tag = ''X25519'', st_args = [''abc''], st_body = ''Zm9v''\<rparr>"
  have ok: "list_all stanza_ok [?stanza]" by code_simp
  have bound: "length (print_age_header [?stanza] ''mac'') \<le> MAX_AGE_HEADER_BYTES" by code_simp
  have pieces: "[] \<notin> set [take 40 example_ciphertext, drop 40 example_ciphertext]" by code_simp
  have whole: "concat [take 40 example_ciphertext, drop 40 example_ciphertext] = print_age_header [?stanza] ''mac'' @ ''sealed''"
  proof -
    have "concat [take 40 example_ciphertext, drop 40 example_ciphertext] = example_ciphertext" by simp
    then show ?thesis unfolding example_ciphertext_def example_header_def .
  qed
  show ?thesis
    using age_header_accepted [OF ok _ _ _ bound pieces whole, of False] by simp
qed

section \<open>Rekeying\<close>

text \<open>
  C21. Rekeying is decryption followed by encryption, although it streams from one to the other: it
  succeeds with a ciphertext exactly when the source decrypts, within 64 MiB and to its
  authenticated end, and sealing that plaintext to the new recipients gives this ciphertext. The
  recipients are then not empty and none is SSH RSA, also when the source was a legacy one.
\<close>

theorem rekey_is_decrypt_then_encrypt:
  "(rekey_direct_with_identity api age rng input identity recipients legacy = Inr c \<longleftrightarrow>
      (\<exists>p. decrypt_with_identity age input identity legacy = Inr p \<and> encrypt_direct api age rng p recipients = Inr c))
   \<and> (rekey_direct_with_identity api age rng input identity recipients legacy = Inr c \<longrightarrow>
      recipients \<noteq> [] \<and> (\<forall>r \<in> set recipients. is_ok (normalize_recipient api r)))"
  using rekey_decrypt_encrypt [of api age rng input identity recipients legacy c]
    encrypt_direct_recipients [of api age rng _ recipients c] by blast

theorem rekey_is_decrypt_then_encrypt_witness:
  "\<exists>p. decrypt_with_identity example_age [example_ciphertext] (NativeIdentity ''key'') False = Inr p
     \<and> encrypt_direct example_age_api example_age 0 p [''age1x''] = Inr ''s3cret''"
proof -
  have "rekey_direct_with_identity example_age_api example_age 0 [example_ciphertext] (NativeIdentity ''key'') [''age1x''] False
      = Inr ''s3cret''" by code_simp
  with rekey_is_decrypt_then_encrypt show ?thesis by blast
qed

section \<open>The isolated worker\<close>

text \<open>
  C20. Plugin operations refine the direct ones: with a worker that runs the worker protocol, an operation sent
  to it gives exactly what the same operation gives in the process, for all five operations. The
  request is framed and parsed without loss, the output limit is kept, and every error of the
  worker becomes the one plugin error. Texts are UTF-8, as Rust strings are.
\<close>

theorem plugin_worker_refines:
  assumes "worker_runs api age rng env" and "operation_utf8 operation"
    and "plugin_binary_directories api env operation = Inr directories"
    and "write_plugin_request operation input = Inr stream"
  shows "run_plugin_operation api env operation input =
    (case direct_operation api age rng operation [input] of
       Inr out \<Rightarrow> if length out \<le> output_limit operation then Inr out else Inl CryptoPlugin
     | Inl _ \<Rightarrow> Inl CryptoPlugin)"
  by (rule run_plugin_operation_eq [OF assms])

lemma example_worker_runs: "worker_runs example_age_api example_age 0 example_plugins"
  by (auto simp: worker_runs_def example_plugins_def example_worker_def file_reader_def split: sum.split)

theorem plugin_worker_refines_witness:
  "run_plugin_operation example_age_api example_plugins (PluginDecrypt (Some ''plugin-identity'') []) example_ciphertext
     = Inr ''s3cret''"
proof -
  let ?op = "PluginDecrypt (Some ''plugin-identity'') []"
  have utf8: "operation_utf8 ?op" by code_simp
  have "is_ok (plugin_binary_directories example_age_api example_plugins ?op)" by code_simp
  then obtain directories where dirs: "plugin_binary_directories example_age_api example_plugins ?op = Inr directories"
    by (auto simp: is_ok_iff)
  have "is_ok (write_plugin_request ?op example_ciphertext)" by code_simp
  then obtain stream where request: "write_plugin_request ?op example_ciphertext = Inr stream" by (auto simp: is_ok_iff)
  have "direct_operation example_age_api example_age 0 ?op [example_ciphertext] = Inr ''s3cret''" by code_simp
  with plugin_worker_refines [OF example_worker_runs utf8 dirs request] show ?thesis
    by (simp add: MAX_SECRET_BYTES_def)
qed

text \<open>
  A worker can only find plugins from the store: each directory on its search path is the
  parent of an executable regular file below \<open>/nix/store\<close>, and there is at least one.
\<close>

theorem plugin_directories_from_store:
  assumes "plugin_binary_directories api env operation = Inr directories"
  shows "directories \<noteq> [] \<and> (\<forall>d \<in> set directories. \<exists>canonical.
    canonical_parent canonical = Some d \<and> path_starts_with canonical ''/nix/store''
    \<and> (\<exists>mode. pe_metadata env canonical = Some (True, mode) \<and> mode AND 0x49 \<noteq> 0))"
  using plugin_directories_safe [OF assms] by (fastforce simp: plugin_executable_def split: option.splits)

theorem plugin_directories_from_store_witness:
  "\<exists>directories. plugin_binary_directories example_age_api example_plugins (PluginDecrypt (Some ''plugin-identity'') [])
     = Inr directories \<and> directories \<noteq> []"
proof -
  have "is_ok (plugin_binary_directories example_age_api example_plugins (PluginDecrypt (Some ''plugin-identity'') []))"
    by code_simp
  then show ?thesis using plugin_directories_from_store by (auto simp: is_ok_iff)
qed

end
