(* ===== verification/Cache_Transfer.thy ===== *)
theory Cache_Transfer
  imports Cache_Store
begin

text \<open>
  Opening, exporting and importing caches (\<open>Cache::open\<close>, \<open>export_to\<close>, \<open>import_from\<close> of
  \<open>crates/nix-seal-cache/src/lib.rs\<close>). A transfer copies every verified entry; an import takes a
  private snapshot of the foreign directory first, checks it against the destination, and only then
  writes. The temporary name of an artifact transaction is a parameter, as in
  \<^theory_text>\<open>Cache_Store\<close>; path normalisation is an operating-system call, so a root is given by what is
  found at the path.
\<close>

section \<open>Opening\<close>

datatype cache_root = NoRoot | Root meta area area | RootOther

definition fresh_cache :: "nat \<Rightarrow> (bytes \<Rightarrow> string) \<Rightarrow> cache" where
  "fresh_cache euid hash = \<lparr>c_objects = Absent, c_artifacts = Absent, c_euid = euid,
     c_allow_foreign_owner = False, c_hash = hash\<rparr>"

text \<open>An error before the root is accepted, or the outcome of the recovery of its transactions.\<close>

definition cache_open :: "nat \<Rightarrow> (bytes \<Rightarrow> string) \<Rightarrow> cache_root \<Rightarrow> cache_error + unit step" where
  "cache_open euid hash root =
     (case root of
        NoRoot \<Rightarrow> Inr (recover_transactions (fresh_cache euid hash))
      | RootOther \<Rightarrow> Inl CUnsafeMetadata
      | Root m objects artifacts \<Rightarrow>
          if meta_uid m \<noteq> euid then Inl CUnsafeMetadata
          else Inr (recover_transactions \<lparr>c_objects = objects, c_artifacts = artifacts, c_euid = euid,
            c_allow_foreign_owner = False, c_hash = hash\<rparr>))"

definition open_existing :: "nat \<Rightarrow> (bytes \<Rightarrow> string) \<Rightarrow> cache_root \<Rightarrow> cache_error + cache" where
  "open_existing euid hash root =
     (case root of
        NoRoot \<Rightarrow> Inl CIo
      | RootOther \<Rightarrow> Inl CUnsafeMetadata
      | Root m objects artifacts \<Rightarrow>
          if group_or_world (meta_mode m) then Inl CUnsafeMetadata
          else Inr \<lparr>c_objects = objects, c_artifacts = artifacts, c_euid = euid,
            c_allow_foreign_owner = True, c_hash = hash\<rparr>)"

section \<open>Limits\<close>

record transfer_report =
  tr_object_count :: nat
  tr_artifact_count :: nat
  tr_bytes :: nat

definition empty_report :: transfer_report where
  "empty_report = \<lparr>tr_object_count = 0, tr_artifact_count = 0, tr_bytes = 0\<rparr>"

definition checked_transfer_bytes :: "nat \<Rightarrow> nat \<Rightarrow> cache_error + nat" where
  "checked_transfer_bytes so_far additional =
     and_then (add_u64 so_far additional) (\<lambda>t. if MAX_TRANSFER_BYTES < t then Inl CLimit else Inr t)"

definition enforce_transfer_entry_limit :: "nat \<Rightarrow> nat \<Rightarrow> cache_error + unit" where
  "enforce_transfer_entry_limit objects artifacts =
     and_then (add_u64 objects artifacts) (\<lambda>n. if MAX_TRANSFER_ENTRIES < n then Inl CLimit else Inr ())"

definition preflight_object :: "cache \<Rightarrow> transfer_report \<Rightarrow> string \<times> entry \<Rightarrow> cache_error + transfer_report" where
  "preflight_object c r = (\<lambda>(digest, e).
     and_then (check (is_digest digest) CUnsafeMetadata) (\<lambda>_.
     and_then (add_u64 (tr_object_count r) 1) (\<lambda>n.
     and_then (enforce_transfer_entry_limit n (tr_artifact_count r)) (\<lambda>_.
     and_then (entry_length c e) (\<lambda>len.
     and_then (check (len \<le> MAX_CIPHERTEXT_BYTES) CLimit) (\<lambda>_.
     and_then (checked_transfer_bytes (tr_bytes r) len) (\<lambda>t.
     Inr (r\<lparr>tr_object_count := n, tr_bytes := t\<rparr>))))))))"

definition preflight_artifact ::
  "cache \<Rightarrow> transfer_report \<times> nat \<Rightarrow> string \<Rightarrow> cache_error + transfer_report \<times> nat" where
  "preflight_artifact c = (\<lambda>(r, envelope_bytes) key.
     and_then (add_u64 (tr_artifact_count r) 1) (\<lambda>n.
     and_then (enforce_transfer_entry_limit (tr_object_count r) n) (\<lambda>_.
     and_then (artifact_layout c key) (\<lambda>(_, ciphertext_length, envelope_length).
     and_then (checked_transfer_bytes (tr_bytes r) ciphertext_length) (\<lambda>t.
     and_then (checked_transfer_bytes t envelope_length) (\<lambda>t'.
     and_then (add_u64 envelope_bytes envelope_length) (\<lambda>e.
     if MAX_INVENTORY_ENVELOPE_BYTES < e then Inl CLimit
     else Inr (r\<lparr>tr_artifact_count := n, tr_bytes := t'\<rparr>, e))))))))"

definition preflight_transfer_limits :: "cache \<Rightarrow> cache_error + unit" where
  "preflight_transfer_limits c =
     and_then (read_area (c_objects c)) (\<lambda>os.
     and_then (fold_result (preflight_object c) empty_report os) (\<lambda>r.
     and_then (artifact_keys c) (\<lambda>keys.
     and_then (fold_result (preflight_artifact c) (r, 0) keys) (\<lambda>_. Inr ()))))"

section \<open>Copying\<close>

text \<open>What the loop over the objects reads of the source before it writes.\<close>

definition take_object :: "cache \<Rightarrow> transfer_report \<Rightarrow> string \<times> entry \<Rightarrow> cache_error + transfer_report \<times> bytes" where
  "take_object source r = (\<lambda>(digest, e).
     and_then (check (is_digest digest) CUnsafeMetadata) (\<lambda>_.
     and_then (add_u64 (tr_object_count r) 1) (\<lambda>n.
     and_then (enforce_transfer_entry_limit n (tr_artifact_count r)) (\<lambda>_.
     and_then (entry_length source e) (\<lambda>expected_length.
     and_then (checked_transfer_bytes (tr_bytes r) expected_length) (\<lambda>t.
     and_then (get_object source digest) (\<lambda>bs.
     and_then (check (length bs = expected_length) CConflict) (\<lambda>_.
     Inr (r\<lparr>tr_object_count := n, tr_bytes := t\<rparr>, bs)))))))))"

definition copy_object ::
  "cache \<Rightarrow> cache \<times> transfer_report \<Rightarrow> string \<times> entry \<Rightarrow> (cache \<times> transfer_report) \<times> cache_error option" where
  "copy_object source = (\<lambda>(destination, r) (digest, e).
     case take_object source r (digest, e) of
       Inl err \<Rightarrow> ((destination, r), Some err)
     | Inr (r', bs) \<Rightarrow>
         (case put_object destination bs of
            (destination', Inl err) \<Rightarrow> ((destination', r'), Some err)
          | (destination', Inr d) \<Rightarrow> ((destination', r'), if d = digest then None else Some CHashMismatch)))"

definition take_artifact ::
  "cache \<Rightarrow> transfer_report \<Rightarrow> string \<Rightarrow> cache_error + transfer_report \<times> artifact_record \<times> bytes" where
  "take_artifact source r key =
     and_then (add_u64 (tr_artifact_count r) 1) (\<lambda>n.
     and_then (enforce_transfer_entry_limit (tr_object_count r) n) (\<lambda>_.
     and_then (artifact_layout source key) (\<lambda>(_, ciphertext_bytes, envelope_bytes).
     and_then (checked_transfer_bytes (tr_bytes r) ciphertext_bytes) (\<lambda>t.
     and_then (checked_transfer_bytes t envelope_bytes) (\<lambda>t'.
     and_then (load_artifact_by_key source key) (\<lambda>(record, ciphertext).
     Inr (r\<lparr>tr_artifact_count := n, tr_bytes := t'\<rparr>, record, ciphertext)))))))"

definition same_artifact :: "artifact_record \<Rightarrow> artifact_record \<Rightarrow> bool" where
  "same_artifact existing record \<longleftrightarrow>
     ar_ciphertext_hash existing = ar_ciphertext_hash record \<and> ar_envelope existing = ar_envelope record"

definition copy_artifact ::
  "cache \<Rightarrow> string \<Rightarrow> cache \<times> transfer_report \<Rightarrow> string \<Rightarrow> (cache \<times> transfer_report) \<times> cache_error option" where
  "copy_artifact source temporary = (\<lambda>(destination, r) key.
     case take_artifact source r key of
       Inl err \<Rightarrow> ((destination, r), Some err)
     | Inr (r', record, ciphertext) \<Rightarrow>
         (case put_artifact_by_key destination temporary (ar_key record) (file_reader ciphertext) (ar_envelope record) of
            (destination', Inr imported) \<Rightarrow>
              ((destination', r'), if ar_ciphertext_hash imported = ar_ciphertext_hash record then None else Some CConflict)
          | (destination', Inl CArtifactExists) \<Rightarrow>
              ((destination', r'),
               case load_artifact_by_key destination' (ar_key record) of
                 Inl err \<Rightarrow> Some err
               | Inr (existing, _) \<Rightarrow> if same_artifact existing record then None else Some CConflict)
          | (destination', Inl err) \<Rightarrow> ((destination', r'), Some err)))"

definition copy_into_unlocked_with :: "cache \<Rightarrow> cache \<Rightarrow> string \<Rightarrow> transfer_report step" where
  "copy_into_unlocked_with source destination temporary =
     (case and_then (preflight_transfer_limits source) (\<lambda>_. read_area (c_objects source)) of
        Inl err \<Rightarrow> (destination, Inl err)
      | Inr os \<Rightarrow>
          (case fold_until (copy_object source) (destination, empty_report) os of
             ((d1, r1), Some err) \<Rightarrow> (d1, Inl err)
           | ((d1, r1), None) \<Rightarrow>
               (case artifact_keys source of
                  Inl err \<Rightarrow> (d1, Inl err)
                | Inr keys \<Rightarrow>
                    (case fold_until (copy_artifact source temporary) (d1, r1) keys of
                       ((d2, r2), Some err) \<Rightarrow> (d2, Inl err)
                     | ((d2, r2), None) \<Rightarrow> (d2, Inr r2)))))"

section \<open>Export and import\<close>

text \<open>
  The state found at the destination path afterwards, and the report. The staged cache is built in a
  fresh private directory beside the destination and renamed without replacing.
\<close>

definition export_to ::
  "cache \<Rightarrow> string \<Rightarrow> cache_root \<Rightarrow> bool \<Rightarrow> cache_root \<times> (cache_error + transfer_report)" where
  "export_to c temporary destination parent_is_directory =
     (if destination \<noteq> NoRoot then (destination, Inl CDestinationExists)
      else if \<not> parent_is_directory then (destination, Inl CUnsafeMetadata)
      else
        case cache_open (c_euid c) (c_hash c) NoRoot of
          Inl err \<Rightarrow> (destination, Inl err)
        | Inr (_, Inl err) \<Rightarrow> (destination, Inl err)
        | Inr (staged, Inr _) \<Rightarrow>
            (case copy_into_unlocked_with c staged temporary of
               (_, Inl err) \<Rightarrow> (destination, Inl err)
             | (exported, Inr r) \<Rightarrow>
                 (Root (private_directory_meta (c_euid c)) (c_objects exported) (c_artifacts exported), Inr r)))"

definition preflight_area :: "cache \<Rightarrow> area \<Rightarrow> cache_error + unit" where
  "preflight_area destination a =
     (case a of
        Absent \<Rightarrow> Inr ()
      | NotDirectory \<Rightarrow> Inl CUnsafeMetadata
      | Area m _ \<Rightarrow> check (private_ok destination m) CUnsafeMetadata)"

definition preflight_destination :: "cache \<Rightarrow> cache \<Rightarrow> cache_error + unit" where
  "preflight_destination c destination =
     and_then (preflight_area destination (c_objects destination)) (\<lambda>_.
     and_then (preflight_area destination (c_artifacts destination)) (\<lambda>_.
     and_then (read_area (c_objects c)) (\<lambda>os.
     and_then (for_each (\<lambda>(digest, _).
         and_then (get_object c digest) (\<lambda>_.
         case area_entry (c_objects destination) digest of
           None \<Rightarrow> Inr ()
         | Some _ \<Rightarrow> and_then (get_object destination digest) (\<lambda>_. Inr ()))) os) (\<lambda>_.
     and_then (artifact_records c) (\<lambda>records.
     for_each (\<lambda>record.
         case area_entry (c_artifacts destination) (ar_key record) of
           None \<Rightarrow> Inr ()
         | Some _ \<Rightarrow>
             and_then (load_artifact_by_key destination (ar_key record)) (\<lambda>(existing, _).
             check (same_artifact existing record) CConflict)) records)))))"

definition import_from :: "cache \<Rightarrow> string \<Rightarrow> bool \<Rightarrow> cache_root \<Rightarrow> transfer_report step" where
  "import_from c temporary same_root source =
     (case open_existing (c_euid c) (c_hash c) source of
        Inl err \<Rightarrow> (c, Inl err)
      | Inr foreign \<Rightarrow>
          if same_root then (c, Inl CUnsafeMetadata)
          else
            (case cache_open (c_euid c) (c_hash c) NoRoot of
               Inl err \<Rightarrow> (c, Inl err)
             | Inr (_, Inl err) \<Rightarrow> (c, Inl err)
             | Inr (fresh, Inr _) \<Rightarrow>
                 (case copy_into_unlocked_with foreign fresh temporary of
                    (_, Inl err) \<Rightarrow> (c, Inl err)
                  | (staging, Inr r) \<Rightarrow>
                      (case preflight_destination staging c of
                         Inl err \<Rightarrow> (c, Inl err)
                       | Inr _ \<Rightarrow>
                           (case copy_into_unlocked_with staging c temporary of
                              (c', Inl err) \<Rightarrow> (c', Inl err)
                            | (c', Inr _) \<Rightarrow> (c', Inr r))))))"

section \<open>What an operation depends on\<close>

definition same_settings :: "cache \<Rightarrow> cache \<Rightarrow> bool" where
  "same_settings c d \<longleftrightarrow> c_euid c = c_euid d \<and> c_hash c = c_hash d
     \<and> c_allow_foreign_owner c = c_allow_foreign_owner d"

lemma same_settings_refl [simp]: "same_settings c c"
  by (simp add: same_settings_def)

lemma same_settings_trans: "same_settings a b \<Longrightarrow> same_settings b c \<Longrightarrow> same_settings a c"
  by (simp add: same_settings_def)

lemma private_cong:
  "same_settings c d \<Longrightarrow> private_ok c = private_ok d"
  "same_settings c d \<Longrightarrow> private_file c = private_file d"
  by (auto simp: same_settings_def private_ok_def private_file_def fun_eq_iff)

lemma get_object_cong:
  assumes "same_settings c d" and "area_entry (c_objects c) n = area_entry (c_objects d) n"
  shows "get_object c n = get_object d n"
  using assms(2) private_cong [OF assms(1)] assms(1)
  by (simp add: get_object_def open_private_entry_def same_settings_def split: option.split entry.split)

lemma load_artifact_cong:
  assumes "same_settings c d" and "area_entry (c_artifacts c) n = area_entry (c_artifacts d) n"
  shows "load_artifact_by_key c n = load_artifact_by_key d n"
proof -
  have leaf: "leaf_length c = leaf_length d" "open_private_leaf c = open_private_leaf d"
    using private_cong [OF assms(1)]
    by (auto simp: leaf_length_def open_private_leaf_def fun_eq_iff split: option.split leaf.split)
  have "artifact_layout c n = artifact_layout d n"
    using assms(2) private_cong(1) [OF assms(1)] by (simp add: artifact_layout_def leaf split: option.split entry.split)
  then show ?thesis using assms(1) by (simp add: load_artifact_by_key_def leaf same_settings_def)
qed

text \<open>An area the owner can write to.\<close>

definition writable :: "cache \<Rightarrow> area \<Rightarrow> bool" where
  "writable c a \<longleftrightarrow> (case a of Absent \<Rightarrow> True | Area m _ \<Rightarrow> meta_uid m = c_euid c | NotDirectory \<Rightarrow> False)"

lemma writable_cong: "same_settings c d \<Longrightarrow> writable c = writable d"
  by (auto simp: writable_def same_settings_def fun_eq_iff split: area.splits)

lemma writable_ensure:
  assumes "writable c a"
  obtains m es where "ensure_private_directory (c_euid c) a = Inr (Area m es)" "meta_uid m = c_euid c"
    "\<And>n. bt_get es n = area_entry a n"
  using assms by (cases a)
    (auto simp: writable_def ensure_private_directory_def area_entry_def private_directory_meta_def)

lemma preflight_area_writable:
  "preflight_area c a = Inr u \<Longrightarrow> \<not> c_allow_foreign_owner c \<Longrightarrow> writable c a"
  by (cases a) (auto simp: preflight_area_def writable_def private_ok_def)

section \<open>One object\<close>

definition private_object :: "nat \<Rightarrow> entry \<Rightarrow> entry" where
  "private_object euid e = EFile (private_file_meta euid) (case e of EFile _ bs \<Rightarrow> bs | _ \<Rightarrow> [])"

text \<open>What a copied object was in the source.\<close>

definition sound_object :: "cache \<Rightarrow> string \<times> entry \<Rightarrow> bool" where
  "sound_object c = (\<lambda>(d, e). is_digest d \<and> (\<exists>m bs. e = EFile m bs \<and> private_file c m
     \<and> c_hash c bs = d \<and> length bs \<le> MAX_CIPHERTEXT_BYTES))"

lemma get_object_entry:
  assumes "area_entry (c_objects c) d = Some e" and "is_digest d"
  shows "get_object c d = Inr bs \<longleftrightarrow> sound_object c (d, e) \<and> (\<exists>m. e = EFile m bs)"
  using assms digest_hex [OF assms(2)]
  by (cases e) (auto simp: get_object_def open_private_entry_def read_bounded_iff sound_object_def)

text \<open>The limits that the loop tracks.\<close>

definition object_report :: "transfer_report \<Rightarrow> string \<times> entry \<Rightarrow> cache_error + transfer_report" where
  "object_report r = (\<lambda>(d, e).
     and_then (add_u64 (tr_object_count r) 1) (\<lambda>n.
     and_then (enforce_transfer_entry_limit n (tr_artifact_count r)) (\<lambda>_.
     and_then (checked_transfer_bytes (tr_bytes r) (case e of EFile _ bs \<Rightarrow> length bs | _ \<Rightarrow> 0)) (\<lambda>t.
     Inr (r\<lparr>tr_object_count := n, tr_bytes := t\<rparr>)))))"

lemma take_object_iff:
  assumes "area_entry (c_objects c) d = Some e"
  shows "take_object c r (d, e) = Inr (r', bs) \<longleftrightarrow>
    sound_object c (d, e) \<and> object_report r (d, e) = Inr r' \<and> (\<exists>m. e = EFile m bs)"
proof (cases "is_digest d")
  case True
  show ?thesis
    using get_object_entry [OF assms True]
    by (cases e) (auto simp: take_object_def object_report_def entry_length_def sound_object_def True)
next
  case False
  then show ?thesis by (auto simp: take_object_def sound_object_def)
qed

lemma preflight_object_iff:
  assumes "sound_object c (d, e)"
  shows "preflight_object c r (d, e) = object_report r (d, e)"
  using assms by (auto simp: sound_object_def preflight_object_def object_report_def entry_length_def)

section \<open>The loops that copy\<close>

text \<open>
  What the two loops have in common. A step reads a listed item of the source, which must be sound,
  advances the report, and stores a private copy under the item's name unless an entry that
  agrees with it is there.
\<close>

locale copier =
  fixes step :: "cache \<times> transfer_report \<Rightarrow> 'a \<Rightarrow> (cache \<times> transfer_report) \<times> cache_error option"
    and view :: "cache \<Rightarrow> string \<Rightarrow> entry option"
    and other :: "cache \<Rightarrow> area"
    and name :: "'a \<Rightarrow> string"
    and listed :: "'a \<Rightarrow> bool"
    and sound :: "'a \<Rightarrow> bool"
    and report :: "transfer_report \<Rightarrow> 'a \<Rightarrow> cache_error + transfer_report"
    and private_copy :: "nat \<Rightarrow> 'a \<Rightarrow> entry"
    and ready :: "cache \<Rightarrow> bool"
    and agrees :: "cache \<Rightarrow> 'a \<Rightarrow> bool"
  assumes step_needs: "listed x \<Longrightarrow> step (d, r) x = ((d', r'), None) \<Longrightarrow> sound x \<and> report r x = Inr r'"
    and step_does: "listed x \<Longrightarrow> ready d \<Longrightarrow> sound x \<Longrightarrow> report r x = Inr r' \<Longrightarrow>
      (view d (name x) \<noteq> None \<longrightarrow> agrees d x) \<Longrightarrow>
      \<exists>d'. step (d, r) x = ((d', r'), None) \<and> ready d' \<and> same_settings d' d \<and> other d' = other d
        \<and> (\<forall>n. view d' n = (if n = name x \<and> view d n = None then Some (private_copy (c_euid d) x) else view d n))"
    and agrees_cong: "same_settings d' d \<Longrightarrow> view d' (name x) = view d (name x) \<Longrightarrow> agrees d' x = agrees d x"
begin

lemma run_needs:
  "fold_until step (d, r) xs = ((d', r'), None) \<Longrightarrow> \<forall>x \<in> set xs. listed x \<Longrightarrow>
     (\<forall>x \<in> set xs. sound x) \<and> fold_result report r xs = Inr r'"
proof (induction xs arbitrary: d r)
  case (Cons x xs)
  obtain d1 r1 where s: "step (d, r) x = ((d1, r1), None)" and rest: "fold_until step (d1, r1) xs = ((d', r'), None)"
    using Cons.prems(1) by (auto split: prod.splits option.splits)
  from step_needs [OF _ s] Cons.IH [OF rest] Cons.prems(2) show ?case by simp
qed simp

lemma run_does:
  assumes "\<forall>x \<in> set xs. listed x \<and> sound x" and "distinct (map name xs)" and "ready d"
    and "fold_result report r xs = Inr r'" and "\<forall>x \<in> set xs. view d (name x) \<noteq> None \<longrightarrow> agrees d x"
  shows "\<exists>d'. fold_until step (d, r) xs = ((d', r'), None) \<and> ready d' \<and> same_settings d' d \<and> other d' = other d
    \<and> (\<forall>n. view d' n = (case view d n of Some e \<Rightarrow> Some e | None \<Rightarrow>
         map_option (private_copy (c_euid d)) (map_of (map (\<lambda>x. (name x, x)) xs) n)))"
  using assms
proof (induction xs arbitrary: d r)
  case Nil
  then show ?case by (auto split: option.split)
next
  case (Cons x xs)
  obtain r1 where r1: "report r x = Inr r1" "fold_result report r1 xs = Inr r'" using Cons.prems(4) by auto
  obtain d1 where s: "step (d, r) x = ((d1, r1), None)" and d1: "ready d1" "same_settings d1 d" "other d1 = other d"
    and v: "\<And>n. view d1 n = (if n = name x \<and> view d n = None then Some (private_copy (c_euid d) x) else view d n)"
    using step_does [of x d r r1] Cons.prems r1(1) by auto
  have fresh: "name y \<noteq> name x" if "y \<in> set xs" for y
    using Cons.prems(2) imageI [OF that, of name] by auto
  have "\<forall>y \<in> set xs. view d1 (name y) \<noteq> None \<longrightarrow> agrees d1 y"
    using Cons.prems(5) fresh agrees_cong [OF d1(2)] v by simp
  from Cons.IH [OF _ _ d1(1) r1(2) this] Cons.prems(1,2) obtain d' where
    "fold_until step (d1, r1) xs = ((d', r'), None)" "ready d'" "same_settings d' d1" "other d' = other d1"
    "\<forall>n. view d' n = (case view d1 n of Some e \<Rightarrow> Some e | None \<Rightarrow>
         map_option (private_copy (c_euid d1)) (map_of (map (\<lambda>x. (name x, x)) xs) n))"
    by auto
  moreover have "c_euid d1 = c_euid d" using d1(2) by (simp add: same_settings_def)
  moreover have "name x \<notin> fst ` set (map (\<lambda>x. (name x, x)) xs)" using Cons.prems(2) by force
  ultimately show ?case
    using s d1 v by (intro exI [of _ d']) (auto intro: same_settings_trans split: option.splits)
qed

end

lemma put_object_into:
  assumes w: "writable d (c_objects d)" and len: "length bs \<le> MAX_CIPHERTEXT_BYTES"
    and old: "area_entry (c_objects d) (c_hash d bs) \<noteq> None \<longrightarrow> is_ok (get_object d (c_hash d bs))"
  shows "\<exists>d'. put_object d bs = (d', Inr (c_hash d bs)) \<and> writable d' (c_objects d') \<and> same_settings d' d
    \<and> c_artifacts d' = c_artifacts d
    \<and> (\<forall>n. area_entry (c_objects d') n =
        (if n = c_hash d bs \<and> area_entry (c_objects d) n = None
         then Some (EFile (private_file_meta (c_euid d)) bs) else area_entry (c_objects d) n))"
proof -
  from writable_ensure [OF w] obtain m es where
    e: "ensure_private_directory (c_euid d) (c_objects d) = Inr (Area m es)" "meta_uid m = c_euid d"
      "\<And>n. bt_get es n = area_entry (c_objects d) n" by metis
  let ?c = "d\<lparr>c_objects := Area m es\<rparr>"
  have view: "area_entry (Area m es) n = area_entry (c_objects d) n" for n using e(3) by (simp add: area_entry_def)
  have get: "get_object ?c n = get_object d n" for n
    by (rule get_object_cong) (simp_all add: same_settings_def view)
  show ?thesis
  proof (cases "area_entry (c_objects d) (c_hash d bs)")
    case None
    then show ?thesis
      using len e(2,3)
      by (auto simp: put_object_def Let_def e(1) view same_settings_def writable_def set_entry_def
          area_entry_def [of "Area _ _"])
  next
    case (Some x)
    then have "is_ok (get_object ?c (c_hash d bs))" using old get by simp
    then show ?thesis
      using len Some by (auto simp: put_object_def e view same_settings_def writable_def is_ok_iff)
  qed
qed

definition object_listed :: "cache \<Rightarrow> string \<times> entry \<Rightarrow> bool" where
  "object_listed c x \<longleftrightarrow> area_entry (c_objects c) (fst x) = Some (snd x)"

interpretation copy_objects: copier "copy_object source" "\<lambda>d. area_entry (c_objects d)" c_artifacts fst
  "object_listed source" "sound_object source" object_report "\<lambda>euid x. private_object euid (snd x)"
  "\<lambda>d. c_hash d = c_hash source \<and> writable d (c_objects d)" "\<lambda>d x. is_ok (get_object d (fst x))"
  for source
proof unfold_locales
  fix x d r d' r'
  assume "object_listed source x" and "copy_object source (d, r) x = ((d', r'), None)"
  then show "sound_object source x \<and> object_report r x = Inr r'"
    by (cases x) (auto simp: copy_object_def object_listed_def take_object_iff split: sum.splits prod.splits)
next
  fix x d r r'
  assume l: "object_listed source x" and ready: "c_hash d = c_hash source \<and> writable d (c_objects d)"
    and s: "sound_object source x" and rep: "object_report r x = Inr r'"
    and a: "area_entry (c_objects d) (fst x) \<noteq> None \<longrightarrow> is_ok (get_object d (fst x))"
  obtain n m bs where x: "x = (n, EFile m bs)" and bs: "c_hash source bs = n" "length bs \<le> MAX_CIPHERTEXT_BYTES"
    using s by (cases x) (auto simp: sound_object_def)
  have t: "take_object source r x = Inr (r', bs)" using l s rep by (simp add: x object_listed_def take_object_iff)
  from put_object_into [of d bs] ready bs a show "\<exists>d'. copy_object source (d, r) x = ((d', r'), None)
      \<and> (c_hash d' = c_hash source \<and> writable d' (c_objects d')) \<and> same_settings d' d \<and> c_artifacts d' = c_artifacts d
      \<and> (\<forall>n. area_entry (c_objects d') n = (if n = fst x \<and> area_entry (c_objects d) n = None
          then Some (private_object (c_euid d) (snd x)) else area_entry (c_objects d) n))"
    using t by (fastforce simp: copy_object_def x private_object_def same_settings_def)
next
  fix d' d x
  assume "same_settings d' d" "area_entry (c_objects d') (fst x) = area_entry (c_objects d) (fst x)"
  then show "is_ok (get_object d' (fst x)) = is_ok (get_object d (fst x))" by (simp add: get_object_cong)
qed

section \<open>One artifact\<close>

lemma open_leaf_length:
  "open_private_leaf c l = Inr bs \<Longrightarrow> leaf_length c l = Inr (length bs)"
  by (auto simp: open_private_leaf_def leaf_length_def split: option.splits leaf.splits if_splits)

lemma load_artifact_parts:
  assumes "load_artifact_by_key c key = Inr (record, ciphertext)"
  obtains files where "artifact_layout c key = Inr (files, length ciphertext, length (ar_envelope record))"
    and "is_digest key" "length ciphertext \<le> MAX_CIPHERTEXT_BYTES" "length (ar_envelope record) \<le> MAX_ENVELOPE_BYTES"
    and "ar_key record = key" "ar_ciphertext_hash record = c_hash c ciphertext"
proof -
  from assms obtain files n k where l: "artifact_layout c key = Inr (files, n, k)"
    and ct: "open_private_leaf c (bt_get files CIPHERTEXT_NAME) = Inr ciphertext"
    and env: "open_private_leaf c (bt_get files ENVELOPE_NAME) = Inr (ar_envelope record)"
    and r: "ar_key record = key" "ar_ciphertext_hash record = c_hash c ciphertext"
      "length ciphertext \<le> MAX_CIPHERTEXT_BYTES" "length (ar_envelope record) \<le> MAX_ENVELOPE_BYTES"
    by (auto simp: load_artifact_by_key_def copy_and_hash_file read_bounded_iff split: if_splits)
  from l open_leaf_length [OF ct] open_leaf_length [OF env]
  have "n = length ciphertext" "k = length (ar_envelope record)" "is_digest key"
    by (auto simp: artifact_layout_def)
  with l r that show thesis by blast
qed

definition artifact_report :: "cache \<Rightarrow> transfer_report \<Rightarrow> string \<Rightarrow> cache_error + transfer_report" where
  "artifact_report c r key =
     and_then (load_artifact_by_key c key) (\<lambda>(record, ciphertext).
     and_then (add_u64 (tr_artifact_count r) 1) (\<lambda>n.
     and_then (enforce_transfer_entry_limit (tr_object_count r) n) (\<lambda>_.
     and_then (checked_transfer_bytes (tr_bytes r) (length ciphertext)) (\<lambda>t.
     and_then (checked_transfer_bytes t (length (ar_envelope record))) (\<lambda>t'.
     Inr (r\<lparr>tr_artifact_count := n, tr_bytes := t'\<rparr>))))))"

lemma take_artifact_iff:
  "take_artifact c r key = Inr (r', record, ciphertext) \<longleftrightarrow>
     load_artifact_by_key c key = Inr (record, ciphertext) \<and> artifact_report c r key = Inr r'"
proof (cases "load_artifact_by_key c key")
  case (Inr y)
  then obtain rec ct where y: "load_artifact_by_key c key = Inr (rec, ct)" by (cases y) auto
  from load_artifact_parts [OF y] obtain files
    where "artifact_layout c key = Inr (files, length ct, length (ar_envelope rec))" by metis
  then show ?thesis by (auto simp: take_artifact_def artifact_report_def y)
qed (auto simp: take_artifact_def)

definition private_artifact :: "cache \<Rightarrow> nat \<Rightarrow> string \<Rightarrow> entry" where
  "private_artifact source euid key =
     (case load_artifact_by_key source key of
        Inr (record, ciphertext) \<Rightarrow> artifact_bundle euid ciphertext (ar_envelope record)
      | Inl _ \<Rightarrow> ESpecial)"

definition agreeing_artifact :: "cache \<Rightarrow> cache \<Rightarrow> string \<Rightarrow> bool" where
  "agreeing_artifact source d key \<longleftrightarrow>
     (\<exists>existing old record ciphertext. load_artifact_by_key d key = Inr (existing, old)
       \<and> load_artifact_by_key source key = Inr (record, ciphertext) \<and> same_artifact existing record)"

lemma stage_existing:
  assumes "writable d (c_artifacts d)" and "is_digest key" and "length envelope \<le> MAX_ENVELOPE_BYTES"
    and "area_entry (c_artifacts d) key = Some (EDir m files)"
  shows "\<exists>d'. put_artifact_by_key d temporary key input envelope = (d', Inl CArtifactExists)
    \<and> writable d' (c_artifacts d') \<and> same_settings d' d \<and> c_objects d' = c_objects d
    \<and> (\<forall>n. area_entry (c_artifacts d') n = area_entry (c_artifacts d) n)"
proof -
  from writable_ensure [OF assms(1)] obtain m' es where
    e: "ensure_private_directory (c_euid d) (c_artifacts d) = Inr (Area m' es)" "meta_uid m' = c_euid d"
      "\<And>n. bt_get es n = area_entry (c_artifacts d) n" by metis
  have view: "area_entry (Area m' es) n = area_entry (c_artifacts d) n" for n
    using e(3) by (simp add: area_entry_def)
  show ?thesis
    using assms(2-) e(2)
    by (simp add: put_artifact_by_key_def stage_artifact_def e(1) view path_exists_def same_settings_def writable_def)
qed

lemma put_artifact_into:
  assumes w: "writable d (c_artifacts d)" and key: "is_digest key" "temporary \<noteq> key"
    and tmp: "area_entry (c_artifacts d) temporary = None" and new: "area_entry (c_artifacts d) key = None"
    and len: "length ciphertext \<le> MAX_CIPHERTEXT_BYTES" "length envelope \<le> MAX_ENVELOPE_BYTES"
  shows "\<exists>d' record. put_artifact_by_key d temporary key (file_reader ciphertext) envelope = (d', Inr record)
    \<and> ar_ciphertext_hash record = c_hash d ciphertext
    \<and> writable d' (c_artifacts d') \<and> same_settings d' d \<and> c_objects d' = c_objects d
    \<and> (\<forall>n. area_entry (c_artifacts d') n =
         (if n = key then Some (artifact_bundle (c_euid d) ciphertext envelope) else area_entry (c_artifacts d) n))"
proof -
  from writable_ensure [OF w] obtain m es where
    e: "ensure_private_directory (c_euid d) (c_artifacts d) = Inr (Area m es)" "meta_uid m = c_euid d"
      "\<And>n. bt_get es n = area_entry (c_artifacts d) n" by metis
  have st: "stage_artifact d temporary key (file_reader ciphertext) envelope =
      (d\<lparr>c_artifacts := Area m (bt_insert temporary (artifact_bundle (c_euid d) ciphertext envelope) es)\<rparr>,
       Inr (c_hash d ciphertext))"
    using key new len
    by (simp add: stage_artifact_def e(1) area_entry_def [of "Area _ _"] e(3) path_exists_def copy_and_hash_correct
        set_entry_def Let_def)
  have "rename_noreplace (Area m (bt_insert temporary x es)) temporary key =
      Inr (Area m (bt_insert key x (bt_filter (\<lambda>(n, _). n \<noteq> temporary) (bt_insert temporary x es))))" for x
    using key(2) new by (simp add: rename_noreplace_def area_entry_def [of "Area _ _"] e(3) remove_entry_def set_entry_def)
  then show ?thesis
    using tmp e(2)
    by (auto simp: put_artifact_by_key_def st publish_artifact_def same_settings_def writable_def
        area_entry_def [of "Area _ _"] bt_get_filter e(3) split: option.split)
qed

definition artifacts_ready :: "cache \<Rightarrow> string \<Rightarrow> cache \<Rightarrow> bool" where
  "artifacts_ready source temporary d \<longleftrightarrow> c_hash d = c_hash source \<and> writable d (c_artifacts d)
     \<and> area_entry (c_artifacts d) temporary = None \<and> starts_with temporary TRANSACTION_PREFIX"

lemma artifact_same_key: "load_artifact_by_key c key = Inr (record, ciphertext) \<Longrightarrow> ar_key record = key"
  by (erule load_artifact_parts)

lemma load_artifact_entry:
  "is_ok (load_artifact_by_key c key) \<Longrightarrow> \<exists>m files. area_entry (c_artifacts c) key = Some (EDir m files)"
  by (auto simp: is_ok_iff load_artifact_by_key_def artifact_layout_def split: option.splits entry.splits)

lemma copy_artifact_new:
  assumes ready: "artifacts_ready source temporary d" and load: "load_artifact_by_key source key = Inr (record, ciphertext)"
    and rep: "artifact_report source r key = Inr r'" and new: "area_entry (c_artifacts d) key = None"
  shows "\<exists>d'. copy_artifact source temporary (d, r) key = ((d', r'), None) \<and> artifacts_ready source temporary d'
    \<and> same_settings d' d \<and> c_objects d' = c_objects d
    \<and> (\<forall>n. area_entry (c_artifacts d') n =
         (if n = key then Some (private_artifact source (c_euid d) key) else area_entry (c_artifacts d) n))"
proof -
  from load_artifact_parts [OF load] have key: "is_digest key" "length ciphertext \<le> MAX_CIPHERTEXT_BYTES"
    "length (ar_envelope record) \<le> MAX_ENVELOPE_BYTES" "ar_key record = key"
    "ar_ciphertext_hash record = c_hash source ciphertext" by metis+
  have tmp: "temporary \<noteq> key" using ready digest_not_transaction [OF key(1)] by (auto simp: artifacts_ready_def)
  have t: "take_artifact source r key = Inr (r', record, ciphertext)" using load rep by (simp add: take_artifact_iff)
  from put_artifact_into [of d key temporary ciphertext "ar_envelope record"] ready key tmp new obtain d' rec where
    put: "put_artifact_by_key d temporary key (file_reader ciphertext) (ar_envelope record) = (d', Inr rec)"
      "ar_ciphertext_hash rec = c_hash d ciphertext" "writable d' (c_artifacts d')" "same_settings d' d"
      "c_objects d' = c_objects d"
      "\<forall>n. area_entry (c_artifacts d') n = (if n = key then Some (artifact_bundle (c_euid d) ciphertext (ar_envelope record))
        else area_entry (c_artifacts d) n)"
    by (auto simp: artifacts_ready_def)
  have h: "c_hash d = c_hash source" using ready by (simp add: artifacts_ready_def)
  have "copy_artifact source temporary (d, r) key = ((d', r'), None)"
    by (simp add: copy_artifact_def t key put h)
  moreover have "artifacts_ready source temporary d'"
    using ready put tmp by (simp add: artifacts_ready_def same_settings_def)
  ultimately show ?thesis using put by (auto simp: private_artifact_def load)
qed

lemma copy_artifact_old:
  assumes ready: "artifacts_ready source temporary d" and load: "load_artifact_by_key source key = Inr (record, ciphertext)"
    and rep: "artifact_report source r key = Inr r'" and old: "agreeing_artifact source d key"
  shows "\<exists>d'. copy_artifact source temporary (d, r) key = ((d', r'), None) \<and> artifacts_ready source temporary d'
    \<and> same_settings d' d \<and> c_objects d' = c_objects d
    \<and> (\<forall>n. area_entry (c_artifacts d') n = area_entry (c_artifacts d) n)"
proof -
  from load_artifact_parts [OF load] have key: "is_digest key"
    "length (ar_envelope record) \<le> MAX_ENVELOPE_BYTES" "ar_key record = key" by metis+
  from old load obtain ex ct where ex: "load_artifact_by_key d key = Inr (ex, ct)" "same_artifact ex record"
    by (auto simp: agreeing_artifact_def)
  then obtain m files where dir: "area_entry (c_artifacts d) key = Some (EDir m files)"
    using load_artifact_entry [of d key] by auto
  have t: "take_artifact source r key = Inr (r', record, ciphertext)" using load rep by (simp add: take_artifact_iff)
  from stage_existing [of d key "ar_envelope record" m files temporary "file_reader ciphertext"] ready key dir obtain d' where
    put: "put_artifact_by_key d temporary key (file_reader ciphertext) (ar_envelope record) = (d', Inl CArtifactExists)"
      "writable d' (c_artifacts d')" "same_settings d' d" "c_objects d' = c_objects d"
      "\<forall>n. area_entry (c_artifacts d') n = area_entry (c_artifacts d) n"
    by (auto simp: artifacts_ready_def)
  have "load_artifact_by_key d' key = Inr (ex, ct)" using load_artifact_cong [OF put(3)] put(5) ex(1) by simp
  then have "copy_artifact source temporary (d, r) key = ((d', r'), None)"
    by (simp add: copy_artifact_def t key put ex(2))
  then show ?thesis using ready put by (auto simp: artifacts_ready_def same_settings_def)
qed

interpretation copy_artifacts: copier "copy_artifact source temporary" "\<lambda>d. area_entry (c_artifacts d)" c_objects "\<lambda>key. key"
  "\<lambda>_. True" "\<lambda>key. is_ok (load_artifact_by_key source key)" "artifact_report source" "private_artifact source"
  "artifacts_ready source temporary" "agreeing_artifact source"
  for source temporary
proof unfold_locales
  fix x d r d' r'
  assume "copy_artifact source temporary (d, r) x = ((d', r'), None)"
  then obtain rec ct where "take_artifact source r x = Inr (r', rec, ct)"
    by (auto simp: copy_artifact_def split: sum.splits prod.splits cache_error.splits)
  then show "is_ok (load_artifact_by_key source x) \<and> artifact_report source r x = Inr r'"
    by (simp add: take_artifact_iff)
next
  fix x d r r'
  assume ready: "artifacts_ready source temporary d" and "is_ok (load_artifact_by_key source x)"
    and rep: "artifact_report source r x = Inr r'"
    and a: "area_entry (c_artifacts d) x \<noteq> None \<longrightarrow> agreeing_artifact source d x"
  then obtain rec ct where load: "load_artifact_by_key source x = Inr (rec, ct)" by (auto simp: is_ok_iff)
  show "\<exists>d'. copy_artifact source temporary (d, r) x = ((d', r'), None) \<and> artifacts_ready source temporary d'
      \<and> same_settings d' d \<and> c_objects d' = c_objects d
      \<and> (\<forall>n. area_entry (c_artifacts d') n = (if n = x \<and> area_entry (c_artifacts d) n = None
          then Some (private_artifact source (c_euid d) x) else area_entry (c_artifacts d) n))"
  proof (cases "area_entry (c_artifacts d) x")
    case None
    with copy_artifact_new [OF ready load rep None] show ?thesis by fastforce
  next
    case (Some e)
    with a copy_artifact_old [OF ready load rep] show ?thesis by auto
  qed
next
  fix d' d x
  assume "same_settings d' d" "area_entry (c_artifacts d') x = area_entry (c_artifacts d) x"
  then show "agreeing_artifact source d' x = agreeing_artifact source d x"
    by (simp add: agreeing_artifact_def load_artifact_cong)
qed

section \<open>A whole transfer\<close>

text \<open>What a transfer reads: the listed objects and artifacts, all sound, within the limits.\<close>

definition transferable ::
  "cache \<Rightarrow> (string \<times> entry) list \<Rightarrow> string list \<Rightarrow> transfer_report \<Rightarrow> bool" where
  "transferable s os keys r \<longleftrightarrow>
     read_area (c_objects s) = Inr os \<and> artifact_keys s = Inr keys \<and> preflight_transfer_limits s = Inr ()
     \<and> (\<forall>x \<in> set os. sound_object s x) \<and> (\<forall>key \<in> set keys. is_ok (load_artifact_by_key s key))
     \<and> and_then (fold_result object_report empty_report os) (\<lambda>r1. fold_result (artifact_report s) r1 keys) = Inr r"

lemma read_area_listed:
  assumes "read_area a = Inr es"
  shows "sorted_wrt (<) (map fst es)" "area_entry a = map_of es" "a \<noteq> NotDirectory"
  using assms bt.entries_sorted by (auto simp: read_area_def area_entry_def bt_get.rep_eq split: area.splits)

lemma objects_listed:
  assumes "read_area (c_objects s) = Inr os" and "x \<in> set os"
  shows "object_listed s x"
proof -
  from read_area_listed [OF assms(1)] strict_sorted_distinct have "distinct (map fst os)" by blast
  then show ?thesis using read_area_listed(2) [OF assms(1)] assms(2) by (cases x) (simp add: object_listed_def)
qed

lemma copy_needs:
  assumes "copy_into_unlocked_with s d temporary = (d', Inr r)"
  shows "\<exists>os keys. transferable s os keys r"
proof -
  from assms obtain os d1 r1 keys where os: "read_area (c_objects s) = Inr os" and k: "artifact_keys s = Inr keys"
    and p: "preflight_transfer_limits s = Inr ()"
    and f1: "fold_until (copy_object s) (d, empty_report) os = ((d1, r1), None)"
    and f2: "fold_until (copy_artifact s temporary) (d1, r1) keys = ((d', r), None)"
    unfolding copy_into_unlocked_with_def by (auto split: sum.splits prod.splits option.splits)
  from copy_objects.run_needs [OF f1] objects_listed [OF os]
  have "\<forall>x \<in> set os. sound_object s x" "fold_result object_report empty_report os = Inr r1" by auto
  with copy_artifacts.run_needs [OF f2] os k p show ?thesis by (auto simp: transferable_def)
qed

lemma artifact_keys_names:
  assumes "artifact_keys c = Inr keys" and "read_area (c_artifacts c) = Inr es"
  shows "keys = map fst es"
proof -
  define step where "step = (\<lambda>keys (name, _ :: entry).
    if \<not> is_digest name \<or> name \<in> set keys then Inl CUnsafeMetadata
    else if MAX_TRANSFER_ENTRIES < length (keys @ [name]) then Inl CLimit else Inr (keys @ [name]))"
  have one: "step ks x = Inr ks' \<Longrightarrow> ks' = ks @ [fst x]" for ks x ks'
    by (auto simp: step_def split: if_splits prod.splits)
  have "fold_result step acc es = Inr ks \<Longrightarrow> ks = acc @ map fst es" for acc ks es
  proof (induction es arbitrary: acc)
    case (Cons x es)
    then obtain acc' where "step acc x = Inr acc'" "fold_result step acc' es = Inr ks" by auto
    with one Cons.IH [of acc'] show ?case by simp
  qed simp
  then show ?thesis using assms unfolding artifact_keys_def step_def [symmetric] by auto
qed

lemma artifact_keys_area: "artifact_keys s = Inr keys \<Longrightarrow> \<exists>es. read_area (c_artifacts s) = Inr es \<and> keys = map fst es"
  using artifact_keys_names by (auto simp: artifact_keys_def)

lemma keys_listed:
  assumes "artifact_keys s = Inr keys"
  shows "distinct keys" "key \<in> set keys \<longleftrightarrow> area_entry (c_artifacts s) key \<noteq> None"
proof -
  from artifact_keys_area [OF assms] obtain es where es: "read_area (c_artifacts s) = Inr es" "keys = map fst es" by blast
  show "distinct keys" using es(2) strict_sorted_distinct [OF read_area_listed(1) [OF es(1)]] by simp
  show "key \<in> set keys \<longleftrightarrow> area_entry (c_artifacts s) key \<noteq> None"
    using read_area_listed(2) [OF es(1)] es(2) by (simp add: map_of_eq_None_iff)
qed

text \<open>The entry at a name after a transfer: what was there, or a private copy.\<close>

definition merged :: "(string \<Rightarrow> entry option) \<Rightarrow> (string \<Rightarrow> entry option) \<Rightarrow> string \<Rightarrow> entry option" where
  "merged old copies n = (case old n of Some e \<Rightarrow> Some e | None \<Rightarrow> copies n)"

definition copied_objects :: "cache \<Rightarrow> nat \<Rightarrow> string \<Rightarrow> entry option" where
  "copied_objects s euid n = map_option (private_object euid) (area_entry (c_objects s) n)"

definition copied_artifacts :: "cache \<Rightarrow> nat \<Rightarrow> string \<Rightarrow> entry option" where
  "copied_artifacts s euid n = map_option (\<lambda>_. private_artifact s euid n) (area_entry (c_artifacts s) n)"

lemma map_of_self: "map_of (map (\<lambda>x. (x, x)) xs) n = (if n \<in> set xs then Some n else None)"
  by (induction xs) auto

lemma map_of_named: "map_of (map (\<lambda>x. (fst x, x)) xs) n = map_option (Pair n) (map_of xs n)"
  by (induction xs) auto

lemma copy_does:
  assumes t: "transferable s os keys r" and hash: "c_hash d = c_hash s"
    and w: "writable d (c_objects d)" "writable d (c_artifacts d)"
    and tmp: "starts_with temporary TRANSACTION_PREFIX" "area_entry (c_artifacts d) temporary = None"
    and old: "\<forall>x \<in> set os. area_entry (c_objects d) (fst x) \<noteq> None \<longrightarrow> is_ok (get_object d (fst x))"
      "\<forall>key \<in> set keys. area_entry (c_artifacts d) key \<noteq> None \<longrightarrow> agreeing_artifact s d key"
  shows "\<exists>d'. copy_into_unlocked_with s d temporary = (d', Inr r) \<and> same_settings d' d
    \<and> writable d' (c_objects d') \<and> writable d' (c_artifacts d')
    \<and> (\<forall>n. area_entry (c_objects d') n = merged (area_entry (c_objects d)) (copied_objects s (c_euid d)) n)
    \<and> (\<forall>n. area_entry (c_artifacts d') n = merged (area_entry (c_artifacts d)) (copied_artifacts s (c_euid d)) n)"
proof -
  from t obtain r1 where os: "read_area (c_objects s) = Inr os" and keys: "artifact_keys s = Inr keys"
    and p: "preflight_transfer_limits s = Inr ()" and sound: "\<forall>x \<in> set os. sound_object s x"
      "\<forall>key \<in> set keys. is_ok (load_artifact_by_key s key)"
    and r: "fold_result object_report empty_report os = Inr r1" "fold_result (artifact_report s) r1 keys = Inr r"
    by (auto simp: transferable_def)
  from read_area_listed(1) [OF os] strict_sorted_distinct have "distinct (map fst os)" by blast
  have all: "\<forall>x \<in> set os. object_listed s x \<and> sound_object s x" using objects_listed [OF os] sound(1) by blast
  from copy_objects.run_does [OF all \<open>distinct (map fst os)\<close> conjI [OF hash w(1)] r(1) old(1)] obtain d1 where
    d1: "fold_until (copy_object s) (d, empty_report) os = ((d1, r1), None)" "c_hash d1 = c_hash s"
      "writable d1 (c_objects d1)" "same_settings d1 d" "c_artifacts d1 = c_artifacts d"
    and v1: "\<forall>n. area_entry (c_objects d1) n = (case area_entry (c_objects d) n of Some e \<Rightarrow> Some e | None \<Rightarrow>
      map_option (\<lambda>x. private_object (c_euid d) (snd x)) (map_of (map (\<lambda>x. (fst x, x)) os) n))"
    by blast
  have v1': "area_entry (c_objects d1) n = merged (area_entry (c_objects d)) (copied_objects s (c_euid d)) n" for n
    using v1 by (simp add: map_of_named merged_def copied_objects_def read_area_listed(2) [OF os] option.map_comp comp_def
        split: option.split)
  have euid: "c_euid d1 = c_euid d" using d1(4) by (simp add: same_settings_def)
  have "\<forall>key \<in> set keys. area_entry (c_artifacts d1) key \<noteq> None \<longrightarrow> agreeing_artifact s d1 key"
    using old(2) copy_artifacts.agrees_cong [OF d1(4)] by (simp add: d1(5))
  moreover have "artifacts_ready s temporary d1"
    using w(2) tmp d1(2,5) writable_cong [OF d1(4)] by (simp add: artifacts_ready_def)
  moreover have "distinct (map (\<lambda>key. key) keys)" "\<forall>key \<in> set keys. True \<and> is_ok (load_artifact_by_key s key)"
    using sound(2) keys_listed(1) [OF keys] by simp_all
  ultimately obtain d2 where
    d2: "fold_until (copy_artifact s temporary) (d1, r1) keys = ((d2, r), None)" "artifacts_ready s temporary d2"
      "same_settings d2 d1" "c_objects d2 = c_objects d1"
      "\<forall>n. area_entry (c_artifacts d2) n = (case area_entry (c_artifacts d1) n of Some e \<Rightarrow> Some e | None \<Rightarrow>
         map_option (private_artifact s (c_euid d1)) (map_of (map (\<lambda>x. (x, x)) keys) n))"
    using copy_artifacts.run_does [OF _ _ _ r(2)] by blast
  have "copy_into_unlocked_with s d temporary = (d2, Inr r)"
    by (simp add: copy_into_unlocked_with_def p os d1(1) keys d2(1))
  moreover have "area_entry (c_artifacts d2) n = merged (area_entry (c_artifacts d)) (copied_artifacts s (c_euid d)) n" for n
    using keys_listed(2) [OF keys, of n] by (auto simp: d2(5) d1(5) euid map_of_self merged_def copied_artifacts_def split: option.split)
  moreover have "writable d2 (c_objects d2)" "writable d2 (c_artifacts d2)"
    using d1(3) d2(2) writable_cong [OF d2(3)] by (simp_all add: d2(4) artifacts_ready_def)
  ultimately show ?thesis using v1' d2(3,4) same_settings_trans [OF d2(3) d1(4)] by auto
qed

section \<open>A transfer into an empty cache\<close>

lemma read_area_view:
  assumes es: "read_area a = Inr es" and w: "b \<noteq> NotDirectory"
    and view: "\<And>n. area_entry b n = map_option (f n) (area_entry a n)"
  shows "read_area b = Inr (map (\<lambda>(n, e). (n, f n e)) es)"
proof -
  have a: "area_entry a = map_of es" "sorted_wrt (<) (map fst es)" using read_area_listed [OF es] by auto
  obtain fs where fs: "read_area b = Inr fs" using w by (cases b) (auto simp: read_area_def)
  have b: "area_entry b = map_of fs" "sorted_wrt (<) (map fst fs)" using read_area_listed [OF fs] by auto
  have "map_of (map (\<lambda>(n, e). (n, f n e)) es) n = map_option (f n) (map_of es n)" for n
    by (induction es) auto
  moreover have "map fst (map (\<lambda>(n, e). (n, f n e)) es) = map fst es" by (auto simp: comp_def split_beta)
  ultimately have "fs = map (\<lambda>(n, e). (n, f n e)) es"
    using a b view by (intro assoc_unique) (auto simp: fun_eq_iff simp del: map_map)
  with fs show ?thesis by simp
qed

lemma artifact_keys_view:
  assumes "artifact_keys s = Inr keys" and "read_area (c_artifacts s) = Inr es"
    and "read_area (c_artifacts d) = Inr (map (\<lambda>(n, e). (n, f n e)) es)"
  shows "artifact_keys d = Inr keys"
  using assms by (simp add: artifact_keys_def fold_result_map split_def cong: if_cong)

lemma preflight_artifact_load:
  assumes "load_artifact_by_key c key = load_artifact_by_key d key" and "is_ok (load_artifact_by_key d key)"
  shows "preflight_artifact c st key = preflight_artifact d st key"
    and "artifact_report c r key = artifact_report d r key"
proof -
  from assms obtain rec ct where l: "load_artifact_by_key c key = Inr (rec, ct)" "load_artifact_by_key d key = Inr (rec, ct)"
    by (auto simp: is_ok_iff)
  from load_artifact_parts [OF l(1)] load_artifact_parts [OF l(2)] obtain files files' where
    "artifact_layout c key = Inr (files, length ct, length (ar_envelope rec))"
    "artifact_layout d key = Inr (files', length ct, length (ar_envelope rec))" by metis
  then show "preflight_artifact c st key = preflight_artifact d st key" by (simp add: preflight_artifact_def split_def)
  show "artifact_report c r key = artifact_report d r key" using assms(1) by (simp add: artifact_report_def)
qed

text \<open>Files a cache may read: its owner's, or anybody's when it is an exchange directory.\<close>

definition readable_owner :: "cache \<Rightarrow> nat \<Rightarrow> bool" where
  "readable_owner d owner \<longleftrightarrow> owner = c_euid d \<or> c_allow_foreign_owner d"

lemma readable_private:
  "readable_owner d owner \<Longrightarrow> private_file d (private_file_meta owner)"
  "readable_owner d owner \<Longrightarrow> private_ok d (private_directory_meta owner)"
  by (auto simp: readable_owner_def private_file_def private_ok_def private_file_meta_def private_directory_meta_def
      group_or_world_def)

lemma private_object_get:
  assumes "sound_object s (n, e)" and "object_listed s (n, e)" and "c_hash d = c_hash s" and "readable_owner d owner"
    and "area_entry (c_objects d) n = Some (private_object owner e)"
  shows "get_object d n = get_object s n" and "is_ok (get_object s n)" and "sound_object d (n, private_object owner e)"
proof -
  obtain m bs where x: "e = EFile m bs" and s: "c_hash s bs = n" "length bs \<le> MAX_CIPHERTEXT_BYTES" "is_digest n"
    using assms(1) by (auto simp: sound_object_def)
  show sd: "sound_object d (n, private_object owner e)"
    using assms(3,4) s readable_private(1) by (simp add: x sound_object_def private_object_def)
  have "get_object s n = Inr bs"
    using get_object_entry [OF _ s(3), of s e bs] assms(1,2) by (simp add: x object_listed_def)
  moreover have "get_object d n = Inr bs"
    using get_object_entry [OF assms(5) s(3), of bs] sd by (simp add: x private_object_def)
  ultimately show "get_object d n = get_object s n" "is_ok (get_object s n)" by simp_all
qed

lemma private_artifact_load:
  assumes "is_ok (load_artifact_by_key s key)" and "c_hash d = c_hash s" and "readable_owner d owner"
    and "area_entry (c_artifacts d) key = Some (private_artifact s owner key)"
  shows "load_artifact_by_key d key = load_artifact_by_key s key"
proof -
  from assms(1) obtain rec ct where l: "load_artifact_by_key s key = Inr (rec, ct)" by (auto simp: is_ok_iff)
  from load_artifact_parts [OF l] have "is_digest key" "length ct \<le> MAX_CIPHERTEXT_BYTES"
    "length (ar_envelope rec) \<le> MAX_ENVELOPE_BYTES" "ar_key rec = key" "ar_ciphertext_hash rec = c_hash s ct" by metis+
  moreover have "CIPHERTEXT_NAME \<noteq> ENVELOPE_NAME" by (simp add: CIPHERTEXT_NAME_def ENVELOPE_NAME_def)
  moreover have "area_entry (c_artifacts d) key = Some (artifact_bundle owner ct (ar_envelope rec))"
    using assms(4) by (simp add: private_artifact_def l)
  ultimately have "load_artifact_by_key d key = Inr (rec, ct)"
    using assms(2) readable_private [OF assms(3)]
    by (cases rec) (simp add: load_artifact_by_key_def artifact_layout_def artifact_bundle_def bundle_files
        leaf_length_def open_private_leaf_def copy_and_hash_file read_bounded_iff not_less)
  with l show ?thesis by simp
qed

text \<open>A cache whose entries are the private copies of the entries of another.\<close>

definition snapshot_of :: "cache \<Rightarrow> nat \<Rightarrow> cache \<Rightarrow> bool" where
  "snapshot_of s owner d \<longleftrightarrow> c_hash d = c_hash s \<and> readable_owner d owner
     \<and> c_objects d \<noteq> NotDirectory \<and> c_artifacts d \<noteq> NotDirectory
     \<and> area_entry (c_objects d) = copied_objects s owner
     \<and> area_entry (c_artifacts d) = copied_artifacts s owner"

lemma snapshot_object:
  assumes "snapshot_of s owner d" and "object_listed s (n, e)" and "sound_object s (n, e)"
  shows "sound_object d (n, private_object owner e)"
    and "object_report r (n, private_object owner e) = object_report r (n, e)"
    and "get_object d n = get_object s n" and "is_ok (get_object s n)"
proof -
  have "area_entry (c_objects d) n = Some (private_object owner e)"
    using assms(1,2) by (simp add: snapshot_of_def copied_objects_def object_listed_def)
  with assms show "sound_object d (n, private_object owner e)" "get_object d n = get_object s n" "is_ok (get_object s n)"
    by (auto simp: snapshot_of_def intro: private_object_get)
  show "object_report r (n, private_object owner e) = object_report r (n, e)"
    using assms(3) by (auto simp: object_report_def private_object_def sound_object_def)
qed

lemma snapshot_artifact:
  assumes "snapshot_of s owner d" and "is_ok (load_artifact_by_key s key)"
  shows "load_artifact_by_key d key = load_artifact_by_key s key"
proof -
  from load_artifact_entry [OF assms(2)] have "area_entry (c_artifacts d) key = Some (private_artifact s owner key)"
    using assms(1) by (auto simp: snapshot_of_def copied_artifacts_def)
  with assms show ?thesis by (intro private_artifact_load) (auto simp: snapshot_of_def)
qed

lemma snapshot_transferable:
  assumes snap: "snapshot_of s owner d" and t: "transferable s os keys r"
  shows "transferable d (map (\<lambda>(n, e). (n, private_object owner e)) os) keys r"
proof -
  let ?os = "map (\<lambda>(n, e). (n, private_object owner e)) os"
  from t obtain r1 e where os: "read_area (c_objects s) = Inr os" and keys: "artifact_keys s = Inr keys"
    and sound: "\<forall>x \<in> set os. sound_object s x" "\<forall>key \<in> set keys. is_ok (load_artifact_by_key s key)"
    and r: "fold_result object_report empty_report os = Inr r1" "fold_result (artifact_report s) r1 keys = Inr r"
    by (auto simp: transferable_def)
  have sd: "sound_object d (n, private_object owner e)"
      "object_report rr (n, private_object owner e) = object_report rr (n, e)" if "(n, e) \<in> set os" for n e rr
    using snapshot_object(1,2) [OF snap] objects_listed [OF os that] sound(1) that by auto
  have ld: "load_artifact_by_key d key = load_artifact_by_key s key" "is_ok (load_artifact_by_key s key)"
    if "key \<in> set keys" for key using snapshot_artifact [OF snap] sound(2) that by auto
  have os': "read_area (c_objects d) = Inr ?os"
    using snap by (intro read_area_view [OF os]) (auto simp: snapshot_of_def copied_objects_def)
  from artifact_keys_area [OF keys] obtain es where es: "read_area (c_artifacts s) = Inr es" by blast
  have "read_area (c_artifacts d) = Inr (map (\<lambda>(n, e). (n, private_artifact s owner n)) es)"
    using snap by (intro read_area_view [OF es]) (auto simp: snapshot_of_def copied_artifacts_def)
  from artifact_keys_view [OF keys es this] have keys': "artifact_keys d = Inr keys" .
  have "fold_result object_report empty_report ?os = fold_result object_report empty_report os"
    unfolding fold_result_map using sd(2) by (intro fold_result_cong) auto
  moreover have "fold_result (artifact_report d) r1 keys = fold_result (artifact_report s) r1 keys"
    by (intro fold_result_cong preflight_artifact_load(2)) (simp_all add: ld)
  ultimately have rep: "fold_result object_report empty_report ?os = Inr r1" "fold_result (artifact_report d) r1 keys = Inr r"
    using r by simp_all
  have "preflight_object d rr (n, private_object owner e) = preflight_object s rr (n, e)"
    if "(n, e) \<in> set os" for n e rr
    using preflight_object_iff [OF sd(1) [OF that]] sd(2) [OF that] preflight_object_iff sound(1) that by auto
  then have pre: "fold_result (preflight_object d) empty_report ?os = fold_result (preflight_object s) empty_report os"
    unfolding fold_result_map by (intro fold_result_cong) (auto split: prod.split)
  have "fold_result (preflight_artifact d) st keys = fold_result (preflight_artifact s) st keys" for st
    by (intro fold_result_cong preflight_artifact_load(1)) (simp_all add: ld)
  then have "preflight_transfer_limits d = Inr ()"
    using t by (simp add: transferable_def preflight_transfer_limits_def os os' keys keys' pre)
  then show ?thesis using os' keys' rep sd(1) ld by (auto simp: transferable_def)
qed

lemma cache_open_new [simp]: "cache_open euid hash NoRoot = Inr (fresh_cache euid hash, Inr ())"
  by (simp add: cache_open_def fresh_cache_def recover_transactions_def recover_area_def read_area_def)

lemma copy_into_fresh:
  assumes copy: "copy_into_unlocked_with s (fresh_cache euid (c_hash s)) temporary = (d, Inr r)"
    and tmp: "starts_with temporary TRANSACTION_PREFIX"
  shows "snapshot_of s euid d" "same_settings d (fresh_cache euid (c_hash s))" "\<exists>os keys. transferable s os keys r"
proof -
  show ex: "\<exists>os keys. transferable s os keys r" by (rule copy_needs [OF copy])
  let ?f = "fresh_cache euid (c_hash s)"
  have f: "c_hash ?f = c_hash s" "c_euid ?f = euid" "writable ?f (c_objects ?f)" "writable ?f (c_artifacts ?f)"
    "area_entry (c_artifacts ?f) n = None" "area_entry (c_objects ?f) n = None" for n
    by (simp_all add: fresh_cache_def writable_def area_entry_def)
  from ex obtain os keys where t: "transferable s os keys r" by blast
  from copy_does [OF t f(1,3,4) tmp f(5)] f(5,6) copy have d: "same_settings d ?f"
      "writable d (c_objects d)" "writable d (c_artifacts d)"
      "\<forall>n. area_entry (c_objects d) n = merged (area_entry (c_objects ?f)) (copied_objects s euid) n"
      "\<forall>n. area_entry (c_artifacts d) n = merged (area_entry (c_artifacts ?f)) (copied_artifacts s euid) n"
    by (auto simp: f(2))
  then show "snapshot_of s euid d"
    using f(5,6) by (auto simp: snapshot_of_def merged_def fun_eq_iff same_settings_def f(1,2) readable_owner_def writable_def)
  show "same_settings d ?f" by (rule d(1))
qed

lemma snapshot_copies:
  assumes "snapshot_of s owner d" and "transferable s os keys r"
  shows "copied_objects d euid = copied_objects s euid" and "copied_artifacts d euid = copied_artifacts s euid"
proof -
  show "copied_objects d euid = copied_objects s euid"
    using assms(1) by (simp add: snapshot_of_def copied_objects_def private_object_def [abs_def] fun_eq_iff
        option.map_comp comp_def)
  have "is_ok (load_artifact_by_key s n)" if "area_entry (c_artifacts s) n \<noteq> None" for n
    using assms(2) that keys_listed(2) [of s keys n] by (simp add: transferable_def)
  then have "private_artifact d euid n = private_artifact s euid n" if "area_entry (c_artifacts s) n \<noteq> None" for n
    using snapshot_artifact [OF assms(1)] that by (simp add: private_artifact_def)
  then show "copied_artifacts d euid = copied_artifacts s euid"
    using assms(1) by (auto simp: snapshot_of_def copied_artifacts_def [abs_def] fun_eq_iff option.map_comp comp_def
        intro!: option.map_cong)
qed

lemma artifact_records_keys:
  assumes "artifact_records c = Inr records" and "artifact_keys c = Inr keys" and "key \<in> set keys"
  shows "\<exists>record ciphertext. load_artifact_by_key c key = Inr (record, ciphertext) \<and> record \<in> set records"
proof -
  define step where "step = (\<lambda>(records, envelope_bytes) key.
        and_then (load_artifact_by_key c key) (\<lambda>(r, _).
        and_then (add_u64 envelope_bytes (length (ar_envelope r))) (\<lambda>total.
        if MAX_INVENTORY_ENVELOPE_BYTES < total then Inl CLimit else Inr (records @ [r], total))))"
  have one: "\<exists>r ct. load_artifact_by_key c key = Inr (r, ct) \<and> fst st' = fst st @ [r]"
    if "step st key = Inr st'" for st key st'
    using that by (cases st) (auto simp: step_def split: if_splits)
  have "fold_result step st ks = Inr st' \<Longrightarrow> set (fst st) \<subseteq> set (fst st')
      \<and> (\<forall>k \<in> set ks. \<exists>r ct. load_artifact_by_key c k = Inr (r, ct) \<and> r \<in> set (fst st'))" for st ks st'
  proof (induction ks arbitrary: st)
    case (Cons k ks)
    then obtain st1 where "step st k = Inr st1" "fold_result step st1 ks = Inr st'" by auto
    with one [of st k st1] Cons.IH [of st1] show ?case by auto
  qed simp
  then show ?thesis using assms unfolding artifact_records_def step_def [symmetric] by fastforce
qed

lemma preflight_destination_agrees:
  assumes p: "preflight_destination d c = Inr ()" and own: "\<not> c_allow_foreign_owner c"
    and t: "transferable d os keys r"
  shows "writable c (c_objects c)" "writable c (c_artifacts c)"
    and "\<forall>x \<in> set os. area_entry (c_objects c) (fst x) \<noteq> None \<longrightarrow> is_ok (get_object c (fst x))"
    and "\<forall>key \<in> set keys. area_entry (c_artifacts c) key \<noteq> None \<longrightarrow> agreeing_artifact d c key"
proof -
  from p own show "writable c (c_objects c)" "writable c (c_artifacts c)"
    by (auto simp: preflight_destination_def intro: preflight_area_writable)
  show "\<forall>x \<in> set os. area_entry (c_objects c) (fst x) \<noteq> None \<longrightarrow> is_ok (get_object c (fst x))"
    using p t by (fastforce simp: preflight_destination_def transferable_def is_ok_iff split: option.splits)
  show "\<forall>key \<in> set keys. area_entry (c_artifacts c) key \<noteq> None \<longrightarrow> agreeing_artifact d c key"
  proof (intro ballI impI)
    fix key
    assume key: "key \<in> set keys" and there: "area_entry (c_artifacts c) key \<noteq> None"
    from p obtain records where rs: "artifact_records d = Inr records" and
      ok: "\<forall>record \<in> set records. (case area_entry (c_artifacts c) (ar_key record) of None \<Rightarrow> Inr ()
         | Some _ \<Rightarrow> and_then (load_artifact_by_key c (ar_key record)) (\<lambda>(existing, _).
             check (same_artifact existing record) CConflict)) = Inr ()"
      by (auto simp: preflight_destination_def)
    from artifact_records_keys [OF rs _ key] t obtain rec ct where
      l: "load_artifact_by_key d key = Inr (rec, ct)" "rec \<in> set records" by (auto simp: transferable_def)
    with ok there artifact_same_key [OF l(1)] show "agreeing_artifact d c key"
      by (fastforce simp: agreeing_artifact_def split: option.splits)
  qed
qed

text \<open>An import that reaches the destination completes; every other outcome leaves it alone.\<close>

lemma import_cases:
  assumes imp: "import_from c temporary same_root source = (c', res)" and own: "\<not> c_allow_foreign_owner c"
    and tmp: "starts_with temporary TRANSACTION_PREFIX" "area_entry (c_artifacts c) temporary = None"
  shows "c' = c \<and> \<not> is_ok res \<or> (\<exists>r foreign os keys. res = Inr r \<and> open_existing (c_euid c) (c_hash c) source = Inr foreign
      \<and> transferable foreign os keys r \<and> same_settings c' c
      \<and> (\<forall>n. area_entry (c_objects c') n = merged (area_entry (c_objects c)) (copied_objects foreign (c_euid c)) n)
      \<and> (\<forall>n. area_entry (c_artifacts c') n = merged (area_entry (c_artifacts c)) (copied_artifacts foreign (c_euid c)) n)
      \<and> (\<forall>x \<in> set os. area_entry (c_objects c) (fst x) \<noteq> None \<longrightarrow> is_ok (get_object c (fst x)))
      \<and> (\<forall>key \<in> set keys. area_entry (c_artifacts c) key \<noteq> None \<longrightarrow> agreeing_artifact foreign c key))"
proof (cases "\<exists>foreign staging r. open_existing (c_euid c) (c_hash c) source = Inr foreign \<and> \<not> same_root
    \<and> copy_into_unlocked_with foreign (fresh_cache (c_euid c) (c_hash c)) temporary = (staging, Inr r)
    \<and> preflight_destination staging c = Inr ()")
  case False
  have "c' = c \<and> \<not> is_ok res"
  proof (cases "open_existing (c_euid c) (c_hash c) source")
    case (Inr foreign)
    obtain staging x where st: "copy_into_unlocked_with foreign (fresh_cache (c_euid c) (c_hash c)) temporary = (staging, x)"
      by force
    with imp Inr False show ?thesis
      by (cases x; cases same_root; cases "preflight_destination staging c") (auto simp: import_from_def)
  qed (use imp in \<open>auto simp: import_from_def\<close>)
  then show ?thesis by blast
next
  case True
  then obtain foreign staging r where f: "open_existing (c_euid c) (c_hash c) source = Inr foreign" "\<not> same_root"
    and st: "copy_into_unlocked_with foreign (fresh_cache (c_euid c) (c_hash c)) temporary = (staging, Inr r)"
    and p: "preflight_destination staging c = Inr ()" by blast
  have hash: "c_hash foreign = c_hash c" using f(1) by (auto simp: open_existing_def split: cache_root.splits if_splits)
  note snap = copy_into_fresh [OF st [folded hash] tmp(1)]
  then obtain os keys where t: "transferable foreign os keys r" by blast
  note ts = snapshot_transferable [OF snap(1) t]
  note agree = preflight_destination_agrees [OF p own ts]
  have h: "c_hash c = c_hash staging" using snap(1) hash by (simp add: snapshot_of_def)
  from copy_does [OF ts h agree(1,2) tmp agree(3,4)] obtain d where
    d: "copy_into_unlocked_with staging c temporary = (d, Inr r)" "same_settings d c"
      "\<forall>n. area_entry (c_objects d) n = merged (area_entry (c_objects c)) (copied_objects staging (c_euid c)) n"
      "\<forall>n. area_entry (c_artifacts d) n = merged (area_entry (c_artifacts c)) (copied_artifacts staging (c_euid c)) n"
    by blast
  have "c' = d \<and> res = Inr r" using imp f st p d(1) by (auto simp: import_from_def)
  moreover have "\<forall>key \<in> set keys. area_entry (c_artifacts c) key \<noteq> None \<longrightarrow> agreeing_artifact foreign c key"
    using agree(4) snapshot_artifact [OF snap(1)] t by (auto simp: agreeing_artifact_def transferable_def)
  moreover have "\<forall>x \<in> set os. area_entry (c_objects c) (fst x) \<noteq> None \<longrightarrow> is_ok (get_object c (fst x))"
    using agree(3) by fastforce
  ultimately show ?thesis using f(1) t d(2-) snapshot_copies [OF snap(1) t] by auto
qed

end
