(* ===== verification/Transfer_Properties.thy ===== *)
theory Transfer_Properties
  imports Cache_Transfer Cache_Properties
begin

text \<open>
  Properties of cache exchange: an import is all or nothing and never changes an entry that is
  there, and an exported cache imports to the same contents.
\<close>

lemma transferable_entries:
  assumes "transferable s os keys r"
  shows "area_entry (c_objects s) n = Some e \<Longrightarrow> (n, e) \<in> set os \<and> sound_object s (n, e)"
    and "area_entry (c_artifacts s) n \<noteq> None \<Longrightarrow> n \<in> set keys \<and> is_ok (load_artifact_by_key s n)"
proof -
  have os: "read_area (c_objects s) = Inr os" "\<forall>x \<in> set os. sound_object s x" "artifact_keys s = Inr keys"
    "\<forall>key \<in> set keys. is_ok (load_artifact_by_key s key)" using assms by (auto simp: transferable_def)
  show "(n, e) \<in> set os \<and> sound_object s (n, e)" if "area_entry (c_objects s) n = Some e"
    using read_area_listed(2) [OF os(1)] os(2) that map_of_SomeD by fastforce
  show "n \<in> set keys \<and> is_ok (load_artifact_by_key s n)" if "area_entry (c_artifacts s) n \<noteq> None"
    using keys_listed(2) [OF os(3)] os(4) that by blast
qed




section \<open>Export, then import\<close>

lemma artifact_records_ok:
  assumes t: "transferable s os keys r"
  shows "\<exists>records. artifact_records s = Inr records"
proof -
  define step where "step = (\<lambda>(records, envelope_bytes) key.
        and_then (load_artifact_by_key s key) (\<lambda>(r, _).
        and_then (add_u64 envelope_bytes (length (ar_envelope r))) (\<lambda>total.
        if MAX_INVENTORY_ENVELOPE_BYTES < total then Inl CLimit else Inr (records @ [r], total))))"
  have one: "\<exists>rec. step (records, snd st) key = Inr (records @ [rec], snd st')"
    if p: "preflight_artifact s st key = Inr st'" and l: "is_ok (load_artifact_by_key s key)" for st st' key records
  proof -
    from l obtain rec ct where load: "load_artifact_by_key s key = Inr (rec, ct)" by (auto simp: is_ok_iff)
    from load_artifact_parts [OF this] obtain files
      where "artifact_layout s key = Inr (files, length ct, length (ar_envelope rec))" by metis
    with p have "add_u64 (snd st) (length (ar_envelope rec)) = Inr (snd st')" "\<not> MAX_INVENTORY_ENVELOPE_BYTES < snd st'"
      by (auto simp: preflight_artifact_def split_def split: if_splits)
    then show ?thesis by (auto simp: step_def load)
  qed
  have "fold_result (preflight_artifact s) st ks = Inr st' \<Longrightarrow> \<forall>k \<in> set ks. is_ok (load_artifact_by_key s k) \<Longrightarrow>
      \<exists>records'. fold_result step (records, snd st) ks = Inr (records', snd st')" for ks st st' records
  proof (induction ks arbitrary: st records)
    case (Cons k ks)
    then obtain st1 where st1: "preflight_artifact s st k = Inr st1" "fold_result (preflight_artifact s) st1 ks = Inr st'"
      by auto
    from one [OF st1(1), of records] Cons.prems(2) obtain rec where "step (records, snd st) k = Inr (records @ [rec], snd st1)" by auto
    with Cons.IH [OF st1(2), of "records @ [rec]"] Cons.prems(2) show ?case by auto
  qed simp
  moreover obtain r1 st' where "fold_result (preflight_artifact s) (r1, 0) keys = Inr st'" "artifact_keys s = Inr keys"
    "\<forall>k \<in> set keys. is_ok (load_artifact_by_key s k)"
    using t by (auto simp: transferable_def preflight_transfer_limits_def)
  ultimately show ?thesis unfolding artifact_records_def step_def [symmetric] by fastforce
qed

lemma import_into_fresh:
  assumes t: "transferable foreign os keys r" and hash: "c_hash foreign = hash"
    and op: "open_existing euid hash source = Inr foreign" and tmp: "starts_with temporary TRANSACTION_PREFIX"
  shows "\<exists>c'. import_from (fresh_cache euid hash) temporary False source = (c', Inr r) \<and> snapshot_of foreign euid c'"
proof -
  let ?f = "fresh_cache euid hash"
  have f: "c_hash ?f = hash" "c_euid ?f = euid" "writable ?f (c_objects ?f)" "writable ?f (c_artifacts ?f)"
    "area_entry (c_artifacts ?f) n = None" "area_entry (c_objects ?f) n = None" for n
    by (simp_all add: fresh_cache_def writable_def area_entry_def)
  have into: "\<exists>d. copy_into_unlocked_with s ?f temporary = (d, Inr r)"
    if "transferable s os' keys' r" "c_hash s = hash" for s os' keys'
    using copy_does [OF that(1) _ f(3,4) tmp f(5)] that(2) f(1,5,6) by auto
  from into [OF t hash] obtain staging where st: "copy_into_unlocked_with foreign ?f temporary = (staging, Inr r)" by blast
  note snap = copy_into_fresh [OF st [folded hash] tmp]
  note ts = snapshot_transferable [OF snap(1) t]
  from into [OF ts] snap(1) hash obtain c' where c': "copy_into_unlocked_with staging ?f temporary = (c', Inr r)"
    by (auto simp: snapshot_of_def)
  have h: "hash = c_hash staging" using snap(1) hash by (simp add: snapshot_of_def)
  note snap' = copy_into_fresh [OF c' [unfolded h] tmp]
  have same: "copied_objects staging euid = copied_objects foreign euid" "copied_artifacts staging euid = copied_artifacts foreign euid"
    by (rule snapshot_copies [OF snap(1) t])+
  have "snapshot_of foreign euid c'" using snap'(1) snap(1) by (simp add: snapshot_of_def same)
  moreover have "preflight_destination staging ?f = Inr ()"
  proof -
    from ts artifact_records_ok [OF ts] obtain records os' where l: "read_area (c_objects staging) = Inr os'"
      "\<forall>x \<in> set os'. sound_object staging x" "artifact_records staging = Inr records" by (auto simp: transferable_def)
    have "\<exists>bs. get_object staging n = Inr bs" if "(n, e) \<in> set os'" for n e
      using l(2) that objects_listed [OF l(1) that] get_object_entry [of staging n e]
      by (fastforce simp: sound_object_def object_listed_def)
    then show ?thesis
      using f(5,6) l by (fastforce simp: preflight_destination_def preflight_area_def fresh_cache_def)
  qed
  moreover have "open_existing (c_euid ?f) (c_hash ?f) source = Inr foreign" using op by (simp add: f)
  ultimately show ?thesis using st c' by (auto simp: import_from_def f)
qed

text \<open>
  C39. A cache survives an exchange. An export that succeeds went to a path where nothing was, and importing the
  result as any user into an empty cache succeeds with the same report; the new cache has
  exactly the objects and artifacts of the old one, all sound and equal in content.
\<close>

theorem export_import_roundtrip:
  assumes exp: "export_to c temporary destination parent_is_directory = (root, Inr r)"
    and tmp: "starts_with temporary TRANSACTION_PREFIX"
  shows "destination = NoRoot
    \<and> (\<exists>c'. import_from (fresh_cache euid (c_hash c)) temporary False root = (c', Inr r)
        \<and> (\<forall>n. area_entry (c_objects c') n = None \<longleftrightarrow> area_entry (c_objects c) n = None)
        \<and> (\<forall>n. area_entry (c_artifacts c') n = None \<longleftrightarrow> area_entry (c_artifacts c) n = None)
        \<and> (\<forall>n. area_entry (c_objects c) n \<noteq> None \<longrightarrow> is_ok (get_object c n) \<and> get_object c' n = get_object c n)
        \<and> (\<forall>n. area_entry (c_artifacts c) n \<noteq> None \<longrightarrow>
            is_ok (load_artifact_by_key c n) \<and> load_artifact_by_key c' n = load_artifact_by_key c n))"
proof -
  from exp obtain d where dst: "destination = NoRoot"
    and copy: "copy_into_unlocked_with c (fresh_cache (c_euid c) (c_hash c)) temporary = (d, Inr r)"
    and root: "root = Root (private_directory_meta (c_euid c)) (c_objects d) (c_artifacts d)"
    by (auto simp: export_to_def split: if_splits prod.splits sum.splits)
  note snap = copy_into_fresh [OF copy tmp]
  then obtain os keys where t: "transferable c os keys r" by blast
  define f where "f = \<lparr>c_objects = c_objects d, c_artifacts = c_artifacts d, c_euid = euid,
    c_allow_foreign_owner = True, c_hash = c_hash c\<rparr>"
  have f: "snapshot_of c (c_euid c) f" using snap(1) by (simp add: snapshot_of_def f_def readable_owner_def)
  have "open_existing euid (c_hash c) root = Inr f"
    by (simp add: root open_existing_def f_def private_directory_meta_def group_or_world_def)
  from import_into_fresh [OF snapshot_transferable [OF f t] _ this tmp] obtain c' where
    imp: "import_from (fresh_cache euid (c_hash c)) temporary False root = (c', Inr r)" and c': "snapshot_of f euid c'"
    by (auto simp: f_def)
  have c'': "snapshot_of c euid c'"
    using c' f snapshot_copies [OF f t, of euid] by (simp add: snapshot_of_def)
  have "is_ok (get_object c n) \<and> get_object c' n = get_object c n" if there: "area_entry (c_objects c) n \<noteq> None" for n
  proof -
    from there obtain e where e: "area_entry (c_objects c) n = Some e" by blast
    with snapshot_object(3,4) [OF c'', of n e] transferable_entries(1) [OF t e] show ?thesis by (simp add: object_listed_def)
  qed
  moreover have "is_ok (load_artifact_by_key c n) \<and> load_artifact_by_key c' n = load_artifact_by_key c n"
    if "area_entry (c_artifacts c) n \<noteq> None" for n
    using transferable_entries(2) [OF t that] snapshot_artifact [OF c''] by blast
  moreover have "area_entry (c_objects c') n = None \<longleftrightarrow> area_entry (c_objects c) n = None"
    "area_entry (c_artifacts c') n = None \<longleftrightarrow> area_entry (c_artifacts c) n = None" for n
    using c'' by (simp_all add: snapshot_of_def copied_objects_def copied_artifacts_def)
  ultimately show ?thesis using dst imp by blast
qed

lemma put_keeps_hash:
  "c_hash (fst (put_object c bs)) = c_hash c" "c_hash (fst (put_artifact c temporary address input envelope)) = c_hash c"
  by (auto simp: put_object_def put_artifact_def put_artifact_by_key_def stage_artifact_def publish_artifact_def Let_def
      split: sum.splits option.splits prod.splits if_splits)




theorem export_import_roundtrip_witness:
  "is_ok (snd (export_to artifact_cache ''.nix-seal-txn-7'' NoRoot True))
   \<and> (\<exists>c'. import_from (fresh_cache 3000 example_digest) ''.nix-seal-txn-7'' False
          (fst (export_to artifact_cache ''.nix-seal-txn-7'' NoRoot True))
        = (c', snd (export_to artifact_cache ''.nix-seal-txn-7'' NoRoot True))
      \<and> get_object c' (replicate 64 CHR ''b'') = Inr ''other'')"
proof -
  let ?e = "export_to artifact_cache ''.nix-seal-txn-7'' NoRoot True" and ?d = "replicate 64 CHR ''b''"
  have ok: "is_ok (snd ?e)" by code_simp
  then obtain r where r: "?e = (fst ?e, Inr r)" by (metis is_ok_iff prod.collapse)
  have pre: "starts_with ''.nix-seal-txn-7'' TRANSACTION_PREFIX"
    "get_object artifact_cache ?d = Inr ''other''" "\<not> Option.is_none (area_entry (c_objects artifact_cache) ?d)"
    by code_simp+
  have h: "c_hash artifact_cache = example_digest"
    by (simp add: artifact_cache_def object_cache_def put_keeps_hash) (simp add: empty_cache_def)
  have s: "snd ?e = Inr r" using r by (metis snd_conv)
  from export_import_roundtrip [OF r pre(1), of 3000] pre(2,3) ok s show ?thesis
    by (auto simp: Option.is_none_def h)
qed

end
