(* ===== verification/Rekey.thy ===== *)
theory Rekey
  imports Cache_Store Approval_Signing Age_Operations
begin

text \<open>
  Artifact preparation, \<open>crates/nix-seal-rekey/src/lib.rs\<close>: a sealed source becomes a target artifact,
  either decrypted with the administrator's identity and sealed to the target (\<open>rekey\<close>) or taken
  as it is (\<open>stage_direct\<close>); the artifact is bound to its policy by a signed manifest, stored in the
  cache, and authenticated again before its address is returned.

  Private staging files are values here, and paths into the cache are given by its keys.
  Opening the source without following links, SHA-256 and the JSON of an envelope are parameters.
\<close>

datatype rekey_error =
    KUnsafeSource | KLimit | KIo | KCrypto crypto_error | KCache cache_error
  | KManifest manifest_error | KEnvelope

record ('ssh, 'priv) direct_request =
  dq_source :: string
  dq_target_recipient :: string
  dq_plan_hash :: string
  dq_target_policy_hash :: string
  dq_artifact_policy_hash :: string
  dq_target_id :: id
  dq_secret_id :: id
  dq_artifact_generation :: "64 word"
  dq_issued_at :: "64 word"
  dq_expires_at :: "64 word option"
  dq_tool_version :: string
  dq_signing_key :: "('ssh, 'priv) approval_signing_key"

record ('ssh, 'priv) rekey_request = "('ssh, 'priv) direct_request" +
  rk_administrator_identity :: string

record rekey_result =
  kr_cache_key :: string
  kr_source_ciphertext_hash :: string
  kr_artifact_ciphertext_hash :: string
  kr_recipient_fingerprint :: string
  kr_reused :: bool

record ('ssh, 'sig, 'priv, 'raw) rekey_env =
  ke_keys :: "('ssh, 'sig) key_api"
  ke_signer :: "('ssh, 'priv, 'raw) signer_api"
  ke_json :: payload_json
  ke_age_api :: age_api
  ke_age :: age_engine
  ke_plugins :: plugin_env
  ke_rng :: nat
  ke_sha256 :: "bytes \<Rightarrow> string"
  ke_open :: "string \<Rightarrow> rekey_error + bytes"
  ke_envelope_encode :: "signed_envelope \<Rightarrow> bytes option"
  ke_envelope_decode :: "bytes \<Rightarrow> signed_envelope option"
  ke_temporary :: string

section \<open>Steps\<close>

text \<open>
  The bounded copies of this crate are the loop of the cache, once with BLAKE3 and once with
  SHA-256; exceeding the bound is their only error.
\<close>

definition copy_bounded_hashing :: "(bytes \<Rightarrow> string) \<Rightarrow> bytes list \<Rightarrow> rekey_error + bytes \<times> string" where
  "copy_bounded_hashing hash input =
     map_err (\<lambda>_. KLimit) (copy_and_hash_bounded hash input MAX_CIPHERTEXT_BYTES)"

definition address_new ::
  "string \<Rightarrow> string \<Rightarrow> string \<Rightarrow> string \<Rightarrow> string \<Rightarrow> 64 word \<Rightarrow> cache_error + artifact_address" where
  "address_new artifact_policy_hash source_ciphertext_hash recipient target_id secret_id generation =
     (let address = \<lparr>aa_artifact_policy_hash = artifact_policy_hash,
        aa_source_ciphertext_hash = source_ciphertext_hash, aa_recipient_fingerprint = recipient,
        aa_target_id = target_id, aa_secret_id = secret_id, aa_artifact_generation = generation\<rparr> in
      and_then (address_validate address) (\<lambda>_. Inr address))"

definition artifact_manifest ::
  "('ssh, 'priv, 'x) direct_request_scheme \<Rightarrow> string \<Rightarrow> string \<Rightarrow> string \<Rightarrow> target_manifest" where
  "artifact_manifest q source_hash artifact_hash fingerprint =
     \<lparr>tm_schema = ARTIFACT_SCHEMA, tm_tool_version = dq_tool_version q, tm_plan_hash = dq_plan_hash q,
      tm_target_policy_hash = dq_target_policy_hash q, tm_artifact_policy_hash = dq_artifact_policy_hash q,
      tm_source_ciphertext_hash = source_hash, tm_artifact_ciphertext_hash = artifact_hash,
      tm_target_id = dq_target_id q, tm_secret_id = dq_secret_id q, tm_recipient_fingerprint = fingerprint,
      tm_artifact_generation = dq_artifact_generation q, tm_issued_at = dq_issued_at q,
      tm_expires_at = dq_expires_at q\<rparr>"

definition artifact_expected ::
  "('ssh, 'priv, 'x) direct_request_scheme \<Rightarrow> string \<Rightarrow> string \<Rightarrow> string \<Rightarrow> expected_binding" where
  "artifact_expected q source_hash artifact_hash fingerprint =
     \<lparr>eb_tool_version = dq_tool_version q, eb_artifact_policy_hash = dq_artifact_policy_hash q,
      eb_source_ciphertext_hash = source_hash, eb_artifact_ciphertext_hash = artifact_hash,
      eb_target_id = dq_target_id q, eb_secret_id = dq_secret_id q, eb_recipient_fingerprint = fingerprint,
      eb_artifact_generation = dq_artifact_generation q, eb_now = dq_issued_at q, eb_allowed_clock_skew = 0\<rparr>"

definition authenticate_record ::
  "('ssh, 'sig, 'priv, 'raw) rekey_env \<Rightarrow> artifact_record \<Rightarrow> ('ssh, 'priv, 'x) direct_request_scheme
    \<Rightarrow> string \<Rightarrow> string \<Rightarrow> bool \<Rightarrow> rekey_error + rekey_result" where
  "authenticate_record env record q source_hash fingerprint reused =
     and_then (ok_or (ke_envelope_decode env (ar_envelope record)) KEnvelope) (\<lambda>envelope.
     and_then (map_err KManifest (encode_public (ke_keys env) (ke_signer env) (dq_signing_key q))) (\<lambda>signing_public.
     and_then (map_err KManifest (insert_encoded (ke_keys env) bt_empty signing_public)) (\<lambda>(trusted, _).
     and_then (map_err KManifest (verify (ke_keys env) (ke_json env) envelope trusted 1
       (artifact_expected q source_hash (ar_ciphertext_hash record) fingerprint))) (\<lambda>_.
     Inr \<lparr>kr_cache_key = ar_key record, kr_source_ciphertext_hash = source_hash,
       kr_artifact_ciphertext_hash = ar_ciphertext_hash record,
       kr_recipient_fingerprint = fingerprint, kr_reused = reused\<rparr>))))"

text \<open>\<open>authenticate_direct_record\<close> has the same body for the other request type.\<close>

definition authenticate_direct_record ::
  "('ssh, 'sig, 'priv, 'raw) rekey_env \<Rightarrow> artifact_record \<Rightarrow> ('ssh, 'priv) direct_request
    \<Rightarrow> string \<Rightarrow> string \<Rightarrow> bool \<Rightarrow> rekey_error + rekey_result" where
  "authenticate_direct_record = authenticate_record"

definition sign_artifact ::
  "('ssh, 'sig, 'priv, 'raw) rekey_env \<Rightarrow> ('ssh, 'priv, 'x) direct_request_scheme \<Rightarrow> string \<Rightarrow> string \<Rightarrow> string
    \<Rightarrow> rekey_error + bytes" where
  "sign_artifact env q source_hash artifact_hash fingerprint =
     and_then (map_err KManifest (sign_manifest (ke_keys env) (ke_signer env) (ke_json env)
       (artifact_manifest q source_hash artifact_hash fingerprint) (dq_signing_key q))) (\<lambda>envelope.
     ok_or (ke_envelope_encode env envelope) KEnvelope)"

definition store_artifact ::
  "cache \<Rightarrow> string \<Rightarrow> artifact_address \<Rightarrow> bytes \<Rightarrow> bytes \<Rightarrow> cache \<times> (rekey_error + artifact_record)" where
  "store_artifact c temporary address ciphertext envelope =
     (case put_artifact c temporary address (file_reader ciphertext) envelope of
        (c', Inr record) \<Rightarrow> (c', Inr record)
      | (c', Inl CArtifactExists) \<Rightarrow>
          (c', and_then (map_err KCache (load_artifact c' address)) (\<lambda>found. ok_or found (KCache CArtifactExists)))
      | (c', Inl err) \<Rightarrow> (c', Inl (KCache err)))"

definition request_address ::
  "('ssh, 'sig, 'priv, 'raw) rekey_env \<Rightarrow> ('ssh, 'priv, 'x) direct_request_scheme \<Rightarrow> string
    \<Rightarrow> rekey_error + string \<times> artifact_address" where
  "request_address env q source_hash =
     and_then (map_err KCrypto (recipient_fingerprint (ke_age_api env) (dq_target_recipient q))) (\<lambda>fingerprint.
     and_then (map_err KCache (address_new (dq_artifact_policy_hash q) source_hash fingerprint
       (as_str (dq_target_id q)) (as_str (dq_secret_id q)) (dq_artifact_generation q))) (\<lambda>address.
     Inr (fingerprint, address)))"

section \<open>The two operations\<close>

definition rekey_artifact ::
  "('ssh, 'sig, 'priv, 'raw) rekey_env \<Rightarrow> cache \<Rightarrow> ('ssh, 'priv) rekey_request
    \<Rightarrow> cache \<times> (rekey_error + rekey_result)" where
  "rekey_artifact env c q =
     (case and_then (ke_open env (dq_source q)) (\<lambda>content.
           and_then (copy_bounded_hashing (ke_sha256 env) (file_reader content)) (\<lambda>(canonical, source_hash).
           and_then (request_address env q source_hash) (\<lambda>(fingerprint, address).
           and_then (map_err KCache (load_artifact c address)) (\<lambda>found.
           Inr (canonical, source_hash, fingerprint, address, found))))) of
        Inl err \<Rightarrow> (c, Inl err)
      | Inr (canonical, source_hash, fingerprint, address, Some record) \<Rightarrow>
          (c, authenticate_record env record q source_hash fingerprint True)
      | Inr (canonical, source_hash, fingerprint, address, None) \<Rightarrow>
          (case and_then (map_err KCrypto (rekey (ke_age_api env) (ke_age env) (ke_plugins env) (ke_rng env)
                   (file_reader canonical) (rk_administrator_identity q) [dq_target_recipient q])) (\<lambda>target_bytes.
                 and_then (copy_bounded_hashing (c_hash c) (file_reader target_bytes)) (\<lambda>(_, artifact_hash).
                 and_then (sign_artifact env q source_hash artifact_hash fingerprint) (\<lambda>envelope.
                 Inr (target_bytes, artifact_hash, envelope)))) of
             Inl err \<Rightarrow> (c, Inl err)
           | Inr (target_bytes, artifact_hash, envelope) \<Rightarrow>
               (case store_artifact c (ke_temporary env) address target_bytes envelope of
                  (c', Inl err) \<Rightarrow> (c', Inl err)
                | (c', Inr record) \<Rightarrow>
                    (c', authenticate_record env record q source_hash fingerprint
                       (ar_ciphertext_hash record \<noteq> artifact_hash)))))"

definition stage_direct ::
  "('ssh, 'sig, 'priv, 'raw) rekey_env \<Rightarrow> cache \<Rightarrow> ('ssh, 'priv) direct_request
    \<Rightarrow> cache \<times> (rekey_error + rekey_result)" where
  "stage_direct env c q =
     (case and_then (ke_open env (dq_source q)) (\<lambda>content.
           and_then (copy_bounded_hashing (ke_sha256 env) (file_reader content)) (\<lambda>(canonical, source_hash).
           and_then (map_err KCrypto (validate_ciphertext_header (ke_age env) (file_reader canonical))) (\<lambda>_.
           and_then (copy_bounded_hashing (c_hash c) (file_reader canonical)) (\<lambda>(_, artifact_hash).
           and_then (request_address env q source_hash) (\<lambda>(fingerprint, address).
           and_then (map_err KCache (load_artifact c address)) (\<lambda>found.
           Inr (canonical, source_hash, artifact_hash, fingerprint, address, found))))))) of
        Inl err \<Rightarrow> (c, Inl err)
      | Inr (canonical, source_hash, artifact_hash, fingerprint, address, Some record) \<Rightarrow>
          (c, authenticate_direct_record env record q source_hash fingerprint True)
      | Inr (canonical, source_hash, artifact_hash, fingerprint, address, None) \<Rightarrow>
          (case sign_artifact env q source_hash artifact_hash fingerprint of
             Inl err \<Rightarrow> (c, Inl err)
           | Inr envelope \<Rightarrow>
               (case store_artifact c (ke_temporary env) address canonical envelope of
                  (c', Inl err) \<Rightarrow> (c', Inl err)
                | (c', Inr record) \<Rightarrow>
                    (c', authenticate_direct_record env record q source_hash fingerprint False))))"

end
