(* ===== verification/Rekey_Properties.thy ===== *)
theory Rekey_Properties
  imports Rekey Cache_Transfer Age_Properties
begin

text \<open>
  Properties that join artifact preparation, the cache and activation: what preparation returns is
  stored, authenticated and accepted by activation, and the target reads the plaintext the
  administrator sealed.
\<close>

section \<open>Stored records\<close>

lemma load_artifact_record:
  assumes "load_artifact c address = Inr (Some r)"
  shows "\<exists>ct. load_artifact_by_key c (ar_key r) = Inr (r, ct) \<and> ar_ciphertext_hash r = c_hash c ct
    \<and> length ct \<le> Cache_Store.MAX_CIPHERTEXT_BYTES \<and> length (ar_envelope r) \<le> Cache_Store.MAX_ENVELOPE_BYTES"
proof -
  from assms obtain key e where key: "address_key (c_hash c) address = Inr key" "area_entry (c_artifacts c) key = Some e"
    by (auto simp: load_artifact_def split: option.splits)
  with assms obtain ct where l: "load_artifact_by_key c key = Inr (r, ct)"
    by (cases e) (auto simp: load_artifact_def)
  from load_artifact_parts [OF l] l show ?thesis by metis
qed

lemma put_artifact_keeps_hash: "put_artifact c tmp a input envelope = (c', res) \<Longrightarrow> c_hash c' = c_hash c"
  by (auto simp: put_artifact_def put_artifact_by_key_def stage_artifact_def publish_artifact_def Let_def
      split: sum.splits option.splits prod.splits if_splits)

lemma put_artifact_exists:
  assumes "put_artifact c tmp a input envelope = (c', Inl CArtifactExists)" and ne: "[] \<notin> set input"
  shows "load_artifact c a \<noteq> Inr None"
proof -
  from assms obtain key where key: "address_key (c_hash c) a = Inr key"
    and put: "put_artifact_by_key c tmp key input envelope = (c', Inl CArtifactExists)"
    by (auto simp: put_artifact_def address_key_def address_validate_def and_then_eq_Inl split: sum.splits)
  show ?thesis
  proof
    assume "load_artifact c a = Inr None"
    with key have "area_entry (c_artifacts c) key = None"
      by (auto simp: load_artifact_def split: option.splits entry.splits)
    with put show False
      by (auto simp: put_artifact_by_key_def stage_artifact_def publish_artifact_def path_exists_def Let_def
          copy_and_hash_correct [OF ne] rename_noreplace_def and_then_eq_Inl ensure_private_directory_def area_entry_def
          split: if_splits sum.splits prod.splits option.splits area.splits)
  qed
qed

lemma store_artifact_result:
  assumes st: "store_artifact c tmp address ct envelope = (c', Inr r)"
    and tmp: "starts_with tmp TRANSACTION_PREFIX" "area_entry (c_artifacts c) tmp = None"
    and new: "load_artifact c address = Inr None"
  shows "load_artifact c' address = Inr (Some r)" "load_artifact_by_key c' (ar_key r) = Inr (r, ct)"
    "ar_envelope r = envelope" "ar_ciphertext_hash r = c_hash c ct" "c_hash c' = c_hash c"
proof -
  obtain res where put: "put_artifact c tmp address (file_reader ct) envelope = (c', res)"
    using st by (auto simp: store_artifact_def split: prod.splits sum.splits cache_error.splits)
  have "res = Inr r"
    using st put new put_artifact_exists [of c tmp address "file_reader ct" envelope c']
    by (auto simp: store_artifact_def split: sum.splits cache_error.splits)
  with put have "put_artifact c tmp address (file_reader ct) envelope = (c', Inr r)" by simp
  from put_artifact_loads [OF this _ tmp] put_artifact_keeps_hash [OF this]
  show "load_artifact c' address = Inr (Some r)" "load_artifact_by_key c' (ar_key r) = Inr (r, ct)"
    "ar_envelope r = envelope" "ar_ciphertext_hash r = c_hash c ct" "c_hash c' = c_hash c" by auto
qed

section \<open>Successful preparations\<close>

lemma copy_bounded_hashing_file:
  "copy_bounded_hashing hash (file_reader content) =
     (if length content \<le> Cache_Store.MAX_CIPHERTEXT_BYTES then Inr (content, hash content) else Inl KLimit)"
  by (simp add: copy_bounded_hashing_def copy_and_hash_correct)

text \<open>A result stands for a stored record that was authenticated for the request.\<close>

definition backed ::
  "('ssh, 'sig, 'priv, 'raw) rekey_env \<Rightarrow> cache \<Rightarrow> ('ssh, 'priv, 'x) direct_request_scheme \<Rightarrow> rekey_result \<Rightarrow> artifact_record \<Rightarrow> bool" where
  "backed env c q result r \<longleftrightarrow>
     (\<exists>content address. ke_open env (dq_source q) = Inr content \<and> kr_source_ciphertext_hash result = ke_sha256 env content
       \<and> request_address env q (ke_sha256 env content) = Inr (kr_recipient_fingerprint result, address)
       \<and> load_artifact c address = Inr (Some r))
     \<and> authenticate_record env r q (kr_source_ciphertext_hash result) (kr_recipient_fingerprint result) (kr_reused result) = Inr result"

lemma authenticate_record_fields:
  "authenticate_record env r q source_hash fingerprint reused = Inr result \<Longrightarrow>
     kr_cache_key result = ar_key r \<and> kr_source_ciphertext_hash result = source_hash
     \<and> kr_artifact_ciphertext_hash result = ar_ciphertext_hash r
     \<and> kr_recipient_fingerprint result = fingerprint \<and> kr_reused result = reused"
  by (auto simp: authenticate_record_def)

lemma backedI:
  assumes "authenticate_record env r q (ke_sha256 env content) fingerprint reused = Inr result"
    and "ke_open env (dq_source q) = Inr content" and "request_address env q (ke_sha256 env content) = Inr (fingerprint, address)"
    and "load_artifact c address = Inr (Some r)"
  shows "backed env c q result r"
  using assms authenticate_record_fields [OF assms(1)] by (auto simp: backed_def)

lemma rekey_artifact_cases:
  assumes run: "rekey_artifact env c q = (c', Inr result)"
    and tmp: "starts_with (ke_temporary env) TRANSACTION_PREFIX" "area_entry (c_artifacts c) (ke_temporary env) = None"
  obtains (reused) r where "c' = c" "kr_reused result" "backed env c' q result r"
  | (new) r content target_bytes where "\<not> kr_reused result" "backed env c' q result r"
      "ke_open env (dq_source q) = Inr content" "load_artifact_by_key c' (ar_key r) = Inr (r, target_bytes)"
      "rekey (ke_age_api env) (ke_age env) (ke_plugins env) (ke_rng env) (file_reader content)
        (rk_administrator_identity q) [dq_target_recipient q] = Inr target_bytes" "c_hash c' = c_hash c"
proof -
  from run obtain content fingerprint address found where o: "ke_open env (dq_source q) = Inr content"
    and len: "length content \<le> Cache_Store.MAX_CIPHERTEXT_BYTES"
    and a: "request_address env q (ke_sha256 env content) = Inr (fingerprint, address)"
    and l: "load_artifact c address = Inr found"
    by (auto simp: rekey_artifact_def copy_bounded_hashing_file split: sum.splits if_splits)
  show thesis
  proof (cases found)
    case (Some r)
    with run o len a l have "c' = c" "authenticate_record env r q (ke_sha256 env content) fingerprint True = Inr result"
      by (auto simp: rekey_artifact_def copy_bounded_hashing_file)
    with backedI [OF _ o a] authenticate_record_fields [OF this(2)] l Some show thesis by (intro reused [of r]) auto
  next
    case None
    from run o len a l None obtain t h envelope where
      t: "rekey (ke_age_api env) (ke_age env) (ke_plugins env) (ke_rng env) (file_reader content)
        (rk_administrator_identity q) [dq_target_recipient q] = Inr t"
      and h: "copy_bounded_hashing (c_hash c) (file_reader t) = Inr (t, h)"
      and s: "sign_artifact env q (ke_sha256 env content) h fingerprint = Inr envelope"
      by (auto simp: rekey_artifact_def copy_bounded_hashing_file split: sum.splits if_splits)
    from run o len a l None t h s obtain r where
      st: "store_artifact c (ke_temporary env) address t envelope = (c', Inr r)"
      and au: "authenticate_record env r q (ke_sha256 env content) fingerprint (ar_ciphertext_hash r \<noteq> h) = Inr result"
      by (auto simp: rekey_artifact_def copy_bounded_hashing_file split: sum.splits prod.splits if_splits)
    note res = store_artifact_result [OF st tmp l [unfolded None]]
    have "h = c_hash c t" using h by (auto simp: copy_bounded_hashing_file split: if_splits)
    with res authenticate_record_fields [OF au] have "\<not> kr_reused result" by simp
    with backedI [OF au o a res(1)] o res t show thesis by (intro new [of r content t]) auto
  qed
qed

lemma stage_direct_cases:
  assumes run: "stage_direct env c q = (c', Inr result)"
    and tmp: "starts_with (ke_temporary env) TRANSACTION_PREFIX" "area_entry (c_artifacts c) (ke_temporary env) = None"
  obtains (reused) r where "c' = c" "kr_reused result" "backed env c' q result r"
  | (new) r content where "\<not> kr_reused result" "backed env c' q result r"
      "ke_open env (dq_source q) = Inr content" "load_artifact_by_key c' (ar_key r) = Inr (r, content)"
      "validate_ciphertext_header (ke_age env) (file_reader content) = Inr ()" "c_hash c' = c_hash c"
proof -
  from run obtain content fingerprint address found where o: "ke_open env (dq_source q) = Inr content"
    and len: "length content \<le> Cache_Store.MAX_CIPHERTEXT_BYTES"
    and v: "validate_ciphertext_header (ke_age env) (file_reader content) = Inr ()"
    and a: "request_address env q (ke_sha256 env content) = Inr (fingerprint, address)"
    and l: "load_artifact c address = Inr found"
    by (auto simp: stage_direct_def copy_bounded_hashing_file split: sum.splits if_splits)
  show thesis
  proof (cases found)
    case (Some r)
    with run o len v a l have "c' = c" "authenticate_record env r q (ke_sha256 env content) fingerprint True = Inr result"
      by (auto simp: stage_direct_def authenticate_direct_record_def copy_bounded_hashing_file)
    with backedI [OF _ o a] authenticate_record_fields [OF this(2)] l Some show thesis by (intro reused [of r]) auto
  next
    case None
    from run o len v a l None obtain envelope r where
      st: "store_artifact c (ke_temporary env) address content envelope = (c', Inr r)"
      and au: "authenticate_record env r q (ke_sha256 env content) fingerprint False = Inr result"
      by (auto simp: stage_direct_def authenticate_direct_record_def copy_bounded_hashing_file
          split: sum.splits prod.splits if_splits)
    note res = store_artifact_result [OF st tmp l [unfolded None]]
    with backedI [OF au o a res(1)] authenticate_record_fields [OF au] o v show thesis by (intro new [of r content]) auto
  qed
qed

section \<open>Activation accepts what preparation returns\<close>

text \<open>The same libraries on both sides, and an activation request for the prepared artifact.\<close>

definition same_libraries :: "('ssh, 'sig, 'priv, 'raw) rekey_env \<Rightarrow> cache \<Rightarrow> ('ssh, 'sig) activation_env \<Rightarrow> bool" where
  "same_libraries env c venv \<longleftrightarrow> ve_keys venv = ke_keys env \<and> ve_json venv = ke_json env
     \<and> ve_envelope_json venv = ke_envelope_decode env \<and> re_hash (ve_runtime venv) = c_hash c"

definition requests_artifact ::
  "('ssh, 'sig, 'priv, 'raw) rekey_env \<Rightarrow> ('ssh, 'priv, 'x) direct_request_scheme \<Rightarrow> rekey_result
    \<Rightarrow> activation_request \<Rightarrow> activation_artifact \<Rightarrow> bool" where
  "requests_artifact env q result request a \<longleftrightarrow>
     rq_tool_version request = dq_tool_version q \<and> rq_target_id request = dq_target_id q
     \<and> rq_recipient_fingerprint request = kr_recipient_fingerprint result
     \<and> av_secret_id a = dq_secret_id q \<and> av_artifact_policy_hash a = dq_artifact_policy_hash q
     \<and> av_source_ciphertext_hash a = kr_source_ciphertext_hash result
     \<and> av_artifact_generation a = dq_artifact_generation q \<and> av_approval_threshold a = 1
     \<and> map Inr (bt_values (av_approval_signers a)) = [encode_public (ke_keys env) (ke_signer env) (dq_signing_key q)]"

definition locally_ready :: "('ssh, 'sig) activation_env \<Rightarrow> prepare_state \<Rightarrow> activation_artifact \<Rightarrow> bool" where
  "locally_ready venv st a \<longleftrightarrow> validate_mode (av_mode a) = Inr () \<and> av_secret_id a \<notin> pr_secret_ids st
     \<and> as_str (av_secret_id a) \<notin> pr_output_ids st \<and> av_compatibility_symlink a = None
     \<and> ve_user venv (av_owner a) \<noteq> None \<and> ve_group venv (av_group a) \<noteq> None"

definition in_window :: "target_manifest \<Rightarrow> activation_request \<Rightarrow> bool" where
  "in_window m request \<longleftrightarrow>
     (\<exists>latest. checked_add (rq_now request) (rq_allowed_clock_skew request) = Some latest \<and> tm_issued_at m \<le> latest)
     \<and> (\<forall>expiry. tm_expires_at m = Some expiry \<longrightarrow> rq_now request < expiry)"

lemma verify_later:
  assumes v: "verify api json envelope trusted threshold e = Inr v"
    and same: "e'\<lparr>eb_now := eb_now e, eb_allowed_clock_skew := eb_allowed_clock_skew e\<rparr> = e"
    and latest: "checked_add (eb_now e') (eb_allowed_clock_skew e') = Some latest" "tm_issued_at (vm_manifest v) \<le> latest"
    and live: "\<forall>expiry. tm_expires_at (vm_manifest v) = Some expiry \<longrightarrow> eb_now e' < expiry"
  shows "verify api json envelope trusted threshold e' = Inr v"
proof -
  from v have ve: "validate_expected (vm_manifest v) e = Inr ()" by (auto simp: verify_def)
  have "eb_tool_version e' = eb_tool_version e" "eb_artifact_policy_hash e' = eb_artifact_policy_hash e"
    "eb_source_ciphertext_hash e' = eb_source_ciphertext_hash e" "eb_artifact_ciphertext_hash e' = eb_artifact_ciphertext_hash e"
    "eb_target_id e' = eb_target_id e" "eb_secret_id e' = eb_secret_id e"
    "eb_recipient_fingerprint e' = eb_recipient_fingerprint e" "eb_artifact_generation e' = eb_artifact_generation e"
    using same by (cases e', cases e, simp)+
  then have "validate_expected (vm_manifest v) e' = Inr ()"
    using ve latest live by (auto simp: validate_expected_def not_less not_le split: option.splits)
  with v show ?thesis by (auto simp: verify_def)
qed

lemma verify_window:
  assumes "verify api json envelope trusted threshold (artifact_expected q source_hash artifact_hash fingerprint) = Inr v"
  shows "tm_issued_at (vm_manifest v) \<le> dq_issued_at q"
    and "\<forall>expiry. tm_expires_at (vm_manifest v) = Some expiry \<longrightarrow> dq_issued_at q < expiry"
  using assms
  by (auto simp: verify_def validate_expected_def artifact_expected_def checked_add_def not_less not_le split: option.splits if_splits)

lemma backed_activates:
  assumes b: "backed env c q result r"
  shows "\<exists>ct m. load_artifact_by_key c (kr_cache_key result) = Inr (r, ct)
    \<and> kr_artifact_ciphertext_hash result = c_hash c ct \<and> tm_issued_at m \<le> dq_issued_at q
    \<and> (\<forall>expiry. tm_expires_at m = Some expiry \<longrightarrow> dq_issued_at q < expiry)
    \<and> (\<forall>venv request a st. same_libraries env c venv \<and> requests_artifact env q result request a
        \<and> locally_ready venv st a \<and> in_window m request
        \<and> ve_open venv (av_ciphertext a) = Inr ct \<and> ve_open venv (av_envelope a) = Inr (ar_envelope r) \<longrightarrow>
        (\<exists>st' p. prepare_artifact venv request st a = Inr st' \<and> pr_prepared st' = pr_prepared st @ [p]
           \<and> pa_ciphertext p = ct \<and> pa_secret_id p = dq_secret_id q))"
proof -
  from b obtain address where "load_artifact c address = Inr (Some r)" by (auto simp: backed_def)
  from load_artifact_record [OF this] obtain ct where l: "load_artifact_by_key c (ar_key r) = Inr (r, ct)"
    and r: "ar_ciphertext_hash r = c_hash c ct" "length ct \<le> Cache_Store.MAX_CIPHERTEXT_BYTES"
      "length (ar_envelope r) \<le> Cache_Store.MAX_ENVELOPE_BYTES" by blast
  let ?e = "artifact_expected q (kr_source_ciphertext_hash result) (c_hash c ct) (kr_recipient_fingerprint result)"
  from b obtain envelope encoded trusted i v where au: "authenticate_record env r q (kr_source_ciphertext_hash result)
      (kr_recipient_fingerprint result) (kr_reused result) = Inr result"
    and d: "ke_envelope_decode env (ar_envelope r) = Some envelope"
    and k: "encode_public (ke_keys env) (ke_signer env) (dq_signing_key q) = Inr encoded"
      "insert_encoded (ke_keys env) bt_empty encoded = Inr (trusted, i)"
    and v: "verify (ke_keys env) (ke_json env) envelope trusted 1 ?e = Inr v"
    by (auto simp: backed_def authenticate_record_def r(1))
  have "\<exists>st' p. prepare_artifact venv request st a = Inr st' \<and> pr_prepared st' = pr_prepared st @ [p]
      \<and> pa_ciphertext p = ct \<and> pa_secret_id p = dq_secret_id q"
    if lib: "same_libraries env c venv" and req: "requests_artifact env q result request a"
      and loc: "locally_ready venv st a" and win: "in_window (vm_manifest v) request"
      and files: "ve_open venv (av_ciphertext a) = Inr ct" "ve_open venv (av_envelope a) = Inr (ar_envelope r)"
    for venv request a st
  proof -
    have "bt_values (av_approval_signers a) = [encoded]" using req k(1) by (auto simp: requests_artifact_def)
    then have tr: "artifact_trusted venv a = Inr trusted" using lib k(2) by (simp add: artifact_trusted_def same_libraries_def)
    from win obtain latest where w: "checked_add (rq_now request) (rq_allowed_clock_skew request) = Some latest"
      "tm_issued_at (vm_manifest v) \<le> latest" "\<forall>expiry. tm_expires_at (vm_manifest v) = Some expiry \<longrightarrow> rq_now request < expiry"
      by (auto simp: in_window_def)
    have "verify (ke_keys env) (ke_json env) envelope trusted 1 (expected_artifact request a (c_hash c ct)) = Inr v"
      by (rule verify_later [OF v, where latest = latest])
        (use w req in \<open>auto simp: expected_artifact_def artifact_expected_def requests_artifact_def\<close>)
    then have ver: "verify (ve_keys venv) (ve_json venv) envelope trusted 1 (expected_artifact request a (c_hash c ct)) = Inr v"
      using lib by (simp add: same_libraries_def)
    have "hash_bounded (ve_runtime venv) ct Activate.MAX_CIPHERTEXT_BYTES = Inr (c_hash c ct)"
      "runtime_read_bounded (ar_envelope r) Activate.MAX_ENVELOPE_BYTES = Inr (ar_envelope r)"
      using lib r(2,3) by (simp_all add: hash_bounded_def runtime_read_bounded_def same_libraries_def
          Activate.MAX_CIPHERTEXT_BYTES_def Cache_Store.MAX_CIPHERTEXT_BYTES_def
          Activate.MAX_ENVELOPE_BYTES_def Cache_Store.MAX_ENVELOPE_BYTES_def)
    moreover have "ve_envelope_json venv (ar_envelope r) = Some envelope" using lib d by (simp add: same_libraries_def)
    moreover have "av_approval_threshold a = 1" "av_secret_id a = dq_secret_id q" using req by (auto simp: requests_artifact_def)
    ultimately show ?thesis
      using loc files tr ver by (auto simp: prepare_artifact_def locally_ready_def resolve_user_def resolve_group_def)
  qed
  with l r authenticate_record_fields [OF au] verify_window [OF v] show ?thesis by auto
qed


section \<open>The target reads what was sealed\<close>

text \<open>
  What the age crate documents of sealing to a recipient: the output starts with a header of the format and
  opens with the recipient's identity to the plaintext.
\<close>

definition age_documented :: "age_engine \<Rightarrow> age_identity \<Rightarrow> age_recipient \<Rightarrow> bool" where
  "age_documented age identity recipient \<longleftrightarrow> (\<forall>rng p.
     (\<exists>stanzas mac payload. ae_seal age rng [recipient] p = print_age_header stanzas mac @ payload
        \<and> list_all stanza_ok stanzas \<and> stanzas \<noteq> [] \<and> length stanzas < 65536 \<and> CHR 0x0A \<notin> set mac
        \<and> length (print_age_header stanzas mac) \<le> MAX_AGE_HEADER_BYTES \<and> (\<forall>s \<in> set stanzas. st_tag s \<noteq> ''ssh-rsa''))
     \<and> ae_header_ok age (ae_seal age rng [recipient] p)
     \<and> ae_open age identity (ae_seal age rng [recipient] p) = Some (p, True))"

lemma sealed_opens:
  assumes d: "age_documented age identity recipient" and "length p \<le> MAX_SECRET_BYTES"
  shows "decrypt_with_identity age (file_reader (ae_seal age rng [recipient] p)) identity False = Inr p"
proof -
  let ?s = "ae_seal age rng [recipient] p"
  from d obtain stanzas mac payload where s: "?s = print_age_header stanzas mac @ payload"
    and h: "list_all stanza_ok stanzas" "stanzas \<noteq> []" "length stanzas < 65536" "CHR 0x0A \<notin> set mac"
      "length (print_age_header stanzas mac) \<le> MAX_AGE_HEADER_BYTES" "\<forall>s \<in> set stanzas. st_tag s \<noteq> ''ssh-rsa''"
    unfolding age_documented_def by blast
  have "prepare_ciphertext (file_reader ?s) False = Inr (concat (file_reader ?s))"
    by (rule printed_header_prepared [OF h(1-5)]) (use s h(6) in simp_all)
  then show ?thesis using d assms(2) by (simp add: decrypt_with_identity_def age_documented_def copy_plaintext_Inr)
qed

text \<open>
  C8. A fresh artifact carries the source's plaintext: the target's identity decrypts the stored ciphertext to
  what the administrator's identity decrypts the source file to, given the documented behaviour of
  the age crate for that target. Neither key is a plugin's.
\<close>

theorem rekey_preserves_plaintext:
  assumes run: "rekey_artifact env c q = (c', Inr result)" and new: "\<not> kr_reused result"
    and tmp: "starts_with (ke_temporary env) TRANSACTION_PREFIX" "area_entry (c_artifacts c) (ke_temporary env) = None"
    and plain: "\<not> is_plugin_identity (ke_age_api env) (rk_administrator_identity q)"
      "\<not> is_plugin_recipient (ke_age_api env) (dq_target_recipient q)"
    and age: "\<And>parsed. parse_recipient (ke_age_api env) (ke_age env) (dq_target_recipient q) = Inr parsed \<Longrightarrow>
      age_documented (ke_age env) reader parsed"
  shows "\<exists>content administrator p r ct. ke_open env (dq_source q) = Inr content
    \<and> parse_identity (ke_age_api env) (ke_age env) (rk_administrator_identity q) = Inr administrator
    \<and> decrypt_with_identity (ke_age env) (file_reader content) administrator False = Inr p
    \<and> load_artifact_by_key c' (kr_cache_key result) = Inr (r, ct)
    \<and> decrypt_with_identity (ke_age env) (file_reader ct) reader False = Inr p"
  using run tmp
proof (rule rekey_artifact_cases)
  fix r content t
  assume b: "backed env c' q result r" and o: "ke_open env (dq_source q) = Inr content"
    and l: "load_artifact_by_key c' (ar_key r) = Inr (r, t)"
    and k: "rekey (ke_age_api env) (ke_age env) (ke_plugins env) (ke_rng env) (file_reader content)
      (rk_administrator_identity q) [dq_target_recipient q] = Inr t"
  from k plain obtain administrator where i: "parse_identity (ke_age_api env) (ke_age env) (rk_administrator_identity q) = Inr administrator"
    and d: "rekey_direct_with_identity (ke_age_api env) (ke_age env) (ke_rng env) (file_reader content) administrator
      [dq_target_recipient q] False = Inr t"
    by (auto simp: rekey_def rekey_direct_def)
  from d obtain p where p: "decrypt_with_identity (ke_age env) (file_reader content) administrator False = Inr p"
    and e: "encrypt_direct (ke_age_api env) (ke_age env) (ke_rng env) p [dq_target_recipient q] = Inr t"
    unfolding rekey_decrypt_encrypt by blast
  from e obtain parsed where "parse_recipient (ke_age_api env) (ke_age env) (dq_target_recipient q) = Inr parsed"
    "t = ae_seal (ke_age env) (ke_rng env) [parsed] p" "length p \<le> MAX_SECRET_BYTES"
    by (auto simp: encrypt_direct_def)
  with sealed_opens [OF age] have "decrypt_with_identity (ke_age env) (file_reader t) reader False = Inr p" by simp
  moreover have "kr_cache_key result = ar_key r" using b by (auto simp: backed_def dest: authenticate_record_fields)
  ultimately show ?thesis using o i p l by auto
qed (use new in simp_all)

text \<open>
  C45. Direct delivery never rewrites a source: what \<open>stage_direct\<close> stores for a new artifact is the source
  file byte for byte, with a header that was checked, under the digests of exactly these bytes,
  and the result is authenticated like a rekeyed one.
\<close>

theorem stage_direct_verbatim:
  assumes run: "stage_direct env c q = (c', Inr result)"
    and tmp: "starts_with (ke_temporary env) TRANSACTION_PREFIX" "area_entry (c_artifacts c) (ke_temporary env) = None"
  shows "(\<exists>r ct. load_artifact_by_key c' (kr_cache_key result) = Inr (r, ct)
      \<and> authenticate_direct_record env r q (kr_source_ciphertext_hash result) (kr_recipient_fingerprint result)
          (kr_reused result) = Inr result
      \<and> (\<not> kr_reused result \<longrightarrow> ke_open env (dq_source q) = Inr ct
          \<and> validate_ciphertext_header (ke_age env) (file_reader ct) = Inr ()
          \<and> kr_source_ciphertext_hash result = ke_sha256 env ct \<and> kr_artifact_ciphertext_hash result = c_hash c ct))
    \<and> (kr_reused result \<longrightarrow> c' = c)"
  using run tmp
proof (rule stage_direct_cases)
  fix r
  assume b: "backed env c' q result r" and "kr_reused result" and "c' = c"
  with backed_activates [OF b] show ?thesis by (auto simp: backed_def authenticate_direct_record_def)
next
  fix r content
  assume b: "backed env c' q result r" and n: "\<not> kr_reused result" and o: "ke_open env (dq_source q) = Inr content"
    and l: "load_artifact_by_key c' (ar_key r) = Inr (r, content)"
    and v: "validate_ciphertext_header (ke_age env) (file_reader content) = Inr ()" and h: "c_hash c' = c_hash c"
  from b have au: "authenticate_record env r q (kr_source_ciphertext_hash result) (kr_recipient_fingerprint result)
      (kr_reused result) = Inr result" and src: "kr_source_ciphertext_hash result = ke_sha256 env content"
    using o by (auto simp: backed_def)
  from backed_activates [OF b] l h authenticate_record_fields [OF au] have "kr_artifact_ciphertext_hash result = c_hash c content"
    by auto
  with n o l v au src authenticate_record_fields [OF au] show ?thesis by (auto simp: authenticate_direct_record_def)
qed

section \<open>An example\<close>

definition rekey_age :: age_engine where
  "rekey_age = \<lparr>ae_plugin_ready = (\<lambda>_. True), ae_header_ok = (\<lambda>_. True), ae_is_scrypt = (\<lambda>_. False),
     ae_open = (\<lambda>_ c. if starts_with c example_header then Some (drop (length example_header) c, True) else None),
     ae_recipients_ok = (\<lambda>_. True), ae_seal = (\<lambda>_ _ p. example_header @ p), ae_seal_passphrase = (\<lambda>_ _ p. p)\<rparr>"

definition example_rekey_env :: "(string, string, string, string) rekey_env" where
  "example_rekey_env = \<lparr>ke_keys = plain_keys, ke_signer = plain_signer, ke_json = example_json,
     ke_age_api = example_age_api\<lparr>age_blake3 := (\<lambda>_. example_digest)\<rparr>, ke_age = rekey_age, ke_plugins = example_plugins,
     ke_rng = 0, ke_sha256 = (\<lambda>_. example_digest),
     ke_open = (\<lambda>p. if p = ''/src'' then Inr example_ciphertext else Inl KIo),
     ke_envelope_encode = (\<lambda>e. if e = example_envelope then Some ''{envelope}'' else None),
     ke_envelope_decode = (\<lambda>b. if b = ''{envelope}'' then Some example_envelope else None),
     ke_temporary = ''.nix-seal-txn-9''\<rparr>"

definition rekey_cache :: cache where
  "rekey_cache = \<lparr>c_objects = Absent, c_artifacts = Absent, c_euid = 0, c_allow_foreign_owner = False,
     c_hash = (\<lambda>_. example_digest)\<rparr>"

definition example_direct_request :: "(string, string) direct_request" where
  "example_direct_request = \<lparr>dq_source = ''/src'', dq_target_recipient = ''age1x'', dq_plan_hash = example_digest,
     dq_target_policy_hash = example_digest, dq_artifact_policy_hash = example_digest, dq_target_id = Id ''host'',
     dq_secret_id = Id ''db'', dq_artifact_generation = 1, dq_issued_at = 10, dq_expires_at = Some 20,
     dq_tool_version = ''1'', dq_signing_key = Ed25519 example_seed_key\<rparr>"

definition example_rekey_request :: "(string, string) rekey_request" where
  "example_rekey_request = direct_request.extend example_direct_request (rekey_request.fields ''key'')"



definition example_result :: rekey_result where
  "example_result = \<lparr>kr_cache_key = example_digest, kr_source_ciphertext_hash = example_digest,
     kr_artifact_ciphertext_hash = example_digest, kr_recipient_fingerprint = example_digest, kr_reused = False\<rparr>"

definition prepared_address :: artifact_address where
  "prepared_address = \<lparr>aa_artifact_policy_hash = example_digest, aa_source_ciphertext_hash = example_digest,
     aa_recipient_fingerprint = example_digest, aa_target_id = ''host'', aa_secret_id = ''db'', aa_artifact_generation = 1\<rparr>"

definition example_record :: artifact_record where
  "example_record = \<lparr>ar_key = example_digest, ar_ciphertext_hash = example_digest, ar_envelope = ''{envelope}''\<rparr>"

definition rekeyed_cache :: cache where
  "rekeyed_cache = fst (store_artifact rekey_cache ''.nix-seal-txn-9'' prepared_address example_ciphertext ''{envelope}'')"

lemma example_source:
  "ke_open example_rekey_env (dq_source example_rekey_request) = Inr example_ciphertext"
  "ke_open example_rekey_env (dq_source example_direct_request) = Inr example_ciphertext"
  by (simp_all add: example_rekey_env_def example_rekey_request_def example_direct_request_def
      direct_request.defs rekey_request.defs)

lemma rekey_copied:
  "copy_bounded_hashing (ke_sha256 example_rekey_env) (file_reader example_ciphertext) = Inr (example_ciphertext, example_digest)"
  by code_simp

lemma rekey_addressed:
  "request_address example_rekey_env example_rekey_request example_digest = Inr (example_digest, prepared_address)"
  by code_simp

lemma rekey_absent:
  "load_artifact rekey_cache prepared_address = Inr None"
  by code_simp

lemma rekey_sealed:
  "rekey (ke_age_api example_rekey_env) (ke_age example_rekey_env) (ke_plugins example_rekey_env) (ke_rng example_rekey_env)
     (file_reader example_ciphertext) (rk_administrator_identity example_rekey_request)
     [dq_target_recipient example_rekey_request] = Inr example_ciphertext"
  by code_simp

lemma rekey_hashed:
  "copy_bounded_hashing (c_hash rekey_cache) (file_reader example_ciphertext) = Inr (example_ciphertext, example_digest)"
  by code_simp

lemma rekey_signed:
  "sign_artifact example_rekey_env example_rekey_request example_digest example_digest example_digest = Inr ''{envelope}''"
  by code_simp

lemma rekey_authenticated:
  "authenticate_record example_rekey_env example_record example_rekey_request example_digest example_digest False = Inr example_result"
  by code_simp

lemma rekey_record_hash:
  "ar_ciphertext_hash example_record = example_digest"
  by code_simp

lemma rekey_stored:
  "snd (store_artifact rekey_cache ''.nix-seal-txn-9'' prepared_address example_ciphertext ''{envelope}'') = Inr example_record"
  by code_simp

lemma rekey_loads:
  "load_artifact_by_key rekeyed_cache example_digest = Inr (example_record, example_ciphertext)"
  by code_simp

lemmas rekey_steps = rekey_copied rekey_addressed rekey_absent rekey_sealed rekey_hashed rekey_signed rekey_authenticated rekey_record_hash rekey_stored rekey_loads

lemma example_stored:
  "store_artifact rekey_cache (ke_temporary example_rekey_env) prepared_address example_ciphertext ''{envelope}''
     = (rekeyed_cache, Inr example_record)"
  using rekey_stored by (simp add: prod_eq_iff rekeyed_cache_def example_rekey_env_def)

lemma example_rekeyed:
  "rekey_artifact example_rekey_env rekey_cache example_rekey_request = (rekeyed_cache, Inr example_result)"
  by (simp add: rekey_artifact_def example_source rekey_steps example_stored)

lemma direct_checked:
  "validate_ciphertext_header (ke_age example_rekey_env) (file_reader example_ciphertext) = Inr ()"
  by code_simp

lemma direct_addressed:
  "request_address example_rekey_env example_direct_request example_digest = Inr (example_digest, prepared_address)"
  by code_simp

lemma direct_signed:
  "sign_artifact example_rekey_env example_direct_request example_digest example_digest example_digest = Inr ''{envelope}''"
  by code_simp

lemma direct_authenticated:
  "authenticate_direct_record example_rekey_env example_record example_direct_request example_digest example_digest False = Inr example_result"
  by code_simp

lemmas direct_steps = direct_checked direct_addressed direct_signed direct_authenticated

lemma example_staged:
  "stage_direct example_rekey_env rekey_cache example_direct_request = (rekeyed_cache, Inr example_result)"
  by (simp add: stage_direct_def direct_steps example_source rekey_copied rekey_absent rekey_hashed example_stored)

lemma example_fresh_name:
  "starts_with (ke_temporary example_rekey_env) TRANSACTION_PREFIX"
  "area_entry (c_artifacts rekey_cache) (ke_temporary example_rekey_env) = None"
  by (code_simp, simp add: rekey_cache_def area_entry_def)

theorem stage_direct_verbatim_witness:
  "\<exists>r. load_artifact_by_key rekeyed_cache example_digest = Inr (r, example_ciphertext)"
  using stage_direct_verbatim [OF example_staged example_fresh_name] by (auto simp: example_result_def example_source)

theorem rekey_preserves_plaintext_witness:
  "\<exists>r ct. load_artifact_by_key rekeyed_cache example_digest = Inr (r, ct)
    \<and> decrypt_with_identity rekey_age (file_reader ct) (NativeIdentity ''host-key'') False = Inr ''sealed''"
proof -
  let ?stanza = "\<lparr>st_tag = ''X25519'', st_args = [''abc''], st_body = ''Zm9v''\<rparr>"
  have header: "list_all stanza_ok [?stanza]" "length (print_age_header [?stanza] ''mac'') \<le> MAX_AGE_HEADER_BYTES" by code_simp+
  have doc: "age_documented rekey_age (NativeIdentity ''host-key'') parsed" for parsed
    unfolding age_documented_def
  proof (intro allI conjI)
    fix rng p
    show "\<exists>stanzas mac payload. ae_seal rekey_age rng [parsed] p = print_age_header stanzas mac @ payload
        \<and> list_all stanza_ok stanzas \<and> stanzas \<noteq> [] \<and> length stanzas < 65536 \<and> CHR 0x0A \<notin> set mac
        \<and> length (print_age_header stanzas mac) \<le> MAX_AGE_HEADER_BYTES \<and> (\<forall>s \<in> set stanzas. st_tag s \<noteq> ''ssh-rsa'')"
      using header
      by (intro exI [of _ "[?stanza]"] exI [of _ "''mac''"] exI [of _ p]) (simp add: rekey_age_def example_header_def)
  qed (simp_all add: rekey_age_def starts_with_def)
  have plain: "\<not> is_plugin_identity (ke_age_api example_rekey_env) (rk_administrator_identity example_rekey_request)"
    "\<not> is_plugin_recipient (ke_age_api example_rekey_env) (dq_target_recipient example_rekey_request)"
    "\<not> kr_reused example_result" "kr_cache_key example_result = example_digest"
    "parse_identity (ke_age_api example_rekey_env) rekey_age (rk_administrator_identity example_rekey_request)
      = Inr (NativeIdentity ''key'')"
    "decrypt_with_identity rekey_age (file_reader example_ciphertext) (NativeIdentity ''key'') False = Inr ''sealed''"
    by code_simp+
  have "ke_age example_rekey_env = rekey_age" by (simp add: example_rekey_env_def)
  with rekey_preserves_plaintext [OF example_rekeyed plain(3) example_fresh_name plain(1,2),
      of "NativeIdentity ''host-key''"] doc plain example_source(1) show ?thesis by auto
qed


end
