(* ===== verification/Repository_Files.thy ===== *)
theory Repository_Files
  imports Traced Template
begin

text \<open>
  The file system as the authoring crate uses it. A path is the list of its components below the
  root directory, an entry is a regular file with its metadata, a directory, a symbolic link or
  something else. Every system call is a step of a traced computation: first other processes may
  have changed the tree, then the call fails with an operating-system fault, fails for a reason the
  tree gives, or takes effect. The faults, the other processes, the random part of temporary names
  and the inode of a new file are functions of the number of the step, so all schedules of faults are
  covered.

  Paths are read as they are: the functions only pass on paths they have made canonical before, and a
  directory on such a path is not replaced by a link between two steps. An open file is named by its
  path. Temporary files are owned by the values that Rust drops; \<open>w_temps\<close> lists the live ones.
\<close>

section \<open>Entries\<close>

record fs_file =
  fl_dev :: nat
  fl_ino :: nat
  fl_uid :: nat
  fl_mode :: "32 word"
  fl_nlink :: nat
  fl_content :: bytes

text \<open>The mode of a file and of a directory is its permission bits.\<close>

datatype fs_node = FsFile fs_file | FsDir nat "32 word" | FsLink string | FsOther

type_synonym fs_path = "string list"
type_synonym fs_tree = "fs_path \<Rightarrow> fs_node option"

record world =
  w_tree :: fs_tree
  w_clock :: nat
  w_temps :: "fs_path list"

record fs_env =
  fe_euid :: nat
  fe_cwd :: fs_path
  fe_fault :: "nat \<Rightarrow> bool"
  fe_others :: "nat \<Rightarrow> fs_tree \<Rightarrow> fs_tree"
  fe_temp :: "nat \<Rightarrow> string"
  fe_inode :: "nat \<Rightarrow> nat \<times> nat"

definition is_directory :: "fs_tree \<Rightarrow> fs_path \<Rightarrow> bool" where
  "is_directory tree p = (case tree p of Some (FsDir _ _) \<Rightarrow> True | _ \<Rightarrow> False)"

text \<open>\<open>realpath\<close>: follow the links of a path, at most so many of them.\<close>

function realpath :: "nat \<Rightarrow> fs_tree \<Rightarrow> fs_path \<Rightarrow> path_component list \<Rightarrow> io_kind + fs_path" where
  "realpath n tree at [] = Inr at"
| "realpath n tree at (RootDir # cs) = realpath n tree [] cs"
| "realpath n tree at (CurDir # cs) = realpath n tree at cs"
| "realpath n tree at (ParentDir # cs) = realpath n tree (butlast at) cs"
| "realpath n tree at (Normal s # cs) =
     (case tree (at @ [s]) of
        None \<Rightarrow> Inl NotFound
      | Some (FsLink target) \<Rightarrow>
          (case n of 0 \<Rightarrow> Inl OtherIo | Suc m \<Rightarrow> realpath m tree at (path_components target @ cs))
      | Some (FsDir _ _) \<Rightarrow> realpath n tree (at @ [s]) cs
      | Some _ \<Rightarrow> if cs = [] then Inr (at @ [s]) else Inl OtherIo)"
  by pat_completeness auto
termination
  by (relation "inv_image (less_than <*lex*> less_than) (\<lambda>(n, tree, at, cs). (n, length cs))") auto

text \<open>The number of links Linux follows.\<close>

definition MAXSYMLINKS :: nat where
  "MAXSYMLINKS = 40"

text \<open>An absolute path whose last component is not followed, unless it ends with a slash.\<close>

definition nofollow_path :: "fs_tree \<Rightarrow> string \<Rightarrow> io_kind + fs_path" where
  "nofollow_path tree path =
     (let cs = path_components path in
      case rev cs of
        Normal s # _ \<Rightarrow>
          if ends_with path ''/'' then realpath MAXSYMLINKS tree [] cs
          else and_then (realpath MAXSYMLINKS tree [] (butlast cs)) (\<lambda>p. Inr (p @ [s]))
      | _ \<Rightarrow> realpath MAXSYMLINKS tree [] cs)"

section \<open>System calls\<close>

definition sys :: "'x fs_env_scheme \<Rightarrow> (nat \<Rightarrow> fs_tree \<Rightarrow> io_kind + fs_tree \<times> 'a) \<Rightarrow> (world, io_kind, 'a) traced" where
  "sys env f w =
     (let t = w_clock w; tree = fe_others env t (w_tree w) in
      case (if fe_fault env t then Inl OtherIo else f t tree) of
        Inl e \<Rightarrow> ([w\<lparr>w_tree := tree, w_clock := Suc t\<rparr>], Inl e)
      | Inr (tree', x) \<Rightarrow> ([w\<lparr>w_tree := tree', w_clock := Suc t\<rparr>], Inr x))"

definition t_map_err :: "('e \<Rightarrow> 'f) \<Rightarrow> ('s, 'e, 'a) traced \<Rightarrow> ('s, 'f, 'a) traced" where
  "t_map_err h m s = (case m s of (tr, r) \<Rightarrow> (tr, map_err h r))"

definition t_try :: "('s, 'e, 'a) traced \<Rightarrow> ('s, 'f, 'e + 'a) traced" where
  "t_try m s = (case m s of (tr, r) \<Rightarrow> (tr, Inr r))"

definition query :: "'x fs_env_scheme \<Rightarrow> (fs_tree \<Rightarrow> io_kind + 'a) \<Rightarrow> (world, io_kind, 'a) traced" where
  "query env f = sys env (\<lambda>_ tree. and_then (f tree) (\<lambda>x. Inr (tree, x)))"

definition change :: "'x fs_env_scheme \<Rightarrow> (fs_tree \<Rightarrow> io_kind + fs_tree) \<Rightarrow> (world, io_kind, unit) traced" where
  "change env f = sys env (\<lambda>_ tree. and_then (f tree) (\<lambda>tree'. Inr (tree', ())))"

definition symlink_metadata :: "'x fs_env_scheme \<Rightarrow> fs_path \<Rightarrow> (world, io_kind, fs_node) traced" where
  "symlink_metadata env p = query env (\<lambda>tree. ok_or (tree p) NotFound)"

text \<open>\<open>Path::exists\<close> follows links and is false on every error.\<close>

definition path_exists :: "'x fs_env_scheme \<Rightarrow> fs_path \<Rightarrow> (world, 'e, bool) traced" where
  "path_exists env p =
     t_bind (t_try (query env (\<lambda>tree. realpath MAXSYMLINKS tree [] (map Normal p)))) (\<lambda>r. t_return (is_ok r))"

definition canonicalize :: "'x fs_env_scheme \<Rightarrow> string \<Rightarrow> (world, io_kind, fs_path) traced" where
  "canonicalize env path = query env (\<lambda>tree. realpath MAXSYMLINKS tree (fe_cwd env) (path_components path))"

definition canonicalize_path :: "'x fs_env_scheme \<Rightarrow> fs_path \<Rightarrow> (world, io_kind, fs_path) traced" where
  "canonicalize_path env p = query env (\<lambda>tree. realpath MAXSYMLINKS tree [] (map Normal p))"

definition create_dir :: "'x fs_env_scheme \<Rightarrow> fs_path \<Rightarrow> (world, io_kind, unit) traced" where
  "create_dir env p = change env (\<lambda>tree.
     if tree p \<noteq> None then Inl OtherIo
     else if \<not> is_directory tree (butlast p) then Inl NotFound
     else Inr (tree(p \<mapsto> FsDir (fe_euid env) 0x1ED)))"

definition open_regular :: "'x fs_env_scheme \<Rightarrow> fs_path \<Rightarrow> (world, io_kind, fs_node) traced" where
  "open_regular env p = query env (\<lambda>tree.
     case tree p of None \<Rightarrow> Inl NotFound | Some (FsLink _) \<Rightarrow> Inl OtherIo | Some n \<Rightarrow> Inr n)"

definition update_file :: "'x fs_env_scheme \<Rightarrow> fs_path \<Rightarrow> (fs_file \<Rightarrow> fs_file) \<Rightarrow> (world, io_kind, unit) traced" where
  "update_file env p g = change env (\<lambda>tree.
     case tree p of Some (FsFile f) \<Rightarrow> Inr (tree(p \<mapsto> FsFile (g f))) | _ \<Rightarrow> Inl OtherIo)"

definition write_content :: "'x fs_env_scheme \<Rightarrow> fs_path \<Rightarrow> bytes \<Rightarrow> (world, io_kind, unit) traced" where
  "write_content env p content = update_file env p (\<lambda>f. f\<lparr>fl_content := content\<rparr>)"

definition set_mode :: "'x fs_env_scheme \<Rightarrow> fs_path \<Rightarrow> 32 word \<Rightarrow> (world, io_kind, unit) traced" where
  "set_mode env p mode = update_file env p (\<lambda>f. f\<lparr>fl_mode := mode\<rparr>)"

definition read_content :: "'x fs_env_scheme \<Rightarrow> fs_path \<Rightarrow> (world, io_kind, bytes) traced" where
  "read_content env p = query env (\<lambda>tree.
     case tree p of Some (FsFile f) \<Rightarrow> Inr (fl_content f) | _ \<Rightarrow> Inl OtherIo)"

text \<open>\<open>sync_all\<close> and \<open>rewind\<close> of an open file, and opening and synchronising a directory.\<close>

definition sync_file :: "'x fs_env_scheme \<Rightarrow> (world, io_kind, unit) traced" where
  "sync_file env = query env (\<lambda>_. Inr ())"

definition rewind :: "'x fs_env_scheme \<Rightarrow> (world, io_kind, unit) traced" where
  "rewind env = query env (\<lambda>_. Inr ())"

definition sync_directory :: "'x fs_env_scheme \<Rightarrow> fs_path \<Rightarrow> (world, io_kind, unit) traced" where
  "sync_directory env p = query env (\<lambda>tree. if is_directory tree p then Inr () else Inl OtherIo)"

text \<open>Renaming a file. Directories are not moved.\<close>

definition move :: "fs_path \<Rightarrow> fs_path \<Rightarrow> fs_tree \<Rightarrow> io_kind + fs_tree" where
  "move a b tree =
     (case tree a of
        None \<Rightarrow> Inl NotFound
      | Some (FsDir _ _) \<Rightarrow> Inl OtherIo
      | Some n \<Rightarrow>
          if is_directory tree b then Inl OtherIo
          else if \<not> is_directory tree (butlast b) then Inl NotFound
          else Inr ((tree(a := None))(b \<mapsto> n)))"

definition rename_path :: "'x fs_env_scheme \<Rightarrow> fs_path \<Rightarrow> fs_path \<Rightarrow> (world, io_kind, unit) traced" where
  "rename_path env a b = change env (move a b)"

definition rename_noreplace :: "'x fs_env_scheme \<Rightarrow> fs_path \<Rightarrow> fs_path \<Rightarrow> (world, io_kind, unit) traced" where
  "rename_noreplace env a b = change env (\<lambda>tree. if tree b \<noteq> None then Inl OtherIo else move a b tree)"

definition remove_file :: "'x fs_env_scheme \<Rightarrow> fs_path \<Rightarrow> (world, io_kind, unit) traced" where
  "remove_file env p = change env (\<lambda>tree.
     case tree p of None \<Rightarrow> Inl NotFound | Some (FsDir _ _) \<Rightarrow> Inl OtherIo | Some _ \<Rightarrow> Inr (tree(p := None)))"

definition new_file :: "'x fs_env_scheme \<Rightarrow> nat \<Rightarrow> 32 word \<Rightarrow> fs_file" where
  "new_file env t mode = \<lparr>fl_dev = fst (fe_inode env t), fl_ino = snd (fe_inode env t), fl_uid = fe_euid env,
     fl_mode = mode, fl_nlink = 1, fl_content = []\<rparr>"

text \<open>Create a file that must not exist yet.\<close>

definition create_new :: "'x fs_env_scheme \<Rightarrow> fs_path \<Rightarrow> 32 word \<Rightarrow> (world, io_kind, unit) traced" where
  "create_new env p mode = sys env (\<lambda>t tree.
     if tree p \<noteq> None then Inl OtherIo
     else if \<not> is_directory tree (butlast p) then Inl NotFound
     else Inr (tree(p \<mapsto> FsFile (new_file env t mode)), ()))"

section \<open>Temporary files\<close>

text \<open>
  \<open>NamedTempFile::new_in\<close> creates a file with mode 0600 under a fresh name with the prefix
  \<open>.tmp\<close>; a name that is taken ends in an error once the library gives up retrying.
\<close>

definition own_temp :: "fs_path \<Rightarrow> (world, 'e, unit) traced" where
  "own_temp p = t_modify (\<lambda>w. w\<lparr>w_temps := w_temps w @ [p]\<rparr>)"

definition disown_temp :: "fs_path \<Rightarrow> (world, 'e, unit) traced" where
  "disown_temp p = t_modify (\<lambda>w. w\<lparr>w_temps := filter (\<lambda>q. q \<noteq> p) (w_temps w)\<rparr>)"

definition temp_name :: "'x fs_env_scheme \<Rightarrow> nat \<Rightarrow> string" where
  "temp_name env t = ''.tmp'' @ fe_temp env t"

definition create_temp :: "'x fs_env_scheme \<Rightarrow> fs_path \<Rightarrow> (world, io_kind, fs_path) traced" where
  "create_temp env parent = sys env (\<lambda>t tree.
     let p = parent @ [temp_name env t] in
     if tree p \<noteq> None then Inl OtherIo
     else if \<not> is_directory tree parent then Inl NotFound
     else Inr (tree(p \<mapsto> FsFile (new_file env t 0x180)), p))"

definition new_in :: "'x fs_env_scheme \<Rightarrow> fs_path \<Rightarrow> (world, io_kind, fs_path) traced" where
  "new_in env parent = t_bind (create_temp env parent) (\<lambda>p. t_bind (own_temp p) (\<lambda>_. t_return p))"

text \<open>Dropping a \<open>TempPath\<close> or \<open>NamedTempFile\<close> removes the file and ignores errors.\<close>

definition drop_temp :: "'x fs_env_scheme \<Rightarrow> fs_path \<Rightarrow> (world, 'e, unit) traced" where
  "drop_temp env p = t_bind (disown_temp p) (\<lambda>_. t_bind (t_try (remove_file env p)) (\<lambda>_. t_return ()))"

text \<open>
  \<open>persist\<close> and \<open>persist_noclobber\<close> move the file to its final name; on failure the
  temporary file is in the error and is dropped with it.
\<close>

definition persist_by ::
  "'x fs_env_scheme \<Rightarrow> (world, io_kind, unit) traced \<Rightarrow> fs_path \<Rightarrow> (world, io_kind, unit) traced" where
  "persist_by env rename p =
     t_bind (t_try rename) (\<lambda>r. case r of
       Inr _ \<Rightarrow> disown_temp p
     | Inl e \<Rightarrow> t_bind (drop_temp env p) (\<lambda>_. t_fail e))"

definition persist :: "'x fs_env_scheme \<Rightarrow> fs_path \<Rightarrow> fs_path \<Rightarrow> (world, io_kind, unit) traced" where
  "persist env p destination = persist_by env (rename_path env p destination) p"

definition persist_noclobber :: "'x fs_env_scheme \<Rightarrow> fs_path \<Rightarrow> fs_path \<Rightarrow> (world, io_kind, unit) traced" where
  "persist_noclobber env p destination = persist_by env (rename_noreplace env p destination) p"

text \<open>At the end of a function the temporary files its values still own are dropped.\<close>

fun drop_list :: "'x fs_env_scheme \<Rightarrow> fs_path list \<Rightarrow> (world, 'e, unit) traced" where
  "drop_list env [] = t_return ()"
| "drop_list env (p # ps) = t_bind (drop_temp env p) (\<lambda>_. drop_list env ps)"

definition drop_temps :: "'x fs_env_scheme \<Rightarrow> (world, 'e, unit) traced" where
  "drop_temps env = t_bind (t_get (\<lambda>w. Inr (w_temps w))) (drop_list env)"

definition scoped :: "'x fs_env_scheme \<Rightarrow> (world, 'e, 'a) traced \<Rightarrow> (world, 'e, 'a) traced" where
  "scoped env m = t_finally m (drop_temps env :: (world, 'e, unit) traced)"

text \<open>A temporary directory is removed with everything below it.\<close>

definition remove_tree :: "'x fs_env_scheme \<Rightarrow> fs_path \<Rightarrow> (world, io_kind, unit) traced" where
  "remove_tree env p = change env (\<lambda>tree. Inr (\<lambda>q. if prefix p q then None else tree q))"

definition create_temp_dir :: "'x fs_env_scheme \<Rightarrow> string \<Rightarrow> fs_path \<Rightarrow> (world, io_kind, fs_path) traced" where
  "create_temp_dir env name_prefix parent = sys env (\<lambda>t tree.
     let p = parent @ [name_prefix @ fe_temp env t] in
     if tree p \<noteq> None then Inl OtherIo
     else if \<not> is_directory tree parent then Inl NotFound
     else Inr (tree(p \<mapsto> FsDir (fe_euid env) 0x1C0), p))"

end
