(* ===== verification/Authoring.thy ===== *)
theory Authoring
  imports Repository_Files Age_Operations
begin

text \<open>
  Editing sealed sources, \<open>crates/nix-seal-authoring/src/lib.rs\<close>: the repository lock, the
  resolution of repository paths, and the transactions on one file. A sealed file is staged under a
  temporary name in the directory of its destination, opened again with the verification identity,
  and moved to its final name. The transactions on several files are in \<^theory_text>\<open>Authoring_Batch\<close>.

  The Unix variant of the code is modelled. BLAKE3, age, the editor, and the random numbers of the
  encryption are parameters. Waiting for the lock is not modelled; other processes act
  through \<open>fe_others\<close>.
\<close>

datatype write_mode = Create | Replace

record authoring_result =
  ar_path :: fs_path
  ar_hash :: string
  ar_plaintext_bytes :: nat

datatype authoring_error =
    AUnsafePath | ADestinationState | AVerificationIdentity | ACrypto crypto_error | ARoundTrip
  | AExternalInput | ASourceChanged | AInputTooLarge | AIo io_kind | AEditor | AInvalidEditedContent
  | ADurabilityUnknown | ABatchRolledBack | ABatchRecoveryUnknown | ATombstone

record authoring_env = fs_env +
  au_age_api :: age_api
  au_age :: age_engine
  au_plugins :: plugin_env
  au_rng :: "nat \<Rightarrow> nat"
  au_blake3 :: "bytes \<Rightarrow> string"
  au_edit :: "string \<Rightarrow> string list \<Rightarrow> fs_path \<Rightarrow> fs_tree \<Rightarrow> (fs_tree \<times> bool) option"
  au_tombstone_json :: "string \<Rightarrow> string \<Rightarrow> string \<Rightarrow> string \<Rightarrow> bytes option"

text \<open>
  \<open>au_rng\<close>: the randomness of an encryption at a step. \<open>au_edit\<close>: the editor started with
  its arguments and the file to edit, giving the tree afterwards and whether it exits successfully
  (\<open>None\<close> when it cannot be started). \<open>au_tombstone_json\<close>: the encoding of a tombstone with
  its secret, original source, digest and deletion time.
\<close>

abbreviation io :: "(world, io_kind, 'a) traced \<Rightarrow> (world, authoring_error, 'a) traced" where
  "io m \<equiv> t_map_err AIo m"

definition t_check :: "bool \<Rightarrow> 'e \<Rightarrow> ('s, 'e, unit) traced" where
  "t_check b e = (if b then t_return () else t_fail e)"

definition t_lift :: "'e + 'a \<Rightarrow> ('s, 'e, 'a) traced" where
  "t_lift r = t_get (\<lambda>_. r)"

definition clock :: "(world, 'e, nat) traced" where
  "clock = t_get (\<lambda>w. Inr (w_clock w))"

section \<open>Hashing readers and writers\<close>

record hashing_reader =
  hr_inner :: "bytes list"
  hr_seen :: bytes
  hr_bytes :: nat

definition hashing_reader_new :: "bytes list \<Rightarrow> hashing_reader" where
  "hashing_reader_new inner = \<lparr>hr_inner = inner, hr_seen = [], hr_bytes = 0\<rparr>"

definition hashing_read :: "nat \<Rightarrow> hashing_reader \<Rightarrow> io_kind + bytes \<times> hashing_reader" where
  "hashing_read maximum r =
     (case read_some maximum (hr_inner r) of (piece, rest) \<Rightarrow>
        if hr_bytes r + length piece < 2 ^ 64
        then Inr (piece, \<lparr>hr_inner = rest, hr_seen = hr_seen r @ piece, hr_bytes = hr_bytes r + length piece\<rparr>)
        else Inl OtherIo)"

definition hashing_finish :: "(bytes \<Rightarrow> string) \<Rightarrow> hashing_reader \<Rightarrow> string \<times> nat" where
  "hashing_finish hash r = (hash (hr_seen r), hr_bytes r)"

text \<open>\<open>std::io::copy\<close> from the reader to its end, with the buffer of the standard library.\<close>

function hashing_drain :: "hashing_reader \<Rightarrow> io_kind + hashing_reader" where
  "hashing_drain r =
     (case hashing_read 8192 r of
        Inl e \<Rightarrow> Inl e
      | Inr (piece, r') \<Rightarrow> if piece = [] then Inr r' else hashing_drain r')"
  by pat_completeness auto
termination
  by (relation "measure (\<lambda>r. length (concat (hr_inner r)))")
    (auto simp: hashing_read_def dest: read_some_shorter split: prod.splits if_splits)

declare hashing_drain.simps [simp del]

record hashing_writer =
  hw_seen :: bytes
  hw_bytes :: nat

definition hashing_write :: "hashing_writer \<Rightarrow> bytes \<Rightarrow> io_kind + hashing_writer" where
  "hashing_write r buffer =
     (if hw_bytes r + length buffer < 2 ^ 64
      then Inr \<lparr>hw_seen = hw_seen r @ buffer, hw_bytes = hw_bytes r + length buffer\<rparr> else Inl OtherIo)"

definition hashing_writer_default :: hashing_writer where
  "hashing_writer_default = \<lparr>hw_seen = [], hw_bytes = 0\<rparr>"

definition writer_hash :: "(bytes \<Rightarrow> string) \<Rightarrow> hashing_writer \<Rightarrow> string" where
  "writer_hash hash r = hash (hw_seen r)"

function hash_file_loop :: "(bytes \<Rightarrow> string) \<Rightarrow> bytes list \<Rightarrow> bytes \<Rightarrow> string" where
  "hash_file_loop hash input seen =
     (case read_some (64 * 1024) input of (piece, rest) \<Rightarrow>
        if piece = [] then hash seen else hash_file_loop hash rest (seen @ piece))"
  by pat_completeness auto
termination
  by (relation "measure (\<lambda>(hash, input, seen). length (concat input))") (auto dest: read_some_shorter [OF sym])

declare hash_file_loop.simps [simp del]

text \<open>An encryption that succeeds has read its input to the end.\<close>

definition hashed_input :: "(bytes \<Rightarrow> string) \<Rightarrow> bytes list \<Rightarrow> crypto_error + string \<times> nat" where
  "hashed_input hash input = map_err (\<lambda>_. CryptoIo) (and_then (hashing_drain (hashing_reader_new input))
     (\<lambda>r. Inr (hashing_finish hash r)))"

text \<open>\<open>decrypt\<close> writes its plaintext to a hashing writer.\<close>

definition decrypt_hashing ::
  "authoring_env \<Rightarrow> bytes \<Rightarrow> string \<Rightarrow> crypto_error + string \<times> nat" where
  "decrypt_hashing env ciphertext identity =
     and_then (decrypt (au_age_api env) (au_age env) (au_plugins env) (file_reader ciphertext) identity) (\<lambda>plaintext.
     and_then (map_err (\<lambda>_. CryptoIo) (hashing_write hashing_writer_default plaintext)) (\<lambda>r.
     Inr (writer_hash (au_blake3 env) r, hw_bytes r)))"

section \<open>Metadata\<close>

definition st_mode :: "fs_file \<Rightarrow> 32 word" where
  "st_mode f = 0x8000 OR fl_mode f"

definition safe_regular :: "fs_node \<Rightarrow> bool" where
  "safe_regular n = (case n of FsFile f \<Rightarrow> fl_nlink f = 1 | _ \<Rightarrow> False)"

definition same_file :: "fs_file \<Rightarrow> fs_file \<Rightarrow> bool" where
  "same_file left right \<longleftrightarrow> fl_dev left = fl_dev right \<and> fl_ino left = fl_ino right"

definition private_regular :: "authoring_env \<Rightarrow> fs_node \<Rightarrow> bool" where
  "private_regular env n =
     (case n of
        FsFile f \<Rightarrow> fl_nlink f = 1 \<and> fl_uid f = fe_euid env \<and> 6 \<le> trailing_zeros (st_mode f)
      | _ \<Rightarrow> False)"

definition is_executable_regular_file :: "fs_node \<Rightarrow> bool" where
  "is_executable_regular_file n = (case n of FsFile f \<Rightarrow> fl_mode f AND 0x49 \<noteq> 0 | _ \<Rightarrow> False)"

definition set_private_file :: "authoring_env \<Rightarrow> fs_path \<Rightarrow> (world, io_kind, unit) traced" where
  "set_private_file env p = set_mode env p 0x180"

definition set_public_file :: "authoring_env \<Rightarrow> fs_path \<Rightarrow> (world, io_kind, unit) traced" where
  "set_public_file env p = set_mode env p 0x1A4"

definition set_private :: "authoring_env \<Rightarrow> fs_path \<Rightarrow> (world, io_kind, unit) traced" where
  "set_private env p =
     t_bind (open_regular env p) (\<lambda>n. case n of
       FsFile f \<Rightarrow>
         if fl_nlink f \<noteq> 1 \<or> fl_uid f \<noteq> fe_euid env then t_fail OtherIo else set_mode env p 0x180
     | _ \<Rightarrow> t_fail OtherIo)"

definition set_private_directory :: "authoring_env \<Rightarrow> fs_path \<Rightarrow> (world, io_kind, unit) traced" where
  "set_private_directory env p =
     t_bind (open_regular env p) (\<lambda>n. case n of
       FsDir uid _ \<Rightarrow>
         if uid \<noteq> fe_euid env then t_fail OtherIo
         else change env (\<lambda>tree. case tree p of
           Some (FsDir u _) \<Rightarrow> Inr (tree(p \<mapsto> FsDir u 0x1C0)) | _ \<Rightarrow> Inl OtherIo)
     | _ \<Rightarrow> t_fail OtherIo)"

section \<open>The repository lock\<close>

definition LOCK_NAME :: string where
  "LOCK_NAME = ''.nix-seal.lock''"

definition open_lock :: "authoring_env \<Rightarrow> fs_path \<Rightarrow> (world, io_kind, fs_node) traced" where
  "open_lock env p = sys env (\<lambda>t tree.
     case tree p of
       None \<Rightarrow>
         if is_directory tree (butlast p)
         then (let n = FsFile (new_file env t 0x180) in Inr (tree(p \<mapsto> n), n)) else Inl NotFound
     | Some (FsLink _) \<Rightarrow> Inl OtherIo
     | Some (FsDir _ _) \<Rightarrow> Inl OtherIo
     | Some n \<Rightarrow> Inr (tree, n))"

definition open_directory_nofollow :: "authoring_env \<Rightarrow> fs_path \<Rightarrow> (world, io_kind, unit) traced" where
  "open_directory_nofollow env p = query env (\<lambda>tree. if is_directory tree p then Inr () else Inl OtherIo)"

text \<open>The opened lock must be a private file of the user; then wait for the exclusive lock.\<close>

definition secure_lock :: "authoring_env \<Rightarrow> fs_path \<Rightarrow> fs_node \<Rightarrow> (world, authoring_error, unit) traced" where
  "secure_lock env path file =
     (case file of
        FsFile f \<Rightarrow>
          if fl_nlink f \<noteq> 1 \<or> fl_uid f \<noteq> fe_euid env \<or> st_mode f AND 0x3F \<noteq> 0 then t_fail AUnsafePath
          else
            t_bind (io (set_mode env path 0x180)) (\<lambda>_.
            io (query env (\<lambda>_. Inr ())))
      | _ \<Rightarrow> t_fail AUnsafePath)"

definition acquire_repository_lock :: "authoring_env \<Rightarrow> string \<Rightarrow> (world, authoring_error, unit) traced" where
  "acquire_repository_lock env repository_root =
     t_bind (io (canonicalize env repository_root)) (\<lambda>root.
     t_bind (io (symlink_metadata env root)) (\<lambda>metadata.
     t_bind (t_check (case metadata of FsDir _ _ \<Rightarrow> True | _ \<Rightarrow> False) AUnsafePath) (\<lambda>_.
     t_bind (io (open_directory_nofollow env root)) (\<lambda>_.
     t_bind (io (open_lock env (root @ [LOCK_NAME]))) (secure_lock env (root @ [LOCK_NAME]))))))"

section \<open>Paths below the repository\<close>

definition normal_component :: "path_component \<Rightarrow> bool" where
  "normal_component c = (case c of Normal s \<Rightarrow> s \<noteq> [] | _ \<Rightarrow> False)"

definition component_name :: "path_component \<Rightarrow> string" where
  "component_name c = (case c of Normal s \<Rightarrow> s | _ \<Rightarrow> [])"

text \<open>
  The names of a path all of whose components are normal: \<open>parent\<close> is everything but the last
  and \<open>file_name\<close> the last of them.
\<close>

definition path_names :: "string \<Rightarrow> string list" where
  "path_names p = map component_name (path_components p)"

definition validate_relative :: "string \<Rightarrow> authoring_error + unit" where
  "validate_relative relative =
     check (\<not> path_is_absolute relative \<and> relative \<noteq> [] \<and> list_all normal_component (path_components relative))
       AUnsafePath"

text \<open>Enter a directory on the way, or create it; a link or a file there is refused.\<close>

definition enter_directory :: "authoring_env \<Rightarrow> fs_path \<Rightarrow> (world, authoring_error, unit) traced" where
  "enter_directory env p =
     t_bind (t_try (symlink_metadata env p)) (\<lambda>r. case r of
       Inr (FsDir _ _) \<Rightarrow> t_return ()
     | Inr _ \<Rightarrow> t_fail AUnsafePath
     | Inl NotFound \<Rightarrow> io (create_dir env p)
     | Inl e \<Rightarrow> t_fail (AIo e))"

fun enter_directories :: "authoring_env \<Rightarrow> fs_path \<Rightarrow> string list \<Rightarrow> (world, authoring_error, fs_path) traced" where
  "enter_directories env p [] = t_return p"
| "enter_directories env p (segment # segments) =
     t_bind (enter_directory env (p @ [segment])) (\<lambda>_. enter_directories env (p @ [segment]) segments)"

definition resolve_destination :: "authoring_env \<Rightarrow> string \<Rightarrow> string \<Rightarrow> (world, authoring_error, fs_path) traced" where
  "resolve_destination env root relative =
     (if \<not> path_is_absolute root \<or> path_is_absolute relative
         \<or> \<not> list_all normal_component (path_components relative)
      then t_fail AUnsafePath
      else
        t_bind (io (canonicalize env root)) (\<lambda>canonical_root.
        t_bind (t_check (path_components relative \<noteq> []) AUnsafePath) (\<lambda>_.
        t_bind (enter_directories env canonical_root (butlast (path_names relative))) (\<lambda>parent.
        t_bind (io (canonicalize_path env parent)) (\<lambda>parent'.
        if \<not> prefix canonical_root parent' then t_fail AUnsafePath
        else t_return (parent' @ [last (path_names relative)]))))))"

text \<open>Every component must exist, and all but the last must be directories.\<close>

fun walk_existing :: "authoring_env \<Rightarrow> fs_path \<Rightarrow> string list \<Rightarrow> (world, authoring_error, fs_path) traced" where
  "walk_existing env p [] = t_return p"
| "walk_existing env p (segment # segments) =
     t_bind (io (symlink_metadata env (p @ [segment]))) (\<lambda>metadata.
     t_bind (t_check (segments = [] \<or> (case metadata of FsDir _ _ \<Rightarrow> True | _ \<Rightarrow> False)) AUnsafePath) (\<lambda>_.
     walk_existing env (p @ [segment]) segments))"

definition resolve_existing :: "authoring_env \<Rightarrow> string \<Rightarrow> string \<Rightarrow> (world, authoring_error, fs_path) traced" where
  "resolve_existing env root relative =
     t_bind (t_lift (validate_relative relative)) (\<lambda>_.
     t_bind (io (canonicalize env root)) (\<lambda>canonical_root.
     walk_existing env canonical_root (path_names relative)))"

definition resolve_private_directory ::
  "authoring_env \<Rightarrow> string \<Rightarrow> string \<Rightarrow> (world, authoring_error, fs_path) traced" where
  "resolve_private_directory env root relative =
     t_bind (t_lift (validate_relative relative)) (\<lambda>_.
     t_bind (io (canonicalize env root)) (\<lambda>canonical_root.
     t_bind (enter_directories env canonical_root (path_names relative)) (\<lambda>path.
     t_bind (io (canonicalize_path env path)) (\<lambda>canonical.
     t_bind (t_check (prefix canonical_root canonical) AUnsafePath) (\<lambda>_.
     t_bind (io (set_private_directory env canonical)) (\<lambda>_.
     t_return canonical))))))"

section \<open>Destinations and sources\<close>

definition validate_destination ::
  "authoring_env \<Rightarrow> fs_path \<Rightarrow> write_mode \<Rightarrow> (world, authoring_error, fs_file option) traced" where
  "validate_destination env destination mode =
     t_bind (t_try (symlink_metadata env destination)) (\<lambda>r. case r of
       Inr n \<Rightarrow>
         if mode = Create then t_fail ADestinationState
         else (case n of
           FsFile f \<Rightarrow> if safe_regular n then t_return (Some f) else t_fail ADestinationState
         | _ \<Rightarrow> t_fail ADestinationState)
     | Inl NotFound \<Rightarrow> if mode = Create then t_return None else t_fail ADestinationState
     | Inl e \<Rightarrow> t_fail (AIo e))"

definition validate_private_destination ::
  "authoring_env \<Rightarrow> fs_path \<Rightarrow> (world, authoring_error, fs_file option) traced" where
  "validate_private_destination env destination =
     t_bind (t_try (symlink_metadata env destination)) (\<lambda>r. case r of
       Inr n \<Rightarrow>
         (case n of
           FsFile f \<Rightarrow> if private_regular env n then t_return (Some f) else t_fail ADestinationState
         | _ \<Rightarrow> t_fail ADestinationState)
     | Inl NotFound \<Rightarrow> t_return None
     | Inl e \<Rightarrow> t_fail (AIo e))"

definition ensure_unchanged ::
  "authoring_env \<Rightarrow> fs_path \<Rightarrow> fs_file option \<Rightarrow> (world, authoring_error, unit) traced" where
  "ensure_unchanged env destination previous =
     (case previous of
        None \<Rightarrow> t_fail ADestinationState
      | Some before \<Rightarrow>
          t_bind (io (symlink_metadata env destination)) (\<lambda>current. case current of
            FsFile f \<Rightarrow>
              if \<not> safe_regular current \<or> \<not> same_file before f then t_fail ADestinationState else t_return ()
          | _ \<Rightarrow> t_fail ADestinationState))"

definition open_nofollow_regular :: "authoring_env \<Rightarrow> fs_path \<Rightarrow> (world, authoring_error, unit) traced" where
  "open_nofollow_regular env path =
     t_bind (io (open_regular env path)) (\<lambda>n. t_check (safe_regular n) ADestinationState)"

definition open_private_edited :: "authoring_env \<Rightarrow> fs_path \<Rightarrow> (world, authoring_error, unit) traced" where
  "open_private_edited env path =
     t_bind (t_map_err (\<lambda>_. AEditor) (open_regular env path)) (\<lambda>n. case n of
       FsFile f \<Rightarrow>
         if fl_nlink f \<noteq> 1 \<or> fl_uid f \<noteq> fe_euid env \<or> st_mode f AND 0x3F \<noteq> 0 then t_fail AEditor else t_return ()
     | _ \<Rightarrow> t_fail AEditor)"

definition hash_file :: "authoring_env \<Rightarrow> fs_path \<Rightarrow> (world, authoring_error, string) traced" where
  "hash_file env path =
     t_bind (io (read_content env path)) (\<lambda>content.
     t_return (hash_file_loop (au_blake3 env) (file_reader content) []))"

definition hash_bounded_file ::
  "authoring_env \<Rightarrow> fs_path \<Rightarrow> nat \<Rightarrow> (world, authoring_error, string \<times> nat) traced" where
  "hash_bounded_file env path maximum_bytes =
     t_bind (open_nofollow_regular env path) (\<lambda>_.
     t_bind (io (read_content env path)) (\<lambda>content.
     t_bind (t_lift (map_err AIo (hashing_drain
       (hashing_reader_new (file_reader (take (maximum_bytes + 1) content)))))) (\<lambda>r.
     case hashing_finish (au_blake3 env) r of
       (hash, bytes) \<Rightarrow> if maximum_bytes < bytes then t_fail AInputTooLarge else t_return (hash, bytes))))"

section \<open>Staging\<close>

text \<open>A private temporary file beside the destination: its directory and its path.\<close>

definition open_staged :: "authoring_env \<Rightarrow> fs_path \<Rightarrow> (world, authoring_error, fs_path \<times> fs_path) traced" where
  "open_staged env destination =
     t_bind (t_check (destination \<noteq> []) AUnsafePath) (\<lambda>_.
     t_bind (io (new_in env (butlast destination))) (\<lambda>staged.
     t_bind (io (set_private_file env staged)) (\<lambda>_.
     t_return (butlast destination, staged))))"

definition encrypt_into ::
  "authoring_env \<Rightarrow> fs_path \<Rightarrow> bytes list \<Rightarrow> string list \<Rightarrow> (world, authoring_error, unit) traced" where
  "encrypt_into env staged input recipients =
     t_bind clock (\<lambda>t.
     t_bind (t_lift (map_err ACrypto (encrypt (au_age_api env) (au_age env) (au_plugins env) (au_rng env t)
       (concat input) recipients))) (\<lambda>ciphertext.
     t_map_err (\<lambda>_. ACrypto CryptoIo) (write_content env staged ciphertext)))"

definition rekey_into ::
  "authoring_env \<Rightarrow> fs_path \<Rightarrow> fs_path \<Rightarrow> string \<Rightarrow> string list \<Rightarrow> bool \<Rightarrow> (world, authoring_error, unit) traced" where
  "rekey_into env staged source identity recipients allow_legacy_source_identity =
     t_bind clock (\<lambda>t.
     t_bind (t_map_err (\<lambda>_. ACrypto CryptoIo) (read_content env source)) (\<lambda>content.
     t_bind (t_lift (map_err ACrypto
       ((if allow_legacy_source_identity then rekey_migration else rekey)
          (au_age_api env) (au_age env) (au_plugins env) (au_rng env t) (file_reader content) identity recipients))) (\<lambda>ciphertext.
     t_map_err (\<lambda>_. ACrypto CryptoIo) (write_content env staged ciphertext))))"

definition verify_staged ::
  "authoring_env \<Rightarrow> fs_path \<Rightarrow> string \<Rightarrow> (world, authoring_error, string \<times> nat) traced" where
  "verify_staged env staged identity =
     t_bind (io (rewind env)) (\<lambda>_.
     t_bind (t_map_err (\<lambda>_. ACrypto CryptoIo) (read_content env staged)) (\<lambda>ciphertext.
     t_lift (map_err ACrypto (decrypt_hashing env ciphertext identity))))"

definition hash_staged :: "authoring_env \<Rightarrow> fs_path \<Rightarrow> (world, authoring_error, string) traced" where
  "hash_staged env staged = t_bind (io (rewind env)) (\<lambda>_. hash_file env staged)"

text \<open>Seal the input, open the result with the verification identity, and compare the digests and
  lengths; the digest of the sealed file and the length of the input.\<close>

definition seal_staged ::
  "authoring_env \<Rightarrow> fs_path \<Rightarrow> bytes list \<Rightarrow> string list \<Rightarrow> string \<Rightarrow> (world, authoring_error, string \<times> nat) traced" where
  "seal_staged env staged input recipients identity =
     t_bind (encrypt_into env staged input recipients) (\<lambda>_.
     t_bind (io (sync_file env)) (\<lambda>_.
     t_bind (t_lift (map_err ACrypto (hashed_input (au_blake3 env) input))) (\<lambda>(plaintext_hash, plaintext_bytes).
     t_bind (verify_staged env staged identity) (\<lambda>(hash, bytes).
     t_bind (t_check (hash = plaintext_hash \<and> bytes = plaintext_bytes) ARoundTrip) (\<lambda>_.
     t_bind (hash_staged env staged) (\<lambda>ciphertext_hash.
     t_return (ciphertext_hash, plaintext_bytes)))))))"

definition commit_staged ::
  "authoring_env \<Rightarrow> write_mode \<Rightarrow> fs_path \<Rightarrow> fs_path \<Rightarrow> fs_file option \<Rightarrow> (world, authoring_error, unit) traced" where
  "commit_staged env mode staged destination previous =
     (case mode of
        Create \<Rightarrow> io (persist_noclobber env staged destination)
      | Replace \<Rightarrow>
          t_bind (ensure_unchanged env destination previous) (\<lambda>_. io (persist env staged destination)))"

definition sync_parent :: "authoring_env \<Rightarrow> fs_path \<Rightarrow> (world, authoring_error, unit) traced" where
  "sync_parent env parent = t_map_err (\<lambda>_. ADurabilityUnknown) (sync_directory env parent)"

definition authorized :: "authoring_env \<Rightarrow> string \<Rightarrow> string list \<Rightarrow> bool" where
  "authorized env identity recipients = list_ex (identity_matches_recipient (au_age_api env) identity) recipients"

section \<open>Writing one secret\<close>

definition write_secret_create_delegated ::
  "authoring_env \<Rightarrow> string \<Rightarrow> string \<Rightarrow> bytes list \<Rightarrow> string list \<Rightarrow> (world, authoring_error, authoring_result) traced" where
  "write_secret_create_delegated env root relative input recipients = scoped env (
     t_bind (acquire_repository_lock env root) (\<lambda>_.
     t_bind (resolve_destination env root relative) (\<lambda>destination.
     t_bind (validate_destination env destination Create) (\<lambda>_.
     t_bind (open_staged env destination) (\<lambda>(parent, staged).
     t_bind (encrypt_into env staged input recipients) (\<lambda>_.
     t_bind (io (sync_file env)) (\<lambda>_.
     t_bind (t_lift (map_err ACrypto (hashed_input (au_blake3 env) input))) (\<lambda>(_, plaintext_bytes).
     t_bind (hash_staged env staged) (\<lambda>ciphertext_hash.
     t_bind (io (persist_noclobber env staged destination)) (\<lambda>_.
     t_bind (sync_parent env parent) (\<lambda>_.
     t_return \<lparr>ar_path = destination, ar_hash = ciphertext_hash, ar_plaintext_bytes = plaintext_bytes\<rparr>)))))))))))"

definition write_secret_checked ::
  "authoring_env \<Rightarrow> string \<Rightarrow> string \<Rightarrow> bytes list \<Rightarrow> string list \<Rightarrow> string \<Rightarrow> write_mode \<Rightarrow> authoring_error + unit
    \<Rightarrow> (world, authoring_error, authoring_result) traced" where
  "write_secret_checked env root relative input recipients identity mode final_input_check = scoped env (
     t_bind (acquire_repository_lock env root) (\<lambda>_.
     t_bind (t_check (authorized env identity recipients) AVerificationIdentity) (\<lambda>_.
     t_bind (resolve_destination env root relative) (\<lambda>destination.
     t_bind (validate_destination env destination mode) (\<lambda>previous.
     t_bind (open_staged env destination) (\<lambda>(parent, staged).
     t_bind (seal_staged env staged input recipients identity) (\<lambda>(ciphertext_hash, plaintext_bytes).
     t_bind (t_lift final_input_check) (\<lambda>_.
     t_bind (commit_staged env mode staged destination previous) (\<lambda>_.
     t_bind (sync_parent env parent) (\<lambda>_.
     t_return \<lparr>ar_path = destination, ar_hash = ciphertext_hash, ar_plaintext_bytes = plaintext_bytes\<rparr>))))))))))"

definition write_secret ::
  "authoring_env \<Rightarrow> string \<Rightarrow> string \<Rightarrow> bytes list \<Rightarrow> string list \<Rightarrow> string \<Rightarrow> write_mode
    \<Rightarrow> (world, authoring_error, authoring_result) traced" where
  "write_secret env root relative input recipients identity mode =
     write_secret_checked env root relative input recipients identity mode (Inr ())"

definition rekey_secret_inner ::
  "authoring_env \<Rightarrow> string \<Rightarrow> string \<Rightarrow> string \<Rightarrow> string list \<Rightarrow> string \<Rightarrow> string \<Rightarrow> write_mode \<Rightarrow> bool
    \<Rightarrow> (world, authoring_error, authoring_result) traced" where
  "rekey_secret_inner env root relative_source relative_destination recipients source_identity identity mode
       allow_legacy_source_identity = scoped env (
     t_bind (acquire_repository_lock env root) (\<lambda>_.
     t_bind (t_check (authorized env identity recipients) AVerificationIdentity) (\<lambda>_.
     t_bind (resolve_existing env root relative_source) (\<lambda>source.
     t_bind (open_nofollow_regular env source) (\<lambda>_.
     t_bind (resolve_destination env root relative_destination) (\<lambda>destination.
     t_bind (validate_destination env destination mode) (\<lambda>previous.
     t_bind (open_staged env destination) (\<lambda>(parent, staged).
     t_bind (rekey_into env staged source source_identity recipients allow_legacy_source_identity) (\<lambda>_.
     t_bind (io (sync_file env)) (\<lambda>_.
     t_bind (verify_staged env staged identity) (\<lambda>(_, bytes).
     t_bind (hash_staged env staged) (\<lambda>ciphertext_hash.
     t_bind (commit_staged env mode staged destination previous) (\<lambda>_.
     t_bind (sync_parent env parent) (\<lambda>_.
     t_return \<lparr>ar_path = destination, ar_hash = ciphertext_hash, ar_plaintext_bytes = bytes\<rparr>))))))))))))))"

definition rekey_secret ::
  "authoring_env \<Rightarrow> string \<Rightarrow> string \<Rightarrow> string \<Rightarrow> string list \<Rightarrow> string \<Rightarrow> write_mode
    \<Rightarrow> (world, authoring_error, authoring_result) traced" where
  "rekey_secret env root relative_source relative_destination recipients identity mode =
     rekey_secret_inner env root relative_source relative_destination recipients identity identity mode False"

definition rekey_secret_with_identities ::
  "authoring_env \<Rightarrow> string \<Rightarrow> string \<Rightarrow> string \<Rightarrow> string list \<Rightarrow> string \<Rightarrow> string \<Rightarrow> write_mode
    \<Rightarrow> (world, authoring_error, authoring_result) traced" where
  "rekey_secret_with_identities env root relative_source relative_destination recipients source_identity identity mode =
     rekey_secret_inner env root relative_source relative_destination recipients source_identity identity mode False"

definition rekey_migration_secret_with_identities ::
  "authoring_env \<Rightarrow> string \<Rightarrow> string \<Rightarrow> string \<Rightarrow> string list \<Rightarrow> string \<Rightarrow> string \<Rightarrow> write_mode
    \<Rightarrow> (world, authoring_error, authoring_result) traced" where
  "rekey_migration_secret_with_identities env root relative_source relative_destination recipients source_identity
       identity mode =
     rekey_secret_inner env root relative_source relative_destination recipients source_identity identity mode True"

section \<open>Editing\<close>

record edit_request =
  eq_root :: string
  eq_destination :: string
  eq_identity :: string
  eq_recipients :: "string list"
  eq_editor :: string
  eq_arguments :: "string list"
  eq_workspace_root :: string

text \<open>The supplied path is run, not the canonical one.\<close>

definition resolve_editor_executable :: "authoring_env \<Rightarrow> string \<Rightarrow> (world, authoring_error, string) traced" where
  "resolve_editor_executable env path =
     t_bind (t_check (path_is_absolute path) AEditor) (\<lambda>_.
     t_bind (t_map_err (\<lambda>_. AEditor) (canonicalize env path)) (\<lambda>canonical.
     t_bind (t_map_err (\<lambda>_. AEditor) (symlink_metadata env canonical)) (\<lambda>metadata.
     t_bind (t_check (is_executable_regular_file metadata) AEditor) (\<lambda>_.
     t_return path))))"

text \<open>
  The path itself must be a directory and not a link; on the canonical path the same directory is
  found again.
\<close>

definition resolve_editor_workspace_root :: "authoring_env \<Rightarrow> string \<Rightarrow> (world, authoring_error, fs_path) traced" where
  "resolve_editor_workspace_root env path =
     t_bind (t_check (path_is_absolute path) AEditor) (\<lambda>_.
     t_bind (t_map_err (\<lambda>_. AEditor) (query env (\<lambda>tree.
       and_then (nofollow_path tree path) (\<lambda>p. and_then (ok_or (tree p) NotFound) (\<lambda>n. Inr (p, n)))))) (\<lambda>(p, metadata).
     t_bind (t_check (case metadata of FsDir _ _ \<Rightarrow> True | _ \<Rightarrow> False) AEditor) (\<lambda>_.
     t_bind (t_map_err (\<lambda>_. AEditor) (canonicalize env path)) (\<lambda>canonical.
     t_bind (t_map_err (\<lambda>_. AEditor) (symlink_metadata env canonical)) (\<lambda>canonical_metadata.
     t_bind (t_check ((case canonical_metadata of FsDir _ _ \<Rightarrow> True | _ \<Rightarrow> False) \<and> p = canonical) AEditor) (\<lambda>_.
     t_return canonical))))))"

definition edit_secret_checked ::
  "authoring_env \<Rightarrow> edit_request \<Rightarrow> (bytes \<Rightarrow> authoring_error + unit) \<Rightarrow> (world, authoring_error, authoring_result) traced" where
  "edit_secret_checked env request validate_edited =
     t_bind (resolve_editor_executable env (eq_editor request)) (\<lambda>editor.
     t_bind (resolve_destination env (eq_root request) (eq_destination request)) (\<lambda>destination.
     t_bind (validate_destination env destination Replace) (\<lambda>_.
     t_bind (resolve_editor_workspace_root env (eq_workspace_root request)) (\<lambda>workspace_root.
     t_bind (io (create_temp_dir env ''nix-seal-edit-'' workspace_root)) (\<lambda>workspace.
     t_finally (
       let plaintext_path = workspace @ [''value''] in
       t_bind (io (set_private_directory env workspace)) (\<lambda>_.
       t_bind (io (create_new env plaintext_path 0x1A4)) (\<lambda>_.
       t_bind (io (set_private_file env plaintext_path)) (\<lambda>_.
       t_bind (open_nofollow_regular env destination) (\<lambda>_.
       t_bind (t_map_err (\<lambda>_. ACrypto CryptoIo) (read_content env destination)) (\<lambda>ciphertext.
       t_bind (t_lift (map_err ACrypto (decrypt (au_age_api env) (au_age env) (au_plugins env)
         (file_reader ciphertext) (eq_identity request)))) (\<lambda>plaintext.
       t_bind (t_map_err (\<lambda>_. ACrypto CryptoIo) (write_content env plaintext_path plaintext)) (\<lambda>_.
       t_bind (io (sync_file env)) (\<lambda>_.
       t_bind (t_map_err (\<lambda>_. AEditor) (sys env (\<lambda>_ tree.
         ok_or (au_edit env editor (eq_arguments request) plaintext_path tree) OtherIo))) (\<lambda>success.
       t_bind (t_check success AEditor) (\<lambda>_.
       t_bind (open_private_edited env plaintext_path) (\<lambda>_.
       t_bind (io (read_content env plaintext_path)) (\<lambda>edited.
       t_bind (t_lift (validate_edited edited)) (\<lambda>_.
       t_bind (io (rewind env)) (\<lambda>_.
       write_secret env (eq_root request) (eq_destination request) (file_reader edited) (eq_recipients request)
         (eq_identity request) Replace)))))))))))))))
       (io (remove_tree env workspace)))))))"

definition edit_secret :: "authoring_env \<Rightarrow> edit_request \<Rightarrow> (world, authoring_error, authoring_result) traced" where
  "edit_secret env request = edit_secret_checked env request (\<lambda>_. Inr ())"

section \<open>Deleting\<close>

record delete_request =
  dr_root :: string
  dr_source :: string
  dr_quarantine_root :: string
  dr_secret_id :: string
  dr_deleted_at :: string

record deletion_result =
  dd_tombstone_path :: fs_path
  dd_original_path :: fs_path
  dd_ciphertext_hash :: string

text \<open>
  The tombstone directory is removed when something fails before the ciphertext has been moved into
  it, and kept from then on.
\<close>

definition fill_tombstone ::
  "authoring_env \<Rightarrow> delete_request \<Rightarrow> fs_path \<Rightarrow> fs_file \<Rightarrow> string \<Rightarrow> fs_path \<Rightarrow> (world, authoring_error, unit) traced" where
  "fill_tombstone env request source previous ciphertext_hash tombstone =
     t_bind (io (set_private_directory env tombstone)) (\<lambda>_.
     t_bind (t_lift (ok_or (au_tombstone_json env (dr_secret_id request) (dr_source request) ciphertext_hash
       (dr_deleted_at request)) ATombstone)) (\<lambda>metadata_bytes.
     let metadata_path = tombstone @ [''tombstone.json''] in
     t_bind (io (create_new env metadata_path 0x1A4)) (\<lambda>_.
     t_bind (io (set_private_file env metadata_path)) (\<lambda>_.
     t_bind (io (write_content env metadata_path (metadata_bytes @ [CHR 0x0A]))) (\<lambda>_.
     t_bind (io (sync_file env)) (\<lambda>_.
     t_bind (ensure_unchanged env source (Some previous)) (\<lambda>_.
     io (rename_path env source (tombstone @ [''ciphertext.age''])))))))))"

definition delete_secret :: "authoring_env \<Rightarrow> delete_request \<Rightarrow> (world, authoring_error, deletion_result) traced" where
  "delete_secret env request =
     t_bind (acquire_repository_lock env (dr_root request)) (\<lambda>_.
     t_bind (t_check (dr_secret_id request \<noteq> [] \<and> dr_deleted_at request \<noteq> []) AUnsafePath) (\<lambda>_.
     t_bind (resolve_existing env (dr_root request) (dr_source request)) (\<lambda>source.
     t_bind (validate_destination env source Replace) (\<lambda>found.
     t_bind (t_lift (ok_or found ADestinationState)) (\<lambda>previous.
     t_bind (open_nofollow_regular env source) (\<lambda>_.
     t_bind (hash_file env source) (\<lambda>ciphertext_hash.
     t_bind (resolve_private_directory env (dr_root request) (dr_quarantine_root request)) (\<lambda>quarantine_root.
     t_bind (io (create_temp_dir env ''secret-'' quarantine_root)) (\<lambda>tombstone.
     t_bind (t_on_error (fill_tombstone env request source previous ciphertext_hash tombstone)
       (io (remove_tree env tombstone))) (\<lambda>_.
     t_bind (io (symlink_metadata env (tombstone @ [''ciphertext.age'']))) (\<lambda>moved.
     t_bind (t_check (case moved of FsFile f \<Rightarrow> safe_regular moved \<and> same_file previous f | _ \<Rightarrow> False)
       ADurabilityUnknown) (\<lambda>_.
     t_bind (sync_parent env tombstone) (\<lambda>_.
     t_bind (sync_parent env quarantine_root) (\<lambda>_.
     t_bind (sync_parent env (butlast source)) (\<lambda>_.
     t_return \<lparr>dd_tombstone_path = tombstone, dd_original_path = source,
       dd_ciphertext_hash = ciphertext_hash\<rparr>)))))))))))))))"

end
