(* ===== verification/Authoring_Batch.thy ===== *)
theory Authoring_Batch
  imports Authoring
begin

text \<open>
  The transactions on several files of \<open>crates/nix-seal-authoring/src/lib.rs\<close>. Every output is
  staged and verified before a destination changes; existing destinations are moved to private
  backups, the staged files are moved into place, and when a step fails the backups are moved back.
\<close>

record batch_secret_write =
  bs_destination :: string
  bs_plaintext :: bytes
  bs_recipients :: "string list"

record batch_rekey_write =
  br_source :: string
  br_destination :: string
  br_recipients :: "string list"

text \<open>\<open>BatchPlaintextFileWrite\<close> has the fields of \<open>BatchRekeyWrite\<close>.\<close>

type_synonym batch_plaintext_file_write = batch_rekey_write

record batch_public_file_write =
  bf_source :: string
  bf_destination :: string

record batch_public_write =
  bp_destination :: string
  bp_plaintext :: bytes

text \<open>\<open>BatchPrivateWrite\<close> has the fields of \<open>BatchPublicWrite\<close>; a deletion is a path.\<close>

type_synonym batch_private_write = batch_public_write
type_synonym batch_private_delete = string

text \<open>\<open>PublicAuthoringResult\<close> has the shape of \<open>AuthoringResult\<close>, with the digest of the content.\<close>

type_synonym public_authoring_result = authoring_result

record batch_authoring_result =
  bar_secrets :: "authoring_result list"
  bar_public_outputs :: "public_authoring_result list"

section \<open>Prepared writes\<close>

record prepared_private_delete =
  pw_destination :: fs_path
  pw_parent :: fs_path
  pw_previous :: "fs_file option"

record prepared_private_write = prepared_private_delete +
  pw_staged :: "fs_path option"

record prepared_batch_write = prepared_private_write +
  pw_result :: authoring_result

type_synonym prepared_public_write = prepared_batch_write

datatype prepared_combined_write =
    CSecret prepared_batch_write | CPublic prepared_public_write
  | CPrivate prepared_private_write | CDelete prepared_private_delete

fun cw_destination :: "prepared_combined_write \<Rightarrow> fs_path" where
  "cw_destination (CSecret item) = pw_destination item"
| "cw_destination (CPublic item) = pw_destination item"
| "cw_destination (CPrivate item) = pw_destination item"
| "cw_destination (CDelete item) = pw_destination item"

fun cw_parent :: "prepared_combined_write \<Rightarrow> fs_path" where
  "cw_parent (CSecret item) = pw_parent item"
| "cw_parent (CPublic item) = pw_parent item"
| "cw_parent (CPrivate item) = pw_parent item"
| "cw_parent (CDelete item) = pw_parent item"

fun cw_previous :: "prepared_combined_write \<Rightarrow> fs_file option" where
  "cw_previous (CSecret item) = pw_previous item"
| "cw_previous (CPublic item) = pw_previous item"
| "cw_previous (CPrivate item) = pw_previous item"
| "cw_previous (CDelete item) = pw_previous item"

fun cw_staged :: "prepared_combined_write \<Rightarrow> fs_path option" where
  "cw_staged (CSecret item) = pw_staged item"
| "cw_staged (CPublic item) = pw_staged item"
| "cw_staged (CPrivate item) = pw_staged item"
| "cw_staged (CDelete item) = None"

fun needs_backup :: "write_mode \<Rightarrow> prepared_combined_write \<Rightarrow> bool" where
  "needs_backup mode (CSecret item) = (mode = Replace)"
| "needs_backup mode (CPublic item) = (mode = Replace)"
| "needs_backup mode (CPrivate item) = (pw_previous item \<noteq> None)"
| "needs_backup mode (CDelete item) = (pw_previous item \<noteq> None)"

fun is_public :: "prepared_combined_write \<Rightarrow> bool" where
  "is_public (CPublic _) = True"
| "is_public _ = False"

fun is_delete :: "prepared_combined_write \<Rightarrow> bool" where
  "is_delete (CDelete _) = True"
| "is_delete _ = False"

section \<open>Restoring\<close>

text \<open>
  One item of the loops of \<open>restore_batch\<close> and \<open>restore_combined\<close>: remove what was committed and
  move the backup back. The backup is dropped afterwards, also when it could not be moved.
\<close>

definition restore_item ::
  "authoring_env \<Rightarrow> fs_path set \<Rightarrow> fs_path \<times> fs_path option \<Rightarrow> bool \<Rightarrow> (world, 'e, bool) traced" where
  "restore_item env committed = (\<lambda>(destination, backup) restored.
     t_bind (if destination \<in> committed then t_bind (t_try (remove_file env destination)) (\<lambda>r. t_return (is_ok r))
             else t_return True) (\<lambda>removed.
     case backup of
       None \<Rightarrow> t_return (restored \<and> removed)
     | Some path \<Rightarrow>
         t_bind (t_try (rename_path env path destination)) (\<lambda>r.
         t_bind (drop_temp env path) (\<lambda>_.
         t_return (restored \<and> removed \<and> is_ok r)))))"

fun restore_items ::
  "authoring_env \<Rightarrow> fs_path set \<Rightarrow> (fs_path \<times> fs_path option) list \<Rightarrow> bool \<Rightarrow> (world, 'e, bool) traced" where
  "restore_items env committed [] restored = t_return restored"
| "restore_items env committed (item # others) restored =
     t_bind (restore_item env committed item restored) (restore_items env committed others)"

definition restore_batch ::
  "authoring_env \<Rightarrow> 'x prepared_private_delete_scheme list \<Rightarrow> fs_path option list \<Rightarrow> fs_path list \<Rightarrow> (world, 'e, bool) traced" where
  "restore_batch env prepared backups committed =
     restore_items env (set committed) (rev (zip (map pw_destination prepared) backups)) True"

definition restore_combined ::
  "authoring_env \<Rightarrow> prepared_combined_write list \<Rightarrow> fs_path option list \<Rightarrow> fs_path list \<Rightarrow> (world, 'e, bool) traced" where
  "restore_combined env prepared backups committed =
     restore_items env (set committed) (rev (zip (map cw_destination prepared) backups)) True"

text \<open>The error after a failed step, by what the restoration reports.\<close>

definition rolled_back :: "(world, authoring_error, bool) traced \<Rightarrow> (world, authoring_error, 'a) traced" where
  "rolled_back restore =
     t_bind restore (\<lambda>restored. t_fail (if restored then ABatchRolledBack else ABatchRecoveryUnknown))"

section \<open>Backups\<close>

text \<open>
  The loop that moves the destinations that need it to backups; \<open>restore\<close> gets the backups made so
  far. A backup file that cannot be created ends the loop with an error, without restoring.
\<close>

fun back_up ::
  "authoring_env \<Rightarrow> (fs_path option list \<Rightarrow> (world, authoring_error, bool) traced)
    \<Rightarrow> (fs_path \<times> fs_path \<times> bool) list \<Rightarrow> fs_path option list \<Rightarrow> (world, authoring_error, fs_path option list) traced" where
  "back_up env restore [] backups = t_return backups"
| "back_up env restore ((destination, parent, needed) # others) backups =
     (if \<not> needed then back_up env restore others (backups @ [None])
      else
        t_bind (io (new_in env parent)) (\<lambda>backup.
        t_bind (io (set_private env backup)) (\<lambda>_.
        t_bind (t_try (rename_path env destination backup)) (\<lambda>r. case r of
          Inl _ \<Rightarrow> rolled_back (restore backups)
        | Inr _ \<Rightarrow> back_up env restore others (backups @ [Some backup])))))"

definition persist_mode :: "authoring_env \<Rightarrow> write_mode \<Rightarrow> fs_path \<Rightarrow> fs_path \<Rightarrow> (world, io_kind, unit) traced" where
  "persist_mode env mode staged destination =
     (case mode of Create \<Rightarrow> persist_noclobber env staged destination | Replace \<Rightarrow> persist env staged destination)"

section \<open>Batches of secrets\<close>

definition batch_backup_items :: "write_mode \<Rightarrow> prepared_batch_write list \<Rightarrow> (fs_path \<times> fs_path \<times> bool) list" where
  "batch_backup_items mode prepared = map (\<lambda>item. (pw_destination item, pw_parent item, mode = Replace)) prepared"

fun commit_loop ::
  "authoring_env \<Rightarrow> write_mode \<Rightarrow> prepared_batch_write list \<Rightarrow> fs_path option list \<Rightarrow> prepared_batch_write list
    \<Rightarrow> fs_path list \<Rightarrow> (world, authoring_error, unit) traced" where
  "commit_loop env mode prepared backups [] committed = t_return ()"
| "commit_loop env mode prepared backups (item # others) committed =
     (case pw_staged item of
        None \<Rightarrow> t_fail ABatchRecoveryUnknown
      | Some staged \<Rightarrow>
          t_bind (t_try (persist_mode env mode staged (pw_destination item))) (\<lambda>r. case r of
            Inl _ \<Rightarrow> rolled_back (restore_batch env prepared backups committed)
          | Inr _ \<Rightarrow> commit_loop env mode prepared backups others (committed @ [pw_destination item])))"

definition commit_prepared_batch ::
  "authoring_env \<Rightarrow> prepared_batch_write list \<Rightarrow> write_mode \<Rightarrow> fs_path option list
    \<Rightarrow> (world, authoring_error, authoring_result list) traced" where
  "commit_prepared_batch env prepared mode backups =
     t_bind (commit_loop env mode prepared backups prepared []) (\<lambda>_. t_return (map pw_result prepared))"

text \<open>Check the destinations again, back up, commit, drop the backups and synchronise.\<close>

definition recheck ::
  "authoring_env \<Rightarrow> write_mode \<Rightarrow> fs_path \<Rightarrow> fs_file option \<Rightarrow> (world, authoring_error, unit) traced" where
  "recheck env mode destination previous =
     (case mode of
        Create \<Rightarrow> t_bind (path_exists env destination) (\<lambda>present. t_check (\<not> present) ADestinationState)
      | Replace \<Rightarrow> ensure_unchanged env destination previous)"

definition commit_batch ::
  "authoring_env \<Rightarrow> write_mode \<Rightarrow> prepared_batch_write list \<Rightarrow> (world, authoring_error, authoring_result list) traced" where
  "commit_batch env mode prepared =
     t_bind (t_for_each (\<lambda>item. recheck env mode (pw_destination item) (pw_previous item)) prepared) (\<lambda>_.
     t_bind (back_up env (\<lambda>backups. restore_batch env prepared backups []) (batch_backup_items mode prepared) []) (\<lambda>backups.
     t_bind (commit_prepared_batch env prepared mode backups) (\<lambda>results.
     t_bind (drop_list env (List.map_filter id backups)) (\<lambda>_.
     t_bind (t_for_each (\<lambda>item. sync_parent env (pw_parent item)) prepared) (\<lambda>_.
     t_return results)))))"

definition MAX_BATCH_BYTES :: nat where
  "MAX_BATCH_BYTES = 64 * 1024 * 1024"

definition batch_size_ok :: "'a list \<Rightarrow> bool" where
  "batch_size_ok writes \<longleftrightarrow> writes \<noteq> [] \<and> length writes \<le> 10000"

definition prepare_batch_write ::
  "authoring_env \<Rightarrow> string \<Rightarrow> string \<Rightarrow> write_mode \<Rightarrow> fs_path set \<Rightarrow> batch_secret_write
    \<Rightarrow> (world, authoring_error, prepared_batch_write) traced" where
  "prepare_batch_write env root identity mode destinations write =
     t_bind (t_check (authorized env identity (bs_recipients write)) AVerificationIdentity) (\<lambda>_.
     t_bind (resolve_destination env root (bs_destination write)) (\<lambda>destination.
     t_bind (t_check (destination \<notin> destinations) ADestinationState) (\<lambda>_.
     t_bind (validate_destination env destination mode) (\<lambda>previous.
     t_bind (open_staged env destination) (\<lambda>(parent, staged).
     t_bind (seal_staged env staged (file_reader (bs_plaintext write)) (bs_recipients write) identity) (\<lambda>(ciphertext_hash, plaintext_bytes).
     t_return \<lparr>pw_destination = destination, pw_parent = parent, pw_previous = previous, pw_staged = Some staged,
       pw_result = \<lparr>ar_path = destination, ar_hash = ciphertext_hash, ar_plaintext_bytes = plaintext_bytes\<rparr>\<rparr>))))))"

text \<open>
  The loops over the writes collect the prepared items. What is taken starts with what was reserved
  before the loop and grows with every item: its destination, and its source where it has one.
\<close>

fun prepare_loop ::
  "('r \<Rightarrow> 'w \<Rightarrow> (world, authoring_error, 'i) traced) \<Rightarrow> ('i \<Rightarrow> 'r \<Rightarrow> 'r) \<Rightarrow> 'r \<Rightarrow> 'w list
    \<Rightarrow> (world, authoring_error, 'i list) traced" where
  "prepare_loop step take_up taken [] = t_return []"
| "prepare_loop step take_up taken (write # writes) =
     t_bind (step taken write) (\<lambda>item.
     t_bind (prepare_loop step take_up (take_up item taken) writes) (\<lambda>prepared.
     t_return (item # prepared)))"

definition take_destination :: "'x prepared_private_delete_scheme \<Rightarrow> fs_path set \<Rightarrow> fs_path set" where
  "take_destination item destinations = insert (pw_destination item) destinations"

definition prepare_batch_writes ::
  "authoring_env \<Rightarrow> string \<Rightarrow> batch_secret_write list \<Rightarrow> string \<Rightarrow> write_mode
    \<Rightarrow> (world, authoring_error, prepared_batch_write list) traced" where
  "prepare_batch_writes env root writes identity mode =
     t_bind (t_check (batch_size_ok writes) AUnsafePath) (\<lambda>_.
     prepare_loop (prepare_batch_write env root identity mode) take_destination {} writes)"

definition write_secret_batch ::
  "authoring_env \<Rightarrow> string \<Rightarrow> batch_secret_write list \<Rightarrow> string \<Rightarrow> write_mode
    \<Rightarrow> (world, authoring_error, authoring_result list) traced" where
  "write_secret_batch env root writes identity mode = scoped env (
     t_bind (acquire_repository_lock env root) (\<lambda>_.
     t_bind (prepare_batch_writes env root writes identity mode) (commit_batch env mode)))"

section \<open>Batches from files\<close>

definition node_len :: "fs_node \<Rightarrow> nat" where
  "node_len n = (case n of FsFile f \<Rightarrow> length (fl_content f) | FsLink target \<Rightarrow> length target | _ \<Rightarrow> 0)"

definition node_file :: "fs_node \<Rightarrow> fs_file option" where
  "node_file n = (case n of FsFile f \<Rightarrow> Some f | _ \<Rightarrow> None)"

text \<open>An item that reads a source comes with the source and its metadata.\<close>

type_synonym sourced_write = "prepared_batch_write \<times> fs_path \<times> fs_node"

definition take_source :: "sourced_write \<Rightarrow> fs_path set \<times> fs_path set \<Rightarrow> fs_path set \<times> fs_path set" where
  "take_source = (\<lambda>(item, source, _) (sources, destinations).
     (insert source sources, insert (pw_destination item) destinations))"

text \<open>No destination may be a source of the batch, and no source may have changed since.\<close>

definition check_sources ::
  "authoring_env \<Rightarrow> sourced_write list \<Rightarrow> (world, authoring_error, prepared_batch_write list) traced" where
  "check_sources env staged =
     t_bind (t_check (\<not> list_ex (\<lambda>(_, source, _). list_ex (\<lambda>(item, _, _). pw_destination item = source) staged) staged)
       AUnsafePath) (\<lambda>_.
     t_bind (t_for_each (\<lambda>(_, source, metadata). ensure_unchanged env source (node_file metadata)) staged) (\<lambda>_.
     t_return (map fst staged)))"

definition prepare_rekey_write ::
  "authoring_env \<Rightarrow> string \<Rightarrow> string \<Rightarrow> string \<Rightarrow> write_mode \<Rightarrow> bool \<Rightarrow> fs_path set \<times> fs_path set \<Rightarrow> batch_rekey_write
    \<Rightarrow> (world, authoring_error, sourced_write) traced" where
  "prepare_rekey_write env root source_identity identity mode allow_legacy_source_identity taken write =
     t_bind (t_check (br_recipients write \<noteq> [] \<and> authorized env identity (br_recipients write)) AVerificationIdentity) (\<lambda>_.
     t_bind (resolve_existing env root (br_source write)) (\<lambda>source.
     t_bind (io (symlink_metadata env source)) (\<lambda>metadata.
     t_bind (t_check (node_len metadata \<le> MAX_BATCH_BYTES) AInputTooLarge) (\<lambda>_.
     t_bind (resolve_destination env root (br_destination write)) (\<lambda>destination.
     t_bind (t_check (source \<notin> fst taken \<and> destination \<notin> snd taken) ADestinationState) (\<lambda>_.
     t_bind (validate_destination env destination mode) (\<lambda>previous.
     t_bind (open_staged env destination) (\<lambda>(parent, staged).
     t_bind (hash_bounded_file env source MAX_BATCH_BYTES) (\<lambda>(source_hash, _).
     t_bind (open_nofollow_regular env source) (\<lambda>_.
     t_bind (rekey_into env staged source source_identity (br_recipients write) allow_legacy_source_identity) (\<lambda>_.
     t_bind (io (sync_file env)) (\<lambda>_.
     t_bind (hash_bounded_file env source MAX_BATCH_BYTES) (\<lambda>(source_hash_after, _).
     t_bind (t_check (source_hash_after = source_hash) ASourceChanged) (\<lambda>_.
     t_bind (verify_staged env staged identity) (\<lambda>(_, bytes).
     t_bind (hash_staged env staged) (\<lambda>ciphertext_hash.
     t_return (\<lparr>pw_destination = destination, pw_parent = parent, pw_previous = previous, pw_staged = Some staged,
       pw_result = \<lparr>ar_path = destination, ar_hash = ciphertext_hash, ar_plaintext_bytes = bytes\<rparr>\<rparr>, source, metadata)))))))))))))))))"

definition rekey_secret_batch_inner ::
  "authoring_env \<Rightarrow> string \<Rightarrow> batch_rekey_write list \<Rightarrow> string \<Rightarrow> string \<Rightarrow> write_mode \<Rightarrow> bool
    \<Rightarrow> (world, authoring_error, authoring_result list) traced" where
  "rekey_secret_batch_inner env root writes source_identity identity mode allow_legacy_source_identity = scoped env (
     t_bind (acquire_repository_lock env root) (\<lambda>_.
     t_bind (t_check (batch_size_ok writes) AUnsafePath) (\<lambda>_.
     t_bind (prepare_loop (prepare_rekey_write env root source_identity identity mode allow_legacy_source_identity)
       take_source ({}, {}) writes) (\<lambda>staged.
     t_bind (check_sources env staged) (commit_batch env mode)))))"

definition rekey_secret_batch ::
  "authoring_env \<Rightarrow> string \<Rightarrow> batch_rekey_write list \<Rightarrow> string \<Rightarrow> write_mode
    \<Rightarrow> (world, authoring_error, authoring_result list) traced" where
  "rekey_secret_batch env root writes identity mode = rekey_secret_batch_inner env root writes identity identity mode False"

definition rekey_secret_batch_with_identities ::
  "authoring_env \<Rightarrow> string \<Rightarrow> batch_rekey_write list \<Rightarrow> string \<Rightarrow> string \<Rightarrow> write_mode
    \<Rightarrow> (world, authoring_error, authoring_result list) traced" where
  "rekey_secret_batch_with_identities env root writes source_identity identity mode =
     rekey_secret_batch_inner env root writes source_identity identity mode False"

definition rekey_migration_secret_batch_with_identities ::
  "authoring_env \<Rightarrow> string \<Rightarrow> batch_rekey_write list \<Rightarrow> string \<Rightarrow> string \<Rightarrow> write_mode
    \<Rightarrow> (world, authoring_error, authoring_result list) traced" where
  "rekey_migration_secret_batch_with_identities env root writes source_identity identity mode =
     rekey_secret_batch_inner env root writes source_identity identity mode True"

text \<open>\<open>read_limited\<close>: an opened source, read up to one byte more than the limit.\<close>

definition read_limited :: "authoring_env \<Rightarrow> fs_path \<Rightarrow> (world, io_kind, bytes list) traced" where
  "read_limited env source =
     t_bind (read_content env source) (\<lambda>content. t_return (file_reader (take (MAX_BATCH_BYTES + 1) content)))"

definition prepare_file_write ::
  "authoring_env \<Rightarrow> string \<Rightarrow> string \<Rightarrow> write_mode \<Rightarrow> fs_path set \<times> fs_path set \<Rightarrow> batch_plaintext_file_write
    \<Rightarrow> (world, authoring_error, sourced_write) traced" where
  "prepare_file_write env root identity mode taken write =
     t_bind (t_check (br_recipients write \<noteq> [] \<and> authorized env identity (br_recipients write)) AVerificationIdentity) (\<lambda>_.
     t_bind (resolve_existing env root (br_source write)) (\<lambda>source.
     t_bind (io (symlink_metadata env source)) (\<lambda>metadata.
     t_bind (resolve_destination env root (br_destination write)) (\<lambda>destination.
     t_bind (t_check (source \<notin> fst taken \<and> destination \<notin> snd taken) ADestinationState) (\<lambda>_.
     t_bind (validate_destination env destination mode) (\<lambda>previous.
     t_bind (open_staged env destination) (\<lambda>(parent, staged).
     t_bind (open_nofollow_regular env source) (\<lambda>_.
     t_bind (t_map_err (\<lambda>_. ACrypto CryptoIo) (read_limited env source)) (\<lambda>input.
     t_bind (encrypt_into env staged input (br_recipients write)) (\<lambda>_.
     t_bind (io (sync_file env)) (\<lambda>_.
     t_bind (t_lift (map_err ACrypto (hashed_input (au_blake3 env) input))) (\<lambda>(plaintext_hash, plaintext_bytes).
     t_bind (t_check (plaintext_bytes \<le> MAX_BATCH_BYTES) AInputTooLarge) (\<lambda>_.
     t_bind (hash_bounded_file env source MAX_BATCH_BYTES) (\<lambda>(source_hash, source_bytes).
     t_bind (t_check (source_hash = plaintext_hash \<and> source_bytes = plaintext_bytes) ASourceChanged) (\<lambda>_.
     t_bind (verify_staged env staged identity) (\<lambda>(hash, bytes).
     t_bind (t_check (hash = plaintext_hash \<and> bytes = plaintext_bytes) ARoundTrip) (\<lambda>_.
     t_bind (hash_staged env staged) (\<lambda>ciphertext_hash.
     t_return (\<lparr>pw_destination = destination, pw_parent = parent, pw_previous = previous, pw_staged = Some staged,
       pw_result = \<lparr>ar_path = destination, ar_hash = ciphertext_hash, ar_plaintext_bytes = plaintext_bytes\<rparr>\<rparr>,
       source, metadata)))))))))))))))))))"

definition write_secret_file_batch ::
  "authoring_env \<Rightarrow> string \<Rightarrow> batch_plaintext_file_write list \<Rightarrow> string \<Rightarrow> write_mode
    \<Rightarrow> (world, authoring_error, authoring_result list) traced" where
  "write_secret_file_batch env root writes identity mode = scoped env (
     t_bind (acquire_repository_lock env root) (\<lambda>_.
     t_bind (t_check (batch_size_ok writes) AUnsafePath) (\<lambda>_.
     t_bind (prepare_loop (prepare_file_write env root identity mode) take_source ({}, {}) writes) (\<lambda>staged.
     t_bind (check_sources env staged) (commit_batch env mode)))))"

section \<open>Secrets, public outputs and private metadata\<close>

definition combined_backup_items :: "write_mode \<Rightarrow> prepared_combined_write list \<Rightarrow> (fs_path \<times> fs_path \<times> bool) list" where
  "combined_backup_items mode prepared =
     map (\<lambda>item. (cw_destination item, cw_parent item, needs_backup mode item)) prepared"

definition combined_persist ::
  "authoring_env \<Rightarrow> write_mode \<Rightarrow> prepared_combined_write \<Rightarrow> fs_path \<Rightarrow> (world, io_kind, unit) traced" where
  "combined_persist env mode item staged =
     (case item of
        CPrivate _ \<Rightarrow> persist env staged (cw_destination item)
      | _ \<Rightarrow> persist_mode env mode staged (cw_destination item))"

fun commit_combined ::
  "authoring_env \<Rightarrow> write_mode \<Rightarrow> prepared_combined_write list \<Rightarrow> fs_path option list \<Rightarrow> prepared_combined_write list
    \<Rightarrow> fs_path list \<Rightarrow> (world, authoring_error, unit) traced" where
  "commit_combined env mode prepared backups [] committed = t_return ()"
| "commit_combined env mode prepared backups (item # others) committed =
     (if is_delete item then commit_combined env mode prepared backups others committed
      else case cw_staged item of
        None \<Rightarrow> rolled_back (restore_combined env prepared backups committed)
      | Some staged \<Rightarrow>
          t_bind (if is_public item then t_try (set_public_file env staged) else t_return (Inr ())) (\<lambda>published.
          case published of
            Inl e \<Rightarrow>
              t_bind (restore_combined env prepared backups committed) (\<lambda>restored.
              t_fail (if restored then ABatchRolledBack else AIo e))
          | Inr _ \<Rightarrow>
              t_bind (t_try (combined_persist env mode item staged)) (\<lambda>r. case r of
                Inl _ \<Rightarrow> rolled_back (restore_combined env prepared backups committed)
              | Inr _ \<Rightarrow> commit_combined env mode prepared backups others (committed @ [cw_destination item]))))"

definition recheck_combined :: "authoring_env \<Rightarrow> write_mode \<Rightarrow> prepared_combined_write \<Rightarrow> (world, authoring_error, unit) traced" where
  "recheck_combined env mode item =
     (case item of
        CSecret w \<Rightarrow> recheck env mode (pw_destination w) (pw_previous w)
      | CPublic w \<Rightarrow> recheck env mode (pw_destination w) (pw_previous w)
      | _ \<Rightarrow>
          (case cw_previous item of
             None \<Rightarrow> t_return ()
           | Some before \<Rightarrow> ensure_unchanged env (cw_destination item) (Some before)))"

definition commit_combined_batch ::
  "authoring_env \<Rightarrow> write_mode \<Rightarrow> prepared_combined_write list \<Rightarrow> (world, authoring_error, unit) traced" where
  "commit_combined_batch env mode prepared =
     t_bind (t_for_each (recheck_combined env mode) prepared) (\<lambda>_.
     t_bind (back_up env (\<lambda>backups. restore_combined env prepared backups []) (combined_backup_items mode prepared) []) (\<lambda>backups.
     t_bind (commit_combined env mode prepared backups prepared []) (\<lambda>_.
     t_for_each (sync_parent env) (sort (remdups (map cw_parent prepared))))))"

definition secret_results :: "prepared_combined_write list \<Rightarrow> authoring_result list" where
  "secret_results prepared = List.map_filter (\<lambda>item. case item of CSecret w \<Rightarrow> Some (pw_result w) | _ \<Rightarrow> None) prepared"

definition public_results :: "prepared_combined_write list \<Rightarrow> public_authoring_result list" where
  "public_results prepared = List.map_filter (\<lambda>item. case item of CPublic w \<Rightarrow> Some (pw_result w) | _ \<Rightarrow> None) prepared"

definition prepare_public_file ::
  "authoring_env \<Rightarrow> string \<Rightarrow> write_mode \<Rightarrow> fs_path set \<times> fs_path set \<Rightarrow> batch_public_file_write
    \<Rightarrow> (world, authoring_error, sourced_write) traced" where
  "prepare_public_file env root mode taken write =
     t_bind (resolve_existing env root (bf_source write)) (\<lambda>source.
     t_bind (io (symlink_metadata env source)) (\<lambda>metadata.
     t_bind (t_check (node_len metadata \<le> MAX_BATCH_BYTES) AInputTooLarge) (\<lambda>_.
     t_bind (resolve_destination env root (bf_destination write)) (\<lambda>destination.
     t_bind (t_check (source \<notin> fst taken \<and> destination \<notin> snd taken) ADestinationState) (\<lambda>_.
     t_bind (validate_destination env destination mode) (\<lambda>previous.
     t_bind (open_staged env destination) (\<lambda>(parent, staged).
     t_bind (open_nofollow_regular env source) (\<lambda>_.
     t_bind (io (read_limited env source)) (\<lambda>input.
     t_bind (io (write_content env staged (concat input))) (\<lambda>_.
     t_bind (io (sync_file env)) (\<lambda>_.
     t_bind (t_lift (map_err AIo (and_then (hashing_drain (hashing_reader_new input))
       (\<lambda>r. Inr (hashing_finish (au_blake3 env) r))))) (\<lambda>(content_hash, plaintext_bytes).
     t_bind (t_check (plaintext_bytes \<le> MAX_BATCH_BYTES) AInputTooLarge) (\<lambda>_.
     t_bind (hash_bounded_file env source MAX_BATCH_BYTES) (\<lambda>(source_hash, source_bytes).
     t_bind (t_check (source_hash = content_hash \<and> source_bytes = plaintext_bytes) ASourceChanged) (\<lambda>_.
     t_return (\<lparr>pw_destination = destination, pw_parent = parent, pw_previous = previous, pw_staged = Some staged,
       pw_result = \<lparr>ar_path = destination, ar_hash = content_hash, ar_plaintext_bytes = plaintext_bytes\<rparr>\<rparr>,
       source, metadata))))))))))))))))"

definition write_public_file_batch ::
  "authoring_env \<Rightarrow> string \<Rightarrow> batch_public_file_write list \<Rightarrow> write_mode
    \<Rightarrow> (world, authoring_error, public_authoring_result list) traced" where
  "write_public_file_batch env root writes mode = scoped env (
     t_bind (acquire_repository_lock env root) (\<lambda>_.
     t_bind (t_check (batch_size_ok writes) AUnsafePath) (\<lambda>_.
     t_bind (prepare_loop (prepare_public_file env root mode) take_source ({}, {}) writes) (\<lambda>staged.
     t_bind (check_sources env staged) (\<lambda>public_prepared.
     let prepared = map CPublic public_prepared in
     t_bind (commit_combined_batch env mode prepared) (\<lambda>_. t_return (public_results prepared)))))))"

definition prepare_public_write ::
  "authoring_env \<Rightarrow> string \<Rightarrow> write_mode \<Rightarrow> fs_path set \<Rightarrow> batch_public_write
    \<Rightarrow> (world, authoring_error, prepared_public_write) traced" where
  "prepare_public_write env root mode destinations write =
     t_bind (t_check (length (bp_plaintext write) \<le> MAX_BATCH_BYTES) AUnsafePath) (\<lambda>_.
     t_bind (resolve_destination env root (bp_destination write)) (\<lambda>destination.
     t_bind (t_check (destination \<notin> destinations) ADestinationState) (\<lambda>_.
     t_bind (validate_destination env destination mode) (\<lambda>previous.
     t_bind (open_staged env destination) (\<lambda>(parent, staged).
     t_bind (io (write_content env staged (bp_plaintext write))) (\<lambda>_.
     t_bind (io (sync_file env)) (\<lambda>_.
     t_bind (hash_staged env staged) (\<lambda>content_hash.
     t_return \<lparr>pw_destination = destination, pw_parent = parent, pw_previous = previous, pw_staged = Some staged,
       pw_result = \<lparr>ar_path = destination, ar_hash = content_hash,
         ar_plaintext_bytes = length (bp_plaintext write)\<rparr>\<rparr>))))))))"

definition prepare_private_write ::
  "authoring_env \<Rightarrow> string \<Rightarrow> fs_path set \<Rightarrow> batch_private_write
    \<Rightarrow> (world, authoring_error, prepared_private_write) traced" where
  "prepare_private_write env root destinations write =
     t_bind (t_check (length (bp_plaintext write) \<le> MAX_BATCH_BYTES) AUnsafePath) (\<lambda>_.
     t_bind (resolve_destination env root (bp_destination write)) (\<lambda>destination.
     t_bind (t_check (destination \<notin> destinations) ADestinationState) (\<lambda>_.
     t_bind (validate_private_destination env destination) (\<lambda>previous.
     t_bind (io (set_private_directory env (butlast destination))) (\<lambda>_.
     t_bind (open_staged env destination) (\<lambda>(parent, staged).
     t_bind (io (write_content env staged (bp_plaintext write))) (\<lambda>_.
     t_bind (io (sync_file env)) (\<lambda>_.
     t_return \<lparr>pw_destination = destination, pw_parent = parent, pw_previous = previous, pw_staged = Some staged\<rparr>))))))))"

definition prepare_private_delete ::
  "authoring_env \<Rightarrow> string \<Rightarrow> fs_path set \<Rightarrow> batch_private_delete
    \<Rightarrow> (world, authoring_error, prepared_private_delete) traced" where
  "prepare_private_delete env root destinations relative =
     t_bind (resolve_destination env root relative) (\<lambda>destination.
     t_bind (t_check (destination \<notin> destinations) ADestinationState) (\<lambda>_.
     t_bind (validate_private_destination env destination) (\<lambda>previous.
     t_bind (io (set_private_directory env (butlast destination))) (\<lambda>_.
     t_return \<lparr>pw_destination = destination, pw_parent = butlast destination, pw_previous = previous\<rparr>))))"

text \<open>The three \<open>prepare\<close> functions of the crate: the loops from the reserved destinations.\<close>

definition prepare_public_writes ::
  "authoring_env \<Rightarrow> string \<Rightarrow> batch_public_write list \<Rightarrow> write_mode \<Rightarrow> fs_path set
    \<Rightarrow> (world, authoring_error, prepared_public_write list) traced" where
  "prepare_public_writes env root writes mode forbidden = prepare_loop (prepare_public_write env root mode) take_destination forbidden writes"

definition prepare_private_writes ::
  "authoring_env \<Rightarrow> string \<Rightarrow> batch_private_write list \<Rightarrow> fs_path set
    \<Rightarrow> (world, authoring_error, prepared_private_write list) traced" where
  "prepare_private_writes env root writes forbidden = prepare_loop (prepare_private_write env root) take_destination forbidden writes"

definition prepare_private_deletes ::
  "authoring_env \<Rightarrow> string \<Rightarrow> batch_private_delete list \<Rightarrow> fs_path set
    \<Rightarrow> (world, authoring_error, prepared_private_delete list) traced" where
  "prepare_private_deletes env root deletes forbidden = prepare_loop (prepare_private_delete env root) take_destination forbidden deletes"

definition prepare_combined ::
  "authoring_env \<Rightarrow> string \<Rightarrow> batch_secret_write list \<Rightarrow> batch_public_write list \<Rightarrow> batch_private_write list
    \<Rightarrow> batch_private_delete list \<Rightarrow> string \<Rightarrow> write_mode \<Rightarrow> (world, authoring_error, prepared_combined_write list) traced" where
  "prepare_combined env root secret_writes public_writes private_writes private_deletes identity mode =
     t_bind (if secret_writes = [] then t_return [] else prepare_batch_writes env root secret_writes identity mode) (\<lambda>ss.
     t_bind (prepare_public_writes env root public_writes mode (pw_destination ` set ss)) (\<lambda>us.
     t_bind (prepare_private_writes env root private_writes (pw_destination ` set ss \<union> pw_destination ` set us)) (\<lambda>ps.
     t_bind (prepare_private_deletes env root private_deletes
       (pw_destination ` set ss \<union> pw_destination ` set us \<union> pw_destination ` set ps)) (\<lambda>ds.
     t_return (map CSecret ss @ map CPublic us @ map CPrivate ps @ map CDelete ds)))))"

definition write_secret_public_private_batch ::
  "authoring_env \<Rightarrow> string \<Rightarrow> batch_secret_write list \<Rightarrow> batch_public_write list \<Rightarrow> batch_private_write list
    \<Rightarrow> batch_private_delete list \<Rightarrow> string \<Rightarrow> write_mode \<Rightarrow> (world, authoring_error, batch_authoring_result) traced" where
  "write_secret_public_private_batch env root secret_writes public_writes private_writes private_deletes identity mode =
   scoped env (
     t_bind (acquire_repository_lock env root) (\<lambda>_.
     t_bind (t_check (\<not> (secret_writes = [] \<and> public_writes = [] \<and> private_writes = [] \<and> private_deletes = []))
       AUnsafePath) (\<lambda>_.
     t_bind (t_check (length secret_writes + length public_writes + length private_writes + length private_deletes \<le> 10000)
       AUnsafePath) (\<lambda>_.
     t_bind (prepare_combined env root secret_writes public_writes private_writes private_deletes identity mode) (\<lambda>prepared.
     t_bind (commit_combined_batch env mode prepared) (\<lambda>_.
     t_return \<lparr>bar_secrets = secret_results prepared, bar_public_outputs = public_results prepared\<rparr>))))))"

definition write_secret_and_public_batch ::
  "authoring_env \<Rightarrow> string \<Rightarrow> batch_secret_write list \<Rightarrow> batch_public_write list \<Rightarrow> string \<Rightarrow> write_mode
    \<Rightarrow> (world, authoring_error, batch_authoring_result) traced" where
  "write_secret_and_public_batch env root secret_writes public_writes identity mode =
     write_secret_public_private_batch env root secret_writes public_writes [] [] identity mode"

end
