(* ===== verification/Repository_Logic.thy ===== *)
theory Repository_Logic
  imports Authoring_Batch
begin

text \<open>
  A verification-condition calculus for computations on the repository. \<open>vc I m Q E tree temps\<close>:
  run from this tree with these live temporary files, at any time and with any faults, all states
  passed through have \<open>I\<close>, success ends in \<open>Q\<close> of the result and failure in \<open>E\<close> of the
  error. The environment is quiet: no other process changes the tree meanwhile.
\<close>

named_theorems vc_intros

definition wp ::
  "('s \<Rightarrow> bool) \<Rightarrow> ('s, 'e, 'a) traced \<Rightarrow> ('a \<Rightarrow> 's \<Rightarrow> bool) \<Rightarrow> ('e \<Rightarrow> 's \<Rightarrow> bool) \<Rightarrow> 's \<Rightarrow> bool" where
  "wp I m Q E s \<longleftrightarrow>
     (case m s of (tr, r) \<Rightarrow> (\<forall>s' \<in> set tr. I s')
        \<and> (case r of Inr x \<Rightarrow> Q x (final_state s tr) | Inl e \<Rightarrow> E e (final_state s tr)))"

lemmas wp_unfold = wp_def t_return_def t_fail_def t_get_def t_modify_def t_bind_def t_map_err_def t_try_def
  t_finally_def t_on_error_def map_err_def

lemma wp_basic:
  "wp I (t_return x) Q E s = Q x s" "wp I (t_fail e) Q E s = E e s"
  "wp I (t_get g) Q E s = (case g s of Inr x \<Rightarrow> Q x s | Inl e \<Rightarrow> E e s)"
  by (auto simp: wp_unfold split: prod.splits sum.splits)

lemma wp_modify: "wp I (t_modify g) Q E s = (I (g s) \<and> Q () (g s))"
  by (auto simp: wp_unfold)

lemma wp_bind: "wp I (t_bind m f) Q E s = wp I m (\<lambda>x. wp I (f x) Q E) E s"
  by (auto simp: wp_unfold split: prod.splits sum.splits)

lemma wp_map_err: "wp I (t_map_err h m) Q E s = wp I m Q (\<lambda>e. E (h e)) s"
  by (auto simp: wp_unfold split: prod.splits sum.splits)

lemma wp_try: "wp I (t_try m) Q E s = wp I m (\<lambda>x. Q (Inr x)) (\<lambda>e. Q (Inl e)) s"
  by (auto simp: wp_unfold split: prod.splits sum.splits)

lemma wp_finally:
  "wp I (t_finally m c) Q E s = wp I m (\<lambda>x. wp I c (\<lambda>_. Q x) (\<lambda>_. Q x)) (\<lambda>e. wp I c (\<lambda>_. E e) (\<lambda>_. E e)) s"
  by (auto simp: wp_unfold split: prod.splits sum.splits)

lemma wp_on_error: "wp I (t_on_error m c) Q E s = wp I m Q (\<lambda>e. wp I c (\<lambda>_. E e) (\<lambda>_. E e)) s"
  by (auto simp: wp_unfold split: prod.splits sum.splits)

lemmas wp_simps [simp] = wp_basic wp_modify wp_bind wp_map_err wp_try wp_finally wp_on_error

lemma wp_mono:
  "wp I m Q E s \<Longrightarrow> (\<And>x t. Q x t \<Longrightarrow> Q' x t) \<Longrightarrow> (\<And>e t. E e t \<Longrightarrow> E' e t) \<Longrightarrow> (\<And>t. I t \<Longrightarrow> I' t) \<Longrightarrow> wp I' m Q' E' s"
  by (auto simp: wp_def split: prod.splits sum.splits)

definition vc ::
  "(fs_tree \<Rightarrow> bool) \<Rightarrow> (world, 'e, 'a) traced \<Rightarrow> ('a \<Rightarrow> fs_tree \<Rightarrow> fs_path list \<Rightarrow> bool)
    \<Rightarrow> ('e \<Rightarrow> fs_tree \<Rightarrow> fs_path list \<Rightarrow> bool) \<Rightarrow> fs_tree \<Rightarrow> fs_path list \<Rightarrow> bool" where
  "vc I m Q E tree temps \<longleftrightarrow>
     (\<forall>t. wp (\<lambda>w. I (w_tree w)) m (\<lambda>x w. Q x (w_tree w) (w_temps w)) (\<lambda>e w. E e (w_tree w) (w_temps w))
        \<lparr>w_tree = tree, w_clock = t, w_temps = temps\<rparr>)"

lemma vc_wp:
  "vc I m Q E (w_tree w) (w_temps w) \<Longrightarrow>
   wp (\<lambda>w. I (w_tree w)) m (\<lambda>x w. Q x (w_tree w) (w_temps w)) (\<lambda>e w. E e (w_tree w) (w_temps w)) w"
  by (cases w) (auto simp: vc_def)

lemma vc_run:
  assumes "vc I m Q E (w_tree w) (w_temps w)" and "m w = (tr, r)"
  shows "\<forall>w' \<in> set tr. I (w_tree w')"
    and "r = Inr x \<Longrightarrow> Q x (w_tree (final_state w tr)) (w_temps (final_state w tr))"
    and "r = Inl e \<Longrightarrow> E e (w_tree (final_state w tr)) (w_temps (final_state w tr))"
  using vc_wp [OF assms(1)] assms(2) by (auto simp: wp_def)

lemma vc_exec:
  assumes "vc I m Q E (w_tree w) (w_temps w)" and "exec m w = (w', r)"
  shows "r = Inr x \<Longrightarrow> Q x (w_tree w') (w_temps w')" and "r = Inl e \<Longrightarrow> E e (w_tree w') (w_temps w')"
  using vc_wp [OF assms(1)] assms(2) by (auto simp: wp_def exec_def split: prod.splits)

lemma vc_mono:
  "vc I m Q E tree temps \<Longrightarrow> (\<And>x t p. Q x t p \<Longrightarrow> Q' x t p) \<Longrightarrow> (\<And>e t p. E e t p \<Longrightarrow> E' e t p)
    \<Longrightarrow> (\<And>t. I t \<Longrightarrow> I' t) \<Longrightarrow> vc I' m Q' E' tree temps"
  unfolding vc_def by (blast intro: wp_mono)

section \<open>Structural rules\<close>

lemma vc_return [vc_intros]: "Q x tree temps \<Longrightarrow> vc I (t_return x) Q E tree temps"
  by (simp add: vc_def)

lemma vc_fail [vc_intros]: "E e tree temps \<Longrightarrow> vc I (t_fail e) Q E tree temps"
  by (simp add: vc_def)

lemma vc_lift [vc_intros]:
  "(\<And>x. r = Inr x \<Longrightarrow> Q x tree temps) \<Longrightarrow> (\<And>e. r = Inl e \<Longrightarrow> E e tree temps) \<Longrightarrow> vc I (t_lift r) Q E tree temps"
  by (auto simp: vc_def t_lift_def split: sum.split)

lemma vc_check [vc_intros]:
  "(b \<Longrightarrow> Q () tree temps) \<Longrightarrow> (\<not> b \<Longrightarrow> E e tree temps) \<Longrightarrow> vc I (t_check b e) Q E tree temps"
  by (auto simp: vc_def t_check_def)

lemma vc_clock [vc_intros]: "(\<And>t. Q t tree temps) \<Longrightarrow> vc I clock Q E tree temps"
  by (auto simp: vc_def clock_def)

lemma wp_any_time:
  "\<forall>t. wp J m Q E \<lparr>w_tree = w_tree w, w_clock = t, w_temps = w_temps w\<rparr> \<Longrightarrow> wp J m Q E w" for w :: world
  by (cases w) simp

lemma vc_bind [vc_intros]: "vc I m (\<lambda>x. vc I (f x) Q E) E tree temps \<Longrightarrow> vc I (t_bind m f) Q E tree temps"
  unfolding vc_def wp_simps by (elim all_forward wp_mono) (erule wp_any_time | assumption)+

lemma vc_map_err [vc_intros]: "vc I m Q (\<lambda>e. E (h e)) tree temps \<Longrightarrow> vc I (t_map_err h m) Q E tree temps"
  by (simp add: vc_def)

lemma vc_try [vc_intros]:
  "vc I m (\<lambda>x. Q (Inr x)) (\<lambda>e. Q (Inl e)) tree temps \<Longrightarrow> vc I (t_try m) Q E tree temps"
  by (simp add: vc_def)

lemma vc_try_value: "vc I (t_try m) (\<lambda>r. case r of Inr x \<Rightarrow> Q x | Inl e \<Rightarrow> F e) E tree temps = vc I m Q F tree temps"
  by (simp add: vc_def)

lemma vc_finally:
  assumes "vc I m (\<lambda>x t p. vc I c (\<lambda>_. Q x) (\<lambda>_. Q x) t p) (\<lambda>e t p. vc I c (\<lambda>_. E e) (\<lambda>_. E e) t p) tree temps"
  shows "vc I (t_finally m c) Q E tree temps"
  unfolding vc_def wp_simps
  using assms [unfolded vc_def]
  by (elim all_forward wp_mono) (erule wp_any_time | assumption)+

lemma vc_on_error:
  assumes "vc I m Q (\<lambda>e t p. vc I c (\<lambda>_. E e) (\<lambda>_. E e) t p) tree temps"
  shows "vc I (t_on_error m c) Q E tree temps"
  unfolding vc_def wp_simps
  using assms [unfolded vc_def]
  by (elim all_forward wp_mono) (erule wp_any_time | assumption)+

lemma vc_if [vc_intros]:
  "(b \<Longrightarrow> vc I m Q E tree temps) \<Longrightarrow> (\<not> b \<Longrightarrow> vc I n Q E tree temps) \<Longrightarrow> vc I (if b then m else n) Q E tree temps"
  by simp

lemma vc_for_each:
  assumes "P tree temps" and "\<And>x t p. x \<in> set xs \<Longrightarrow> P t p \<Longrightarrow> vc I (f x) (\<lambda>_. P) E t p"
    and "\<And>t p. P t p \<Longrightarrow> Q () t p"
  shows "vc I (t_for_each f xs) Q E tree temps"
  using assms(1,2)
proof (induction xs arbitrary: tree temps)
  case Nil
  then show ?case using assms(3) by (auto intro: vc_intros)
next
  case (Cons x xs)
  have "vc I (f x) (\<lambda>_. P) E tree temps" using Cons.prems by auto
  then have "vc I (f x) (\<lambda>_. vc I (t_for_each f xs) Q E) E tree temps"
    by (rule vc_mono) (use Cons in auto)
  then show ?case by (auto intro: vc_intros)
qed

section \<open>System calls in a quiet environment\<close>

definition quiet :: "'x fs_env_scheme \<Rightarrow> bool" where
  "quiet env \<longleftrightarrow> (\<forall>t. fe_others env t = id)"

lemma vc_sys:
  assumes "quiet env" and "I tree" and "E OtherIo tree temps"
    and "\<And>t e. f t tree = Inl e \<Longrightarrow> E e tree temps"
    and "\<And>t tree' x. f t tree = Inr (tree', x) \<Longrightarrow> I tree' \<and> Q x tree' temps"
  shows "vc I (sys env f) Q E tree temps"
  using assms unfolding vc_def wp_def sys_def quiet_def
  by (auto simp: Let_def split: sum.splits)

lemma vc_query [vc_intros]:
  assumes "quiet env" and "I tree" and "E OtherIo tree temps"
    and "\<And>e. f tree = Inl e \<Longrightarrow> E e tree temps" and "\<And>x. f tree = Inr x \<Longrightarrow> Q x tree temps"
  shows "vc I (query env f) Q E tree temps"
  unfolding query_def using assms by (intro vc_sys) (auto simp: and_then_eq_Inl)

lemma vc_change:
  assumes "quiet env" and "I tree" and "E OtherIo tree temps"
    and "\<And>e. f tree = Inl e \<Longrightarrow> E e tree temps" and "\<And>tree'. f tree = Inr tree' \<Longrightarrow> I tree' \<and> Q () tree' temps"
  shows "vc I (change env f) Q E tree temps"
  unfolding change_def using assms by (intro vc_sys) (auto simp: and_then_eq_Inl)

lemma vc_own [vc_intros]: "I tree \<Longrightarrow> Q () tree (temps @ [p]) \<Longrightarrow> vc I (own_temp p) Q E tree temps"
  by (simp add: vc_def own_temp_def)

lemma vc_disown [vc_intros]:
  "I tree \<Longrightarrow> Q () tree (filter (\<lambda>q. q \<noteq> p) temps) \<Longrightarrow> vc I (disown_temp p) Q E tree temps"
  by (simp add: vc_def disown_temp_def)

section \<open>Rules of the operations\<close>

definition dir_node :: "fs_node \<Rightarrow> bool" where
  "dir_node n = (case n of FsDir _ _ \<Rightarrow> True | _ \<Rightarrow> False)"

lemma dir_node_simps [simp]:
  "dir_node (FsDir u m)" "\<not> dir_node (FsFile f)" "\<not> dir_node (FsLink l)" "\<not> dir_node FsOther"
  by (simp_all add: dir_node_def)

lemma is_directory_iff: "is_directory tree p \<longleftrightarrow> (\<exists>n. tree p = Some n \<and> dir_node n)"
  by (auto simp: is_directory_def dir_node_def split: option.splits fs_node.splits)

lemma move_Inr:
  "move a b tree = Inr tree' \<longleftrightarrow>
     (\<exists>n. tree a = Some n \<and> \<not> dir_node n \<and> \<not> is_directory tree b \<and> is_directory tree (butlast b)
       \<and> tree' = (tree(a := None))(b \<mapsto> n))"
  by (auto simp: move_def split: option.splits fs_node.splits)

lemma vc_symlink_metadata [vc_intros]:
  assumes "quiet env" and "I tree" and "E OtherIo tree temps"
    and "tree p = None \<Longrightarrow> E NotFound tree temps" and "\<And>n. tree p = Some n \<Longrightarrow> Q n tree temps"
  shows "vc I (symlink_metadata env p) Q E tree temps"
  unfolding symlink_metadata_def using assms by (intro vc_intros) auto

lemma vc_path_exists [vc_intros]:
  assumes "quiet env" and "I tree" and "\<And>b. Q b tree temps"
  shows "vc I (path_exists env p) Q E tree temps"
  unfolding path_exists_def using assms by (intro vc_intros)

lemma vc_canonicalize [vc_intros]:
  assumes "quiet env" and "I tree" and "\<And>e. E e tree temps"
    and "\<And>q. realpath MAXSYMLINKS tree (fe_cwd env) (path_components p) = Inr q \<Longrightarrow> Q q tree temps"
  shows "vc I (canonicalize env p) Q E tree temps"
  unfolding canonicalize_def using assms by (intro vc_intros)

lemma vc_canonicalize_path [vc_intros]:
  assumes "quiet env" and "I tree" and "\<And>e. E e tree temps"
    and "\<And>q. realpath MAXSYMLINKS tree [] (map Normal p) = Inr q \<Longrightarrow> Q q tree temps"
  shows "vc I (canonicalize_path env p) Q E tree temps"
  unfolding canonicalize_path_def using assms by (intro vc_intros)

lemma vc_create_dir [vc_intros]:
  assumes "quiet env" and "I tree" and "\<And>e. E e tree temps"
    and "tree p = None \<Longrightarrow> is_directory tree (butlast p) \<Longrightarrow>
      I (tree(p \<mapsto> FsDir (fe_euid env) 0x1ED)) \<and> Q () (tree(p \<mapsto> FsDir (fe_euid env) 0x1ED)) temps"
  shows "vc I (create_dir env p) Q E tree temps"
  unfolding create_dir_def using assms by (intro vc_change) (auto split: if_splits)

lemma vc_open_regular [vc_intros]:
  assumes "quiet env" and "I tree" and "\<And>e. E e tree temps" and "\<And>n. tree p = Some n \<Longrightarrow> Q n tree temps"
  shows "vc I (open_regular env p) Q E tree temps"
  unfolding open_regular_def using assms by (intro vc_query) (auto split: option.splits fs_node.splits)

lemma vc_update_file [vc_intros]:
  assumes "quiet env" and "I tree" and "\<And>e. E e tree temps"
    and "\<And>f. tree p = Some (FsFile f) \<Longrightarrow> I (tree(p \<mapsto> FsFile (g f))) \<and> Q () (tree(p \<mapsto> FsFile (g f))) temps"
  shows "vc I (update_file env p g) Q E tree temps"
  unfolding update_file_def using assms by (intro vc_change) (auto split: option.splits fs_node.splits)

lemma vc_write_content [vc_intros]:
  assumes "quiet env" and "I tree" and "\<And>e. E e tree temps"
    and "\<And>f. tree p = Some (FsFile f) \<Longrightarrow>
      I (tree(p \<mapsto> FsFile (f\<lparr>fl_content := c\<rparr>))) \<and> Q () (tree(p \<mapsto> FsFile (f\<lparr>fl_content := c\<rparr>))) temps"
  shows "vc I (write_content env p c) Q E tree temps"
  unfolding write_content_def using assms by (intro vc_intros)

lemma vc_set_mode [vc_intros]:
  assumes "quiet env" and "I tree" and "\<And>e. E e tree temps"
    and "\<And>f. tree p = Some (FsFile f) \<Longrightarrow>
      I (tree(p \<mapsto> FsFile (f\<lparr>fl_mode := m\<rparr>))) \<and> Q () (tree(p \<mapsto> FsFile (f\<lparr>fl_mode := m\<rparr>))) temps"
  shows "vc I (set_mode env p m) Q E tree temps"
  unfolding set_mode_def using assms by (intro vc_intros)

lemma vc_read_content [vc_intros]:
  assumes "quiet env" and "I tree" and "\<And>e. E e tree temps"
    and "\<And>f. tree p = Some (FsFile f) \<Longrightarrow> Q (fl_content f) tree temps"
  shows "vc I (read_content env p) Q E tree temps"
  unfolding read_content_def using assms by (intro vc_query) (auto split: option.splits fs_node.splits)

lemma vc_sync_file [vc_intros]:
  assumes "quiet env" and "I tree" and "\<And>e. E e tree temps" and "Q () tree temps"
  shows "vc I (sync_file env) Q E tree temps"
  unfolding sync_file_def using assms by (intro vc_query) auto

lemma vc_rewind [vc_intros]:
  assumes "quiet env" and "I tree" and "\<And>e. E e tree temps" and "Q () tree temps"
  shows "vc I (rewind env) Q E tree temps"
  unfolding rewind_def using assms by (intro vc_query) auto

lemma vc_sync_directory [vc_intros]:
  assumes "quiet env" and "I tree" and "\<And>e. E e tree temps" and "Q () tree temps"
  shows "vc I (sync_directory env p) Q E tree temps"
  unfolding sync_directory_def using assms by (intro vc_query) (auto split: if_splits)

lemma vc_rename_path [vc_intros]:
  assumes "quiet env" and "I tree" and "\<And>e. E e tree temps"
    and "\<And>n. tree a = Some n \<Longrightarrow> \<not> dir_node n \<Longrightarrow> \<not> is_directory tree b \<Longrightarrow> is_directory tree (butlast b) \<Longrightarrow>
      I ((tree(a := None))(b \<mapsto> n)) \<and> Q () ((tree(a := None))(b \<mapsto> n)) temps"
  shows "vc I (rename_path env a b) Q E tree temps"
  unfolding rename_path_def using assms by (intro vc_change) (auto simp: move_Inr)

lemma vc_rename_noreplace [vc_intros]:
  assumes "quiet env" and "I tree" and "\<And>e. E e tree temps"
    and "\<And>n. tree a = Some n \<Longrightarrow> \<not> dir_node n \<Longrightarrow> tree b = None \<Longrightarrow> is_directory tree (butlast b) \<Longrightarrow>
      I ((tree(a := None))(b \<mapsto> n)) \<and> Q () ((tree(a := None))(b \<mapsto> n)) temps"
  shows "vc I (rename_noreplace env a b) Q E tree temps"
  unfolding rename_noreplace_def using assms by (intro vc_change) (auto simp: move_Inr split: if_splits)

lemma vc_remove_file [vc_intros]:
  assumes "quiet env" and "I tree" and "\<And>e. E e tree temps"
    and "\<And>n. tree p = Some n \<Longrightarrow> \<not> dir_node n \<Longrightarrow> I (tree(p := None)) \<and> Q () (tree(p := None)) temps"
  shows "vc I (remove_file env p) Q E tree temps"
  unfolding remove_file_def using assms by (intro vc_change) (auto split: option.splits fs_node.splits)

lemma vc_remove_tree [vc_intros]:
  assumes "quiet env" and "I tree" and "\<And>e. E e tree temps"
    and "I (\<lambda>q. if prefix p q then None else tree q)" and "Q () (\<lambda>q. if prefix p q then None else tree q) temps"
  shows "vc I (remove_tree env p) Q E tree temps"
  unfolding remove_tree_def using assms by (intro vc_change) auto

text \<open>The file a creation leaves: owned by the user, one link, and empty.\<close>

definition fresh_file :: "'x fs_env_scheme \<Rightarrow> 32 word \<Rightarrow> fs_file \<Rightarrow> bool" where
  "fresh_file env mode f \<longleftrightarrow> fl_uid f = fe_euid env \<and> fl_mode f = mode \<and> fl_nlink f = 1 \<and> fl_content f = []"

lemma new_file_fresh [simp]: "fresh_file env mode (new_file env t mode)"
  by (simp add: fresh_file_def new_file_def)

lemma vc_create_new [vc_intros]:
  assumes "quiet env" and "I tree" and "\<And>e. E e tree temps"
    and "\<And>f. tree p = None \<Longrightarrow> is_directory tree (butlast p) \<Longrightarrow> fresh_file env mode f \<Longrightarrow>
      I (tree(p \<mapsto> FsFile f)) \<and> Q () (tree(p \<mapsto> FsFile f)) temps"
  shows "vc I (create_new env p mode) Q E tree temps"
  unfolding create_new_def using assms by (intro vc_sys) (auto split: if_splits)

definition is_temp :: "fs_path \<Rightarrow> bool" where
  "is_temp p \<longleftrightarrow> p \<noteq> [] \<and> starts_with (last p) ''.tmp''"

lemma vc_new_in [vc_intros]:
  assumes "quiet env" and "I tree" and "\<And>e. E e tree temps"
    and "\<And>p f. tree p = None \<Longrightarrow> butlast p = parent \<Longrightarrow> is_temp p \<Longrightarrow> is_directory tree parent \<Longrightarrow>
      fresh_file env 0x180 f \<Longrightarrow> I (tree(p \<mapsto> FsFile f)) \<and> Q p (tree(p \<mapsto> FsFile f)) (temps @ [p])"
  shows "vc I (new_in env parent) Q E tree temps"
  unfolding new_in_def create_temp_def
proof (intro vc_bind vc_sys)
  fix t tree' p
  assume "(let p = parent @ [temp_name env t] in
      if tree p \<noteq> None then Inl OtherIo else if \<not> is_directory tree parent then Inl NotFound
      else Inr (tree(p \<mapsto> FsFile (new_file env t 0x180)), p)) = Inr (tree', p)"
  then have p: "p = parent @ [temp_name env t]" and new: "tree p = None" "is_directory tree parent"
    and tree': "tree' = tree(p \<mapsto> FsFile (new_file env t 0x180))"
    by (auto simp: Let_def split: if_splits)
  have "is_temp p" by (simp add: p is_temp_def temp_name_def)
  with assms(4) [OF new(1) _ _ new(2) new_file_fresh] p tree'
  show "I tree' \<and> vc I (t_bind (own_temp p) (\<lambda>_. t_return p)) Q E tree' temps"
    by (auto intro!: vc_intros)
qed (use assms in \<open>auto simp: Let_def split: if_splits\<close>)

lemma vc_drop_temp [vc_intros]:
  assumes "quiet env" and "I tree" and "Q () tree (filter (\<lambda>q. q \<noteq> p) temps)"
    and "\<And>n. tree p = Some n \<Longrightarrow> \<not> dir_node n \<Longrightarrow> I (tree(p := None)) \<and> Q () (tree(p := None)) (filter (\<lambda>q. q \<noteq> p) temps)"
  shows "vc I (drop_temp env p) Q E tree temps"
  unfolding drop_temp_def using assms by (intro vc_intros) (auto intro: vc_return)

lemma vc_persist [vc_intros]:
  assumes "quiet env" and "I tree" and "\<And>e. E e tree (filter (\<lambda>q. q \<noteq> p) temps)"
    and "\<And>n e. tree p = Some n \<Longrightarrow> \<not> dir_node n \<Longrightarrow> I (tree(p := None)) \<and> E e (tree(p := None)) (filter (\<lambda>q. q \<noteq> p) temps)"
    and "\<And>n. tree p = Some n \<Longrightarrow> \<not> dir_node n \<Longrightarrow> \<not> is_directory tree d \<Longrightarrow> is_directory tree (butlast d) \<Longrightarrow>
      I ((tree(p := None))(d \<mapsto> n)) \<and> Q () ((tree(p := None))(d \<mapsto> n)) (filter (\<lambda>q. q \<noteq> p) temps)"
  shows "vc I (persist env p d) Q E tree temps"
  unfolding persist_def persist_by_def using assms by (auto intro!: vc_intros)

lemma vc_persist_noclobber [vc_intros]:
  assumes "quiet env" and "I tree" and "\<And>e. E e tree (filter (\<lambda>q. q \<noteq> p) temps)"
    and "\<And>n e. tree p = Some n \<Longrightarrow> \<not> dir_node n \<Longrightarrow> I (tree(p := None)) \<and> E e (tree(p := None)) (filter (\<lambda>q. q \<noteq> p) temps)"
    and "\<And>n. tree p = Some n \<Longrightarrow> \<not> dir_node n \<Longrightarrow> tree d = None \<Longrightarrow> is_directory tree (butlast d) \<Longrightarrow>
      I ((tree(p := None))(d \<mapsto> n)) \<and> Q () ((tree(p := None))(d \<mapsto> n)) (filter (\<lambda>q. q \<noteq> p) temps)"
  shows "vc I (persist_noclobber env p d) Q E tree temps"
  unfolding persist_noclobber_def persist_by_def using assms by (auto intro!: vc_intros)

section \<open>Errors that cannot occur\<close>

named_theorems never_intros

definition never :: "'e \<Rightarrow> ('s, 'e, 'a) traced \<Rightarrow> bool" where
  "never e m \<longleftrightarrow> (\<forall>s. snd (m s) \<noteq> Inl e)"

lemma never_bind [never_intros]: "never e m \<Longrightarrow> (\<And>x. never e (f x)) \<Longrightarrow> never e (t_bind m f)"
  by (auto simp: never_def t_bind_def split: prod.splits sum.splits) (metis snd_conv)+

lemma never_map_err [never_intros]: "(\<And>e'. h e' \<noteq> e) \<Longrightarrow> never e (t_map_err h m)"
  by (auto simp: never_def t_map_err_def map_err_def split: prod.splits sum.splits)

lemma never_basic [never_intros]:
  "never e (t_return x)" "e' \<noteq> e \<Longrightarrow> never e (t_fail e')" "never e (t_try m)" "never e clock"
  "e' \<noteq> e \<Longrightarrow> never e (t_check b e')" "r \<noteq> Inl e \<Longrightarrow> never e (t_lift r)" "never e (path_exists env p)"
  by (auto simp: never_def t_return_def t_fail_def t_try_def clock_def t_get_def t_check_def t_lift_def path_exists_def
      t_bind_def split: prod.splits)

lemma never_if [never_intros]: "never e a \<Longrightarrow> never e b \<Longrightarrow> never e (if c then a else b)"
  by simp

lemma never_prod [never_intros]: "(\<And>x y. p = (x, y) \<Longrightarrow> never e (f x y)) \<Longrightarrow> never e (case p of (x, y) \<Rightarrow> f x y)"
  by (cases p) simp

section \<open>Runs of sequences\<close>

lemma t_bind_assoc: "t_bind (t_bind m f) g = t_bind m (\<lambda>x. t_bind (f x) g)"
  by (auto simp: t_bind_def fun_eq_iff split: prod.splits sum.splits)

lemma t_bind_return [simp]: "t_bind (t_return x) f = f x"
  by (auto simp: t_bind_def t_return_def fun_eq_iff split: prod.splits)

lemma run_bind:
  assumes "t_bind m f w = (tr, r)"
  obtains (error) e where "m w = (tr, Inl e)" "r = Inl e"
  | (rest) tr1 x tr2 where "m w = (tr1, Inr x)" "f x (final_state w tr1) = (tr2, r)" "tr = tr1 @ tr2"
  using assms by (auto simp: t_bind_def split: prod.splits sum.splits)

lemma run_finally:
  assumes "t_finally m c w = (tr, r)"
  obtains tr1 tr2 r2 where "m w = (tr1, r)" "c (final_state w tr1) = (tr2, r2)" "tr = tr1 @ tr2"
  using assms by (auto simp: t_finally_def split: prod.splits)

section \<open>Dropping what is left\<close>

lemma vc_drop_list:
  assumes "quiet env" and "\<forall>p \<in> set ps. is_temp p" and "J tree"
    and step: "\<And>tree p. J tree \<Longrightarrow> is_temp p \<Longrightarrow> J (tree(p := None))" and I: "\<And>tree. J tree \<Longrightarrow> I tree"
    and post: "\<And>tree' temps'. J tree' \<Longrightarrow> set temps' \<subseteq> set temps \<Longrightarrow> Q () tree' temps'"
  shows "vc I (drop_list env ps) Q E tree temps"
  using assms(2,3) post
proof (induction ps arbitrary: tree temps)
  case Nil
  then show ?case by (auto intro: vc_return)
next
  case (Cons p ps)
  have "vc I (drop_list env ps) Q E tree' (filter (\<lambda>q. q \<noteq> p) temps)" if "J tree'" for tree'
    using Cons.prems that by (intro Cons.IH) auto
  moreover have "J (tree(p := None))" using Cons.prems by (intro step) auto
  ultimately show ?case
    unfolding drop_list.simps using Cons.prems(2) assms(1) I [OF Cons.prems(2)] I [of "tree(p := None)"]
    by (intro vc_bind vc_drop_temp) (simp_all del: fun_upd_apply)
qed

lemma vc_drop_temps:
  assumes "quiet env" and "\<forall>p \<in> set temps. is_temp p" and "J tree"
    and "\<And>tree p. J tree \<Longrightarrow> is_temp p \<Longrightarrow> J (tree(p := None))" and "\<And>tree. J tree \<Longrightarrow> I tree"
    and "\<And>tree' temps'. J tree' \<Longrightarrow> Q () tree' temps'"
  shows "vc I (drop_temps env) Q E tree temps"
proof -
  have "vc I (drop_list env temps) Q E tree temps"
    by (rule vc_drop_list [where J = J]) (use assms in auto)
  then have "vc I (t_get (\<lambda>w. Inr (w_temps w))) (\<lambda>ps. vc I (drop_list env ps) Q E) E tree temps"
    by (subst vc_def) simp
  then show ?thesis unfolding drop_temps_def by (rule vc_bind)
qed

end
