(* ===== verification/Authoring_Lemmas.thy ===== *)
theory Authoring_Lemmas
  imports Repository_Logic
begin

text \<open>
  Contracts of the steps of an authoring transaction. What a transaction owes the repository is stated
  over a view of the tree: the entries other than directories, without the files the
  transactions manage themselves (temporary files and the lock).
\<close>

section \<open>The view of a repository\<close>

definition managed :: "fs_path \<Rightarrow> bool" where
  "managed p \<longleftrightarrow> is_temp p \<or> p \<noteq> [] \<and> last p = LOCK_NAME"

definition nondir :: "fs_tree \<Rightarrow> fs_path \<Rightarrow> fs_node option" where
  "nondir tree p = (case tree p of Some (FsDir _ _) \<Rightarrow> None | n \<Rightarrow> n)"

definition view :: "fs_tree \<Rightarrow> fs_path \<Rightarrow> fs_node option" where
  "view tree p = (if managed p then None else nondir tree p)"

lemma nondir_iff: "nondir tree p = Some n \<longleftrightarrow> tree p = Some n \<and> \<not> dir_node n"
  by (auto simp: nondir_def dir_node_def split: option.splits fs_node.splits)

lemma nondir_None: "nondir tree p = None \<longleftrightarrow> tree p = None \<or> is_directory tree p"
  by (auto simp: nondir_def is_directory_def split: option.splits fs_node.splits)

lemma nondir_upd [simp]:
  "nondir (tree(p := None)) = (nondir tree)(p := None)"
  "nondir (tree(p \<mapsto> FsFile f)) = (nondir tree)(p \<mapsto> FsFile f)"
  "nondir (tree(p \<mapsto> FsDir u m)) = (nondir tree)(p := None)"
  by (auto simp: nondir_def)

lemma nondir_upd_node: "\<not> dir_node n \<Longrightarrow> nondir (tree(p \<mapsto> n)) = (nondir tree)(p \<mapsto> n)"
  by (cases n) (auto simp: nondir_def)

lemma temp_managed [simp]: "is_temp p \<Longrightarrow> managed p"
  by (simp add: managed_def)

lemma view_managed [simp]: "managed p \<Longrightarrow> view tree p = None"
  by (simp add: view_def)

lemma view_cong: "(\<And>p. \<not> managed p \<Longrightarrow> nondir a p = nondir b p) \<Longrightarrow> view a = view b"
  by (auto simp: view_def)

lemma viewD: "view a = view b \<Longrightarrow> \<not> managed p \<Longrightarrow> nondir a p = nondir b p"
  by (metis view_def)

lemma view_upd_managed [simp]: "managed p \<Longrightarrow> view (tree(p := n)) = view tree"
  by (auto simp: view_def nondir_def fun_eq_iff)

text \<open>An invariant that only depends on the view, at a tree.\<close>

definition steady :: "(fs_tree \<Rightarrow> bool) \<Rightarrow> fs_tree \<Rightarrow> bool" where
  "steady I tree \<longleftrightarrow> (\<forall>tree'. view tree' = view tree \<longrightarrow> I tree')"

lemma steadyD: "steady I tree \<Longrightarrow> view tree' = view tree \<Longrightarrow> I tree'"
  by (simp add: steady_def)

lemma steady_refl: "steady I tree \<Longrightarrow> I tree"
  by (simp add: steady_def)

lemma steady_view: "steady I tree \<Longrightarrow> view tree' = view tree \<Longrightarrow> steady I tree'"
  by (simp add: steady_def)

lemma steady_True [simp]: "steady (\<lambda>_. True) tree"
  by (simp add: steady_def)

section \<open>Trees that gain directories\<close>

definition grown :: "fs_tree \<Rightarrow> fs_tree \<Rightarrow> bool" where
  "grown a b \<longleftrightarrow> nondir b = nondir a \<and> (\<forall>p. is_directory a p \<longrightarrow> is_directory b p)"

lemma grown_refl [simp, intro]: "grown a a"
  by (simp add: grown_def)

lemma grown_trans: "grown a b \<Longrightarrow> grown b c \<Longrightarrow> grown a c"
  by (simp add: grown_def)

lemma grown_view: "grown a b \<Longrightarrow> view b = view a"
  by (auto simp: grown_def view_def)

lemma grown_file: "grown a b \<Longrightarrow> b p = Some (FsFile f) \<longleftrightarrow> a p = Some (FsFile f)"
  unfolding grown_def using nondir_iff [of a p "FsFile f"] nondir_iff [of b p "FsFile f"] by simp

lemma grown_dir: "nondir tree p = None \<Longrightarrow> grown tree (tree(p \<mapsto> FsDir u m))"
  by (auto simp: grown_def is_directory_iff)

section \<open>The canonical root\<close>

text \<open>Entries keep their kind and links their target, so a path that resolves keeps resolving to the same place.\<close>

fun shape :: "fs_node \<Rightarrow> fs_node" where
  "shape (FsFile _) = FsOther"
| "shape (FsDir _ _) = FsDir 0 0"
| "shape n = n"

definition solid :: "fs_tree \<Rightarrow> fs_tree \<Rightarrow> bool" where
  "solid a b \<longleftrightarrow> (\<forall>p n. a p = Some n \<longrightarrow> (\<exists>m. b p = Some m \<and> shape m = shape n))"

lemma shape_dir: "dir_node m \<Longrightarrow> shape m = FsDir 0 0"
  by (cases m) auto

lemma solid_refl [simp, intro]: "solid a a"
  by (simp add: solid_def)

lemma solid_trans: "solid a b \<Longrightarrow> solid b c \<Longrightarrow> solid a c"
  unfolding solid_def by metis

lemma solid_file: "tree p = None \<or> (\<exists>g. tree p = Some (FsFile g)) \<Longrightarrow> solid tree (tree(p \<mapsto> FsFile f))"
  by (auto simp: solid_def)

lemma solid_nondir:
  assumes "\<And>p n. nondir a p = Some n \<Longrightarrow> nondir b p = Some n" and "\<And>p. is_directory a p \<Longrightarrow> is_directory b p"
  shows "solid a b"
  unfolding solid_def
proof (intro allI impI)
  fix p n
  assume "a p = Some n"
  then show "\<exists>m. b p = Some m \<and> shape m = shape n"
    using assms(1) [of p n] assms(2) [of p] by (cases n) (auto simp: nondir_iff is_directory_iff dest: shape_dir)
qed

lemma grown_solid: "grown a b \<Longrightarrow> solid a b"
  by (rule solid_nondir) (auto simp: grown_def)

lemma realpath_step:
  "realpath n tree at (Normal s # cs) =
     (case map_option shape (tree (at @ [s])) of
        None \<Rightarrow> Inl NotFound
      | Some (FsLink target) \<Rightarrow>
          (case n of 0 \<Rightarrow> Inl OtherIo | Suc m \<Rightarrow> realpath m tree at (path_components target @ cs))
      | Some (FsDir _ _) \<Rightarrow> realpath n tree (at @ [s]) cs
      | Some _ \<Rightarrow> if cs = [] then Inr (at @ [s]) else Inl OtherIo)"
  by (auto split: option.split fs_node.split)

lemma realpath_solid: "realpath n a at cs = Inr q \<Longrightarrow> solid a b \<Longrightarrow> realpath n b at cs = Inr q"
proof (induction n a at cs rule: realpath.induct)
  case (5 n a at s cs)
  from "5.prems"(1) obtain m where m: "a (at @ [s]) = Some m" by (auto split: option.splits)
  with "5.prems"(2) have "map_option shape (b (at @ [s])) = Some (shape m)" unfolding solid_def by auto
  then have "realpath n b at (Normal s # cs) =
      (case shape m of
         FsLink target \<Rightarrow> (case n of 0 \<Rightarrow> Inl OtherIo | Suc k \<Rightarrow> realpath k b at (path_components target @ cs))
       | FsDir _ _ \<Rightarrow> realpath n b (at @ [s]) cs
       | _ \<Rightarrow> if cs = [] then Inr (at @ [s]) else Inl OtherIo)"
    by (simp only: realpath_step option.case)
  with "5.prems" "5.IH" m show ?case by (cases m; cases n) auto
qed auto

definition rooted :: "authoring_env \<Rightarrow> string \<Rightarrow> fs_path \<Rightarrow> fs_tree \<Rightarrow> bool" where
  "rooted env root c tree \<longleftrightarrow> realpath MAXSYMLINKS tree (fe_cwd env) (path_components root) = Inr c"

lemma rooted_solid: "rooted env root c a \<Longrightarrow> solid a b \<Longrightarrow> rooted env root c b"
  unfolding rooted_def by (rule realpath_solid)

text \<open>A resolved path goes through no link, and resolving such a path again gives it back.\<close>

definition linkless :: "fs_tree \<Rightarrow> fs_path \<Rightarrow> bool" where
  "linkless tree p \<longleftrightarrow> (\<forall>q s target. prefix (q @ [s]) p \<longrightarrow> tree (q @ [s]) \<noteq> Some (FsLink target))"

lemma linkless_Nil [simp]: "linkless tree []"
  by (simp add: linkless_def)

lemma linkless_append: "linkless tree (p @ [s]) \<longleftrightarrow> linkless tree p \<and> (\<forall>target. tree (p @ [s]) \<noteq> Some (FsLink target))"
  by (auto simp: linkless_def)

lemma linkless_butlast: "linkless tree p \<Longrightarrow> linkless tree (butlast p)"
  by (cases p rule: rev_cases) (auto simp: linkless_append)

lemma linkless_grown: "grown a b \<Longrightarrow> linkless a p \<Longrightarrow> linkless b p"
  unfolding linkless_def grown_def by (metis dir_node_simps(3) nondir_iff)

lemma linkless_directory: "is_directory tree p \<Longrightarrow> linkless tree (butlast p) \<Longrightarrow> linkless tree p"
  by (cases p rule: rev_cases) (auto simp: linkless_append is_directory_iff)

lemma realpath_linkless: "realpath n tree at cs = Inr q \<Longrightarrow> linkless tree at \<Longrightarrow> linkless tree q"
  by (induction n tree at cs rule: realpath.induct)
    (auto simp: linkless_append linkless_butlast split: option.splits fs_node.splits nat.splits if_splits)

lemma realpath_same: "realpath n tree at (map Normal xs) = Inr q \<Longrightarrow> linkless tree (at @ xs) \<Longrightarrow> q = at @ xs"
proof (induction xs arbitrary: at)
  case (Cons s xs)
  have "prefix (at @ [s]) (at @ s # xs)" by simp
  with Cons.prems(2) have "linkless tree (at @ [s])" unfolding linkless_def by (blast intro: prefix_order.trans)
  with Cons.prems Cons.IH [of "at @ [s]"] show ?case
    by (auto simp: linkless_append split: option.splits fs_node.splits if_splits)
qed simp

lemma vc_enter_directory:
  assumes "quiet env" and "steady I tree" and "\<And>e tree'. grown tree tree' \<Longrightarrow> E e tree' temps"
    and "\<And>tree'. grown tree tree' \<Longrightarrow> is_directory tree' p \<Longrightarrow> Q () tree' temps"
  shows "vc I (enter_directory env p) Q E tree temps"
  unfolding enter_directory_def
proof (intro vc_bind vc_try vc_symlink_metadata)
  show "I tree" using assms(2) by (rule steady_refl)
  show "vc I (case Inl NotFound of Inr (FsDir _ _) \<Rightarrow> t_return () | Inr _ \<Rightarrow> t_fail AUnsafePath
      | Inl NotFound \<Rightarrow> io (create_dir env p) | Inl e \<Rightarrow> t_fail (AIo e)) Q E tree temps"
    if "tree p = None"
    using assms steadyD [OF assms(2)] that grown_dir [of tree p]
    by (auto intro!: vc_map_err vc_create_dir simp: nondir_None grown_view is_directory_iff)
qed (use assms in \<open>auto intro!: vc_fail vc_return simp: is_directory_iff split: fs_node.splits\<close>)

lemma vc_enter_directories:
  assumes "quiet env" and "steady I tree" and "\<And>e tree'. grown tree tree' \<Longrightarrow> E e tree' temps"
    and "linkless tree p"
    and "\<And>tree'. grown tree tree' \<Longrightarrow> linkless tree' (p @ segments) \<Longrightarrow> Q (p @ segments) tree' temps"
  shows "vc I (enter_directories env p segments) Q E tree temps"
  using assms
proof (induction segments arbitrary: p tree)
  case Nil
  then show ?case by (auto intro: vc_return)
next
  case (Cons segment segments)
  show ?case
    unfolding enter_directories.simps
  proof (intro vc_bind vc_enter_directory)
    fix tree1
    assume g: "grown tree tree1" "is_directory tree1 (p @ [segment])"
    have "linkless tree1 (p @ [segment])"
      by (rule linkless_directory [OF g(2)]) (simp add: linkless_grown [OF g(1) Cons.prems(4)])
    then show "vc I (enter_directories env (p @ [segment]) segments) Q E tree1 temps"
      by (rule Cons.IH [OF Cons.prems(1), rotated 2])
        (use Cons.prems(3,5) g grown_trans [OF g(1)] steady_view [OF Cons.prems(2) grown_view [OF g(1)]] in auto)
  qed (use Cons.prems in auto)
qed

lemma absolute_linkless: "path_is_absolute root \<Longrightarrow> realpath n tree at (path_components root) = Inr q \<Longrightarrow> linkless tree q"
  by (auto simp: path_is_absolute_def path_components_def Let_def intro: realpath_linkless split: if_splits)

text \<open>A destination is the canonical root followed by the names of the relative path.\<close>

lemma vc_resolve_destination:
  assumes "quiet env" and "steady I tree" and "\<And>e tree'. grown tree tree' \<Longrightarrow> E e tree' temps"
    and ok: "\<And>c tree'. grown tree tree' \<Longrightarrow> rooted env root c tree \<Longrightarrow> path_names relative \<noteq> [] \<Longrightarrow>
      linkless tree' (c @ butlast (path_names relative)) \<Longrightarrow> Q (c @ path_names relative) tree' temps"
  shows "vc I (resolve_destination env root relative) Q E tree temps"
  unfolding resolve_destination_def
proof (intro vc_if vc_bind vc_map_err vc_check vc_canonicalize vc_enter_directories vc_canonicalize_path vc_return vc_fail)
  fix c tree' q
  assume root: "\<not> (\<not> path_is_absolute root \<or> path_is_absolute relative \<or> \<not> list_all normal_component (path_components relative))"
    "realpath MAXSYMLINKS tree (fe_cwd env) (path_components root) = Inr c"
    and names: "path_components relative \<noteq> []" and g: "grown tree tree'"
  {
    assume *: "linkless tree' (c @ butlast (path_names relative))"
      "realpath MAXSYMLINKS tree' [] (map Normal (c @ butlast (path_names relative))) = Inr q"
    then have "q = c @ butlast (path_names relative)" using realpath_same by fastforce
    with ok [OF g] root names * show "Q (q @ [last (path_names relative)]) tree' temps"
      by (simp add: rooted_def path_names_def)
  }
qed (use assms steadyD [OF assms(2)] in \<open>auto intro: absolute_linkless dest: grown_view\<close>)

section \<open>Steps that only read\<close>

lemma vc_walk_existing:
  assumes "quiet env" and "I tree" and "\<And>e. E e tree temps" and "Q (p @ segments) tree temps"
  shows "vc I (walk_existing env p segments) Q E tree temps"
  using assms
proof (induction segments arbitrary: p)
  case Nil
  then show ?case by (auto intro: vc_return)
next
  case (Cons segment segments)
  show ?case
    unfolding walk_existing.simps using Cons
    by (auto intro!: vc_bind vc_map_err vc_symlink_metadata vc_check Cons.IH)
qed

lemma vc_resolve_existing:
  assumes "quiet env" and "I tree" and "\<And>e. E e tree temps"
    and "\<And>c. rooted env root c tree \<Longrightarrow> Q (c @ path_names relative) tree temps"
  shows "vc I (resolve_existing env root relative) Q E tree temps"
  unfolding resolve_existing_def using assms
  by (auto intro!: vc_bind vc_map_err vc_lift vc_canonicalize vc_walk_existing simp: rooted_def)

lemma vc_validate_destination:
  assumes "quiet env" and "I tree" and "\<And>e. E e tree temps"
    and "mode = Create \<Longrightarrow> tree p = None \<Longrightarrow> Q None tree temps"
    and "\<And>f. mode = Replace \<Longrightarrow> tree p = Some (FsFile f) \<Longrightarrow> fl_nlink f = 1 \<Longrightarrow> Q (Some f) tree temps"
  shows "vc I (validate_destination env p mode) Q E tree temps"
  unfolding validate_destination_def using assms
  by (cases mode) (auto intro!: vc_bind vc_try vc_symlink_metadata vc_if vc_fail vc_return
      simp: safe_regular_def split: fs_node.splits)

lemma vc_validate_private_destination:
  assumes "quiet env" and "I tree" and "\<And>e. E e tree temps"
    and "tree p = None \<Longrightarrow> Q None tree temps"
    and "\<And>f. tree p = Some (FsFile f) \<Longrightarrow> private_regular env (FsFile f) \<Longrightarrow> Q (Some f) tree temps"
  shows "vc I (validate_private_destination env p) Q E tree temps"
  unfolding validate_private_destination_def using assms
  by (auto intro!: vc_bind vc_try vc_symlink_metadata vc_if vc_fail vc_return split: fs_node.splits)

lemma vc_ensure_unchanged:
  assumes "quiet env" and "I tree" and "\<And>e. E e tree temps" and "Q () tree temps"
  shows "vc I (ensure_unchanged env p previous) Q E tree temps"
  unfolding ensure_unchanged_def using assms
  by (auto intro!: vc_bind vc_map_err vc_symlink_metadata vc_if vc_fail vc_return split: option.splits fs_node.splits)

lemma vc_open_nofollow_regular:
  assumes "quiet env" and "I tree" and "\<And>e. E e tree temps"
    and "\<And>f. tree p = Some (FsFile f) \<Longrightarrow> fl_nlink f = 1 \<Longrightarrow> Q () tree temps"
  shows "vc I (open_nofollow_regular env p) Q E tree temps"
  unfolding open_nofollow_regular_def using assms
  by (auto intro!: vc_bind vc_map_err vc_open_regular vc_check simp: safe_regular_def split: fs_node.splits)

lemma vc_recheck:
  assumes "quiet env" and "I tree" and "\<And>e. E e tree temps" and "Q () tree temps"
  shows "vc I (recheck env mode p previous) Q E tree temps"
  unfolding recheck_def using assms
  by (auto intro!: vc_bind vc_path_exists vc_check vc_ensure_unchanged split: write_mode.split)

lemma vc_recheck_combined:
  assumes "quiet env" and "I tree" and "\<And>e. E e tree temps" and "Q () tree temps"
  shows "vc I (recheck_combined env mode item) Q E tree temps"
  unfolding recheck_combined_def using assms
  by (auto intro!: vc_recheck vc_ensure_unchanged vc_return split: prepared_combined_write.split option.split)

lemma vc_sync_parent:
  assumes "quiet env" and "I tree" and "E ADurabilityUnknown tree temps" and "Q () tree temps"
  shows "vc I (sync_parent env p) Q E tree temps"
  unfolding sync_parent_def using assms by (auto intro!: vc_map_err vc_sync_directory)

section \<open>Digests\<close>

lemma hashing_drain_correct:
  assumes "[] \<notin> set (hr_inner r)" and "hr_bytes r = length (hr_seen r)"
    and "hr_bytes r + length (concat (hr_inner r)) < 2 ^ 64"
  shows "\<exists>r'. hashing_drain r = Inr r' \<and> hr_seen r' = hr_seen r @ concat (hr_inner r)
    \<and> hr_bytes r' = length (hr_seen r')"
  using assms
proof (induction r rule: hashing_drain.induct)
  case (1 r)
  obtain piece rest where rs: "read_some 8192 (hr_inner r) = (piece, rest)" by force
  note parts = read_some_pieces [OF rs "1.prems"(1)]
  let ?r = "\<lparr>hr_inner = rest, hr_seen = hr_seen r @ piece, hr_bytes = hr_bytes r + length piece\<rparr>"
  have read: "hashing_read 8192 r = Inr (piece, ?r)"
    using "1.prems"(3) parts(1) by (simp add: hashing_read_def rs)
  show ?case
  proof (cases "piece = []")
    case True
    with parts "1.prems" read show ?thesis by (subst hashing_drain.simps) simp
  next
    case False
    from "1.IH" [OF read refl False] "1.prems" parts
    obtain r' where "hashing_drain ?r = Inr r'" "hr_seen r' = hr_seen ?r @ concat rest"
      "hr_bytes r' = length (hr_seen r')" by auto
    with False parts(1) read show ?thesis by (subst hashing_drain.simps) simp
  qed
qed

lemma hashing_drain_new:
  assumes "[] \<notin> set input" and "length (concat input) < 2 ^ 64"
  shows "\<exists>r. hashing_drain (hashing_reader_new input) = Inr r
    \<and> hashing_finish hash r = (hash (concat input), length (concat input))"
  using hashing_drain_correct [of "hashing_reader_new input"] assms
  by (auto simp: hashing_reader_new_def hashing_finish_def)

lemma hashed_input_correct:
  "[] \<notin> set input \<Longrightarrow> length (concat input) < 2 ^ 64 \<Longrightarrow>
   hashed_input hash input = Inr (hash (concat input), length (concat input))"
  using hashing_drain_new [of input hash] by (auto simp: hashed_input_def)

lemma hashing_drain_Inr:
  "hashing_drain r = Inr r' \<Longrightarrow> [] \<notin> set (hr_inner r) \<Longrightarrow> hr_bytes r = length (hr_seen r) \<Longrightarrow>
   hr_seen r' = hr_seen r @ concat (hr_inner r) \<and> hr_bytes r' = length (hr_seen r')"
proof (induction r rule: hashing_drain.induct)
  case (1 r)
  obtain piece rest where rs: "read_some 8192 (hr_inner r) = (piece, rest)" by force
  note parts = read_some_pieces [OF rs "1.prems"(2)]
  let ?r = "\<lparr>hr_inner = rest, hr_seen = hr_seen r @ piece, hr_bytes = hr_bytes r + length piece\<rparr>"
  from "1.prems"(1) have read: "hashing_read 8192 r = Inr (piece, ?r)"
    by (subst (asm) hashing_drain.simps) (auto simp: hashing_read_def rs split: if_splits)
  show ?case
  proof (cases "piece = []")
    case True
    with parts "1.prems" read show ?thesis by (subst (asm) hashing_drain.simps) auto
  next
    case False
    with "1.prems"(1) read have "hashing_drain ?r = Inr r'" by (subst (asm) hashing_drain.simps) simp
    from "1.IH" [OF read refl False this] "1.prems" parts show ?thesis by auto
  qed
qed

lemma hashing_finish_drain:
  "hashing_drain (hashing_reader_new input) = Inr r \<Longrightarrow> [] \<notin> set input \<Longrightarrow>
   hashing_finish hash r = (hash (concat input), length (concat input))"
  using hashing_drain_Inr [of "hashing_reader_new input" r]
  by (simp add: hashing_reader_new_def hashing_finish_def)

lemma hashed_input_Inr:
  "hashed_input hash input = Inr x \<Longrightarrow> [] \<notin> set input \<Longrightarrow> x = (hash (concat input), length (concat input))"
  by (auto simp: hashed_input_def hashing_finish_drain)

lemma hash_file_loop_correct:
  "[] \<notin> set input \<Longrightarrow> hash_file_loop hash input seen = hash (seen @ concat input)"
proof (induction hash input seen rule: hash_file_loop.induct)
  case (1 hash input seen)
  obtain piece rest where rs: "read_some (64 * 1024) input = (piece, rest)" by force
  note parts = read_some_pieces [OF rs "1.prems"]
  show ?case
    using parts "1.IH" [OF rs [symmetric]] rs by (subst hash_file_loop.simps) (cases "piece = []"; simp)
qed

lemma decrypt_hashing_Inr:
  "decrypt_hashing env ciphertext identity = Inr (hash, n) \<Longrightarrow>
   \<exists>plaintext. decrypt (au_age_api env) (au_age env) (au_plugins env) (file_reader ciphertext) identity = Inr plaintext
     \<and> hash = au_blake3 env plaintext \<and> n = length plaintext"
  by (auto simp: decrypt_hashing_def hashing_write_def hashing_writer_default_def writer_hash_def split: if_splits)

lemma vc_hash_file:
  assumes "quiet env" and "I tree" and "\<And>e. E e tree temps"
    and "\<And>f. tree p = Some (FsFile f) \<Longrightarrow> Q (au_blake3 env (fl_content f)) tree temps"
  shows "vc I (hash_file env p) Q E tree temps"
  unfolding hash_file_def using assms
  by (auto intro!: vc_bind vc_map_err vc_read_content vc_return simp: hash_file_loop_correct)

lemma vc_hash_bounded_file:
  assumes "quiet env" and "I tree" and "\<And>e. E e tree temps"
    and "\<And>h. Q h tree temps"
  shows "vc I (hash_bounded_file env p maximum) Q E tree temps"
  unfolding hash_bounded_file_def using assms
  by (auto intro!: vc_bind vc_map_err vc_open_nofollow_regular vc_read_content vc_lift vc_if vc_fail vc_return
      split: prod.split)

section \<open>Staging\<close>

lemma vc_set_private:
  assumes "quiet env" and "I tree" and "\<And>e. E e tree temps"
    and "\<And>f. tree p = Some (FsFile f) \<Longrightarrow>
      I (tree(p \<mapsto> FsFile (f\<lparr>fl_mode := 0x180\<rparr>))) \<and> Q () (tree(p \<mapsto> FsFile (f\<lparr>fl_mode := 0x180\<rparr>))) temps"
  shows "vc I (set_private env p) Q E tree temps"
  unfolding set_private_def using assms
  by (auto intro!: vc_bind vc_open_regular vc_if vc_fail vc_set_mode split: fs_node.split)

lemma vc_set_private_directory:
  assumes "quiet env" and "steady I tree" and "\<And>e tree'. grown tree tree' \<Longrightarrow> E e tree' temps"
    and "\<And>tree'. grown tree tree' \<Longrightarrow> Q () tree' temps"
  shows "vc I (set_private_directory env p) Q E tree temps"
proof -
  have dir: "grown tree (tree(p \<mapsto> FsDir u 0x1C0))" if "tree p = Some (FsDir u m)" for u m
    using that by (intro grown_dir) (simp add: nondir_def)
  show ?thesis
    unfolding set_private_directory_def using assms steadyD [OF assms(2)] grown_view [OF dir] dir
    by (auto intro!: vc_bind vc_open_regular vc_if vc_fail vc_change split: fs_node.split_asm fs_node.split option.split_asm)
qed

text \<open>The staged file: a temporary file in the directory of the destination, with mode 0600.\<close>

lemma vc_open_staged:
  assumes "quiet env" and "steady I tree" and "\<And>e. E e tree temps"
    and "\<And>e s f. tree s = None \<Longrightarrow> is_temp s \<Longrightarrow> E e (tree(s \<mapsto> FsFile f)) (temps @ [s])"
    and "\<And>s f. tree s = None \<Longrightarrow> is_temp s \<Longrightarrow> fl_mode f = 0x180 \<Longrightarrow> fl_nlink f = 1 \<Longrightarrow> fl_uid f = fe_euid env
      \<Longrightarrow> is_directory tree (butlast d) \<Longrightarrow> d \<noteq> [] \<Longrightarrow> Q (butlast d, s) (tree(s \<mapsto> FsFile f)) (temps @ [s])"
  shows "vc I (open_staged env d) Q E tree temps"
proof -
  have I: "I tree" "\<And>s f. is_temp s \<Longrightarrow> I (tree(s \<mapsto> FsFile f))"
    using steadyD [OF assms(2)] by auto
  show ?thesis
    unfolding open_staged_def set_private_file_def
  proof (intro vc_bind vc_check vc_map_err vc_new_in conjI)
    fix s f
    assume s: "tree s = None" "butlast s = butlast d" "is_temp s" "is_directory tree (butlast d)" "fresh_file env 0x180 f"
      and d: "d \<noteq> []"
    show "vc I (set_mode env s 0x180) (\<lambda>_. vc I (t_return (butlast d, s)) Q E) (\<lambda>e. E (AIo e))
        (tree(s \<mapsto> FsFile f)) (temps @ [s])"
      using assms s d I by (auto intro!: vc_set_mode vc_return simp: fresh_file_def)
  qed (use assms I in auto)
qed

lemma vc_encrypt_into:
  assumes "quiet env" and "I tree" and "\<And>e. E e tree temps"
    and "\<And>t c f. tree s = Some (FsFile f) \<Longrightarrow>
      encrypt (au_age_api env) (au_age env) (au_plugins env) (au_rng env t) (concat input) recipients = Inr c \<Longrightarrow>
      I (tree(s \<mapsto> FsFile (f\<lparr>fl_content := c\<rparr>))) \<and> Q () (tree(s \<mapsto> FsFile (f\<lparr>fl_content := c\<rparr>))) temps"
  shows "vc I (encrypt_into env s input recipients) Q E tree temps"
  unfolding encrypt_into_def using assms
  by (auto intro!: vc_bind vc_clock vc_lift vc_map_err vc_write_content)

lemma vc_rekey_into:
  assumes "quiet env" and "I tree" and "\<And>e. E e tree temps"
    and "\<And>t c f g. tree s = Some (FsFile f) \<Longrightarrow> tree source = Some (FsFile g) \<Longrightarrow>
      (if legacy then rekey_migration else rekey) (au_age_api env) (au_age env) (au_plugins env) (au_rng env t)
        (file_reader (fl_content g)) identity recipients = Inr c \<Longrightarrow>
      I (tree(s \<mapsto> FsFile (f\<lparr>fl_content := c\<rparr>))) \<and> Q () (tree(s \<mapsto> FsFile (f\<lparr>fl_content := c\<rparr>))) temps"
  shows "vc I (rekey_into env s source identity recipients legacy) Q E tree temps"
  unfolding rekey_into_def using assms
  by (auto intro!: vc_bind vc_clock vc_lift vc_map_err vc_read_content vc_write_content simp del: if_split)

lemma vc_verify_staged:
  assumes "quiet env" and "I tree" and "\<And>e. E e tree temps"
    and "\<And>f plaintext. tree s = Some (FsFile f) \<Longrightarrow>
      decrypt (au_age_api env) (au_age env) (au_plugins env) (file_reader (fl_content f)) identity = Inr plaintext \<Longrightarrow>
      Q (au_blake3 env plaintext, length plaintext) tree temps"
  shows "vc I (verify_staged env s identity) Q E tree temps"
  unfolding verify_staged_def using assms
  by (auto intro!: vc_bind vc_map_err vc_rewind vc_read_content vc_lift dest!: decrypt_hashing_Inr)

lemma vc_hash_staged:
  assumes "quiet env" and "I tree" and "\<And>e. E e tree temps"
    and "\<And>f. tree s = Some (FsFile f) \<Longrightarrow> Q (au_blake3 env (fl_content f)) tree temps"
  shows "vc I (hash_staged env s) Q E tree temps"
  unfolding hash_staged_def using assms by (auto intro!: vc_bind vc_map_err vc_rewind vc_hash_file)

section \<open>The lock\<close>

text \<open>A run that gets past the lock has resolved the root.\<close>

lemma vc_acquire_repository_lock:
  assumes "quiet env" and "steady I tree" and err: "\<And>e tree'. view tree' = view tree \<Longrightarrow> solid tree tree' \<Longrightarrow> E e tree' temps"
    and ok: "\<And>c tree'. view tree' = view tree \<Longrightarrow> solid tree tree' \<Longrightarrow> rooted env root c tree \<Longrightarrow> Q () tree' temps"
  shows "vc I (acquire_repository_lock env root) Q E tree temps"
proof -
  have lock: "managed (r @ [LOCK_NAME])" for r by (simp add: managed_def)
  note I = steadyD [OF assms(2)]
  have rest: "vc I (secure_lock env (r @ [LOCK_NAME]) n) Q E tree' temps"
    if "view tree' = view tree" "solid tree tree'" "rooted env root c tree" "tree' (r @ [LOCK_NAME]) = Some n" for n r c tree'
    unfolding secure_lock_def using assms I lock that solid_trans [OF that(2) solid_file]
    by (auto intro!: vc_if vc_fail vc_bind vc_map_err vc_set_mode vc_query split: fs_node.split)
  have "vc I (open_lock env (r @ [LOCK_NAME])) (\<lambda>n. vc I (secure_lock env (r @ [LOCK_NAME]) n) Q E)
      (\<lambda>e. E (AIo e)) tree temps" if "rooted env root c tree" for r c
    unfolding open_lock_def using assms(1,2) err I lock that solid_file
    by (intro vc_sys) (auto simp: Let_def intro!: rest split: option.splits fs_node.splits if_splits)
  with assms(1) err I show ?thesis
    unfolding acquire_repository_lock_def open_directory_nofollow_def
    by (auto intro!: vc_bind vc_map_err vc_canonicalize vc_symlink_metadata vc_check vc_query simp: rooted_def split: if_splits)
qed

section \<open>Staged trees\<close>

text \<open>From one tree to another with more live temporary files: everything else is as before, up
  to new directories.\<close>

definition stages :: "fs_tree \<Rightarrow> fs_path list \<Rightarrow> fs_tree \<Rightarrow> fs_path list \<Rightarrow> bool" where
  "stages a ps b qs \<longleftrightarrow>
     (\<exists>new. qs = ps @ new \<and> distinct new \<and> (\<forall>p. is_directory a p \<longrightarrow> is_directory b p)
       \<and> (\<forall>p. p \<notin> set new \<longrightarrow> nondir b p = nondir a p)
       \<and> (\<forall>s \<in> set new. a s = None \<and> is_temp s \<and> nondir b s \<noteq> None))"

lemma stages_grown: "grown a b \<Longrightarrow> stages a ps b ps"
  by (simp add: stages_def grown_def)

lemma stages_refl [simp, intro]: "stages a ps a ps"
  by (simp add: stages_grown)

lemma stages_temp: "grown a b \<Longrightarrow> b s = None \<Longrightarrow> is_temp s \<Longrightarrow> stages a ps (b(s \<mapsto> FsFile f)) (ps @ [s])"
proof -
  assume g: "grown a b" and s: "b s = None" "is_temp s"
  then have "nondir a s = None" "\<not> is_directory a s"
    unfolding grown_def using nondir_None [of b s] by (auto simp: is_directory_def)
  then have "a s = None" by (simp add: nondir_None)
  with g s show ?thesis by (auto simp: stages_def grown_def is_directory_def)
qed

lemma stages_kept: "stages a ps b qs \<Longrightarrow> nondir a p = Some n \<Longrightarrow> nondir b p = Some n"
  unfolding stages_def using nondir_None [of a p] by fastforce

lemma stages_absent: "stages a ps b qs \<Longrightarrow> b s = None \<Longrightarrow> a s = None"
  unfolding stages_def using nondir_None [of a s] nondir_None [of b s]
  by (metis is_directory_def nondir_iff not_None_eq option.simps(4))

lemma stages_trans: "stages a ps b qs \<Longrightarrow> stages b qs c rs \<Longrightarrow> stages a ps c rs"
proof -
  assume ab: "stages a ps b qs" and bc: "stages b qs c rs"
  from ab obtain n1 where n1: "qs = ps @ n1" "distinct n1" "\<And>p. is_directory a p \<Longrightarrow> is_directory b p"
    "\<And>p. p \<notin> set n1 \<Longrightarrow> nondir b p = nondir a p" "\<And>s. s \<in> set n1 \<Longrightarrow> a s = None \<and> is_temp s \<and> nondir b s \<noteq> None"
    unfolding stages_def by blast
  from bc obtain n2 where n2: "rs = qs @ n2" "distinct n2" "\<And>p. is_directory b p \<Longrightarrow> is_directory c p"
    "\<And>p. p \<notin> set n2 \<Longrightarrow> nondir c p = nondir b p" "\<And>s. s \<in> set n2 \<Longrightarrow> b s = None \<and> is_temp s \<and> nondir c s \<noteq> None"
    unfolding stages_def by blast
  have disjoint: "set n1 \<inter> set n2 = {}" using n1(5) n2(5) by (metis disjoint_iff nondir_None)
  have fresh: "\<And>s. s \<in> set n2 \<Longrightarrow> a s = None" using n2(5) stages_absent [OF ab] by blast
  show ?thesis
    unfolding stages_def
    using n1 n2 disjoint fresh by (intro exI [of _ "n1 @ n2"]) (auto, metis disjoint_iff)
qed

lemma stages_solid: "stages a ps b qs \<Longrightarrow> solid a b"
  by (rule solid_nondir, erule (1) stages_kept) (auto simp: stages_def)

lemma stages_view: "stages a ps b qs \<Longrightarrow> view b = view a"
  unfolding stages_def by (metis temp_managed view_cong)

lemma stages_unmanaged: "stages a ps b qs \<Longrightarrow> \<not> managed p \<Longrightarrow> nondir b p = nondir a p"
  unfolding stages_def by (metis temp_managed)

lemma stages_temps: "stages a ps b qs \<Longrightarrow> \<forall>p \<in> set ps. is_temp p \<Longrightarrow> \<forall>p \<in> set qs. is_temp p"
  unfolding stages_def by auto

end
