(* ===== verification/Authoring_Prepare.thy ===== *)
theory Authoring_Prepare
  imports Authoring_Lemmas
begin

text \<open>
  What the first half of a transaction on several files leaves: verified staged files for all of its
  outputs, with no entry of the repository changed.
\<close>

definition reserved_name :: "string \<Rightarrow> bool" where
  "reserved_name name \<longleftrightarrow> starts_with name ''.tmp'' \<or> name = LOCK_NAME"

definition relative_name :: "string \<Rightarrow> string" where
  "relative_name relative = last (path_names relative)"

lemma managed_iff: "p \<noteq> [] \<Longrightarrow> managed p \<longleftrightarrow> reserved_name (last p)"
  by (simp add: managed_def is_temp_def reserved_name_def)

text \<open>The staged file of an item, and what the destination of an item has to be.\<close>

definition staged_with :: "fs_tree \<Rightarrow> 'x prepared_private_write_scheme \<Rightarrow> (fs_file \<Rightarrow> bool) \<Rightarrow> bool" where
  "staged_with tree item W \<longleftrightarrow>
     (\<exists>s f. pw_staged item = Some s \<and> is_temp s \<and> tree s = Some (FsFile f) \<and> W f)"

definition destination_ok :: "bool \<Rightarrow> fs_tree \<Rightarrow> fs_path \<Rightarrow> bool" where
  "destination_ok present tree p \<longleftrightarrow> \<not> managed p \<and> (nondir tree p \<noteq> None \<longleftrightarrow> present)"

lemma staged_with_stages: "stages a ps b qs \<Longrightarrow> staged_with a item W \<Longrightarrow> staged_with b item W"
  unfolding staged_with_def using stages_kept [of a ps b qs _ "FsFile _"] by (fastforce simp: nondir_iff)

lemma destination_ok_stages: "stages a ps b qs \<Longrightarrow> destination_ok present a p \<Longrightarrow> destination_ok present b p"
  unfolding destination_ok_def using stages_unmanaged [of a ps b qs p] by simp

text \<open>A sealed file the verification identity opens to a plaintext with this digest and length.\<close>

definition sealed_as :: "authoring_env \<Rightarrow> string \<Rightarrow> bytes \<Rightarrow> fs_file \<Rightarrow> bool" where
  "sealed_as env identity plaintext f \<longleftrightarrow>
     (\<exists>p. decrypt (au_age_api env) (au_age env) (au_plugins env) (file_reader (fl_content f)) identity = Inr p
       \<and> au_blake3 env p = au_blake3 env plaintext \<and> length p = length plaintext)"

definition private_file :: "authoring_env \<Rightarrow> fs_file \<Rightarrow> bool" where
  "private_file env f \<longleftrightarrow> fl_mode f = 0x180 \<and> fl_nlink f = 1 \<and> fl_uid f = fe_euid env"

text \<open>The contract of a step: \<open>R\<close> of the write, the item and the tree, nothing but staging, a fresh
  temporary file, and the named destination, which was not taken.\<close>

definition prepares ::
  "(fs_tree \<Rightarrow> bool) \<Rightarrow> (world, authoring_error, 'i) traced \<Rightarrow> ('i \<Rightarrow> fs_path) \<Rightarrow> ('i \<Rightarrow> fs_path option) \<Rightarrow> fs_path set
    \<Rightarrow> fs_path \<Rightarrow> ('i \<Rightarrow> fs_tree \<Rightarrow> bool) \<Rightarrow> fs_tree \<Rightarrow> fs_path list \<Rightarrow> bool" where
  "prepares I m destination staged taken name R tree temps \<longleftrightarrow>
     vc I m
       (\<lambda>item tree' temps'. stages tree temps tree' temps' \<and> R item tree' \<and> destination item = name \<and> name \<notin> taken
          \<and> (\<forall>s. staged item = Some s \<longrightarrow> tree s = None))
       (\<lambda>e tree' temps'. stages tree temps tree' temps') tree temps"

lemma grown_absent: "grown a b \<Longrightarrow> b s = None \<Longrightarrow> a s = None"
  by (rule stages_absent [OF stages_grown])

text \<open>The beginning all steps share, with the rest of the step as a continuation.\<close>

lemma steady_grown: "steady I a \<Longrightarrow> grown a b \<Longrightarrow> steady I b"
  using steady_view grown_view by blast

lemma vc_begin:
  assumes "quiet env" and "steady I tree" and name: "\<not> reserved_name (relative_name relative)" and root: "rooted env root c tree"
    and err: "\<And>e tree'. grown tree tree' \<Longrightarrow> E e tree' temps"
    and ok: "\<And>d tree'. grown tree tree' \<Longrightarrow> d \<noteq> [] \<Longrightarrow> \<not> managed d \<Longrightarrow> d = c @ path_names relative \<Longrightarrow> steady I tree' \<Longrightarrow>
      vc I (m d) Q E tree' temps"
  shows "vc I (t_bind (resolve_destination env root relative) m) Q E tree temps"
proof (rule vc_bind, rule vc_resolve_destination [OF assms(1,2)])
  fix c' tree'
  assume "grown tree tree'" "rooted env root c' tree" "path_names relative \<noteq> []"
  moreover from this root have "c' = c" by (simp add: rooted_def)
  ultimately show "vc I (m (c' @ path_names relative)) Q E tree' temps"
    using name steady_grown [OF assms(2)] by (intro ok) (auto simp: managed_iff relative_name_def)
qed (rule err)

text \<open>A staged file and the rest of the step, which works on that file only.\<close>

lemma vc_with_staged:
  assumes "quiet env" and "steady I tree1" and "grown tree tree1"
    and err: "\<And>e tree' temps'. stages tree temps tree' temps' \<Longrightarrow> E e tree' temps'"
    and ok: "\<And>s f. tree1 s = None \<Longrightarrow> tree s = None \<Longrightarrow> is_temp s \<Longrightarrow> private_file env f \<Longrightarrow>
      (\<And>g. I (tree1(s \<mapsto> FsFile g))) \<Longrightarrow> (\<And>g. stages tree temps (tree1(s \<mapsto> FsFile g)) (temps @ [s])) \<Longrightarrow>
      vc I (m (butlast d, s)) Q E (tree1(s \<mapsto> FsFile f)) (temps @ [s])"
  shows "vc I (t_bind (open_staged env d) m) Q E tree1 temps"
proof (intro vc_bind vc_open_staged)
  fix s and f :: fs_file
  assume s: "tree1 s = None" "is_temp s" and f: "fl_mode f = 0x180" "fl_nlink f = 1" "fl_uid f = fe_euid env"
  have "I (tree1(s \<mapsto> FsFile g))" for g using s(2) by (intro steadyD [OF assms(2)]) simp
  with s f show "vc I (m (butlast d, s)) Q E (tree1(s \<mapsto> FsFile f)) (temps @ [s])"
    by (intro ok grown_absent [OF assms(3)] stages_temp [OF assms(3)]) (auto simp: private_file_def)
qed (use assms stages_temp [OF assms(3)] stages_grown [OF assms(3)] in auto)

lemma destination_ok_staged:
  "is_temp s \<Longrightarrow> \<not> managed d \<Longrightarrow> destination_ok b (tree(s \<mapsto> FsFile f)) d = destination_ok b tree d"
  by (auto simp: destination_ok_def)

lemma vc_stage_destination:
  assumes "quiet env" and "steady I tree1" and "grown tree tree1" and d: "\<not> managed d"
    and err: "\<And>e tree' temps'. stages tree temps tree' temps' \<Longrightarrow> E e tree' temps'"
    and ok: "\<And>previous s f. tree s = None \<Longrightarrow> is_temp s \<Longrightarrow> private_file env f \<Longrightarrow> tree1 s = None \<Longrightarrow>
      (\<And>g. I (tree1(s \<mapsto> FsFile g))) \<Longrightarrow> (\<And>g. stages tree temps (tree1(s \<mapsto> FsFile g)) (temps @ [s])) \<Longrightarrow>
      (\<And>g. destination_ok (mode = Replace) (tree1(s \<mapsto> FsFile g)) d) \<Longrightarrow>
      vc I (m previous (butlast d, s)) Q E (tree1(s \<mapsto> FsFile f)) (temps @ [s])"
  shows "vc I (t_bind (validate_destination env d mode) (\<lambda>previous. t_bind (open_staged env d) (m previous))) Q E tree1 temps"
proof -
  have "vc I (t_bind (open_staged env d) (m previous)) Q E tree1 temps"
    if "destination_ok (mode = Replace) tree1 d" for previous
    using that d by (intro vc_with_staged [OF assms(1-3) err] ok) (auto simp: destination_ok_staged)
  with assms(1) err stages_grown [OF assms(3)] steady_refl [OF assms(2)] d show ?thesis
    by (cases mode) (auto intro!: vc_bind [OF vc_validate_destination] simp: destination_ok_def nondir_def)
qed

lemma private_file_content [simp]: "private_file env (f\<lparr>fl_content := c\<rparr>) = private_file env f"
  by (simp add: private_file_def)

lemmas vc_steps = vc_bind vc_map_err vc_lift vc_check vc_return vc_sync_file

section \<open>Secrets\<close>

definition secret_ready ::
  "authoring_env \<Rightarrow> string \<Rightarrow> write_mode \<Rightarrow> bytes \<Rightarrow> prepared_batch_write \<Rightarrow> fs_tree \<Rightarrow> bool" where
  "secret_ready env identity mode plaintext item tree \<longleftrightarrow>
     destination_ok (mode = Replace) tree (pw_destination item)
     \<and> staged_with tree item (\<lambda>f. private_file env f \<and> sealed_as env identity plaintext f
         \<and> pw_result item = \<lparr>ar_path = pw_destination item, ar_hash = au_blake3 env (fl_content f),
             ar_plaintext_bytes = length plaintext\<rparr>)"

lemma vc_seal_staged:
  assumes "quiet env" and "tree s = Some (FsFile f)" and "[] \<notin> set input" and "I tree"
    and I: "\<And>g. I (tree(s \<mapsto> FsFile g))"
    and err: "\<And>e. E e tree temps" "\<And>e g. E e (tree(s \<mapsto> FsFile g)) temps"
    and ok: "\<And>c. sealed_as env identity (concat input) (f\<lparr>fl_content := c\<rparr>) \<Longrightarrow>
      Q (au_blake3 env c, length (concat input)) (tree(s \<mapsto> FsFile (f\<lparr>fl_content := c\<rparr>))) temps"
  shows "vc I (seal_staged env s input recipients identity) Q E tree temps"
  unfolding seal_staged_def using assms
  by (auto intro!: vc_steps vc_encrypt_into vc_verify_staged vc_hash_staged ok dest!: hashed_input_Inr
      simp: sealed_as_def)

lemma prepare_batch_write_ok:
  assumes "quiet env" and "steady I tree" and "\<not> reserved_name (relative_name (bs_destination write))"
    and root: "rooted env root c tree"
  shows "prepares I (prepare_batch_write env root identity mode taken write) pw_destination pw_staged taken
    (c @ path_names (bs_destination write)) (secret_ready env identity mode (bs_plaintext write)) tree temps"
  unfolding prepares_def prepare_batch_write_def
proof (rule vc_bind, rule vc_check, rule vc_begin [OF assms], goal_cases)
  case (2 d tree1)
  show ?case
    using 2 assms(1) stages_grown [OF \<open>grown tree tree1\<close>]
    by (intro vc_bind [OF vc_check] vc_stage_destination [OF assms(1) \<open>steady I tree1\<close> \<open>grown tree tree1\<close>])
      (auto intro!: vc_bind vc_seal_staged vc_return simp: secret_ready_def staged_with_def)
qed (use assms stages_grown in auto)

section \<open>Items read from files\<close>

abbreviation opens_with :: "authoring_env \<Rightarrow> string \<Rightarrow> fs_file \<Rightarrow> bytes \<Rightarrow> bool" where
  "opens_with env identity f p \<equiv>
     decrypt (au_age_api env) (au_age env) (au_plugins env) (file_reader (fl_content f)) identity = Inr p"

text \<open>The staged file is the rekeyed source, and the verification identity opens it.\<close>

definition rekeyed_ready ::
  "authoring_env \<Rightarrow> string \<Rightarrow> string \<Rightarrow> write_mode \<Rightarrow> bool \<Rightarrow> fs_path \<Rightarrow> string list \<Rightarrow> sourced_write \<Rightarrow> fs_tree \<Rightarrow> bool" where
  "rekeyed_ready env source_identity identity mode legacy path recipients = (\<lambda>(item, source, _) tree.
     source = path \<and> destination_ok (mode = Replace) tree (pw_destination item)
     \<and> staged_with tree item (\<lambda>f. private_file env f
         \<and> (\<exists>g t p. tree source = Some (FsFile g)
             \<and> (if legacy then rekey_migration else rekey) (au_age_api env) (au_age env) (au_plugins env) (au_rng env t)
                 (file_reader (fl_content g)) source_identity recipients = Inr (fl_content f)
             \<and> opens_with env identity f p
             \<and> pw_result item = \<lparr>ar_path = pw_destination item, ar_hash = au_blake3 env (fl_content f),
                 ar_plaintext_bytes = length p\<rparr>)))"

abbreviation sw_destination :: "sourced_write \<Rightarrow> fs_path" where
  "sw_destination w \<equiv> pw_destination (fst w)"

abbreviation sw_staged :: "sourced_write \<Rightarrow> fs_path option" where
  "sw_staged w \<equiv> pw_staged (fst w)"

lemma prepare_rekey_write_ok:
  assumes "quiet env" and "steady I tree" and "\<not> reserved_name (relative_name (br_destination write))"
    and root: "rooted env root c tree"
  shows "prepares I (prepare_rekey_write env root source_identity identity mode legacy taken write)
    sw_destination sw_staged (snd taken) (c @ path_names (br_destination write))
    (rekeyed_ready env source_identity identity mode legacy (c @ path_names (br_source write)) (br_recipients write)) tree temps"
  unfolding prepares_def prepare_rekey_write_def
proof (intro vc_bind [OF vc_check] vc_bind [OF vc_resolve_existing] vc_bind [OF vc_map_err] vc_symlink_metadata
    vc_begin [OF assms], goal_cases)
  case (9 c' metadata d tree1)
  then have c': "c' = c" using root by (simp add: rooted_def)
  define source where "source = c @ path_names (br_source write)"
  note 9 = 9 [unfolded c', folded source_def]
  have "source \<noteq> s" if "tree1 s = None" for s
    using 9 that grown_absent [of tree tree1 s] by auto
  with 9 assms(1) stages_grown [OF \<open>grown tree tree1\<close>] show ?case
    unfolding c' source_def [symmetric]
    by (intro vc_bind [OF vc_check] vc_stage_destination [OF assms(1) \<open>steady I tree1\<close> \<open>grown tree tree1\<close>])
      (auto intro!: vc_hash_bounded_file vc_open_nofollow_regular vc_rekey_into vc_verify_staged vc_hash_staged vc_steps
        simp: rekeyed_ready_def staged_with_def; blast)+
qed (use assms stages_grown steady_refl [OF assms(2)] in auto)

text \<open>The staged file seals the content of the source.\<close>

definition file_sealed_ready ::
  "authoring_env \<Rightarrow> string \<Rightarrow> write_mode \<Rightarrow> fs_path \<Rightarrow> sourced_write \<Rightarrow> fs_tree \<Rightarrow> bool" where
  "file_sealed_ready env identity mode path = (\<lambda>(item, source, _) tree.
     source = path \<and> destination_ok (mode = Replace) tree (pw_destination item)
     \<and> staged_with tree item (\<lambda>f. private_file env f
         \<and> (\<exists>g. tree source = Some (FsFile g) \<and> sealed_as env identity (fl_content g) f
             \<and> pw_result item = \<lparr>ar_path = pw_destination item, ar_hash = au_blake3 env (fl_content f),
                 ar_plaintext_bytes = length (fl_content g)\<rparr>)))"

lemma limited_whole: "length (concat (file_reader (take (Suc n) c))) \<le> n \<Longrightarrow> concat (file_reader (take (Suc n) c)) = c"
  by simp

lemma prepare_file_write_ok:
  assumes "quiet env" and "steady I tree" and "\<not> reserved_name (relative_name (br_destination write))"
    and root: "rooted env root c tree"
  shows "prepares I (prepare_file_write env root identity mode taken write) sw_destination sw_staged (snd taken)
    (c @ path_names (br_destination write)) (file_sealed_ready env identity mode (c @ path_names (br_source write))) tree temps"
  unfolding prepares_def prepare_file_write_def
proof (intro vc_bind [OF vc_check] vc_bind [OF vc_resolve_existing] vc_bind [OF vc_map_err] vc_symlink_metadata
    vc_begin [OF assms], goal_cases)
  case (9 c' metadata d tree1)
  then have c': "c' = c" using root by (simp add: rooted_def)
  define source where "source = c @ path_names (br_source write)"
  note 9 = 9 [unfolded c', folded source_def]
  have "source \<noteq> s" if "tree1 s = None" for s
    using 9 that grown_absent [of tree tree1 s] by auto
  with 9 assms(1) stages_grown [OF \<open>grown tree tree1\<close>] show ?case
    unfolding read_limited_def c' source_def [symmetric]
    by (intro vc_bind [OF vc_check] vc_stage_destination [OF assms(1) \<open>steady I tree1\<close> \<open>grown tree tree1\<close>])
      (auto intro!: vc_open_nofollow_regular vc_read_content vc_encrypt_into vc_hash_bounded_file vc_verify_staged
        vc_hash_staged vc_steps dest!: hashed_input_Inr simp: file_sealed_ready_def staged_with_def sealed_as_def)
qed (use assms stages_grown steady_refl [OF assms(2)] in auto)

section \<open>Public and private outputs\<close>

definition public_ready :: "authoring_env \<Rightarrow> write_mode \<Rightarrow> bytes \<Rightarrow> prepared_public_write \<Rightarrow> fs_tree \<Rightarrow> bool" where
  "public_ready env mode content item tree \<longleftrightarrow>
     destination_ok (mode = Replace) tree (pw_destination item)
     \<and> staged_with tree item (\<lambda>f. private_file env f \<and> fl_content f = content)
     \<and> pw_result item = \<lparr>ar_path = pw_destination item, ar_hash = au_blake3 env content,
         ar_plaintext_bytes = length content\<rparr>"

definition public_file_ready :: "authoring_env \<Rightarrow> write_mode \<Rightarrow> fs_path \<Rightarrow> sourced_write \<Rightarrow> fs_tree \<Rightarrow> bool" where
  "public_file_ready env mode path = (\<lambda>(item, source, _) tree.
     source = path \<and> (\<exists>g. tree source = Some (FsFile g) \<and> public_ready env mode (fl_content g) item tree))"

lemma prepare_public_file_ok:
  assumes "quiet env" and "steady I tree" and "\<not> reserved_name (relative_name (bf_destination write))"
    and root: "rooted env root c tree"
  shows "prepares I (prepare_public_file env root mode taken write) sw_destination sw_staged (snd taken)
    (c @ path_names (bf_destination write)) (public_file_ready env mode (c @ path_names (bf_source write))) tree temps"
  unfolding prepares_def prepare_public_file_def
proof (intro vc_bind [OF vc_check] vc_bind [OF vc_resolve_existing] vc_bind [OF vc_map_err] vc_symlink_metadata
    vc_begin [OF assms], goal_cases)
  case (9 c' metadata d tree1)
  then have c': "c' = c" using root by (simp add: rooted_def)
  define source where "source = c @ path_names (bf_source write)"
  note 9 = 9 [unfolded c', folded source_def]
  have "source \<noteq> s" if "tree1 s = None" for s
    using 9 that grown_absent [of tree tree1 s] by auto
  with 9 assms(1) stages_grown [OF \<open>grown tree tree1\<close>] show ?case
    unfolding read_limited_def c' source_def [symmetric]
    by (intro vc_bind [OF vc_check] vc_stage_destination [OF assms(1) \<open>steady I tree1\<close> \<open>grown tree tree1\<close>])
      (auto intro!: vc_open_nofollow_regular vc_read_content vc_write_content vc_hash_bounded_file vc_steps
        simp: public_file_ready_def public_ready_def staged_with_def hashing_finish_drain)
qed (use assms stages_grown steady_refl [OF assms(2)] in auto)

lemma prepare_public_write_ok:
  assumes "quiet env" and "steady I tree" and "\<not> reserved_name (relative_name (bp_destination write))"
    and root: "rooted env root c tree"
  shows "prepares I (prepare_public_write env root mode taken write) pw_destination pw_staged taken
    (c @ path_names (bp_destination write)) (public_ready env mode (bp_plaintext write)) tree temps"
  unfolding prepares_def prepare_public_write_def
proof (rule vc_bind, rule vc_check, rule vc_begin [OF assms], goal_cases)
  case (2 d tree1)
  show ?case
    using 2 assms(1) stages_grown [OF \<open>grown tree tree1\<close>]
    by (intro vc_bind [OF vc_check] vc_stage_destination [OF assms(1) \<open>steady I tree1\<close> \<open>grown tree tree1\<close>])
      (auto intro!: vc_write_content vc_hash_staged vc_steps simp: public_ready_def staged_with_def)
qed (use assms stages_grown in auto)

text \<open>A private item is prepared for what it found: a private file or nothing.\<close>

definition private_ready :: "authoring_env \<Rightarrow> bytes \<Rightarrow> prepared_private_write \<Rightarrow> fs_tree \<Rightarrow> bool" where
  "private_ready env content item tree \<longleftrightarrow>
     destination_ok (pw_previous item \<noteq> None) tree (pw_destination item)
     \<and> staged_with tree item (\<lambda>f. private_file env f \<and> fl_content f = content)"

definition delete_ready :: "prepared_private_delete \<Rightarrow> fs_tree \<Rightarrow> bool" where
  "delete_ready item tree \<longleftrightarrow> destination_ok (pw_previous item \<noteq> None) tree (pw_destination item)"

lemma vc_private_destination:
  assumes "quiet env" and "steady I tree1" and g: "grown tree tree1" and d: "\<not> managed d"
    and err: "\<And>e tree'. grown tree tree' \<Longrightarrow> E e tree' temps"
    and ok: "\<And>previous tree2. grown tree tree2 \<Longrightarrow> steady I tree2 \<Longrightarrow> destination_ok (previous \<noteq> None) tree2 d \<Longrightarrow>
      vc I (m previous) Q E tree2 temps"
  shows "vc I (t_bind (validate_private_destination env d) (\<lambda>previous.
    t_bind (io (set_private_directory env p)) (\<lambda>_. m previous))) Q E tree1 temps"
proof (intro vc_bind vc_map_err vc_validate_private_destination vc_set_private_directory)
  show "E e tree' temps" if "grown tree1 tree'" for e tree'
    using grown_trans [OF g that] by (rule err)
  then show "\<And>e tree'. grown tree1 tree' \<Longrightarrow> E (AIo e) tree' temps" "\<And>e. E e tree1 temps" by auto
  show "vc I (m None) Q E tree2 temps" if "tree1 d = None" "grown tree1 tree2" for tree2
    using that d by (intro ok grown_trans [OF g] steady_grown [OF assms(2)]) (auto simp: destination_ok_def grown_def nondir_def)
  show "vc I (m (Some f)) Q E tree2 temps" if "tree1 d = Some (FsFile f)" "grown tree1 tree2" for f tree2
    using that d by (intro ok grown_trans [OF g] steady_grown [OF assms(2)]) (auto simp: destination_ok_def grown_def nondir_def)
qed (use assms steady_refl in auto)

lemma prepare_private_write_ok:
  assumes "quiet env" and "steady I tree" and "\<not> reserved_name (relative_name (bp_destination write))"
    and root: "rooted env root c tree"
  shows "prepares I (prepare_private_write env root taken write) pw_destination pw_staged taken
    (c @ path_names (bp_destination write)) (private_ready env (bp_plaintext write)) tree temps"
  unfolding prepares_def prepare_private_write_def
proof (rule vc_bind, rule vc_check, rule vc_begin [OF assms], goal_cases)
  case (2 d tree1)
  show ?case
    using 2 assms(1) stages_grown
    by (intro vc_bind [OF vc_check] vc_private_destination [OF assms(1) \<open>steady I tree1\<close> \<open>grown tree tree1\<close>]
        vc_with_staged [OF assms(1)])
      (auto intro!: vc_write_content vc_steps simp: private_ready_def staged_with_def destination_ok_staged)
qed (use assms stages_grown in auto)

lemma prepare_private_delete_ok:
  assumes "quiet env" and "steady I tree" and "\<not> reserved_name (relative_name relative)"
    and root: "rooted env root c tree"
  shows "prepares I (prepare_private_delete env root taken relative) pw_destination (\<lambda>_. None) taken
    (c @ path_names relative) delete_ready tree temps"
  unfolding prepares_def prepare_private_delete_def
proof (rule vc_begin [OF assms], goal_cases)
  case (2 d tree1)
  show ?case
    using 2 assms(1) stages_grown
    by (intro vc_bind [OF vc_check] vc_private_destination [OF assms(1) \<open>steady I tree1\<close> \<open>grown tree tree1\<close>])
      (auto intro!: vc_return simp: delete_ready_def)
qed (use assms stages_grown in auto)

section \<open>The loops\<close>

definition prepared_all ::
  "('i \<Rightarrow> fs_path) \<Rightarrow> ('i \<Rightarrow> fs_path option) \<Rightarrow> ('w \<Rightarrow> fs_path) \<Rightarrow> ('w \<Rightarrow> 'i \<Rightarrow> fs_tree \<Rightarrow> bool) \<Rightarrow> 'w list \<Rightarrow> fs_path set
    \<Rightarrow> fs_tree \<Rightarrow> 'i list \<Rightarrow> fs_tree \<Rightarrow> bool" where
  "prepared_all destination staged name R writes taken tree prepared tree' \<longleftrightarrow>
     list_all2 (\<lambda>w i. R w i tree' \<and> destination i = name w) writes prepared
     \<and> distinct (map destination prepared) \<and> destination ` set prepared \<inter> taken = {}
     \<and> distinct (List.map_filter staged prepared) \<and> (\<forall>s \<in> set (List.map_filter staged prepared). tree s = None)"

lemma map_filter_append [simp]: "List.map_filter f (xs @ ys) = List.map_filter f xs @ List.map_filter f ys"
  by (simp add: List.map_filter_def)

lemma map_filter_map [simp]: "List.map_filter f (map g xs) = List.map_filter (\<lambda>x. f (g x)) xs"
  by (induction xs) (auto simp: map_filter_simps split: option.split)

lemma vc_prepare_loop:
  assumes step: "\<And>taken w tree temps. w \<in> set writes \<Longrightarrow> steady I tree \<Longrightarrow> K tree \<Longrightarrow>
      prepares I (step taken w) destination staged (names taken) (name w) (R w) tree temps"
    and stable: "\<And>w i tree tree' temps temps'. stages tree temps tree' temps' \<Longrightarrow> R w i tree \<Longrightarrow> R w i tree'"
    and used: "\<And>w i tree s. R w i tree \<Longrightarrow> staged i = Some s \<Longrightarrow> tree s \<noteq> None"
    and names: "\<And>i taken. names (take_up i taken) = insert (destination i) (names taken)"
    and kept: "\<And>tree tree' temps temps'. stages tree temps tree' temps' \<Longrightarrow> K tree \<Longrightarrow> K tree'"
    and steady: "steady I tree" and "K tree"
  shows "vc I (prepare_loop step take_up taken writes)
    (\<lambda>prepared tree' temps'. stages tree temps tree' temps'
       \<and> prepared_all destination staged name R writes (names taken) tree prepared tree')
    (\<lambda>e tree' temps'. stages tree temps tree' temps') tree temps"
  using step steady \<open>K tree\<close>
proof (induction writes arbitrary: taken tree temps)
  case Nil
  then show ?case by (auto intro: vc_return simp: prepared_all_def)
next
  case (Cons w writes)
  show ?case
    unfolding prepare_loop.simps
  proof (rule vc_bind, rule vc_mono [OF Cons.prems(1) [unfolded prepares_def]])
    fix item tree1 temps1
    assume item: "stages tree temps tree1 temps1 \<and> R w item tree1 \<and> destination item = name w \<and> name w \<notin> names taken
      \<and> (\<forall>s. staged item = Some s \<longrightarrow> tree s = None)"
    then have "steady I tree1" "K tree1" using steady_view [OF Cons.prems(2)] stages_view kept Cons.prems(3) by blast+
    then have "vc I (prepare_loop step take_up (take_up item taken) writes)
        (\<lambda>prepared tree' temps'. stages tree1 temps1 tree' temps'
          \<and> prepared_all destination staged name R writes (names (take_up item taken)) tree1 prepared tree')
        (\<lambda>e tree' temps'. stages tree1 temps1 tree' temps') tree1 temps1"
      using Cons.prems(1) by (intro Cons.IH) auto
    then show "vc I (t_bind (prepare_loop step take_up (take_up item taken) writes) (\<lambda>prepared. t_return (item # prepared)))
        (\<lambda>prepared tree' temps'. stages tree temps tree' temps'
          \<and> prepared_all destination staged name R (w # writes) (names taken) tree prepared tree')
        (\<lambda>e tree' temps'. stages tree temps tree' temps') tree1 temps1"
    proof (rule vc_bind [OF vc_mono], intro vc_return)
      fix prepared tree2 temps2
      assume rest: "stages tree1 temps1 tree2 temps2
        \<and> prepared_all destination staged name R writes (names (take_up item taken)) tree1 prepared tree2"
      have "tree s = None" if "tree1 s = None" for s using item that stages_absent by blast
      moreover have "tree1 s \<noteq> None" if "staged item = Some s" for s using item used that by blast
      ultimately show "stages tree temps tree2 temps2
          \<and> prepared_all destination staged name R (w # writes) (names taken) tree (item # prepared) tree2"
        using item rest stable unfolding prepared_all_def names
        by (auto simp: map_filter_simps intro: stages_trans split: option.splits)
    qed (use item stages_trans in blast)+
  qed (use Cons.prems in auto)
qed

end
