(* ===== verification/Authoring_Commit.thy ===== *)
theory Authoring_Commit
  imports Authoring_Prepare
begin

text \<open>
  The second half of a transaction on several files: backups, commits and, when one fails, the
  restoration. \<open>T\<close> is the tree before the first backup; each entry is then at all times the one of
  \<open>T\<close>, the new one, or absent.
\<close>

section \<open>Items\<close>

definition item_ready :: "write_mode \<Rightarrow> fs_tree \<Rightarrow> prepared_combined_write \<Rightarrow> bool" where
  "item_ready mode T item \<longleftrightarrow>
     destination_ok (needs_backup mode item) T (cw_destination item)
     \<and> (is_delete item \<or> (\<exists>s f. cw_staged item = Some s \<and> is_temp s \<and> T s = Some (FsFile f)))"

text \<open>What an item leaves at its destination.\<close>

definition published :: "prepared_combined_write \<Rightarrow> fs_node \<Rightarrow> fs_node" where
  "published item n =
     (case n of FsFile f \<Rightarrow> if is_public item then FsFile (f\<lparr>fl_mode := 0x1A4\<rparr>) else n | _ \<Rightarrow> n)"

definition item_outcome :: "fs_tree \<Rightarrow> prepared_combined_write \<Rightarrow> fs_node option" where
  "item_outcome T item =
     (if is_delete item then None
      else case cw_staged item of None \<Rightarrow> None | Some s \<Rightarrow> map_option (published item) (T s))"

definition outcome :: "fs_tree \<Rightarrow> prepared_combined_write list \<Rightarrow> fs_path \<Rightarrow> fs_node option" where
  "outcome T prepared p =
     (if managed p then None
      else case find (\<lambda>item. cw_destination item = p) prepared of
        Some item \<Rightarrow> item_outcome T item
      | None \<Rightarrow> nondir T p)"

definition all_ready :: "write_mode \<Rightarrow> fs_tree \<Rightarrow> prepared_combined_write list \<Rightarrow> bool" where
  "all_ready mode T prepared \<longleftrightarrow>
     (\<forall>item \<in> set prepared. item_ready mode T item) \<and> distinct (map cw_destination prepared)
     \<and> distinct (List.map_filter cw_staged prepared)"

lemma outcome_item:
  assumes "distinct (map cw_destination prepared)" and "item \<in> set prepared" and "\<not> managed (cw_destination item)"
  shows "outcome T prepared (cw_destination item) = item_outcome T item"
proof -
  have "find (\<lambda>i. cw_destination i = cw_destination item) prepared = Some item"
    using assms(1,2) by (induction prepared) auto
  with assms(3) show ?thesis by (simp add: outcome_def)
qed

lemma outcome_other: "p \<notin> cw_destination ` set prepared \<Longrightarrow> outcome T prepared p = view T p"
  by (auto simp: outcome_def view_def find_None_iff split: option.split dest: find_Some_iff [THEN iffD1])

text \<open>Each entry is old, new or absent.\<close>

definition intact :: "fs_tree \<Rightarrow> prepared_combined_write list \<Rightarrow> fs_tree \<Rightarrow> bool" where
  "intact T prepared tree \<longleftrightarrow> (\<forall>p. view tree p \<in> {view T p, outcome T prepared p, None})"

lemma intact_refl: "view tree = view T \<Longrightarrow> intact T prepared tree"
  by (simp add: intact_def)

lemma intact_steady: "view tree = view T \<Longrightarrow> steady (intact T prepared) tree"
  by (simp add: steady_def intact_def)

lemma intact_managed [simp]: "managed p \<Longrightarrow> intact T prepared (tree(p := n)) = intact T prepared tree"
  by (simp add: intact_def)

lemma view_upd_None [simp]: "view (tree(p := None)) = (view tree)(p := None)"
  by (auto simp: view_def)

lemma view_upd_node: "\<not> managed p \<Longrightarrow> \<not> dir_node n \<Longrightarrow> view (tree(p \<mapsto> n)) = (view tree)(p \<mapsto> n)"
  by (auto simp: view_def nondir_upd_node)

lemma intact_remove: "intact T prepared tree \<Longrightarrow> intact T prepared (tree(p := None))"
  by (simp add: intact_def)

lemma intact_set:
  "intact T prepared tree \<Longrightarrow> \<not> dir_node n \<Longrightarrow> Some n \<in> {view T p, outcome T prepared p} \<Longrightarrow>
   intact T prepared (tree(p \<mapsto> n))"
  by (cases "managed p") (auto simp: intact_def view_upd_node)

section \<open>Restoring\<close>

text \<open>Each backup holds the entry of its destination in \<open>T\<close>; a destination without a backup has none there.\<close>

definition saved :: "fs_tree \<Rightarrow> fs_tree \<Rightarrow> (fs_path \<times> fs_path option) list \<Rightarrow> bool" where
  "saved T tree pairs \<longleftrightarrow>
     (\<forall>(d, backup) \<in> set pairs. \<not> managed d \<and>
        (case backup of None \<Rightarrow> nondir T d = None | Some b \<Rightarrow> is_temp b \<and> tree b = nondir T d \<and> nondir T d \<noteq> None))
     \<and> distinct (List.map_filter snd pairs)"

lemma saved_Cons:
  "saved T tree ((d, backup) # pairs) \<longleftrightarrow>
     \<not> managed d \<and> saved T tree pairs
     \<and> (case backup of None \<Rightarrow> nondir T d = None
        | Some b \<Rightarrow> is_temp b \<and> tree b = nondir T d \<and> nondir T d \<noteq> None \<and> b \<notin> set (List.map_filter snd pairs))"
  by (auto simp: saved_def split: option.split)

lemma backup_member: "(d, Some b) \<in> set pairs \<Longrightarrow> b \<in> set (List.map_filter snd pairs)"
  by (induction pairs) (auto split: option.splits)

lemma backup_memberD: "b \<in> set (List.map_filter snd pairs) \<Longrightarrow> \<exists>d. (d, Some b) \<in> set pairs"
  by (induction pairs) (auto split: option.splits)

lemma savedD: "saved T tree pairs \<Longrightarrow> (d, Some b) \<in> set pairs \<Longrightarrow> is_temp b \<and> tree b = nondir T d \<and> nondir T d \<noteq> None"
  unfolding saved_def by (auto dest!: bspec)

lemma saved_other:
  "saved T tree pairs \<Longrightarrow> p \<notin> set (List.map_filter snd pairs) \<Longrightarrow> saved T (tree(p := n)) pairs"
  unfolding saved_def by (auto split: option.splits dest: backup_member)

lemma saved_unmanaged: "saved T tree pairs \<Longrightarrow> \<not> managed p \<Longrightarrow> saved T (tree(p := n)) pairs"
proof (rule saved_other)
  assume "saved T tree pairs" "\<not> managed p"
  then show "p \<notin> set (List.map_filter snd pairs)"
    by (auto simp: saved_def dest!: backup_memberD)
qed

text \<open>What has to be in place while the pairs are still to be restored.\<close>

definition restorable :: "fs_tree \<Rightarrow> fs_path set \<Rightarrow> (fs_path \<times> fs_path option) list \<Rightarrow> fs_tree \<Rightarrow> bool" where
  "restorable T committed pairs tree \<longleftrightarrow>
     (\<forall>p. \<not> managed p \<longrightarrow> p \<notin> fst ` set pairs \<longrightarrow> nondir tree p = nondir T p)
     \<and> (\<forall>d. (d, None) \<in> set pairs \<longrightarrow> d \<notin> committed \<longrightarrow> nondir tree d = nondir T d)"

lemma restorable_Nil: "restorable T C [] tree \<Longrightarrow> view tree = view T"
  by (auto simp: restorable_def intro: view_cong)

lemma restorable_step:
  assumes "restorable T C ((d, backup) # pairs) tree" and "d \<notin> fst ` set pairs"
    and "\<And>p. p \<noteq> d \<Longrightarrow> \<not> managed p \<Longrightarrow> nondir tree' p = nondir tree p" and "nondir tree' d = nondir T d"
    and "\<forall>(p, _) \<in> set pairs. \<not> managed p"
  shows "restorable T C pairs tree'"
  unfolding restorable_def
proof (intro conjI allI impI)
  fix p
  assume p: "\<not> managed p" "p \<notin> fst ` set pairs"
  show "nondir tree' p = nondir T p"
    using assms(1,3,4) p by (cases "p = d") (auto simp: restorable_def)
next
  fix p
  assume p: "(p, None) \<in> set pairs" "p \<notin> C"
  with assms(2,5) have "p \<noteq> d" "\<not> managed p" by force+
  with assms(1,3) p show "nondir tree' p = nondir T p" by (simp add: restorable_def)
qed

lemma vc_restore_item:
  assumes "quiet env" and "saved T tree ((d, backup) # pairs)" and "d \<notin> fst ` set pairs"
    and "intact T prepared tree" and "ok \<Longrightarrow> restorable T C ((d, backup) # pairs) tree"
    and post: "\<And>ok' tree' temps'. saved T tree' pairs \<Longrightarrow> intact T prepared tree' \<Longrightarrow>
      (ok' \<Longrightarrow> restorable T C pairs tree') \<Longrightarrow> set temps' \<subseteq> set temps \<Longrightarrow> Q ok' tree' temps'"
  shows "vc (intact T prepared) (restore_item env C (d, backup) ok) Q E tree temps"
proof -
  have d: "\<not> managed d" and saved: "saved T tree pairs" using assms(2) by (auto simp: saved_Cons)
  have "\<forall>(p, _) \<in> set pairs. \<not> managed p" using saved by (auto simp: saved_def)
  note pairs = saved this
  note step = restorable_step [OF _ assms(3) _ _ pairs(2)]
  let ?removed = "if d \<in> C then t_bind (t_try (remove_file env d)) (\<lambda>r. t_return (is_ok r)) else t_return True"
  let ?rest = "\<lambda>removed. case backup of None \<Rightarrow> t_return (ok \<and> removed)
    | Some path \<Rightarrow> t_bind (t_try (rename_path env path d)) (\<lambda>r. t_bind (drop_temp env path) (\<lambda>_.
        t_return (ok \<and> removed \<and> is_ok r)))"
  have rest: "vc (intact T prepared) (?rest removed) Q E tree1 temps"
    if t1: "tree1 = tree \<or> tree1 = tree(d := None)" and gone: "removed \<Longrightarrow> d \<in> C \<Longrightarrow> nondir tree1 d = None" for removed tree1
  proof (cases backup)
    case None
    with assms(2) have none: "nondir T d = None" by (simp add: saved_Cons)
    have saved1: "saved T tree1 pairs" using t1 pairs(1) d by (auto intro: saved_unmanaged)
    have intact1: "intact T prepared tree1" using t1 assms(4) by (auto intro: intact_remove)
    have "restorable T C pairs tree1" if "ok" "removed"
    proof (rule step [OF assms(5) [OF that(1)]])
      show "nondir tree1 d = nondir T d"
        using gone [OF that(2)] none t1 assms(5) [OF that(1)] None by (cases "d \<in> C") (auto simp: restorable_def)
    qed (use t1 in auto)
    with None saved1 intact1 show ?thesis by (auto intro!: vc_return post)
  next
    case (Some b)
    with assms(2) obtain n where n: "nondir T d = Some n" "tree b = Some n" "is_temp b" "b \<notin> set (List.map_filter snd pairs)"
      by (auto simp: saved_Cons)
    then have bd: "b \<noteq> d" "\<not> dir_node n" "tree1 b = Some n" using d t1 by (auto simp: nondir_iff)
    have saved1: "saved T (tree1(b := x)) pairs" for x
      using t1 pairs(1) d n(4) by (auto intro: saved_unmanaged saved_other)
    have intact1: "intact T prepared tree1" using t1 assms(4) by (auto intro: intact_remove)
    have saved0: "saved T tree1 pairs" using saved1 [of "tree1 b"] by simp
    let ?moved = "(tree1(b := None))(d \<mapsto> n)"
    have intact2: "intact T prepared ?moved"
      using n(1,3) d bd(2) intact1 by (intro intact_set) (auto simp: view_def)
    have saved2: "saved T ?moved pairs" by (rule saved_unmanaged [OF saved1 d])
    have "restorable T C pairs ?moved" if "ok"
      by (rule step [OF assms(5) [OF that]]) (use t1 n bd d in \<open>auto simp: nondir_upd_node\<close>)
    with Some saved0 saved1 [of None] saved2 intact1 intact2 n bd show ?thesis
      by (auto intro!: vc_bind vc_try vc_rename_path [OF assms(1)] vc_drop_temp [OF assms(1)] vc_return post)
  qed
  show ?thesis
    unfolding restore_item_def prod.case
    by (rule vc_bind) (use assms in \<open>auto intro!: vc_bind vc_try vc_remove_file vc_return intact_remove rest\<close>)
qed

lemma vc_restore_items:
  assumes "quiet env" and "saved T tree pairs" and "distinct (map fst pairs)"
    and "intact T prepared tree" and "ok \<Longrightarrow> restorable T C pairs tree"
    and post: "\<And>ok' tree' temps'. intact T prepared tree' \<Longrightarrow> (ok' \<Longrightarrow> view tree' = view T) \<Longrightarrow>
      set temps' \<subseteq> set temps \<Longrightarrow> Q ok' tree' temps'"
  shows "vc (intact T prepared) (restore_items env C pairs ok) Q E tree temps"
  using assms(2-)
proof (induction pairs arbitrary: tree temps ok)
  case Nil
  then show ?case by (auto intro!: vc_return dest: restorable_Nil)
next
  case (Cons pair pairs)
  obtain d backup where pair: "pair = (d, backup)" by force
  show ?case
    unfolding restore_items.simps pair
  proof (rule vc_bind, rule vc_restore_item [OF assms(1)])
    fix ok' tree' temps'
    assume "saved T tree' pairs" "intact T prepared tree'" "ok' \<Longrightarrow> restorable T C pairs tree'" "set temps' \<subseteq> set temps"
    with Cons.prems show "vc (intact T prepared) (restore_items env C pairs ok') Q E tree' temps'"
      by (intro Cons.IH) (auto intro: Cons.prems(5))
  qed (use Cons.prems in \<open>auto simp: pair\<close>)
qed

lemma saved_rev: "saved T tree (rev pairs) = saved T tree pairs"
  by (simp add: saved_def List.map_filter_def rev_filter [symmetric] rev_map [symmetric])

lemma vc_restore_combined:
  assumes "quiet env" and "saved T tree (zip (map cw_destination prepared) backups)"
    and "distinct (map cw_destination prepared)" and "intact T prepared tree"
    and "restorable T (set committed) (zip (map cw_destination prepared) backups) tree"
    and post: "\<And>ok tree' temps'. intact T prepared tree' \<Longrightarrow> (ok \<Longrightarrow> view tree' = view T) \<Longrightarrow>
      set temps' \<subseteq> set temps \<Longrightarrow> Q ok tree' temps'"
  shows "vc (intact T prepared) (restore_combined env prepared backups committed) Q E tree temps"
  unfolding restore_combined_def
proof (rule vc_restore_items [OF assms(1)])
  show "distinct (map fst (rev (zip (map cw_destination prepared) backups)))"
    using assms(3) by (simp add: rev_map [symmetric] map_fst_zip_take distinct_take)
qed (use assms in \<open>auto simp: saved_rev restorable_def\<close>)

definition recovery_error :: "authoring_error \<Rightarrow> bool" where
  "recovery_error e \<longleftrightarrow> e = ABatchRolledBack \<or> e = ABatchRecoveryUnknown \<or> (\<exists>k. e = AIo k)"

text \<open>The two ways a failed step ends, for a postcondition of errors that the state after a restoration meets.\<close>

definition recovers ::
  "fs_tree \<Rightarrow> prepared_combined_write list \<Rightarrow> fs_path list \<Rightarrow> (authoring_error \<Rightarrow> fs_tree \<Rightarrow> fs_path list \<Rightarrow> bool) \<Rightarrow> bool" where
  "recovers T prepared temps E \<longleftrightarrow>
     (\<forall>e tree temps'. recovery_error e \<longrightarrow> intact T prepared tree \<longrightarrow> (e = ABatchRolledBack \<longrightarrow> view tree = view T) \<longrightarrow>
        set temps' \<subseteq> set temps \<longrightarrow> E e tree temps')"

lemma recovers_mono: "recovers T prepared temps E \<Longrightarrow> set temps' \<subseteq> set temps \<Longrightarrow> recovers T prepared temps' E"
  unfolding recovers_def by blast

lemma vc_rolled_back:
  assumes "quiet env" and "saved T tree (zip (map cw_destination prepared) backups)"
    and "distinct (map cw_destination prepared)" and "intact T prepared tree"
    and "restorable T (set committed) (zip (map cw_destination prepared) backups) tree"
    and "recovers T prepared temps E"
  shows "vc (intact T prepared) (rolled_back (restore_combined env prepared backups committed)) Q E tree temps"
  unfolding rolled_back_def
  by (rule vc_bind, rule vc_restore_combined [OF assms(1-5)])
    (use assms(6) in \<open>auto intro!: vc_fail simp: recovers_def recovery_error_def\<close>)

lemma vc_rolled_back_io:
  assumes "quiet env" and "saved T tree (zip (map cw_destination prepared) backups)"
    and "distinct (map cw_destination prepared)" and "intact T prepared tree"
    and "restorable T (set committed) (zip (map cw_destination prepared) backups) tree"
    and "recovers T prepared temps E"
  shows "vc (intact T prepared) (t_bind (restore_combined env prepared backups committed) (\<lambda>restored.
    t_fail (if restored then ABatchRolledBack else AIo e))) Q E tree temps"
  by (rule vc_bind, rule vc_restore_combined [OF assms(1-5)])
    (use assms(6) in \<open>auto intro!: vc_fail simp: recovers_def recovery_error_def\<close>)

section \<open>Backing up\<close>

text \<open>Between the backups: the destinations of the pairs are empty, everything else is as in \<open>T\<close>.\<close>

definition backed :: "fs_tree \<Rightarrow> fs_path set \<Rightarrow> (fs_path \<times> fs_path option) list \<Rightarrow> fs_tree \<Rightarrow> bool" where
  "backed T S pairs tree \<longleftrightarrow>
     saved T tree pairs \<and> (\<forall>s \<in> S. tree s = T s) \<and> set (List.map_filter snd pairs) \<inter> S = {}
     \<and> (\<forall>p. \<not> managed p \<longrightarrow> nondir tree p = (if p \<in> fst ` set pairs then None else nondir T p))"

lemma backed_start: "backed T S [] T"
  by (simp add: backed_def saved_def)

lemma backed_restorable: "backed T S pairs tree \<Longrightarrow> restorable T C pairs tree"
  unfolding backed_def restorable_def by (force simp: saved_def)

lemma backed_saved: "backed T S pairs tree \<Longrightarrow> saved T tree pairs"
  by (simp add: backed_def)

lemma backed_intact: "backed T S pairs tree \<Longrightarrow> intact T prepared tree"
  by (auto simp: backed_def intact_def view_def)

lemma backed_temp:
  "backed T S pairs tree \<Longrightarrow> is_temp b \<Longrightarrow> b \<notin> S \<Longrightarrow> b \<notin> set (List.map_filter snd pairs) \<Longrightarrow>
   backed T S pairs (tree(b \<mapsto> FsFile f))"
  by (auto simp: backed_def intro: saved_other)

lemma backed_fresh:
  assumes "backed T S pairs tree" and "\<forall>s \<in> S. T s \<noteq> None" and "tree b = None"
  shows "b \<notin> S" "b \<notin> set (List.map_filter snd pairs)"
proof -
  show "b \<notin> S" using assms by (auto simp: backed_def)
  show "b \<notin> set (List.map_filter snd pairs)"
  proof
    assume "b \<in> set (List.map_filter snd pairs)"
    then obtain d where "(d, Some b) \<in> set pairs" by (blast dest: backup_memberD)
    with assms(1,3) show False by (metis backed_def savedD)
  qed
qed

lemma backed_move:
  assumes "backed T S pairs tree" and "is_temp b" and "b \<notin> S" and "b \<notin> set (List.map_filter snd pairs)"
    and "\<not> managed d" and "d \<notin> fst ` set pairs" and "tree d = Some n" and "\<not> dir_node n" and "\<forall>s \<in> S. is_temp s"
  shows "backed T S (pairs @ [(d, Some b)]) ((tree(d := None))(b \<mapsto> n))"
proof -
  have "nondir tree d = Some n" using assms(7,8) by (simp add: nondir_iff)
  with assms(1,5,6) have n: "nondir T d = Some n" by (simp add: backed_def)
  have "saved T ((tree(d := None))(b \<mapsto> n)) pairs"
    using assms(1,4,5) by (intro saved_other saved_unmanaged) (auto simp: backed_def)
  with assms n show ?thesis
    by (auto simp: backed_def saved_def nondir_upd_node)
qed

lemma backed_absent:
  "backed T S pairs tree \<Longrightarrow> \<not> managed d \<Longrightarrow> nondir T d = None \<Longrightarrow> backed T S (pairs @ [(d, None)]) tree"
  by (auto simp: backed_def saved_def)

lemma all_ready_staged:
  assumes "all_ready mode T prepared" and "s \<in> set (List.map_filter cw_staged prepared)"
  shows "is_temp s" "\<exists>f. T s = Some (FsFile f)"
proof -
  from assms(2) obtain item where "item \<in> set prepared" "cw_staged item = Some s"
    by (auto simp: List.map_filter_def)
  moreover have "\<not> is_delete item" using \<open>cw_staged item = Some s\<close> by (cases item) auto
  ultimately show "is_temp s" "\<exists>f. T s = Some (FsFile f)"
    using assms(1) by (auto simp: all_ready_def item_ready_def)
qed

lemma combined_backup_items_simps [simp]:
  "combined_backup_items mode [] = []"
  "combined_backup_items mode (item # rest) =
     (cw_destination item, cw_parent item, needs_backup mode item) # combined_backup_items mode rest"
  by (simp_all add: combined_backup_items_def)

lemma vc_back_up:
  assumes env: "quiet env" and ready: "all_ready mode T prepared" and S: "S = set (List.map_filter cw_staged prepared)"
    and split: "prepared = before @ rest" and len: "length backups = length before"
    and backed: "backed T S (zip (map cw_destination before) backups) tree"
    and temps: "\<forall>p \<in> set temps. is_temp p"
    and E: "\<And>temps'. \<forall>p \<in> set temps'. is_temp p \<Longrightarrow> recovers T prepared temps' E"
    and Q: "\<And>backups' tree' temps'. length backups' = length prepared \<Longrightarrow>
      backed T S (zip (map cw_destination prepared) backups') tree' \<Longrightarrow> \<forall>p \<in> set temps'. is_temp p \<Longrightarrow> Q backups' tree' temps'"
  shows "vc (intact T prepared) (back_up env (\<lambda>backups. restore_combined env prepared backups [])
    (combined_backup_items mode rest) backups) Q E tree temps"
  using split len backed temps
proof (induction rest arbitrary: before backups tree temps)
  case Nil
  then show ?case by (auto simp: combined_backup_items_def intro!: vc_return Q)
next
  case (Cons item rest)
  let ?d = "cw_destination item" and ?pairs = "zip (map cw_destination before) backups"
  have dest: "destination_ok (needs_backup mode item) T ?d" and new: "?d \<notin> cw_destination ` set before"
    using ready Cons.prems(1) by (auto simp: all_ready_def item_ready_def)
  have staged: "\<forall>s \<in> S. is_temp s" "\<forall>s \<in> S. T s \<noteq> None"
    using all_ready_staged [OF ready] by (auto simp: S)
  have d: "\<not> managed ?d" "?d \<notin> fst ` set ?pairs"
    using dest new by (auto simp: destination_ok_def dest: set_zip_leftD)
  have zip: "zip (map cw_destination prepared) backups = ?pairs"
    "zip (map cw_destination (before @ [item])) (backups @ [x]) = ?pairs @ [(?d, x)]" for x
    using Cons.prems(1,2) by (simp_all add: zip_append1)
  note IH = Cons.IH [of "before @ [item]" "backups @ [_]"]
  show ?case
  proof (cases "needs_backup mode item")
    case False
    with dest have "nondir T ?d = None" by (simp add: destination_ok_def)
    with Cons.prems d have "vc (intact T prepared) (back_up env (\<lambda>backups. restore_combined env prepared backups [])
        (combined_backup_items mode rest) (backups @ [None])) Q E tree temps"
      by (intro IH) (simp_all only: zip, auto intro: backed_absent)
    with False show ?thesis by simp
  next
    case True
    have rest: "vc (intact T prepared) (t_bind (io (set_private env b)) (\<lambda>_. t_bind (t_try (rename_path env ?d b)) (\<lambda>r.
        case r of Inl _ \<Rightarrow> rolled_back (restore_combined env prepared backups [])
        | Inr _ \<Rightarrow> back_up env (\<lambda>backups. restore_combined env prepared backups [])
            (combined_backup_items mode rest) (backups @ [Some b])))) Q E (tree(b \<mapsto> FsFile f)) (temps @ [b])"
      if b: "tree b = None" "is_temp b" for b f
    proof -
      note fresh = backed_fresh [OF Cons.prems(3) staged(2) b(1)]
      have backed1: "backed T S ?pairs (tree(b \<mapsto> FsFile g))" for g
        by (rule backed_temp [OF Cons.prems(3) b(2) fresh])
      have temps1: "\<forall>p \<in> set (temps @ [b]). is_temp p" using Cons.prems(4) b(2) by simp
      have undo: "vc (intact T prepared) (rolled_back (restore_combined env prepared backups [])) Q E
          (tree(b \<mapsto> FsFile g)) (temps @ [b])" for g
        using backed1 [of g] ready by (intro vc_rolled_back [OF env] E [OF temps1])
          (auto simp: zip all_ready_def intro: backed_intact backed_restorable backed_saved)
      have bd: "b \<noteq> ?d" "?d \<noteq> b" using b(2) d(1) by auto
      have moved: "backed T S (?pairs @ [(?d, Some b)]) (tree(?d := None, b \<mapsto> n))" if "tree ?d = Some n" "\<not> dir_node n" for n
        using backed_move [OF Cons.prems(3) b(2) fresh d that staged(1)] .
      have next_item: "vc (intact T prepared) (back_up env (\<lambda>backups. restore_combined env prepared backups [])
          (combined_backup_items mode rest) (backups @ [Some b])) Q E (tree(?d := None, b \<mapsto> n)) (temps @ [b])"
        if n: "tree ?d = Some n" "\<not> dir_node n" for n
        using Cons.prems moved [OF n] temps1 by (intro IH) (simp_all only: zip, auto)
      show ?thesis
        using env E [OF temps1] backed_intact [OF backed1] backed_intact [OF moved] bd
        by (intro vc_bind [OF vc_map_err] vc_set_private conjI vc_bind [OF vc_try] vc_rename_path)
          (auto intro: undo next_item simp: recovers_def recovery_error_def)
    qed
    have io: "E (AIo e) tree temps" for e
      using E [OF Cons.prems(4)] backed_intact [OF Cons.prems(3)] by (simp add: recovers_def recovery_error_def)
    have "vc (intact T prepared) (t_bind (io (new_in env (cw_parent item))) (\<lambda>b.
        t_bind (io (set_private env b)) (\<lambda>_. t_bind (t_try (rename_path env ?d b)) (\<lambda>r.
        case r of Inl _ \<Rightarrow> rolled_back (restore_combined env prepared backups [])
        | Inr _ \<Rightarrow> back_up env (\<lambda>backups. restore_combined env prepared backups [])
            (combined_backup_items mode rest) (backups @ [Some b]))))) Q E tree temps"
      by (rule vc_bind, rule vc_map_err, rule vc_new_in)
        (use env io rest backed_intact [OF Cons.prems(3)] in simp_all)
    with True show ?thesis by simp
  qed
qed

section \<open>Committing\<close>

text \<open>
  While the staged files are moved into place: the items before are in place, the destinations of the
  items after are still empty and their staged files untouched.
\<close>

definition committing ::
  "fs_tree \<Rightarrow> prepared_combined_write list \<Rightarrow> fs_path option list \<Rightarrow> prepared_combined_write list
    \<Rightarrow> prepared_combined_write list \<Rightarrow> fs_tree \<Rightarrow> bool" where
  "committing T prepared backups before rest tree \<longleftrightarrow>
     saved T tree (zip (map cw_destination prepared) backups)
     \<and> set (List.map_filter id backups) \<inter> set (List.map_filter cw_staged prepared) = {}
     \<and> (\<forall>p. \<not> managed p \<longrightarrow> p \<notin> cw_destination ` set prepared \<longrightarrow> nondir tree p = nondir T p)
     \<and> (\<forall>item \<in> set before. nondir tree (cw_destination item) = item_outcome T item)
     \<and> (\<forall>item \<in> set rest. nondir tree (cw_destination item) = None)"

definition staged_kept :: "fs_tree \<Rightarrow> prepared_combined_write list \<Rightarrow> fs_tree \<Rightarrow> bool" where
  "staged_kept T rest tree \<longleftrightarrow> (\<forall>s \<in> set (List.map_filter cw_staged rest). tree s = T s)"

lemma zip_backups: "length xs = length bs \<Longrightarrow> List.map_filter snd (zip xs bs) = List.map_filter id bs"
  by (induction xs bs rule: list_induct2) (auto split: option.split)

lemma backed_committing:
  assumes "backed T (set (List.map_filter cw_staged prepared)) (zip (map cw_destination prepared) backups) tree"
    and "length backups = length prepared" and "all_ready mode T prepared"
  shows "committing T prepared backups [] prepared tree \<and> staged_kept T prepared tree"
proof -
  have fst: "fst ` set (zip (map cw_destination prepared) backups) = cw_destination ` set prepared"
    using assms(2) by (metis length_map list.set_map map_fst_zip)
  have "\<not> managed (cw_destination item)" if "item \<in> set prepared" for item
    using that assms(3) by (auto simp: all_ready_def item_ready_def destination_ok_def)
  with assms fst zip_backups [of "map cw_destination prepared" backups] show ?thesis
    by (auto simp: backed_def committing_def staged_kept_def)
qed

lemma committing_intact:
  assumes "committing T prepared backups before rest tree" and "prepared = before @ rest" and "all_ready mode T prepared"
  shows "intact T prepared tree"
  unfolding intact_def
proof
  fix p
  show "view tree p \<in> {view T p, outcome T prepared p, None}"
  proof (cases "managed p \<or> p \<notin> cw_destination ` set prepared")
    case True
    with assms(1) show ?thesis by (auto simp: committing_def view_def)
  next
    case False
    then obtain item where item: "item \<in> set prepared" "p = cw_destination item" "\<not> managed p" by auto
    with assms(1,2) have "nondir tree p = None \<or> nondir tree p = item_outcome T item"
      by (auto simp: committing_def)
    with item assms(3) show ?thesis
      using outcome_item [of prepared item T] by (auto simp: view_def all_ready_def)
  qed
qed

lemma committing_outcome:
  assumes "committing T prepared backups prepared [] tree" and "all_ready mode T prepared"
  shows "view tree = outcome T prepared"
proof
  fix p
  show "view tree p = outcome T prepared p"
  proof (cases "managed p \<or> p \<notin> cw_destination ` set prepared")
    case True
    show ?thesis
    proof (cases "managed p")
      case False
      with True assms(1) show ?thesis by (simp add: outcome_other committing_def view_def)
    qed (simp add: outcome_def)
  next
    case False
    then obtain item where "item \<in> set prepared" "p = cw_destination item" "\<not> managed p" by auto
    with assms outcome_item [of prepared item T] show ?thesis
      by (auto simp: committing_def view_def all_ready_def)
  qed
qed

lemma committing_restorable:
  assumes "committing T prepared backups before rest tree" and "prepared = before @ rest"
    and "length backups = length prepared"
  shows "restorable T (set (map cw_destination (filter (\<lambda>i. \<not> is_delete i) before)))
    (zip (map cw_destination prepared) backups) tree"
proof -
  have fst: "fst ` set (zip (map cw_destination prepared) backups) = cw_destination ` set prepared"
    using assms(3) by (metis length_map list.set_map map_fst_zip)
  have "nondir tree d = nondir T d" if pair: "(d, None) \<in> set (zip (map cw_destination prepared) backups)"
    and d: "d \<notin> set (map cw_destination (filter (\<lambda>i. \<not> is_delete i) before))" for d
  proof -
    from pair fst obtain item where item: "item \<in> set prepared" "d = cw_destination item" by force
    have "nondir tree d = None"
      using item d assms(1,2) by (auto simp: committing_def item_outcome_def)
    moreover have "nondir T d = None"
      using pair assms(1) by (auto simp: committing_def saved_def dest!: bspec)
    ultimately show ?thesis by simp
  qed
  with assms(1) fst show ?thesis unfolding restorable_def committing_def by auto
qed

lemma committing_skip:
  assumes "committing T prepared backups before (item # rest) tree" and "is_delete item"
  shows "committing T prepared backups (before @ [item]) rest tree"
  using assms by (cases item) (auto simp: committing_def item_outcome_def)

lemma map_filter_id_member: "Some b \<in> set bs \<longleftrightarrow> b \<in> set (List.map_filter id bs)"
  by (induction bs) (auto split: option.split)

lemma committing_temp:
  assumes "committing T prepared backups before rest tree" and "prepared = before @ rest"
    and "all_ready mode T prepared" and s: "s \<in> set (List.map_filter cw_staged prepared)"
  shows "committing T prepared backups before rest (tree(s := n))"
proof -
  have temp: "managed s" using all_ready_staged(1) [OF assms(3) s] by simp
  have dest: "s \<noteq> cw_destination i" if "i \<in> set prepared" for i
    using that assms(3) temp by (auto simp: all_ready_def item_ready_def destination_ok_def)
  have "s \<notin> set (List.map_filter snd (zip (map cw_destination prepared) backups))"
    using assms(1) s by (auto simp: committing_def map_filter_id_member dest!: backup_memberD set_zip_rightD)
  with assms(1) have "saved T (tree(s := n)) (zip (map cw_destination prepared) backups)"
    by (auto simp: committing_def intro: saved_other)
  moreover have "nondir (tree(s := n)) p = nondir tree p" if "p \<noteq> s" for p using that by (simp add: nondir_def)
  ultimately show ?thesis
    using assms(1,2) temp dest unfolding committing_def by (metis Un_iff set_append)
qed

lemma committing_move:
  assumes "committing T prepared backups before (item # rest) tree" and "prepared = before @ item # rest"
    and "all_ready mode T prepared" and "item_outcome T item = Some n" and "\<not> dir_node n"
  shows "committing T prepared backups (before @ [item]) rest (tree(cw_destination item \<mapsto> n))"
proof -
  let ?d = "cw_destination item"
  have d: "\<not> managed ?d" using assms(2,3) by (auto simp: all_ready_def item_ready_def destination_ok_def)
  have "cw_destination i \<noteq> ?d" if "i \<in> set before \<union> set rest" for i
  proof -
    have "?d \<notin> cw_destination ` (set before \<union> set rest)" using assms(2,3) by (auto simp: all_ready_def)
    with that show ?thesis by (metis image_eqI)
  qed
  with assms d show ?thesis
    by (auto simp: committing_def nondir_upd_node intro: saved_unmanaged)
qed

lemma staged_kept_other:
  "staged_kept T (item # rest) tree \<Longrightarrow> s \<notin> set (List.map_filter cw_staged rest) \<Longrightarrow> staged_kept T rest (tree(s := n))"
  by (auto simp: staged_kept_def split: option.splits)

lemma vc_persist_either:
  assumes "quiet env" and "I tree" and "\<And>e. E e tree (filter (\<lambda>q. q \<noteq> s) temps)"
    and "\<And>e. I (tree(s := None)) \<and> E e (tree(s := None)) (filter (\<lambda>q. q \<noteq> s) temps)"
    and "\<And>n. tree s = Some n \<Longrightarrow> \<not> dir_node n \<Longrightarrow>
      I ((tree(s := None))(cw_destination item \<mapsto> n)) \<and>
      Q () ((tree(s := None))(cw_destination item \<mapsto> n)) (filter (\<lambda>q. q \<noteq> s) temps)"
  shows "vc I (combined_persist env mode item s) Q E tree temps"
  unfolding combined_persist_def persist_mode_def using assms
  by (auto intro!: vc_persist vc_persist_noclobber split: prepared_combined_write.split write_mode.split)

lemma vc_commit_combined:
  assumes env: "quiet env" and ready: "all_ready mode T prepared" and len: "length backups = length prepared"
    and split: "prepared = before @ rest"
    and committed: "committed = map cw_destination (filter (\<lambda>i. \<not> is_delete i) before)"
    and state: "committing T prepared backups before rest tree" "staged_kept T rest tree"
    and temps: "\<forall>p \<in> set temps. is_temp p"
    and E: "\<And>temps'. \<forall>p \<in> set temps'. is_temp p \<Longrightarrow> recovers T prepared temps' E"
    and Q: "\<And>tree' temps'. view tree' = outcome T prepared \<Longrightarrow> \<forall>p \<in> set temps'. is_temp p \<Longrightarrow> Q () tree' temps'"
  shows "vc (intact T prepared) (commit_combined env mode prepared backups rest committed) Q E tree temps"
  using split committed state temps
proof (induction rest arbitrary: before committed tree temps)
  case Nil
  then show ?case using committing_outcome [OF _ ready] by (auto intro!: vc_return Q)
next
  case (Cons item rest)
  note state = Cons.prems(3,4)
  have split: "prepared = (before @ [item]) @ rest" using Cons.prems(1) by simp
  show ?case
  proof (cases "is_delete item")
    case True
    with Cons.prems(2) have "committed = map cw_destination (filter (\<lambda>i. \<not> is_delete i) (before @ [item]))" by simp
    moreover have "staged_kept T rest tree" using state(2) by (auto simp: staged_kept_def split: option.splits)
    ultimately show ?thesis
      using Cons.IH [OF split _ committing_skip [OF state(1) True]] Cons.prems(5) True by simp
  next
    case False
    then obtain s f where s: "cw_staged item = Some s" "is_temp s" "T s = Some (FsFile f)"
      using ready Cons.prems(1) by (auto simp: all_ready_def item_ready_def)
    have mem: "s \<in> set (List.map_filter cw_staged prepared)" and fresh: "s \<notin> set (List.map_filter cw_staged rest)"
      using ready s(1) Cons.prems(1) by (auto simp: all_ready_def)
    have at: "tree s = Some (FsFile f)" using state(2) s(1,3) by (simp add: staged_kept_def)
    let ?f = "published item (FsFile f)" and ?d = "cw_destination item"
    have out: "item_outcome T item = Some ?f" "\<not> dir_node ?f"
      using False s(1,3) by (auto simp: item_outcome_def published_def)
    note state1 = committing_temp [OF state(1) Cons.prems(1) ready mem]
    note intact1 = committing_intact [OF state1 Cons.prems(1) ready]
    note restore1 = committing_restorable [OF state1 Cons.prems(1) len, folded Cons.prems(2)]
    have saved1: "saved T (tree(s := n)) (zip (map cw_destination prepared) backups)" for n
      using state1 by (auto simp: committing_def)
    have dest: "distinct (map cw_destination prepared)" "\<not> managed ?d"
      using ready Cons.prems(1) by (auto simp: all_ready_def item_ready_def destination_ok_def)
    have temps1: "\<forall>p \<in> set (filter (\<lambda>q. q \<noteq> s) temps). is_temp p" using Cons.prems(5) by simp
    have undo: "vc (intact T prepared) (rolled_back (restore_combined env prepared backups committed)) Q E
        (tree(s := n)) (filter (\<lambda>q. q \<noteq> s) temps)" for n
      by (rule vc_rolled_back [OF env saved1 dest(1) intact1 restore1 E [OF temps1]])
    have undo_io: "vc (intact T prepared) (t_bind (restore_combined env prepared backups committed) (\<lambda>restored.
        t_fail (if restored then ABatchRolledBack else AIo e))) Q E (tree(s := n)) temps" for n e
      by (rule vc_rolled_back_io [OF env saved1 dest(1) intact1 restore1 E [OF Cons.prems(5)]])
    let ?moved = "(tree(s := None))(?d \<mapsto> ?f)"
    have state2: "committing T prepared backups (before @ [item]) rest ?moved"
      by (rule committing_move [OF state1 Cons.prems(1) ready out])
    have kept: "staged_kept T rest ?moved"
      using state(2) fresh dest(2) all_ready_staged(1) [OF ready] Cons.prems(1)
      by (fastforce simp: staged_kept_def s(1))
    have moved: "vc (intact T prepared) (commit_combined env mode prepared backups rest (committed @ [?d])) Q E ?moved
        (filter (\<lambda>q. q \<noteq> s) temps)"
      by (rule Cons.IH [OF split _ state2 kept temps1]) (simp add: Cons.prems(2) False)
    have persist: "vc (intact T prepared) (t_bind (t_try (combined_persist env mode item s)) (\<lambda>r. case r of
          Inl _ \<Rightarrow> rolled_back (restore_combined env prepared backups committed)
        | Inr _ \<Rightarrow> commit_combined env mode prepared backups rest (committed @ [?d]))) Q E (tree(s \<mapsto> ?f)) temps"
      using undo [of "Some ?f"] undo [of None] intact1 moved committing_intact [OF state2 split ready]
      by (intro vc_bind [OF vc_try] vc_persist_either [OF env]) auto
    have "tree(s \<mapsto> FsFile f) = tree" using at by auto
    with False s(1) persist undo_io [of _ "Some (FsFile f)"] intact1 [of "Some (FsFile f)"] intact1 [of "Some ?f"] at env
    show ?thesis
      by (auto intro!: vc_bind [OF vc_try] vc_bind [OF vc_return] vc_set_mode
          simp: set_public_file_def published_def split: if_splits)
  qed
qed

section \<open>The whole second half\<close>

text \<open>
  After an error the view is the old one, unless the error says otherwise: the changes are complete but
  not known to be durable, or an operating-system error or a failed restoration interrupted them.
\<close>

definition uncertain :: "authoring_error \<Rightarrow> bool" where
  "uncertain e = (case e of ABatchRecoveryUnknown \<Rightarrow> True | AIo _ \<Rightarrow> True | _ \<Rightarrow> False)"

definition settled :: "fs_tree \<Rightarrow> prepared_combined_write list \<Rightarrow> authoring_error \<Rightarrow> fs_tree \<Rightarrow> bool" where
  "settled T prepared e tree \<longleftrightarrow>
     intact T prepared tree
     \<and> (if e = ADurabilityUnknown then view tree = outcome T prepared
        else \<not> uncertain e \<longrightarrow> view tree = view T)"

lemma settled_recovers:
  "\<forall>p \<in> set temps. is_temp p \<Longrightarrow>
   recovers T prepared temps (\<lambda>e tree temps'. settled T prepared e tree \<and> (\<forall>p \<in> set temps'. is_temp p))"
  by (auto simp: recovers_def recovery_error_def settled_def uncertain_def)

lemma settled_early: "e \<noteq> ADurabilityUnknown \<Longrightarrow> view tree = view T \<Longrightarrow> settled T prepared e tree"
  by (simp add: settled_def intact_refl)

text \<open>Only the synchronisation of a directory reports that durability is unknown.\<close>

lemma vc_recheck_plain:
  assumes "quiet env" and "I tree" and "\<And>e. e \<noteq> ADurabilityUnknown \<Longrightarrow> E e tree temps" and "Q () tree temps"
  shows "vc I (recheck env mode p previous) Q E tree temps"
  unfolding recheck_def ensure_unchanged_def using assms
  by (auto intro!: vc_bind vc_map_err vc_symlink_metadata vc_path_exists vc_check vc_if vc_fail vc_return
      split: write_mode.split option.split fs_node.split)

lemma vc_recheck_combined_plain:
  assumes "quiet env" and "I tree" and "\<And>e. e \<noteq> ADurabilityUnknown \<Longrightarrow> E e tree temps" and "Q () tree temps"
  shows "vc I (recheck_combined env mode item) Q E tree temps"
  unfolding recheck_combined_def ensure_unchanged_def using assms
  by (auto intro!: vc_recheck_plain vc_bind vc_map_err vc_symlink_metadata vc_if vc_fail vc_return
      split: prepared_combined_write.split option.split fs_node.split)

lemma vc_backup_and_commit:
  assumes env: "quiet env" and ready: "all_ready mode T prepared" and temps: "\<forall>p \<in> set temps. is_temp p"
    and E: "\<And>temps'. \<forall>p \<in> set temps'. is_temp p \<Longrightarrow> recovers T prepared temps' E"
    and Q: "\<And>backups tree temps'. view tree = outcome T prepared \<Longrightarrow> \<forall>p \<in> set temps'. is_temp p \<Longrightarrow>
      \<forall>p \<in> set (List.map_filter id backups). is_temp p \<Longrightarrow> vc (intact T prepared) (m backups) Q E tree temps'"
  shows "vc (intact T prepared) (t_bind (back_up env (\<lambda>backups. restore_combined env prepared backups [])
      (combined_backup_items mode prepared) []) (\<lambda>backups.
    t_bind (commit_combined env mode prepared backups prepared []) (\<lambda>_. m backups))) Q E T temps"
proof (rule vc_bind, rule vc_back_up [OF env ready refl, of "[]"])
  fix backups tree temps'
  assume len: "length backups = length prepared"
    and backed: "backed T (set (List.map_filter cw_staged prepared)) (zip (map cw_destination prepared) backups) tree"
    and temps': "\<forall>p \<in> set temps'. is_temp p"
  have "is_temp p" if "p \<in> set (List.map_filter id backups)" for p
  proof -
    from that len have "p \<in> set (List.map_filter snd (zip (map cw_destination prepared) backups))"
      using zip_backups [of "map cw_destination prepared" backups] by simp
    with savedD [OF backed_saved [OF backed]] show ?thesis by (blast dest: backup_memberD)
  qed
  then show "vc (intact T prepared) (t_bind (commit_combined env mode prepared backups prepared []) (\<lambda>_. m backups)) Q E tree temps'"
    using backed_committing [OF backed len ready]
    by (intro vc_bind vc_commit_combined [OF env ready len, of "[]"] E temps' Q) auto
qed (use temps E backed_start in auto)

lemma vc_commit_combined_batch:
  assumes "quiet env" and "all_ready mode T prepared" and "\<forall>p \<in> set temps. is_temp p"
  shows "vc (intact T prepared) (commit_combined_batch env mode prepared)
    (\<lambda>_ tree temps'. view tree = outcome T prepared \<and> (\<forall>p \<in> set temps'. is_temp p))
    (\<lambda>e tree temps'. settled T prepared e tree \<and> (\<forall>p \<in> set temps'. is_temp p)) T temps"
  unfolding commit_combined_batch_def
proof (rule vc_bind, rule vc_for_each [where P = "\<lambda>tree temps'. tree = T \<and> temps' = temps"])
  fix item tree temps'
  assume "tree = T \<and> temps' = temps"
  then show "vc (intact T prepared) (recheck_combined env mode item) (\<lambda>_ tree temps'. tree = T \<and> temps' = temps)
      (\<lambda>e tree temps'. settled T prepared e tree \<and> (\<forall>p \<in> set temps'. is_temp p)) tree temps'"
    using assms by (intro vc_recheck_combined_plain) (auto simp: settled_early intact_refl)
next
  fix tree temps'
  assume "tree = T \<and> temps' = temps"
  moreover have "vc (intact T prepared) (t_for_each (sync_parent env) parents)
      (\<lambda>_ tree temps'. view tree = outcome T prepared \<and> (\<forall>p \<in> set temps'. is_temp p))
      (\<lambda>e tree temps'. settled T prepared e tree \<and> (\<forall>p \<in> set temps'. is_temp p)) tree temps'"
    if "view tree = outcome T prepared" "\<forall>p \<in> set temps'. is_temp p" for parents tree temps'
    by (rule vc_for_each [where P = "\<lambda>tree temps'. view tree = outcome T prepared \<and> (\<forall>p \<in> set temps'. is_temp p)"])
      (use that assms(1) in \<open>auto intro!: vc_sync_parent simp: settled_def intact_def\<close>)
  ultimately show "vc (intact T prepared) (t_bind (back_up env (\<lambda>backups. restore_combined env prepared backups [])
      (combined_backup_items mode prepared) []) (\<lambda>backups. t_bind (commit_combined env mode prepared backups prepared [])
      (\<lambda>_. t_for_each (sync_parent env) (sort (remdups (map cw_parent prepared))))))
      (\<lambda>_ tree temps'. view tree = outcome T prepared \<and> (\<forall>p \<in> set temps'. is_temp p))
      (\<lambda>e tree temps'. settled T prepared e tree \<and> (\<forall>p \<in> set temps'. is_temp p)) tree temps'"
    using assms(3) by (auto intro!: vc_backup_and_commit [OF assms(1,2)] settled_recovers)
qed simp

end
