(* ===== verification/Authoring_Transactions.thy ===== *)
theory Authoring_Transactions
  imports Authoring_Commit
begin

text \<open>
  The transactions on several files as a whole: what their first half hands to their second half, and
  what a run leaves behind.
\<close>

section \<open>Stability of prepared items\<close>

lemma secret_ready_stages: "stages a ps b qs \<Longrightarrow> secret_ready env identity mode p i a \<Longrightarrow> secret_ready env identity mode p i b"
  by (auto simp: secret_ready_def intro: staged_with_stages destination_ok_stages)

lemma public_ready_stages: "stages a ps b qs \<Longrightarrow> public_ready env mode c i a \<Longrightarrow> public_ready env mode c i b"
  by (auto simp: public_ready_def intro: staged_with_stages destination_ok_stages)

lemma private_ready_stages: "stages a ps b qs \<Longrightarrow> private_ready env c i a \<Longrightarrow> private_ready env c i b"
  by (auto simp: private_ready_def intro: staged_with_stages destination_ok_stages)

lemma delete_ready_stages: "stages a ps b qs \<Longrightarrow> delete_ready i a \<Longrightarrow> delete_ready i b"
  by (auto simp: delete_ready_def intro: destination_ok_stages)

lemma stages_file: "stages a ps b qs \<Longrightarrow> a p = Some (FsFile f) \<Longrightarrow> b p = Some (FsFile f)"
  using stages_kept [of a ps b qs p "FsFile f"] by (simp add: nondir_iff)

lemma staged_with_mono:
  "stages a ps b qs \<Longrightarrow> staged_with a item W \<Longrightarrow> (\<And>f. W f \<Longrightarrow> W' f) \<Longrightarrow> staged_with b item W'"
  unfolding staged_with_def by (blast dest: stages_file)

lemma rekeyed_ready_stages:
  "stages a ps b qs \<Longrightarrow> rekeyed_ready env source_identity identity mode legacy path r i a \<Longrightarrow>
   rekeyed_ready env source_identity identity mode legacy path r i b"
  unfolding rekeyed_ready_def split_beta
  by (elim conjE, intro conjI, assumption, rule destination_ok_stages, assumption+, rule staged_with_mono, assumption+)
    (blast dest: stages_file)

lemma file_sealed_ready_stages:
  "stages a ps b qs \<Longrightarrow> file_sealed_ready env identity mode path i a \<Longrightarrow> file_sealed_ready env identity mode path i b"
  unfolding file_sealed_ready_def split_beta
  by (elim conjE, intro conjI, assumption, rule destination_ok_stages, assumption+, rule staged_with_mono, assumption+)
    (blast dest: stages_file)

lemma public_file_ready_stages: "stages a ps b qs \<Longrightarrow> public_file_ready env mode path i a \<Longrightarrow> public_file_ready env mode path i b"
  unfolding public_file_ready_def by (auto simp: split_beta intro: public_ready_stages dest: stages_file)

lemma staged_used: "staged_with tree item W \<Longrightarrow> pw_staged item = Some s \<Longrightarrow> tree s \<noteq> None"
  by (auto simp: staged_with_def)

lemma ready_used:
  "secret_ready env identity mode p i tree \<Longrightarrow> pw_staged i = Some s \<Longrightarrow> tree s \<noteq> None"
  "public_ready env mode c i tree \<Longrightarrow> pw_staged i = Some s \<Longrightarrow> tree s \<noteq> None"
  "private_ready env c k tree \<Longrightarrow> pw_staged k = Some s \<Longrightarrow> tree s \<noteq> None"
  "rekeyed_ready env source_identity identity mode legacy path r j tree \<Longrightarrow> sw_staged j = Some s \<Longrightarrow> tree s \<noteq> None"
  "file_sealed_ready env identity mode path j tree \<Longrightarrow> sw_staged j = Some s \<Longrightarrow> tree s \<noteq> None"
  "public_file_ready env mode path j tree \<Longrightarrow> sw_staged j = Some s \<Longrightarrow> tree s \<noteq> None"
  by (auto simp: secret_ready_def public_ready_def private_ready_def rekeyed_ready_def file_sealed_ready_def
      public_file_ready_def split_beta dest: staged_used)

lemma rooted_stages: "stages a ps b qs \<Longrightarrow> rooted env root c a \<Longrightarrow> rooted env root c b"
  using rooted_solid stages_solid by blast

section \<open>The loops of the combined transaction\<close>

lemma vc_secret_loop:
  assumes "quiet env" and "\<forall>w \<in> set writes. \<not> reserved_name (relative_name (bs_destination w))" and "steady I tree"
    and "rooted env root c tree"
  shows "vc I (prepare_batch_writes env root writes identity mode)
    (\<lambda>ss tree' temps'. stages tree temps tree' temps'
       \<and> prepared_all pw_destination pw_staged (\<lambda>w. c @ path_names (bs_destination w)) (\<lambda>w. secret_ready env identity mode (bs_plaintext w)) writes {} tree ss tree')
    (\<lambda>e tree' temps'. stages tree temps tree' temps') tree temps"
  unfolding prepare_batch_writes_def
proof (intro vc_bind [OF vc_check] vc_prepare_loop [where names = id and K = "rooted env root c", simplified])
  fix taken w t p
  assume "w \<in> set writes" "steady I t" "rooted env root c t"
  with assms show "prepares I (prepare_batch_write env root identity mode taken w) pw_destination pw_staged taken
      (c @ path_names (bs_destination w)) (secret_ready env identity mode (bs_plaintext w)) t p"
    by (intro prepare_batch_write_ok) auto
qed (use assms in \<open>auto intro: secret_ready_stages rooted_stages simp: take_destination_def dest: ready_used\<close>)

lemma vc_public_loop:
  assumes "quiet env" and "\<forall>w \<in> set writes. \<not> reserved_name (relative_name (bp_destination w))" and "steady I tree"
    and "rooted env root c tree"
  shows "vc I (prepare_public_writes env root writes mode forbidden)
    (\<lambda>us tree' temps'. stages tree temps tree' temps'
       \<and> prepared_all pw_destination pw_staged (\<lambda>w. c @ path_names (bp_destination w)) (\<lambda>w. public_ready env mode (bp_plaintext w)) writes forbidden tree us tree')
    (\<lambda>e tree' temps'. stages tree temps tree' temps') tree temps"
  unfolding prepare_public_writes_def
proof (intro vc_prepare_loop [where names = id and K = "rooted env root c", simplified])
  fix taken w t p
  assume "w \<in> set writes" "steady I t" "rooted env root c t"
  with assms show "prepares I (prepare_public_write env root mode taken w) pw_destination pw_staged taken
      (c @ path_names (bp_destination w)) (public_ready env mode (bp_plaintext w)) t p"
    by (intro prepare_public_write_ok) auto
qed (use assms in \<open>auto intro: public_ready_stages rooted_stages simp: take_destination_def dest: ready_used\<close>)

lemma vc_private_loop:
  assumes "quiet env" and "\<forall>w \<in> set writes. \<not> reserved_name (relative_name (bp_destination w))" and "steady I tree"
    and "rooted env root c tree"
  shows "vc I (prepare_private_writes env root writes forbidden)
    (\<lambda>us tree' temps'. stages tree temps tree' temps'
       \<and> prepared_all pw_destination pw_staged (\<lambda>w. c @ path_names (bp_destination w)) (\<lambda>w. private_ready env (bp_plaintext w)) writes forbidden tree us tree')
    (\<lambda>e tree' temps'. stages tree temps tree' temps') tree temps"
  unfolding prepare_private_writes_def
proof (intro vc_prepare_loop [where names = id and K = "rooted env root c", simplified])
  fix taken w t p
  assume "w \<in> set writes" "steady I t" "rooted env root c t"
  with assms show "prepares I (prepare_private_write env root taken w) pw_destination pw_staged taken
      (c @ path_names (bp_destination w)) (private_ready env (bp_plaintext w)) t p"
    by (intro prepare_private_write_ok) auto
qed (use assms in \<open>auto intro: private_ready_stages rooted_stages simp: take_destination_def dest: ready_used\<close>)

lemma vc_delete_loop:
  assumes "quiet env" and "\<forall>relative \<in> set writes. \<not> reserved_name (relative_name relative)" and "steady I tree"
    and "rooted env root c tree"
  shows "vc I (prepare_private_deletes env root writes forbidden)
    (\<lambda>ds tree' temps'. stages tree temps tree' temps'
       \<and> prepared_all pw_destination (\<lambda>_. None) (\<lambda>relative. c @ path_names relative) (\<lambda>_. delete_ready) writes forbidden tree ds tree')
    (\<lambda>e tree' temps'. stages tree temps tree' temps') tree temps"
  unfolding prepare_private_deletes_def
proof (intro vc_prepare_loop [where names = id and K = "rooted env root c", simplified])
  fix taken w t p
  assume "w \<in> set writes" "steady I t" "rooted env root c t"
  with assms show "prepares I (prepare_private_delete env root taken w) pw_destination (\<lambda>_. None) taken
      (c @ path_names w) delete_ready t p"
    by (intro prepare_private_delete_ok) auto
qed (use assms in \<open>auto intro: delete_ready_stages rooted_stages simp: take_destination_def\<close>)

section \<open>Putting the items together\<close>

lemma item_ready_stages: "stages a ps b qs \<Longrightarrow> item_ready mode a item \<Longrightarrow> item_ready mode b item"
  unfolding item_ready_def by (auto intro: destination_ok_stages dest: stages_file)

lemma ready_item:
  "secret_ready env identity mode p i tree \<Longrightarrow> item_ready mode tree (CSecret i)"
  "public_ready env mode c i tree \<Longrightarrow> item_ready mode tree (CPublic i)"
  "private_ready env c k tree \<Longrightarrow> item_ready mode tree (CPrivate k)"
  "delete_ready d tree \<Longrightarrow> item_ready mode tree (CDelete d)"
  by (auto simp: item_ready_def secret_ready_def public_ready_def private_ready_def delete_ready_def staged_with_def)

text \<open>New items on top of those that are ready.\<close>

lemma all_ready_append:
  assumes xs: "all_ready mode T1 xs" and st: "stages T1 p1 T2 p2"
    and ys: "prepared_all destination staged name R writes (cw_destination ` set xs) T1 is T2"
    and C: "\<And>w i. R w i T2 \<Longrightarrow> item_ready mode T2 (C i)"
    and fields: "\<And>i. cw_destination (C i) = destination i" "\<And>i. cw_staged (C i) = staged i"
  shows "all_ready mode T2 (xs @ map C is)"
proof -
  have all: "list_all2 (\<lambda>w i. R w i T2 \<and> destination i = name w) writes is" using ys by (simp add: prepared_all_def)
  have "item_ready mode T2 (C i)" if "i \<in> set is" for i
    using all that C by (auto simp: list_all2_conv_all_nth in_set_conv_nth)
  moreover have "item_ready mode T2 x" if "x \<in> set xs" for x
    using xs that item_ready_stages [OF st] by (auto simp: all_ready_def)
  moreover have "set (List.map_filter cw_staged xs) \<inter> set (List.map_filter staged is) = {}"
    using all_ready_staged(2) [OF xs] ys by (force simp: prepared_all_def)
  ultimately show ?thesis
    using xs ys by (auto simp: all_ready_def prepared_all_def fields comp_def)
qed

lemma all_ready_Nil [simp]: "all_ready mode T []"
  by (simp add: all_ready_def)

definition combined_ready ::
  "authoring_env \<Rightarrow> string \<Rightarrow> write_mode \<Rightarrow> fs_path \<Rightarrow> batch_secret_write list \<Rightarrow> batch_public_write list
    \<Rightarrow> batch_private_write list \<Rightarrow> batch_private_delete list \<Rightarrow> prepared_combined_write list \<Rightarrow> fs_tree \<Rightarrow> bool" where
  "combined_ready env identity mode c sw uw pw dw prepared T \<longleftrightarrow>
     all_ready mode T prepared
     \<and> (\<exists>ss us ps ds. prepared = map CSecret ss @ map CPublic us @ map CPrivate ps @ map CDelete ds
         \<and> list_all2 (\<lambda>w i. secret_ready env identity mode (bs_plaintext w) i T \<and> pw_destination i = c @ path_names (bs_destination w)) sw ss
         \<and> list_all2 (\<lambda>w i. public_ready env mode (bp_plaintext w) i T \<and> pw_destination i = c @ path_names (bp_destination w)) uw us
         \<and> list_all2 (\<lambda>w i. private_ready env (bp_plaintext w) i T \<and> pw_destination i = c @ path_names (bp_destination w)) pw ps
         \<and> list_all2 (\<lambda>relative i. pw_destination i = c @ path_names relative) dw ds)"

lemma prepared_allD:
  "prepared_all destination staged name R writes taken tree is tree' \<Longrightarrow> list_all2 (\<lambda>w i. R w i tree' \<and> destination i = name w) writes is"
  by (simp add: prepared_all_def)

lemma combined_ready_build:
  assumes s: "stages T p T1 p1" "prepared_all pw_destination pw_staged (\<lambda>w. c @ path_names (bs_destination w)) (\<lambda>w. secret_ready env identity mode (bs_plaintext w)) sw {} T ss T1"
    and u: "stages T1 p1 T2 p2" "prepared_all pw_destination pw_staged (\<lambda>w. c @ path_names (bp_destination w)) (\<lambda>w. public_ready env mode (bp_plaintext w)) uw
      (pw_destination ` set ss) T1 us T2"
    and v: "stages T2 p2 T3 p3" "prepared_all pw_destination pw_staged (\<lambda>w. c @ path_names (bp_destination w)) (\<lambda>w. private_ready env (bp_plaintext w)) pw
      (pw_destination ` set ss \<union> pw_destination ` set us) T2 ps T3"
    and d: "stages T3 p3 T4 p4" "prepared_all pw_destination (\<lambda>_. None) (\<lambda>relative. c @ path_names relative) (\<lambda>_. delete_ready) dw
      (pw_destination ` set ss \<union> pw_destination ` set us \<union> pw_destination ` set ps) T3 ds T4"
  shows "combined_ready env identity mode c sw uw pw dw (map CSecret ss @ map CPublic us @ map CPrivate ps @ map CDelete ds) T4"
proof -
  have "all_ready mode T1 ([] @ map CSecret ss)"
    by (rule all_ready_append [OF all_ready_Nil s(1), where R = "\<lambda>w. secret_ready env identity mode (bs_plaintext w)"])
      (use s(2) ready_item(1) in auto)
  then have r1: "all_ready mode T1 (map CSecret ss)" by simp
  have r2: "all_ready mode T2 (map CSecret ss @ map CPublic us)"
    by (rule all_ready_append [OF r1 u(1), where R = "\<lambda>w. public_ready env mode (bp_plaintext w)"])
      (use u(2) ready_item(2) in \<open>auto simp: image_image\<close>)
  have r3: "all_ready mode T3 ((map CSecret ss @ map CPublic us) @ map CPrivate ps)"
    by (rule all_ready_append [OF r2 v(1), where R = "\<lambda>w. private_ready env (bp_plaintext w)"])
      (use v(2) ready_item(3) in \<open>auto simp: image_image image_Un\<close>)
  have "all_ready mode T4 (((map CSecret ss @ map CPublic us) @ map CPrivate ps) @ map CDelete ds)"
    by (rule all_ready_append [OF r3 d(1), where R = "\<lambda>_. delete_ready"])
      (use d(2) ready_item(4) in \<open>auto simp: image_image image_Un Un_assoc\<close>)
  moreover have "list_all2 (\<lambda>w i. secret_ready env identity mode (bs_plaintext w) i T4 \<and> pw_destination i = c @ path_names (bs_destination w)) sw ss"
    by (rule list_all2_mono [OF s(2) [THEN prepared_allD]])
      (simp add: secret_ready_stages [OF stages_trans [OF u(1) stages_trans [OF v(1) d(1)]]])
  moreover have "list_all2 (\<lambda>w i. public_ready env mode (bp_plaintext w) i T4 \<and> pw_destination i = c @ path_names (bp_destination w)) uw us"
    by (rule list_all2_mono [OF u(2) [THEN prepared_allD]]) (simp add: public_ready_stages [OF stages_trans [OF v(1) d(1)]])
  moreover have "list_all2 (\<lambda>w i. private_ready env (bp_plaintext w) i T4 \<and> pw_destination i = c @ path_names (bp_destination w)) pw ps"
    by (rule list_all2_mono [OF v(2) [THEN prepared_allD]]) (simp add: private_ready_stages [OF d(1)])
  moreover have "list_all2 (\<lambda>relative i. pw_destination i = c @ path_names relative) dw ds"
    by (rule list_all2_mono [OF d(2) [THEN prepared_allD]]) simp
  ultimately show ?thesis by (auto simp: combined_ready_def)
qed

lemma vc_then:
  assumes "vc I m (\<lambda>x T' p'. stages T p T' p' \<and> A x T') (\<lambda>e T' p'. stages T p T' p') T p" and "steady I T"
    and "\<And>x T' p'. stages T p T' p' \<Longrightarrow> steady I T' \<Longrightarrow> A x T' \<Longrightarrow> vc I (f x) Q E T' p'"
    and "\<And>e T' p'. stages T p T' p' \<Longrightarrow> E e T' p'"
  shows "vc I (t_bind m f) Q E T p"
proof (rule vc_bind, rule vc_mono [OF assms(1)])
  fix x T' p'
  assume "stages T p T' p' \<and> A x T'"
  moreover from this have "steady I T'" using steady_view [OF assms(2)] stages_view by blast
  ultimately show "vc I (f x) Q E T' p'" using assms(3) by blast
qed (use assms(4) in auto)

lemma vc_prepare_combined:
  assumes env: "quiet env" and st: "steady I T" and root: "rooted env root c T"
    and names: "\<forall>w \<in> set sw. \<not> reserved_name (relative_name (bs_destination w))"
      "\<forall>w \<in> set uw. \<not> reserved_name (relative_name (bp_destination w))"
      "\<forall>w \<in> set pw. \<not> reserved_name (relative_name (bp_destination w))"
      "\<forall>relative \<in> set dw. \<not> reserved_name (relative_name relative)"
  shows "vc I (prepare_combined env root sw uw pw dw identity mode)
    (\<lambda>prepared T' p'. stages T p T' p' \<and> combined_ready env identity mode c sw uw pw dw prepared T')
    (\<lambda>e T' p'. stages T p T' p') T p"
  unfolding prepare_combined_def
proof (rule vc_then [OF _ st])
  show "vc I (if sw = [] then t_return [] else prepare_batch_writes env root sw identity mode)
      (\<lambda>ss T1 p1. stages T p T1 p1
        \<and> prepared_all pw_destination pw_staged (\<lambda>w. c @ path_names (bs_destination w)) (\<lambda>w. secret_ready env identity mode (bs_plaintext w)) sw {} T ss T1)
      (\<lambda>e T1 p1. stages T p T1 p1) T p"
    using vc_secret_loop [OF env names(1) st root] by (auto intro!: vc_return simp: prepared_all_def)
next
  fix ss T1 p1
  assume s: "stages T p T1 p1" "steady I T1"
    "prepared_all pw_destination pw_staged (\<lambda>w. c @ path_names (bs_destination w)) (\<lambda>w. secret_ready env identity mode (bs_plaintext w)) sw {} T ss T1"
  note root1 = rooted_stages [OF s(1) root]
  show "vc I (t_bind (prepare_public_writes env root uw mode (pw_destination ` set ss)) (\<lambda>us.
      t_bind (prepare_private_writes env root pw (pw_destination ` set ss \<union> pw_destination ` set us)) (\<lambda>ps.
      t_bind (prepare_private_deletes env root dw (pw_destination ` set ss \<union> pw_destination ` set us \<union> pw_destination ` set ps)) (\<lambda>ds.
      t_return (map CSecret ss @ map CPublic us @ map CPrivate ps @ map CDelete ds)))))
    (\<lambda>prepared T' p'. stages T p T' p' \<and> combined_ready env identity mode c sw uw pw dw prepared T')
    (\<lambda>e T' p'. stages T p T' p') T1 p1"
    by (rule vc_then [OF vc_public_loop [OF env names(2) s(2) root1] s(2)],
        rule vc_then [OF vc_private_loop [OF env names(3)]], assumption, erule rooted_stages [OF _ root1], assumption,
        rule vc_then [OF vc_delete_loop [OF env names(4)]], assumption,
        erule rooted_stages [OF _ rooted_stages [OF _ root1]], assumption, assumption, rule vc_return)
      (use s combined_ready_build [OF s(1,3)] in \<open>blast intro: stages_trans\<close>)+
qed blast

section \<open>Batches of secrets only\<close>

lemma restore_batch_combined: "restore_batch env prepared backups committed = restore_combined env (map CSecret prepared) backups committed"
  by (simp add: restore_batch_def restore_combined_def comp_def)

lemma batch_backup_items_combined: "batch_backup_items mode prepared = combined_backup_items mode (map CSecret prepared)"
  by (simp add: batch_backup_items_def combined_backup_items_def)

lemma commit_loop_combined:
  "\<forall>item \<in> set rest. pw_staged item \<noteq> None \<Longrightarrow>
   commit_loop env mode prepared backups rest committed =
     commit_combined env mode (map CSecret prepared) backups (map CSecret rest) committed"
proof (induction rest arbitrary: committed)
  case (Cons item rest)
  then obtain s where "pw_staged item = Some s" by auto
  with Cons show ?case
    by (simp add: restore_batch_combined combined_persist_def cong: sum.case_cong)
qed simp

lemma vc_commit_batch:
  assumes env: "quiet env" and ready: "all_ready mode T (map CSecret prepared)" and temps: "\<forall>p \<in> set temps. is_temp p"
  shows "vc (intact T (map CSecret prepared)) (commit_batch env mode prepared)
    (\<lambda>r tree temps'. r = map pw_result prepared \<and> view tree = outcome T (map CSecret prepared) \<and> (\<forall>p \<in> set temps'. is_temp p))
    (\<lambda>e tree temps'. settled T (map CSecret prepared) e tree \<and> (\<forall>p \<in> set temps'. is_temp p)) T temps"
    (is "vc ?I _ ?Q ?E T temps")
proof -
  let ?items = "map CSecret prepared"
  have staged: "\<forall>item \<in> set prepared. pw_staged item \<noteq> None"
    using ready by (auto simp: all_ready_def item_ready_def)
  have sync: "vc ?I (t_bind (t_for_each (\<lambda>item. sync_parent env (pw_parent item)) prepared) (\<lambda>_. t_return (map pw_result prepared)))
      ?Q ?E tree temps'" if "view tree = outcome T ?items" "\<forall>p \<in> set temps'. is_temp p" for tree temps'
    by (rule vc_bind, rule vc_for_each [where P = "\<lambda>tree temps'. view tree = outcome T ?items \<and> (\<forall>p \<in> set temps'. is_temp p)"])
      (use that env in \<open>auto intro!: vc_sync_parent vc_return simp: settled_def intact_def\<close>)
  have finish: "vc ?I (t_bind (drop_list env (List.map_filter id backups)) (\<lambda>_.
      t_bind (t_for_each (\<lambda>item. sync_parent env (pw_parent item)) prepared) (\<lambda>_. t_return (map pw_result prepared))))
      ?Q ?E tree temps'"
    if "view tree = outcome T ?items" "\<forall>p \<in> set temps'. is_temp p" "\<forall>p \<in> set (List.map_filter id backups). is_temp p"
    for backups tree temps'
    by (rule vc_bind, rule vc_drop_list [OF env that(3), where J = "\<lambda>tree. view tree = outcome T ?items"])
      (use that in \<open>auto intro!: sync simp: intact_def simp del: view_upd_None\<close>)
  have "vc ?I (t_bind (back_up env (\<lambda>backups. restore_combined env ?items backups []) (combined_backup_items mode ?items) [])
      (\<lambda>backups. t_bind (commit_combined env mode ?items backups ?items []) (\<lambda>_.
      t_bind (drop_list env (List.map_filter id backups)) (\<lambda>_.
      t_bind (t_for_each (\<lambda>item. sync_parent env (pw_parent item)) prepared) (\<lambda>_. t_return (map pw_result prepared))))))
      ?Q ?E T temps"
    using finish by (intro vc_backup_and_commit [OF env ready temps] settled_recovers) auto
  then have rest: "vc ?I (t_bind (back_up env (\<lambda>backups. restore_batch env prepared backups []) (batch_backup_items mode prepared) [])
      (\<lambda>backups. t_bind (commit_prepared_batch env prepared mode backups) (\<lambda>results.
      t_bind (drop_list env (List.map_filter id backups)) (\<lambda>_.
      t_bind (t_for_each (\<lambda>item. sync_parent env (pw_parent item)) prepared) (\<lambda>_. t_return results))))) ?Q ?E T temps"
    by (simp add: commit_prepared_batch_def t_bind_assoc restore_batch_combined batch_backup_items_combined
        commit_loop_combined [OF staged])
  show ?thesis
    unfolding commit_batch_def
    by (rule vc_bind, rule vc_for_each [where P = "\<lambda>tree temps'. tree = T \<and> temps' = temps"])
      (use env temps rest in \<open>auto intro!: vc_recheck_plain simp: settled_early intact_refl\<close>)
qed

end
