(* ===== verification/Authoring_Runs.thy ===== *)
theory Authoring_Runs
  imports Authoring_Transactions
begin

text \<open>
  Runs of the transactions on several files. The contract of the two halves is a locale; each
  transaction of the crate is an interpretation of it.
\<close>

section \<open>The first half does not report unknown durability\<close>

lemma never_lift_err [never_intros]: "(\<And>x. h x \<noteq> e) \<Longrightarrow> never e (t_lift (map_err h r))"
  by (rule never_basic(6)) (auto simp: map_err_def split: sum.split)

lemma never_check_lift [never_intros]: "e' \<noteq> e \<Longrightarrow> never e (t_lift (check b e'))"
  by (rule never_basic(6)) (auto simp: check_def)

abbreviation plain :: "('s, authoring_error, 'a) traced \<Rightarrow> bool" where
  "plain m \<equiv> never ADurabilityUnknown m"

lemma never_for_each [never_intros]: "(\<And>x. never e (f x)) \<Longrightarrow> never e (t_for_each f xs)"
  by (induction xs) (auto intro: never_intros)

lemma plain_enter_directories: "plain (enter_directories env p segments)"
  by (induction segments arbitrary: p)
    (auto intro!: never_intros simp: enter_directory_def split: sum.split fs_node.split io_kind.split)

lemma plain_walk_existing: "plain (walk_existing env p segments)"
  by (induction segments arbitrary: p) (auto intro!: never_intros)

lemma plain_lock: "plain (acquire_repository_lock env root)"
  by (auto intro!: never_intros simp: acquire_repository_lock_def secure_lock_def split: fs_node.split)

lemma plain_steps:
  "plain (resolve_destination env root relative)" "plain (resolve_existing env root relative)"
  "plain (validate_destination env p mode)" "plain (validate_private_destination env p)"
  "plain (open_staged env p)" "plain (open_nofollow_regular env p)" "plain (ensure_unchanged env p previous)"
  "plain (hash_file env p)" "plain (hash_bounded_file env p n)" "plain (encrypt_into env p input recipients)"
  "plain (rekey_into env p source identity recipients legacy)" "plain (verify_staged env p identity)"
  by (auto intro!: never_intros plain_enter_directories plain_walk_existing
      simp: resolve_destination_def resolve_existing_def validate_relative_def validate_destination_def
        validate_private_destination_def open_staged_def open_nofollow_regular_def ensure_unchanged_def hash_file_def
        hash_bounded_file_def encrypt_into_def rekey_into_def verify_staged_def
      split: sum.split fs_node.split io_kind.split option.split prod.split)

lemma plain_staged: "plain (hash_staged env p)" "plain (seal_staged env p input recipients identity)"
  by (auto intro!: never_intros plain_steps simp: hash_staged_def seal_staged_def split: prod.split)

lemma plain_prepare_loop: "(\<And>taken w. plain (step taken w)) \<Longrightarrow> plain (prepare_loop step take_up taken writes)"
  by (induction writes arbitrary: taken) (auto intro!: never_intros)

lemma plain_items:
  "plain (prepare_batch_write env root identity mode taken sw)"
  "plain (prepare_rekey_write env root source_identity identity mode legacy taken' rw)"
  "plain (prepare_file_write env root identity mode taken' fw)"
  "plain (prepare_public_file env root mode taken' uf)"
  "plain (prepare_public_write env root mode taken uw)" "plain (prepare_private_write env root taken uw)"
  "plain (prepare_private_delete env root taken d)"
  unfolding prepare_batch_write_def prepare_rekey_write_def prepare_file_write_def prepare_public_file_def
    prepare_public_write_def prepare_private_write_def prepare_private_delete_def
  by (intro never_intros plain_steps plain_staged; simp)+

lemma plain_prepare_combined: "plain (prepare_combined env root sw uw pw dw identity mode)"
  unfolding prepare_combined_def prepare_batch_writes_def prepare_public_writes_def prepare_private_writes_def
    prepare_private_deletes_def
  by (intro never_intros plain_prepare_loop plain_items; simp)

lemma plain_check_sources: "plain (check_sources env staged)"
  unfolding check_sources_def by (auto intro!: never_intros plain_steps)

section \<open>The contract\<close>

text \<open>
  A transaction is all or nothing: it fails without having changed an entry of the view, or it has an
  effect \<open>new\<close> so that in every state each entry is as before, as in \<open>new\<close>, or absent; it ends in \<open>new\<close> on
  success and when only the durability of the directories is unknown, and in the old view on every
  other error, but for an operating-system error and a failed restoration.
\<close>

definition all_or_nothing ::
  "('r \<Rightarrow> (fs_path \<Rightarrow> fs_node option) \<Rightarrow> bool) \<Rightarrow> world \<Rightarrow> world list \<Rightarrow> authoring_error + 'r \<Rightarrow> bool" where
  "all_or_nothing effect w trace r \<longleftrightarrow>
     (let old = view (w_tree w); ended = view (w_tree (final_state w trace)) in
      (\<exists>e. r = Inl e \<and> e \<noteq> ADurabilityUnknown) \<and> (\<forall>s \<in> set trace. view (w_tree s) = old)
      \<or> (\<exists>x new. effect x new \<and> (\<forall>s \<in> set trace. \<forall>p. view (w_tree s) p \<in> {old p, new p, None})
          \<and> (case r of
                Inr y \<Rightarrow> y = x \<and> ended = new
              | Inl e \<Rightarrow> if e = ADurabilityUnknown then ended = new else uncertain e \<or> ended = old)))"

lemma intact_view: "view a = view b \<Longrightarrow> intact T prepared a = intact T prepared b"
  by (simp add: intact_def)

lemma settled_view: "view a = view b \<Longrightarrow> settled T prepared e a = settled T prepared e b"
  by (simp add: settled_def intact_def)

text \<open>Dropping the temporary files at the end does not change the view.\<close>

lemma drop_view:
  assumes "quiet env" and "\<forall>q \<in> set (w_temps w). is_temp q"
    and "(drop_temps env :: (world, authoring_error, unit) traced) w = (trace, r)"
  shows "\<forall>s \<in> set trace. view (w_tree s) = view (w_tree w)" "view (w_tree (final_state w trace)) = view (w_tree w)"
proof -
  let ?J = "\<lambda>tree. view tree = view (w_tree w)"
  have "vc ?J (drop_temps env :: (world, authoring_error, unit) traced) (\<lambda>_ tree _. ?J tree) (\<lambda>_ tree _. ?J tree)
      (w_tree w) (w_temps w)"
    by (rule vc_drop_temps [OF assms(1,2), where J = ?J]) (auto simp del: view_upd_None)
  from vc_run [OF this assms(3)]
  show "\<forall>s \<in> set trace. view (w_tree s) = view (w_tree w)" "view (w_tree (final_state w trace)) = view (w_tree w)"
    by (cases r; auto)+
qed

text \<open>
  The first half prepares changes without touching the view; a prepared transaction has its effect
  when the changes are made. The second half makes them.
\<close>

locale transaction =
  fixes env :: authoring_env
    and applicable :: "fs_tree \<Rightarrow> bool"
    and mode :: write_mode
    and prepare :: "(world, authoring_error, 'p) traced"
    and finish :: "'p \<Rightarrow> (world, authoring_error, 'r) traced"
    and changes :: "'p \<Rightarrow> prepared_combined_write list"
    and result :: "'p \<Rightarrow> 'r"
    and effect :: "(fs_path \<Rightarrow> fs_node option) \<Rightarrow> 'r \<Rightarrow> (fs_path \<Rightarrow> fs_node option) \<Rightarrow> bool"
  assumes quiet: "applicable T \<Longrightarrow> quiet env"
    and prepare_ok: "applicable T \<Longrightarrow>
      vc (\<lambda>tree. view tree = view T) prepare
        (\<lambda>p tree temps. view tree = view T \<and> all_ready mode tree (changes p)
           \<and> effect (view T) (result p) (outcome tree (changes p)) \<and> (\<forall>q \<in> set temps. is_temp q))
        (\<lambda>e tree temps. view tree = view T \<and> (\<forall>q \<in> set temps. is_temp q)) T []"
    and prepare_plain: "plain prepare"
    and finish_ok: "quiet env \<Longrightarrow> all_ready mode T (changes p) \<Longrightarrow> \<forall>q \<in> set temps. is_temp q \<Longrightarrow>
      vc (intact T (changes p)) (finish p)
        (\<lambda>r tree temps'. r = result p \<and> view tree = outcome T (changes p) \<and> (\<forall>q \<in> set temps'. is_temp q))
        (\<lambda>e tree temps'. settled T (changes p) e tree \<and> (\<forall>q \<in> set temps'. is_temp q)) T temps"
begin

text \<open>A run that fails in the first half, and one that reaches the second.\<close>

lemma run_cases:
  assumes app: "applicable (w_tree w)" and "w_temps w = []" and "t_bind prepare finish w = (trace, r)"
  obtains (first_half) e where "r = Inl e" "e \<noteq> ADurabilityUnknown" "\<forall>s \<in> set trace. view (w_tree s) = view (w_tree w)"
    "view (w_tree (final_state w trace)) = view (w_tree w)" "\<forall>q \<in> set (w_temps (final_state w trace)). is_temp q"
  | (second_half) p T where "view T = view (w_tree w)" "effect (view (w_tree w)) (result p) (outcome T (changes p))"
    "\<forall>s \<in> set trace. intact T (changes p) (w_tree s)" "\<forall>q \<in> set (w_temps (final_state w trace)). is_temp q"
    "\<And>x. r = Inr x \<Longrightarrow> x = result p \<and> view (w_tree (final_state w trace)) = outcome T (changes p)"
    "\<And>e. r = Inl e \<Longrightarrow> settled T (changes p) e (w_tree (final_state w trace))"
proof -
  note first_run = vc_run [OF prepare_ok [OF app, folded assms(2)]]
  from assms(3) show ?thesis
  proof (cases rule: run_bind)
    case (error e)
    from first_run [OF error(1)] error prepare_plain show ?thesis
      by (intro first_half) (auto simp: never_def, metis snd_conv)
  next
    case (rest tr1 p tr2)
    let ?w1 = "final_state w tr1"
    note before = first_run(1) [OF rest(1)]
    from first_run(2) [OF rest(1) refl]
    have mid: "view (w_tree ?w1) = view (w_tree w)" "all_ready mode (w_tree ?w1) (changes p)"
      "effect (view (w_tree w)) (result p) (outcome (w_tree ?w1) (changes p))" "\<forall>q \<in> set (w_temps ?w1). is_temp q"
      by auto
    note second = vc_run [OF finish_ok [OF quiet [OF app] mid(2,4)] rest(2)]
    have "\<forall>s \<in> set trace. intact (w_tree ?w1) (changes p) (w_tree s)"
      using before second(1) mid(1) rest(3) by (auto intro: intact_refl)
    with mid second rest(3) show ?thesis
      by (cases r) (auto intro!: second_half [of "w_tree ?w1" p])
  qed
qed

theorem scoped_run:
  assumes "applicable (w_tree w)" and "w_temps w = []" and "scoped env (t_bind prepare finish) w = (trace, r)"
  shows "all_or_nothing (effect (view (w_tree w))) w trace r"
proof -
  from assms(3) obtain tr1 tr2 r2 where parts: "t_bind prepare finish w = (tr1, r)"
    "(drop_temps env :: (world, authoring_error, unit) traced) (final_state w tr1) = (tr2, r2)" "trace = tr1 @ tr2"
    unfolding scoped_def by (rule run_finally)
  let ?w1 = "final_state w tr1"
  from assms(1,2) parts(1) show ?thesis
  proof (cases rule: run_cases)
    case (first_half e)
    with drop_view [OF quiet [OF assms(1)] first_half(5) parts(2)] parts(3) show ?thesis
      by (auto simp: all_or_nothing_def Let_def)
  next
    case (second_half p T)
    note same = drop_view [OF quiet [OF assms(1)] second_half(4) parts(2)]
    have at: "intact T (changes p) (w_tree ?w1)"
      using second_half(1,3) by (auto simp: final_state_def intro: intact_refl)
    have "intact T (changes p) (w_tree s)" if "s \<in> set trace" for s
    proof (cases "s \<in> set tr1")
      case False
      with that parts(3) same have "view (w_tree s) = view (w_tree ?w1)" by simp
      from intact_view [OF this] at show ?thesis by blast
    qed (use second_half(3) in blast)
    moreover have "view (w_tree (final_state w trace)) = view (w_tree ?w1)" using same parts(3) by simp
    moreover have "settled T (changes p) e (w_tree ?w1)" if "r = Inl e" for e
      using second_half(6) that by blast
    ultimately have "(\<forall>s \<in> set trace. \<forall>q. view (w_tree s) q \<in> {view (w_tree w) q, outcome T (changes p) q, None})
        \<and> (case r of Inr y \<Rightarrow> y = result p \<and> view (w_tree (final_state w trace)) = outcome T (changes p)
           | Inl e \<Rightarrow> if e = ADurabilityUnknown then view (w_tree (final_state w trace)) = outcome T (changes p)
               else uncertain e \<or> view (w_tree (final_state w trace)) = view (w_tree w))"
      using second_half(1,5) by (cases r) (auto simp: intact_def settled_def)
    with second_half(2) show ?thesis unfolding all_or_nothing_def Let_def by blast
  qed
qed

end

section \<open>Secrets, public outputs and private files\<close>

text \<open>The entry a relative path of a request stands for, below the canonical root.\<close>

definition entry :: "fs_path \<Rightarrow> string \<Rightarrow> fs_path" where
  "entry c relative = c @ path_names relative"

definition names_free :: "string list \<Rightarrow> bool" where
  "names_free relatives \<longleftrightarrow> (\<forall>relative \<in> set relatives. \<not> reserved_name (relative_name relative))"

definition secret_written ::
  "authoring_env \<Rightarrow> string \<Rightarrow> fs_path \<Rightarrow> string \<Rightarrow> bytes \<Rightarrow> authoring_result \<Rightarrow> (fs_path \<Rightarrow> fs_node option) \<Rightarrow> bool" where
  "secret_written env identity c relative plaintext r new \<longleftrightarrow>
     ar_path r = entry c relative \<and> ar_plaintext_bytes r = length plaintext
     \<and> (\<exists>f. new (entry c relative) = Some (FsFile f) \<and> private_file env f \<and> sealed_as env identity plaintext f
         \<and> ar_hash r = au_blake3 env (fl_content f))"

definition public_written ::
  "authoring_env \<Rightarrow> fs_path \<Rightarrow> string \<Rightarrow> bytes \<Rightarrow> authoring_result \<Rightarrow> (fs_path \<Rightarrow> fs_node option) \<Rightarrow> bool" where
  "public_written env c relative content r new \<longleftrightarrow>
     r = \<lparr>ar_path = entry c relative, ar_hash = au_blake3 env content, ar_plaintext_bytes = length content\<rparr>
     \<and> (\<exists>f. new (entry c relative) = Some (FsFile f) \<and> fl_content f = content \<and> fl_mode f = 0x1A4 \<and> fl_nlink f = 1
         \<and> fl_uid f = fe_euid env)"

text \<open>The entries named by the request are pairwise different and nothing else changes.\<close>

definition only_changes :: "fs_path \<Rightarrow> string list \<Rightarrow> (fs_path \<Rightarrow> fs_node option) \<Rightarrow> (fs_path \<Rightarrow> fs_node option) \<Rightarrow> bool" where
  "only_changes c relatives old new \<longleftrightarrow>
     distinct (map (entry c) relatives) \<and> (\<forall>p. p \<notin> set (map (entry c) relatives) \<longrightarrow> new p = old p)"

definition batch_effect ::
  "authoring_env \<Rightarrow> string \<Rightarrow> write_mode \<Rightarrow> fs_path \<Rightarrow> batch_secret_write list \<Rightarrow> batch_public_write list
    \<Rightarrow> batch_private_write list \<Rightarrow> batch_private_delete list \<Rightarrow> (fs_path \<Rightarrow> fs_node option) \<Rightarrow> batch_authoring_result
    \<Rightarrow> (fs_path \<Rightarrow> fs_node option) \<Rightarrow> bool" where
  "batch_effect env identity mode c sw uw pw dw old x new \<longleftrightarrow>
     list_all2 (\<lambda>w r. secret_written env identity c (bs_destination w) (bs_plaintext w) r new) sw (bar_secrets x)
     \<and> list_all2 (\<lambda>w r. public_written env c (bp_destination w) (bp_plaintext w) r new) uw (bar_public_outputs x)
     \<and> (\<forall>w \<in> set pw. \<exists>f. new (entry c (bp_destination w)) = Some (FsFile f) \<and> private_file env f \<and> fl_content f = bp_plaintext w)
     \<and> (\<forall>relative \<in> set dw. new (entry c relative) = None)
     \<and> (\<forall>relative \<in> set (map bs_destination sw @ map bp_destination uw). (old (entry c relative) \<noteq> None) = (mode = Replace))
     \<and> only_changes c (map bs_destination sw @ map bp_destination uw @ map bp_destination pw @ dw) old new"

lemma outcome_written:
  assumes "all_ready mode T prepared" and "item \<in> set prepared" and "\<not> is_delete item"
    and "cw_staged item = Some s" and "T s = Some (FsFile f)"
  shows "outcome T prepared (cw_destination item) = Some (published item (FsFile f))"
proof -
  have "outcome T prepared (cw_destination item) = item_outcome T item"
    using assms(1,2) by (intro outcome_item) (auto simp: all_ready_def item_ready_def destination_ok_def)
  with assms(3-) show ?thesis by (simp add: item_outcome_def)
qed

lemma outcome_deleted:
  assumes "all_ready mode T prepared" and "CDelete i \<in> set prepared"
  shows "outcome T prepared (pw_destination i) = None"
proof -
  have "outcome T prepared (cw_destination (CDelete i)) = item_outcome T (CDelete i)"
    using assms by (intro outcome_item) (auto simp: all_ready_def item_ready_def destination_ok_def dest!: bspec)
  then show ?thesis by (simp add: item_outcome_def)
qed

lemma ready_old:
  "all_ready mode T prepared \<Longrightarrow> item \<in> set prepared \<Longrightarrow> (view T (cw_destination item) \<noteq> None) = needs_backup mode item"
  by (auto simp: all_ready_def item_ready_def destination_ok_def view_def dest!: bspec)

lemma only_changes_ready:
  assumes "all_ready mode T prepared" and "map cw_destination prepared = map (entry c) relatives"
  shows "only_changes c relatives (view T) (outcome T prepared)"
proof -
  have "set (map (entry c) relatives) = cw_destination ` set prepared" by (simp add: assms(2) [symmetric])
  then show ?thesis
    unfolding only_changes_def assms(2) [symmetric] using assms(1) outcome_other by (auto simp: all_ready_def)
qed

lemma secret_ready_written:
  assumes "all_ready mode T prepared" and "CSecret i \<in> set prepared" and "secret_ready env identity mode plaintext i T"
    and "pw_destination i = entry c relative"
  shows "secret_written env identity c relative plaintext (pw_result i) (outcome T prepared)"
proof -
  from assms(3) obtain s f where *: "pw_staged i = Some s" "T s = Some (FsFile f)" "private_file env f"
    "sealed_as env identity plaintext f"
    "pw_result i = \<lparr>ar_path = pw_destination i, ar_hash = au_blake3 env (fl_content f), ar_plaintext_bytes = length plaintext\<rparr>"
    by (auto simp: secret_ready_def staged_with_def)
  with outcome_written [OF assms(1,2), of s f] assms(4) show ?thesis
    by (auto simp: secret_written_def published_def)
qed

lemma public_ready_written:
  assumes "all_ready mode T prepared" and "CPublic i \<in> set prepared" and "public_ready env mode content i T"
    and "pw_destination i = entry c relative"
  shows "public_written env c relative content (pw_result i) (outcome T prepared)"
proof -
  from assms(3) obtain s f where *: "pw_staged i = Some s" "T s = Some (FsFile f)" "private_file env f" "fl_content f = content"
    "pw_result i = \<lparr>ar_path = pw_destination i, ar_hash = au_blake3 env content, ar_plaintext_bytes = length content\<rparr>"
    by (auto simp: public_ready_def staged_with_def)
  with outcome_written [OF assms(1,2), of s f] assms(4) show ?thesis
    by (auto simp: public_written_def published_def private_file_def)
qed

lemma private_ready_written:
  assumes "all_ready mode T prepared" and "CPrivate i \<in> set prepared" and "private_ready env content i T"
  shows "\<exists>f. outcome T prepared (pw_destination i) = Some (FsFile f) \<and> private_file env f \<and> fl_content f = content"
proof -
  from assms(3) obtain s f where *: "pw_staged i = Some s" "T s = Some (FsFile f)" "private_file env f" "fl_content f = content"
    by (auto simp: private_ready_def staged_with_def)
  with outcome_written [OF assms(1,2), of s f] show ?thesis by (auto simp: published_def)
qed

lemma results_append [simp]:
  "secret_results (xs @ ys) = secret_results xs @ secret_results ys" "public_results (xs @ ys) = public_results xs @ public_results ys"
  by (simp_all add: secret_results_def public_results_def)

lemma map_filter_all: "List.map_filter (\<lambda>x. Some (f x)) xs = map f xs" "List.map_filter (\<lambda>x. None) xs = []"
  by (induction xs) (simp_all add: map_filter_simps)

lemma results_map [simp]:
  "secret_results (map CSecret ss) = map pw_result ss" "secret_results (map CPublic us) = []"
  "secret_results (map CPrivate ps) = []" "secret_results (map CDelete ds) = []"
  "public_results (map CSecret ss) = []" "public_results (map CPublic us) = map pw_result us"
  "public_results (map CPrivate ps) = []" "public_results (map CDelete ds) = []"
  by (simp_all add: secret_results_def public_results_def map_filter_all)

lemma list_all2_map_eq: "list_all2 (\<lambda>w i. P w i \<and> g i = h w) ws is \<Longrightarrow> map g is = map h ws"
  by (induction rule: list_all2_induct) auto

definition combined_result :: "prepared_combined_write list \<Rightarrow> batch_authoring_result" where
  "combined_result prepared = \<lparr>bar_secrets = secret_results prepared, bar_public_outputs = public_results prepared\<rparr>"

lemma list_all2_in:
  "list_all2 P ws is \<Longrightarrow> (\<And>w i. i \<in> set is \<Longrightarrow> P w i \<Longrightarrow> R w (f i)) \<Longrightarrow> list_all2 R ws (map f is)"
  by (induction rule: list_all2_induct) auto

lemma combined_readyD: "combined_ready env identity mode c sw uw pw dw prepared T \<Longrightarrow> all_ready mode T prepared"
  by (simp add: combined_ready_def)

lemma combined_ready_effect:
  assumes "combined_ready env identity mode c sw uw pw dw prepared T"
  shows "batch_effect env identity mode c sw uw pw dw (view T) (combined_result prepared) (outcome T prepared)"
proof -
  from assms obtain ss us ps ds where ready: "all_ready mode T prepared"
    and prepared: "prepared = map CSecret ss @ map CPublic us @ map CPrivate ps @ map CDelete ds"
    and ss: "list_all2 (\<lambda>w i. secret_ready env identity mode (bs_plaintext w) i T \<and> pw_destination i = entry c (bs_destination w)) sw ss"
    and us: "list_all2 (\<lambda>w i. public_ready env mode (bp_plaintext w) i T \<and> pw_destination i = entry c (bp_destination w)) uw us"
    and ps: "list_all2 (\<lambda>w i. private_ready env (bp_plaintext w) i T \<and> pw_destination i = entry c (bp_destination w)) pw ps"
    and ds: "list_all2 (\<lambda>relative i. True \<and> pw_destination i = entry c relative) dw ds"
    unfolding combined_ready_def entry_def by auto
  have members: "i \<in> set ss \<Longrightarrow> CSecret i \<in> set prepared" "i \<in> set us \<Longrightarrow> CPublic i \<in> set prepared"
    "k \<in> set ps \<Longrightarrow> CPrivate k \<in> set prepared" "d \<in> set ds \<Longrightarrow> CDelete d \<in> set prepared" for i k d
    by (auto simp: prepared)
  note names = list_all2_map_eq [OF ss] list_all2_map_eq [OF us] list_all2_map_eq [OF ps] list_all2_map_eq [OF ds]
  let ?new = "outcome T prepared"
  have secrets: "list_all2 (\<lambda>w r. secret_written env identity c (bs_destination w) (bs_plaintext w) r ?new) sw (map pw_result ss)"
    using ss by (rule list_all2_in) (use secret_ready_written [OF ready members(1)] in auto)
  have public: "list_all2 (\<lambda>w r. public_written env c (bp_destination w) (bp_plaintext w) r ?new) uw (map pw_result us)"
    using us by (rule list_all2_in) (use public_ready_written [OF ready members(2)] in auto)
  have "\<exists>f. ?new (entry c (bp_destination w)) = Some (FsFile f) \<and> private_file env f \<and> fl_content f = bp_plaintext w"
    if "w \<in> set pw" for w
    using that ps private_ready_written [OF ready members(3)]
    by (fastforce simp: list_all2_conv_all_nth in_set_conv_nth)
  moreover have "?new (entry c relative) = None" if "relative \<in> set dw" for relative
    using that ds outcome_deleted [OF ready members(4)] by (fastforce simp: list_all2_conv_all_nth in_set_conv_nth)
  moreover have "(view T (entry c relative) \<noteq> None) = (mode = Replace)"
    if rel: "relative \<in> set (map bs_destination sw @ map bp_destination uw)" for relative
  proof -
    have "entry c relative \<in> set (map (\<lambda>w. entry c (bs_destination w)) sw @ map (\<lambda>w. entry c (bp_destination w)) uw)"
      using rel by auto
    then have "entry c relative \<in> pw_destination ` set ss \<union> pw_destination ` set us"
      unfolding names(1,2) [symmetric] by simp
    then show ?thesis
      using ready_old [OF ready members(1)] ready_old [OF ready members(2)] by (elim UnE imageE) simp_all
  qed
  moreover have "only_changes c (map bs_destination sw @ map bp_destination uw @ map bp_destination pw @ dw) (view T) ?new"
    by (rule only_changes_ready [OF ready]) (simp add: prepared comp_def names)
  ultimately show ?thesis
    using secrets public unfolding batch_effect_def combined_result_def by (auto simp: prepared)
qed

text \<open>The lock, then a preparation that only stages.\<close>

lemma vc_locked:
  assumes "quiet env"
    and m: "\<And>T'. view T' = view T \<Longrightarrow> (\<And>c. rooted env root c T \<Longrightarrow> rooted env root c T') \<Longrightarrow>
      vc (\<lambda>tree. view tree = view T) m (\<lambda>p T'' ps. stages T' [] T'' ps \<and> R p T'') (\<lambda>e T'' ps. stages T' [] T'' ps) T' []"
  shows "vc (\<lambda>tree. view tree = view T) (t_bind (acquire_repository_lock env root) (\<lambda>_. m))
    (\<lambda>p tree temps. view tree = view T \<and> R p tree \<and> (\<forall>q \<in> set temps. is_temp q))
    (\<lambda>e tree temps. view tree = view T \<and> (\<forall>q \<in> set temps. is_temp q)) T []"
proof (rule vc_bind, rule vc_acquire_repository_lock [OF assms(1)])
  fix T'
  assume same: "view T' = view T" and "solid T T'"
  then show "vc (\<lambda>tree. view tree = view T) m
      (\<lambda>p tree temps. view tree = view T \<and> R p tree \<and> (\<forall>q \<in> set temps. is_temp q))
      (\<lambda>e tree temps. view tree = view T \<and> (\<forall>q \<in> set temps. is_temp q)) T' []"
    by (intro vc_mono [OF m [OF same]]) (auto simp: stages_view same dest: stages_temps intro: rooted_solid)
qed (auto simp: steady_def)

definition combined_prepare where
  "combined_prepare env root sw uw pw dw identity mode =
     t_bind (acquire_repository_lock env root) (\<lambda>_.
     t_bind (t_check (\<not> (sw = [] \<and> uw = [] \<and> pw = [] \<and> dw = [])) AUnsafePath) (\<lambda>_.
     t_bind (t_check (length sw + length uw + length pw + length dw \<le> 10000) AUnsafePath) (\<lambda>_.
     prepare_combined env root sw uw pw dw identity mode)))"

definition combined_finish where
  "combined_finish env mode prepared =
     t_bind (commit_combined_batch env mode prepared) (\<lambda>_. t_return (combined_result prepared))"

interpretation combined: transaction env
  "\<lambda>T. quiet env \<and> rooted env root c T
     \<and> names_free (map bs_destination sw @ map bp_destination uw @ map bp_destination pw @ dw)" mode
  "combined_prepare env root sw uw pw dw identity mode" "combined_finish env mode" "\<lambda>prepared. prepared"
  combined_result "batch_effect env identity mode c sw uw pw dw"
  for env sw uw pw dw mode root identity c
proof (unfold_locales, goal_cases)
  case (2 T)
  then have names: "\<forall>w \<in> set sw. \<not> reserved_name (relative_name (bs_destination w))"
    "\<forall>w \<in> set uw. \<not> reserved_name (relative_name (bp_destination w))"
    "\<forall>w \<in> set pw. \<not> reserved_name (relative_name (bp_destination w))"
    "\<forall>relative \<in> set dw. \<not> reserved_name (relative_name relative)"
    by (auto simp: names_free_def)
  have "vc (\<lambda>tree. view tree = view T) (combined_prepare env root sw uw pw dw identity mode)
      (\<lambda>p tree temps. view tree = view T \<and> combined_ready env identity mode c sw uw pw dw p tree \<and> (\<forall>q \<in> set temps. is_temp q))
      (\<lambda>e tree temps. view tree = view T \<and> (\<forall>q \<in> set temps. is_temp q)) T []"
    unfolding combined_prepare_def
    using 2 by (intro vc_locked vc_bind [OF vc_check] vc_prepare_combined names) (auto simp: steady_def)
  then show ?case
    by (rule vc_mono) (use combined_ready_effect combined_readyD in fastforce)+
next
  case 3
  show ?case
    unfolding combined_prepare_def by (auto intro!: never_intros plain_lock plain_prepare_combined)
next
  case (4 T p temps)
  then show ?case
    unfolding combined_finish_def
    by (intro vc_bind [OF vc_mono [OF vc_commit_combined_batch]]) (auto intro: vc_return)
qed simp

lemma write_secret_public_private_batch_alt:
  "write_secret_public_private_batch env root sw uw pw dw identity mode =
   scoped env (t_bind (combined_prepare env root sw uw pw dw identity mode) (combined_finish env mode))"
  unfolding write_secret_public_private_batch_def combined_prepare_def combined_finish_def combined_result_def t_bind_assoc
  by (rule refl)

end
