(* ===== verification/Authoring_Batches.thy ===== *)
theory Authoring_Batches
  imports Authoring_Runs
begin

text \<open>
  The batches of secrets and the batches that read their inputs from files, as instances of the
  contract of a transaction.
\<close>

section \<open>Batches of secrets\<close>

definition batch_prepare where
  "batch_prepare env root writes identity mode =
     t_bind (acquire_repository_lock env root) (\<lambda>_. prepare_batch_writes env root writes identity mode)"

lemma prepared_all_ready:
  assumes "stages T p T' p'" and "prepared_all destination staged name R writes {} T is T'"
    and "\<And>w i. R w i T' \<Longrightarrow> item_ready mode T' (C i)"
    and "\<And>i. cw_destination (C i) = destination i" "\<And>i. cw_staged (C i) = staged i"
  shows "all_ready mode T' (map C is)"
proof -
  have "all_ready mode T' ([] @ map C is)"
    by (rule all_ready_append [where R = R and name = name, OF all_ready_Nil assms(1)]) (use assms(2-) in auto)
  then show ?thesis by simp
qed

text \<open>A batch of secrets has the effect of the combined transaction without the other outputs.\<close>

definition secrets_effect ::
  "authoring_env \<Rightarrow> string \<Rightarrow> write_mode \<Rightarrow> fs_path \<Rightarrow> batch_secret_write list \<Rightarrow> (fs_path \<Rightarrow> fs_node option)
    \<Rightarrow> authoring_result list \<Rightarrow> (fs_path \<Rightarrow> fs_node option) \<Rightarrow> bool" where
  "secrets_effect env identity mode c writes old rs new =
     batch_effect env identity mode c writes [] [] [] old \<lparr>bar_secrets = rs, bar_public_outputs = []\<rparr> new"

lemma secrets_ready_effect:
  assumes "stages T p T' p'"
    and "prepared_all pw_destination pw_staged (\<lambda>w. c @ path_names (bs_destination w))
      (\<lambda>w. secret_ready env identity mode (bs_plaintext w)) writes {} T ss T'"
  shows "all_ready mode T' (map CSecret ss)"
    "secrets_effect env identity mode c writes (view T') (map pw_result ss) (outcome T' (map CSecret ss))"
proof -
  show ready: "all_ready mode T' (map CSecret ss)"
    by (rule prepared_all_ready [OF assms]) (auto intro: ready_item)
  have "combined_ready env identity mode c writes [] [] [] (map CSecret ss) T'"
    unfolding combined_ready_def using ready prepared_allD [OF assms(2)] by auto
  from combined_ready_effect [OF this]
  show "secrets_effect env identity mode c writes (view T') (map pw_result ss) (outcome T' (map CSecret ss))"
    by (simp add: secrets_effect_def combined_result_def)
qed

interpretation secret_batch: transaction env
  "\<lambda>T. quiet env \<and> rooted env root c T \<and> names_free (map bs_destination writes)" mode
  "batch_prepare env root writes identity mode" "commit_batch env mode" "map CSecret" "map pw_result"
  "secrets_effect env identity mode c writes"
  for env writes mode root identity c
proof (unfold_locales, goal_cases)
  case (2 T)
  then have names: "\<forall>w \<in> set writes. \<not> reserved_name (relative_name (bs_destination w))" by (auto simp: names_free_def)
  have "vc (\<lambda>tree. view tree = view T) (batch_prepare env root writes identity mode)
      (\<lambda>p tree temps. view tree = view T \<and> (all_ready mode tree (map CSecret p)
        \<and> secrets_effect env identity mode c writes (view tree) (map pw_result p) (outcome tree (map CSecret p)))
        \<and> (\<forall>q \<in> set temps. is_temp q))
      (\<lambda>e tree temps. view tree = view T \<and> (\<forall>q \<in> set temps. is_temp q)) T []"
    unfolding batch_prepare_def
    using 2 names by (intro vc_locked vc_mono [OF vc_secret_loop])
      (auto simp: steady_def intro: secrets_ready_effect)
  then show ?case by (rule vc_mono) auto
next
  case 3
  show ?case
    unfolding batch_prepare_def prepare_batch_writes_def
    by (auto intro!: never_intros plain_lock plain_prepare_loop plain_items)
next
  case (4 T p temps)
  then show ?case by (intro vc_commit_batch) auto
qed simp

lemma write_secret_batch_alt:
  "write_secret_batch env root writes identity mode =
   scoped env (t_bind (batch_prepare env root writes identity mode) (commit_batch env mode))"
  unfolding write_secret_batch_def batch_prepare_def t_bind_assoc by (rule refl)

section \<open>Batches from files\<close>

definition sourced_prepare where
  "sourced_prepare env root step writes =
     t_bind (acquire_repository_lock env root) (\<lambda>_.
     t_bind (t_check (batch_size_ok writes) AUnsafePath) (\<lambda>_.
     t_bind (prepare_loop step take_source ({}, {}) writes) (check_sources env)))"

text \<open>Each source is a file that is still there afterwards, and \<open>W\<close> relates it to the result and the new entries.\<close>

definition sourced_effect ::
  "write_mode \<Rightarrow> fs_path \<Rightarrow> ('w \<Rightarrow> string) \<Rightarrow> ('w \<Rightarrow> string)
    \<Rightarrow> ('w \<Rightarrow> fs_file \<Rightarrow> authoring_result \<Rightarrow> (fs_path \<Rightarrow> fs_node option) \<Rightarrow> bool) \<Rightarrow> 'w list
    \<Rightarrow> (fs_path \<Rightarrow> fs_node option) \<Rightarrow> authoring_result list \<Rightarrow> (fs_path \<Rightarrow> fs_node option) \<Rightarrow> bool" where
  "sourced_effect mode c source destination W writes old rs new \<longleftrightarrow>
     list_all2 (\<lambda>w r. \<exists>g. old (entry c (source w)) = Some (FsFile g) \<and> new (entry c (source w)) = Some (FsFile g) \<and> W w g r new)
       writes rs
     \<and> (\<forall>w \<in> set writes. (old (entry c (destination w)) \<noteq> None) = (mode = Replace))
     \<and> only_changes c (map destination writes) old new"

text \<open>What a step leaves ready: \<open>W\<close> once the changes are made.\<close>

definition source_leads ::
  "write_mode \<Rightarrow> fs_path \<Rightarrow> ('w \<Rightarrow> string)
    \<Rightarrow> ('w \<Rightarrow> fs_file \<Rightarrow> authoring_result \<Rightarrow> (fs_path \<Rightarrow> fs_node option) \<Rightarrow> bool)
    \<Rightarrow> (prepared_batch_write \<Rightarrow> prepared_combined_write) \<Rightarrow> 'w \<Rightarrow> sourced_write \<Rightarrow> fs_tree \<Rightarrow> bool" where
  "source_leads mode c source W C w i T \<longleftrightarrow>
     (\<exists>g. T (entry c (source w)) = Some (FsFile g) \<and> fst (snd i) = entry c (source w)
       \<and> (\<forall>prepared. all_ready mode T prepared \<longrightarrow> C (fst i) \<in> set prepared \<longrightarrow> W w g (pw_result (fst i)) (outcome T prepared)))"

definition entries_free :: "fs_path \<Rightarrow> string list \<Rightarrow> bool" where
  "entries_free c relatives \<longleftrightarrow> (\<forall>relative \<in> set relatives. \<not> managed (entry c relative))"

lemma sourced_ready_effect:
  assumes ready: "all_ready mode T (map C (map fst staged))"
    and C: "\<And>i. cw_destination (C i) = pw_destination i" "\<And>i. needs_backup mode (C i) = (mode = Replace)"
    and items: "list_all2 (\<lambda>w i. R w i T \<and> sw_destination i = c @ path_names (destination w)) writes staged"
    and R: "\<And>w i. R w i T \<Longrightarrow> sw_destination i = c @ path_names (destination w) \<Longrightarrow> source_leads mode c source W C w i T"
    and disjoint: "\<forall>(_, source, _) \<in> set staged. source \<notin> sw_destination ` set staged"
    and free: "entries_free c (map source writes)"
  shows "sourced_effect mode c source destination W writes (view T) (map (\<lambda>i. pw_result (fst i)) staged)
    (outcome T (map C (map fst staged)))"
  unfolding sourced_effect_def
proof (intro conjI ballI)
  let ?new = "outcome T (map C (map fst staged))"
  have names: "map sw_destination staged = map (\<lambda>w. entry c (destination w)) writes"
    unfolding entry_def using items by (rule list_all2_map_eq)
  have kept: "?new (entry c (source w)) = view T (entry c (source w))"
    if "i \<in> set staged" "fst (snd i) = entry c (source w)" for i w
    using disjoint that by (intro outcome_other) (force simp: C)
  have "list_all2 (\<lambda>w i. w \<in> set writes \<and> i \<in> set staged \<and> R w i T \<and> sw_destination i = c @ path_names (destination w)) writes staged"
    using items by (auto simp: list_all2_conv_all_nth)
  then show "list_all2 (\<lambda>w r. \<exists>g. view T (entry c (source w)) = Some (FsFile g) \<and> ?new (entry c (source w)) = Some (FsFile g) \<and> W w g r ?new)
      writes (map (\<lambda>i. pw_result (fst i)) staged)"
  proof (rule list_all2_in)
    fix w i
    assume i: "w \<in> set writes \<and> i \<in> set staged \<and> R w i T \<and> sw_destination i = c @ path_names (destination w)"
    with R obtain g where g: "T (entry c (source w)) = Some (FsFile g)" "fst (snd i) = entry c (source w)"
      "W w g (pw_result (fst i)) ?new"
      unfolding source_leads_def using ready by fastforce
    moreover have "view T (entry c (source w)) = Some (FsFile g)"
      using free i g(1) by (auto simp: entries_free_def view_def nondir_iff)
    ultimately show "\<exists>g. view T (entry c (source w)) = Some (FsFile g) \<and> ?new (entry c (source w)) = Some (FsFile g)
        \<and> W w g (pw_result (fst i)) ?new"
      using kept [of i w] i by auto
  qed
  show "only_changes c (map destination writes) (view T) ?new"
    by (rule only_changes_ready [OF ready]) (simp add: C comp_def names)
  fix w
  assume "w \<in> set writes"
  then have "entry c (destination w) \<in> set (map sw_destination staged)" unfolding names by simp
  then obtain i where "i \<in> set staged" "entry c (destination w) = sw_destination i" by auto
  with ready_old [OF ready, of "C (fst i)"] C show "(view T (entry c (destination w)) \<noteq> None) = (mode = Replace)" by simp
qed

lemma vc_check_sources:
  assumes "quiet env" and "I tree" and "\<And>e. E e tree temps"
    and Q: "\<forall>(_, source, _) \<in> set staged. source \<notin> sw_destination ` set staged \<Longrightarrow> Q (map fst staged) tree temps"
  shows "vc I (check_sources env staged) Q E tree temps"
  unfolding check_sources_def
  by (intro vc_bind [OF vc_check] vc_bind [OF vc_for_each [where P = "\<lambda>t p. t = tree \<and> p = temps"]] vc_return)
    (use assms(1-3) in \<open>fastforce intro!: vc_ensure_unchanged Q simp: list_ex_iff\<close>)+

lemma vc_sourced_prepare:
  assumes env: "quiet env" and root: "rooted env root c T"
    and step: "\<And>I taken w tree temps. w \<in> set writes \<Longrightarrow> steady I tree \<Longrightarrow> rooted env root c tree \<Longrightarrow>
      prepares I (step taken w) sw_destination sw_staged (snd taken) (c @ path_names (destination w)) (R w) tree temps"
    and stable: "\<And>w i tree tree' temps temps'. stages tree temps tree' temps' \<Longrightarrow> R w i tree \<Longrightarrow> R w i tree'"
    and used: "\<And>w i tree s. R w i tree \<Longrightarrow> sw_staged i = Some s \<Longrightarrow> tree s \<noteq> None"
    and item: "\<And>w i tree. R w i tree \<Longrightarrow> item_ready mode tree (C (fst i))"
    and C: "\<And>i. cw_destination (C i) = pw_destination i" "\<And>i. cw_staged (C i) = pw_staged i"
      "\<And>i. needs_backup mode (C i) = (mode = Replace)"
    and R: "\<And>w i tree. R w i tree \<Longrightarrow> sw_destination i = c @ path_names (destination w) \<Longrightarrow> source_leads mode c source W C w i tree"
    and free: "entries_free c (map source writes)"
  shows "vc (\<lambda>tree. view tree = view T) (sourced_prepare env root step writes)
    (\<lambda>p tree temps. view tree = view T \<and> all_ready mode tree (map C p)
       \<and> sourced_effect mode c source destination W writes (view T) (map pw_result p) (outcome tree (map C p))
       \<and> (\<forall>q \<in> set temps. is_temp q))
    (\<lambda>e tree temps. view tree = view T \<and> (\<forall>q \<in> set temps. is_temp q)) T []"
proof -
  let ?R = "\<lambda>p tree. all_ready mode tree (map C p)
    \<and> sourced_effect mode c source destination W writes (view tree) (map pw_result p) (outcome tree (map C p))"
  have "vc (\<lambda>tree. view tree = view T) (sourced_prepare env root step writes)
    (\<lambda>p tree temps. view tree = view T \<and> ?R p tree \<and> (\<forall>q \<in> set temps. is_temp q))
    (\<lambda>e tree temps. view tree = view T \<and> (\<forall>q \<in> set temps. is_temp q)) T []"
    unfolding sourced_prepare_def
  proof (rule vc_locked [OF env], rule vc_bind [OF vc_check])
    fix T'
    assume same: "view T' = view T" and "\<And>c. rooted env root c T \<Longrightarrow> rooted env root c T'"
    with root have st: "steady (\<lambda>tree. view tree = view T) T'" and root': "rooted env root c T'" by (auto simp: steady_def)
    have loop: "vc (\<lambda>tree. view tree = view T) (prepare_loop step take_source ({}, {}) writes)
        (\<lambda>is T'' ps. stages T' [] T'' ps
          \<and> prepared_all sw_destination sw_staged (\<lambda>w. c @ path_names (destination w)) R writes {} T' is T'')
        (\<lambda>e T'' ps. stages T' [] T'' ps) T' []"
      by (rule vc_prepare_loop [where names = snd and taken = "({}, {})" and K = "rooted env root c", unfolded snd_conv])
        (use step stable used st root' rooted_stages in \<open>auto simp: take_source_def split_beta\<close>)
    show "vc (\<lambda>tree. view tree = view T) (t_bind (prepare_loop step take_source ({}, {}) writes) (check_sources env))
        (\<lambda>p T'' ps. stages T' [] T'' ps \<and> ?R p T'') (\<lambda>e T'' ps. stages T' [] T'' ps) T' []"
    proof (rule vc_then [OF loop st])
      fix "is" T'' ps
      assume *: "stages T' [] T'' ps" "prepared_all sw_destination sw_staged (\<lambda>w. c @ path_names (destination w)) R writes {} T' is T''"
        and "steady (\<lambda>tree. view tree = view T) T''"
      have "all_ready mode T'' (map (\<lambda>i. C (fst i)) is)"
        by (rule prepared_all_ready [OF *]) (use item C in auto)
      then have ready: "all_ready mode T'' (map C (map fst is))" by (simp add: comp_def)
      have effect: "sourced_effect mode c source destination W writes (view T'') (map (\<lambda>i. pw_result (fst i)) is)
          (outcome T'' (map C (map fst is)))" if "\<forall>(_, source, _) \<in> set is. source \<notin> sw_destination ` set is"
        by (rule sourced_ready_effect [where R = R]) (use ready C prepared_allD [OF *(2)] R that free in auto)
      show "vc (\<lambda>tree. view tree = view T) (check_sources env is)
          (\<lambda>p T'' ps. stages T' [] T'' ps \<and> ?R p T'') (\<lambda>e T'' ps. stages T' [] T'' ps) T'' ps"
        using * ready steady_refl [OF \<open>steady _ T''\<close>] effect
        by (intro vc_check_sources [OF env]) (auto simp: comp_def)
    qed auto
  qed auto
  then show ?thesis by (rule vc_mono) auto
qed

lemma plain_sourced_prepare: "(\<And>taken w. plain (step taken w)) \<Longrightarrow> plain (sourced_prepare env root step writes)"
  unfolding sourced_prepare_def by (auto intro!: never_intros plain_lock plain_prepare_loop plain_check_sources)

lemma sourced_item:
  "rekeyed_ready env source_identity identity mode legacy path r i tree \<Longrightarrow> item_ready mode tree (CSecret (fst i))"
  "file_sealed_ready env identity mode path i tree \<Longrightarrow> item_ready mode tree (CSecret (fst i))"
  "public_file_ready env mode path i tree \<Longrightarrow> item_ready mode tree (CPublic (fst i))"
  by (auto simp: item_ready_def rekeyed_ready_def file_sealed_ready_def public_file_ready_def public_ready_def
      staged_with_def split_beta)


definition rekeyed_written ::
  "authoring_env \<Rightarrow> string \<Rightarrow> string \<Rightarrow> bool \<Rightarrow> fs_path \<Rightarrow> batch_rekey_write \<Rightarrow> fs_file \<Rightarrow> authoring_result
    \<Rightarrow> (fs_path \<Rightarrow> fs_node option) \<Rightarrow> bool" where
  "rekeyed_written env source_identity identity legacy c w g r new \<longleftrightarrow>
     (\<exists>f t p. new (entry c (br_destination w)) = Some (FsFile f) \<and> private_file env f
       \<and> (if legacy then rekey_migration else rekey) (au_age_api env) (au_age env) (au_plugins env) (au_rng env t)
           (file_reader (fl_content g)) source_identity (br_recipients w) = Inr (fl_content f)
       \<and> opens_with env identity f p
       \<and> r = \<lparr>ar_path = entry c (br_destination w), ar_hash = au_blake3 env (fl_content f), ar_plaintext_bytes = length p\<rparr>)"

definition file_written where
  "file_written env identity c w g r new = secret_written env identity c (br_destination w) (fl_content g) r new"

definition public_file_written where
  "public_file_written env c w g r new = public_written env c (bf_destination w) (fl_content g) r new"

lemma rekeyed_leads:
  assumes "rekeyed_ready env source_identity identity mode legacy (c @ path_names (br_source w)) (br_recipients w) i T"
    and "sw_destination i = c @ path_names (br_destination w)"
  shows "source_leads mode c br_source (rekeyed_written env source_identity identity legacy c) CSecret w i T"
proof -
  from assms(1) obtain s f g t p where *: "fst (snd i) = entry c (br_source w)" "pw_staged (fst i) = Some s" "T s = Some (FsFile f)"
    "private_file env f" "T (entry c (br_source w)) = Some (FsFile g)"
    "(if legacy then rekey_migration else rekey) (au_age_api env) (au_age env) (au_plugins env) (au_rng env t)
      (file_reader (fl_content g)) source_identity (br_recipients w) = Inr (fl_content f)"
    "opens_with env identity f p"
    "pw_result (fst i) = \<lparr>ar_path = sw_destination i, ar_hash = au_blake3 env (fl_content f), ar_plaintext_bytes = length p\<rparr>"
    by (auto simp: rekeyed_ready_def staged_with_def split_beta entry_def simp del: if_split)
  have "outcome T prepared (entry c (br_destination w)) = Some (FsFile f)"
    if "all_ready mode T prepared" "CSecret (fst i) \<in> set prepared" for prepared
    using outcome_written [OF that, of s f] * assms(2) by (simp add: published_def entry_def)
  with * assms(2) show ?thesis
    unfolding source_leads_def rekeyed_written_def by (auto simp: entry_def simp del: if_split)
qed

lemma file_leads:
  assumes "file_sealed_ready env identity mode (c @ path_names (br_source w)) i T"
    and "sw_destination i = c @ path_names (br_destination w)"
  shows "source_leads mode c br_source (file_written env identity c) CSecret w i T"
proof -
  from assms(1) obtain g where "T (entry c (br_source w)) = Some (FsFile g)" "fst (snd i) = entry c (br_source w)"
    "secret_ready env identity mode (fl_content g) (fst i) T"
    by (auto simp: file_sealed_ready_def secret_ready_def staged_with_def split_beta entry_def)
  with assms(2) show ?thesis
    by (auto simp: source_leads_def file_written_def entry_def intro!: secret_ready_written)
qed

lemma public_leads:
  assumes "public_file_ready env mode (c @ path_names (bf_source w)) i T"
    and "sw_destination i = c @ path_names (bf_destination w)"
  shows "source_leads mode c bf_source (public_file_written env c) CPublic w i T"
proof -
  from assms(1) obtain g where "T (entry c (bf_source w)) = Some (FsFile g)" "fst (snd i) = entry c (bf_source w)"
    "public_ready env mode (fl_content g) (fst i) T"
    by (auto simp: public_file_ready_def split_beta entry_def)
  with assms(2) show ?thesis
    by (auto simp: source_leads_def public_file_written_def entry_def intro!: public_ready_written)
qed

interpretation rekey_batch: transaction env
  "\<lambda>T. quiet env \<and> rooted env root c T \<and> names_free (map br_destination writes) \<and> entries_free c (map br_source writes)" mode
  "sourced_prepare env root (prepare_rekey_write env root source_identity identity mode legacy) writes"
  "commit_batch env mode" "map CSecret" "map pw_result"
  "sourced_effect mode c br_source br_destination (rekeyed_written env source_identity identity legacy c) writes"
  for env writes mode root source_identity identity legacy c
proof (unfold_locales, goal_cases)
  case (2 T)
  then show ?case
    by (intro vc_sourced_prepare [where R = "\<lambda>w. rekeyed_ready env source_identity identity mode legacy (c @ path_names (br_source w)) (br_recipients w)"]
        prepare_rekey_write_ok rekeyed_leads)
      (auto simp: names_free_def intro: rekeyed_ready_stages sourced_item dest: ready_used)
qed (auto intro!: plain_sourced_prepare plain_items vc_commit_batch)

interpretation file_batch: transaction env
  "\<lambda>T. quiet env \<and> rooted env root c T \<and> names_free (map br_destination writes) \<and> entries_free c (map br_source writes)" mode
  "sourced_prepare env root (prepare_file_write env root identity mode) writes"
  "commit_batch env mode" "map CSecret" "map pw_result"
  "sourced_effect mode c br_source br_destination (file_written env identity c) writes"
  for env writes mode root identity c
proof (unfold_locales, goal_cases)
  case (2 T)
  then show ?case
    by (intro vc_sourced_prepare [where R = "\<lambda>w. file_sealed_ready env identity mode (c @ path_names (br_source w))"]
        prepare_file_write_ok file_leads)
      (auto simp: names_free_def intro: file_sealed_ready_stages sourced_item dest: ready_used)
qed (auto intro!: plain_sourced_prepare plain_items vc_commit_batch)

definition public_finish where
  "public_finish env mode prepared =
     t_bind (commit_combined_batch env mode (map CPublic prepared)) (\<lambda>_. t_return (public_results (map CPublic prepared)))"

interpretation public_batch: transaction env
  "\<lambda>T. quiet env \<and> rooted env root c T \<and> names_free (map bf_destination writes) \<and> entries_free c (map bf_source writes)" mode
  "sourced_prepare env root (prepare_public_file env root mode) writes"
  "public_finish env mode" "map CPublic" "map pw_result"
  "sourced_effect mode c bf_source bf_destination (public_file_written env c) writes"
  for env writes mode root c
proof (unfold_locales, goal_cases)
  case (2 T)
  then show ?case
    by (intro vc_sourced_prepare [where R = "\<lambda>w. public_file_ready env mode (c @ path_names (bf_source w))"]
        prepare_public_file_ok public_leads)
      (auto simp: names_free_def intro: public_file_ready_stages sourced_item dest: ready_used)
next
  case (4 T p temps)
  then show ?case
    unfolding public_finish_def
    by (intro vc_bind [OF vc_mono [OF vc_commit_combined_batch]]) (auto intro: vc_return)
qed (auto intro!: plain_sourced_prepare plain_items)

lemma sourced_batch_alt:
  "rekey_secret_batch_inner env root rekeys source_identity identity mode legacy = scoped env (t_bind
     (sourced_prepare env root (prepare_rekey_write env root source_identity identity mode legacy) rekeys) (commit_batch env mode))"
  "write_secret_file_batch env root files identity mode = scoped env (t_bind
     (sourced_prepare env root (prepare_file_write env root identity mode) files) (commit_batch env mode))"
  "write_public_file_batch env root publics mode = scoped env (t_bind
     (sourced_prepare env root (prepare_public_file env root mode) publics) (public_finish env mode))"
  unfolding rekey_secret_batch_inner_def write_secret_file_batch_def write_public_file_batch_def sourced_prepare_def
    public_finish_def Let_def t_bind_assoc
  by (rule refl)+

end
