(* ===== verification/Authoring_Single.thy ===== *)
theory Authoring_Single
  imports Authoring_Batches
begin

text \<open>
  The transactions on one file. A verified file is staged, then moved over its destination in one step,
  so that an observer finds the old or the new entry and never none.
\<close>

text \<open>
  A write is atomic: it fails without having changed an entry of the view, or it has an effect \<open>new\<close> so
  that every state shows the old view or \<open>new\<close>; it ends in \<open>new\<close> on success and when only the
  durability of the directory is unknown, and in the old view on every other error.
\<close>

definition atomic_write ::
  "('r \<Rightarrow> (fs_path \<Rightarrow> fs_node option) \<Rightarrow> bool) \<Rightarrow> world \<Rightarrow> world list \<Rightarrow> authoring_error + 'r \<Rightarrow> bool" where
  "atomic_write effect w trace r \<longleftrightarrow>
     (let old = view (w_tree w); ended = view (w_tree (final_state w trace)) in
      (\<exists>e. r = Inl e \<and> e \<noteq> ADurabilityUnknown) \<and> (\<forall>s \<in> set trace. view (w_tree s) = old)
      \<or> (\<exists>x new. effect x new \<and> (\<forall>s \<in> set trace. view (w_tree s) \<in> {old, new})
          \<and> (case r of
                Inr y \<Rightarrow> y = x \<and> ended = new
              | Inl e \<Rightarrow> ended = (if e = ADurabilityUnknown then new else old))))"

text \<open>A staged file with its destination, its directory, what was there, and the result to report.\<close>

record staged_write =
  sg_destination :: fs_path
  sg_parent :: fs_path
  sg_staged :: fs_path
  sg_previous :: "fs_file option"
  sg_result :: authoring_result

definition single_ready :: "staged_write \<Rightarrow> fs_tree \<Rightarrow> bool" where
  "single_ready p T \<longleftrightarrow> \<not> managed (sg_destination p) \<and> is_temp (sg_staged p) \<and> (\<exists>f. T (sg_staged p) = Some (FsFile f))"

definition single_new :: "staged_write \<Rightarrow> fs_tree \<Rightarrow> fs_path \<Rightarrow> fs_node option" where
  "single_new p T = (view T)(sg_destination p := T (sg_staged p))"

definition single_finish ::
  "authoring_env \<Rightarrow> write_mode \<Rightarrow> staged_write \<Rightarrow> (world, authoring_error, authoring_result) traced" where
  "single_finish env mode p =
     t_bind (commit_staged env mode (sg_staged p) (sg_destination p) (sg_previous p)) (\<lambda>_.
     t_bind (sync_parent env (sg_parent p)) (\<lambda>_. t_return (sg_result p)))"

lemma view_moved:
  "single_ready p T \<Longrightarrow> T (sg_staged p) = Some n \<Longrightarrow>
   view ((T(sg_staged p := None))(sg_destination p \<mapsto> n)) = single_new p T"
  unfolding single_ready_def single_new_def
  by (auto simp: view_upd_node simp del: view_upd_None)

lemma vc_ensure_unchanged_plain:
  assumes "quiet env" and "I tree" and "\<And>e. e \<noteq> ADurabilityUnknown \<Longrightarrow> E e tree temps" and "Q () tree temps"
  shows "vc I (ensure_unchanged env p previous) Q E tree temps"
  unfolding ensure_unchanged_def using assms
  by (auto intro!: vc_bind vc_map_err vc_symlink_metadata vc_if vc_fail vc_return split: option.splits fs_node.splits)

lemma vc_single_finish:
  assumes env: "quiet env" and ready: "single_ready p T" and temps: "\<forall>q \<in> set temps. is_temp q"
  shows "vc (\<lambda>tree. view tree \<in> {view T, single_new p T}) (single_finish env mode p)
    (\<lambda>r tree temps'. r = sg_result p \<and> view tree = single_new p T \<and> (\<forall>q \<in> set temps'. is_temp q))
    (\<lambda>e tree temps'. view tree = (if e = ADurabilityUnknown then single_new p T else view T) \<and> (\<forall>q \<in> set temps'. is_temp q)) T temps"
proof -
  have gone: "view (T(sg_staged p := None)) = view T"
    using ready by (intro view_upd_managed) (simp add: single_ready_def)
  show ?thesis
    unfolding single_finish_def commit_staged_def
    using env temps view_moved [OF ready] gone
    by (cases mode)
      (auto intro!: vc_bind vc_map_err vc_persist vc_persist_noclobber vc_ensure_unchanged_plain vc_sync_parent vc_return simp del: fun_upd_apply view_upd_None)
qed

locale single_write =
  fixes env :: authoring_env
    and applicable :: "fs_tree \<Rightarrow> bool"
    and mode :: write_mode
    and prepare :: "(world, authoring_error, staged_write) traced"
    and effect :: "(fs_path \<Rightarrow> fs_node option) \<Rightarrow> authoring_result \<Rightarrow> (fs_path \<Rightarrow> fs_node option) \<Rightarrow> bool"
  assumes quiet: "applicable T \<Longrightarrow> quiet env"
    and prepare_ok: "applicable T \<Longrightarrow>
      vc (\<lambda>tree. view tree = view T) prepare
        (\<lambda>p tree temps. view tree = view T \<and> single_ready p tree \<and> effect (view T) (sg_result p) (single_new p tree)
           \<and> (\<forall>q \<in> set temps. is_temp q))
        (\<lambda>e tree temps. view tree = view T \<and> (\<forall>q \<in> set temps. is_temp q)) T []"
    and prepare_plain: "applicable T \<Longrightarrow> plain prepare"
begin

lemma run_cases:
  assumes app: "applicable (w_tree w)" and "w_temps w = []" and "t_bind prepare (single_finish env mode) w = (trace, r)"
  obtains (first_half) e where "r = Inl e" "e \<noteq> ADurabilityUnknown" "\<forall>s \<in> set trace. view (w_tree s) = view (w_tree w)"
    "view (w_tree (final_state w trace)) = view (w_tree w)" "\<forall>q \<in> set (w_temps (final_state w trace)). is_temp q"
  | (second_half) x new where "effect (view (w_tree w)) x new" "\<forall>s \<in> set trace. view (w_tree s) \<in> {view (w_tree w), new}"
    "\<forall>q \<in> set (w_temps (final_state w trace)). is_temp q"
    "\<And>y. r = Inr y \<Longrightarrow> y = x \<and> view (w_tree (final_state w trace)) = new"
    "\<And>e. r = Inl e \<Longrightarrow> view (w_tree (final_state w trace)) = (if e = ADurabilityUnknown then new else view (w_tree w))"
proof -
  note first_run = vc_run [OF prepare_ok [OF app, folded assms(2)]]
  from assms(3) show ?thesis
  proof (cases rule: run_bind)
    case (error e)
    from first_run [OF error(1)] error prepare_plain [OF app] show ?thesis
      by (intro first_half) (auto simp: never_def, metis snd_conv)
  next
    case (rest tr1 p tr2)
    let ?w1 = "final_state w tr1"
    note before = first_run(1) [OF rest(1)]
    from first_run(2) [OF rest(1) refl]
    have mid: "view (w_tree ?w1) = view (w_tree w)" "single_ready p (w_tree ?w1)"
      "effect (view (w_tree w)) (sg_result p) (single_new p (w_tree ?w1))" "\<forall>q \<in> set (w_temps ?w1). is_temp q"
      by auto
    note second = vc_run [OF vc_single_finish [OF quiet [OF app] mid(2,4)] rest(2), unfolded mid(1)]
    show ?thesis
      by (rule second_half [OF mid(3)]) (use before second rest(3) in \<open>cases r; auto\<close>)+
  qed
qed

text \<open>Dropping the temporary files at the end does not change the view.\<close>

theorem scoped_run:
  assumes "applicable (w_tree w)" and "w_temps w = []" and "scoped env (t_bind prepare (single_finish env mode)) w = (trace, r)"
  shows "atomic_write (effect (view (w_tree w))) w trace r"
proof -
  from assms(3) obtain tr1 tr2 r2 where parts: "t_bind prepare (single_finish env mode) w = (tr1, r)"
    "(drop_temps env :: (world, authoring_error, unit) traced) (final_state w tr1) = (tr2, r2)" "trace = tr1 @ tr2"
    unfolding scoped_def by (rule run_finally)
  from assms(1,2) parts(1) show ?thesis
  proof (cases rule: run_cases)
    case (first_half e)
    with drop_view [OF quiet [OF assms(1)] first_half(5) parts(2)] parts(3) show ?thesis
      by (auto simp: atomic_write_def Let_def)
  next
    case (second_half x new)
    note same = drop_view [OF quiet [OF assms(1)] second_half(3) parts(2)]
    have "view (w_tree (final_state w tr1)) \<in> {view (w_tree w), new}"
      using second_half(2) by (auto simp: final_state_def)
    with second_half same parts(3) have "(\<forall>s \<in> set trace. view (w_tree s) \<in> {view (w_tree w), new})
        \<and> (case r of Inr y \<Rightarrow> y = x \<and> view (w_tree (final_state w trace)) = new
           | Inl e \<Rightarrow> view (w_tree (final_state w trace)) = (if e = ADurabilityUnknown then new else view (w_tree w)))"
      by (cases r) auto
    with second_half(1) show ?thesis unfolding atomic_write_def Let_def by blast
  qed
qed

end

section \<open>Writing a secret\<close>

definition written_effect ::
  "authoring_env \<Rightarrow> string \<Rightarrow> write_mode \<Rightarrow> fs_path \<Rightarrow> string \<Rightarrow> bytes \<Rightarrow> (fs_path \<Rightarrow> fs_node option) \<Rightarrow> authoring_result
    \<Rightarrow> (fs_path \<Rightarrow> fs_node option) \<Rightarrow> bool" where
  "written_effect env identity mode c relative plaintext old r new \<longleftrightarrow>
     secret_written env identity c relative plaintext r new \<and> (old (entry c relative) \<noteq> None) = (mode = Replace)
     \<and> only_changes c [relative] old new"

definition write_prepare where
  "write_prepare env root relative input recipients identity mode final_input_check =
     t_bind (acquire_repository_lock env root) (\<lambda>_.
     t_bind (t_check (authorized env identity recipients) AVerificationIdentity) (\<lambda>_.
     t_bind (resolve_destination env root relative) (\<lambda>destination.
     t_bind (validate_destination env destination mode) (\<lambda>previous.
     t_bind (open_staged env destination) (\<lambda>(parent, staged).
     t_bind (seal_staged env staged input recipients identity) (\<lambda>(ciphertext_hash, plaintext_bytes).
     t_bind (t_lift final_input_check) (\<lambda>_.
     t_return \<lparr>sg_destination = destination, sg_parent = parent, sg_staged = staged, sg_previous = previous,
       sg_result = \<lparr>ar_path = destination, ar_hash = ciphertext_hash, ar_plaintext_bytes = plaintext_bytes\<rparr>\<rparr>)))))))"

lemma single_changes: "only_changes c [relative] (view T) ((view T)(entry c relative := n))"
  by (simp add: only_changes_def)

lemma view_destination: "destination_ok b T d \<Longrightarrow> (view T d \<noteq> None) = b"
  by (auto simp: destination_ok_def view_def)

text \<open>The destination of a single write is staged, with the rest of the preparation as a continuation.\<close>

lemma vc_single:
  assumes "quiet env" and "steady I T'" and "\<not> reserved_name (relative_name relative)" and "rooted env root c T'"
    and err: "\<And>e T'' ps. stages T' [] T'' ps \<Longrightarrow> E e T'' ps"
    and ok: "\<And>previous s f T1. is_temp s \<Longrightarrow> private_file env f \<Longrightarrow> T' s = None \<Longrightarrow> \<not> managed (entry c relative) \<Longrightarrow>
      (\<And>g. I (T1(s \<mapsto> FsFile g))) \<Longrightarrow> (\<And>g. stages T' [] (T1(s \<mapsto> FsFile g)) [s]) \<Longrightarrow>
      (view T1 (entry c relative) \<noteq> None) = (mode = Replace) \<Longrightarrow> T1 s = None \<Longrightarrow> grown T' T1 \<Longrightarrow>
      vc I (m (entry c relative) previous (butlast (entry c relative), s)) Q E (T1(s \<mapsto> FsFile f)) [s]"
  shows "vc I (t_bind (resolve_destination env root relative) (\<lambda>destination.
    t_bind (validate_destination env destination mode) (\<lambda>previous.
    t_bind (open_staged env destination) (m destination previous)))) Q E T' []"
proof (rule vc_begin [OF assms(1-4)])
  fix d T1
  assume d: "grown T' T1" "\<not> managed d" "d = c @ path_names relative" "steady I T1"
  show "vc I (t_bind (validate_destination env d mode) (\<lambda>previous. t_bind (open_staged env d) (m d previous))) Q E T1 []"
  proof (rule vc_stage_destination [OF assms(1) d(4,1,2)])
    fix previous s f
    assume *: "T' s = None" "is_temp s" "private_file env f" "T1 s = None" "\<And>g. I (T1(s \<mapsto> FsFile g))"
      "\<And>g. stages T' [] (T1(s \<mapsto> FsFile g)) ([] @ [s])" "\<And>g. destination_ok (mode = Replace) (T1(s \<mapsto> FsFile g)) d"
    have "(view T1 d \<noteq> None) = (mode = Replace)" using view_destination [OF *(7)] *(2) by simp
    with ok [of s f T1 previous] * d show "vc I (m d previous (butlast d, s)) Q E (T1(s \<mapsto> FsFile f)) ([] @ [s])"
      by (simp add: entry_def)
  qed (rule err)
qed (use err stages_grown in auto)

interpretation secret_write: single_write env
  "\<lambda>T. quiet env \<and> rooted env root c T \<and> names_free [relative] \<and> [] \<notin> set input \<and> final_input_check \<noteq> Inl ADurabilityUnknown" mode
  "write_prepare env root relative input recipients identity mode final_input_check"
  "written_effect env identity mode c relative (concat input)"
  for env root c relative input recipients identity mode final_input_check
proof (unfold_locales, goal_cases)
  case (2 T)
  then have app: "quiet env" "rooted env root c T" "\<not> reserved_name (relative_name relative)" "[] \<notin> set input"
    by (auto simp: names_free_def)
  let ?R = "\<lambda>p tree. single_ready p tree
    \<and> written_effect env identity mode c relative (concat input) (view tree) (sg_result p) (single_new p tree)"
  have "vc (\<lambda>tree. view tree = view T) (write_prepare env root relative input recipients identity mode final_input_check)
      (\<lambda>p tree temps. view tree = view T \<and> ?R p tree \<and> (\<forall>q \<in> set temps. is_temp q))
      (\<lambda>e tree temps. view tree = view T \<and> (\<forall>q \<in> set temps. is_temp q)) T []"
    unfolding write_prepare_def
  proof (rule vc_locked [OF app(1)], goal_cases)
    case (1 T')
    then have "steady (\<lambda>tree. view tree = view T) T'" "rooted env root c T'" using app(2) by (auto simp: steady_def)
    then show ?case
      using app(1,4)
      by (intro vc_bind [OF vc_check] vc_single [OF app(1) _ app(3)])
        (auto intro!: vc_bind vc_seal_staged vc_lift vc_return
          simp: single_ready_def written_effect_def secret_written_def single_new_def single_changes)
  qed
  then show ?case by (rule vc_mono) auto
next
  case (3 T)
  then show ?case
    unfolding write_prepare_def by (auto intro!: never_intros plain_lock plain_steps plain_staged)
qed simp

lemma write_secret_checked_alt:
  "write_secret_checked env root relative input recipients identity mode final_input_check =
   scoped env (t_bind (write_prepare env root relative input recipients identity mode final_input_check) (single_finish env mode))"
  by (simp add: write_secret_checked_def write_prepare_def single_finish_def t_bind_assoc case_prod_unfold)

section \<open>Rekeying a secret\<close>

text \<open>The source may be the destination itself.\<close>

definition rekey_effect ::
  "authoring_env \<Rightarrow> string \<Rightarrow> string \<Rightarrow> write_mode \<Rightarrow> bool \<Rightarrow> fs_path \<Rightarrow> batch_rekey_write \<Rightarrow> (fs_path \<Rightarrow> fs_node option)
    \<Rightarrow> authoring_result \<Rightarrow> (fs_path \<Rightarrow> fs_node option) \<Rightarrow> bool" where
  "rekey_effect env source_identity identity mode legacy c w old r new \<longleftrightarrow>
     (\<exists>g. old (entry c (br_source w)) = Some (FsFile g) \<and> rekeyed_written env source_identity identity legacy c w g r new)
     \<and> (old (entry c (br_destination w)) \<noteq> None) = (mode = Replace)
     \<and> only_changes c [br_destination w] old new"

definition rekey_prepare where
  "rekey_prepare env root w source_identity identity mode allow_legacy_source_identity =
     t_bind (acquire_repository_lock env root) (\<lambda>_.
     t_bind (t_check (authorized env identity (br_recipients w)) AVerificationIdentity) (\<lambda>_.
     t_bind (resolve_existing env root (br_source w)) (\<lambda>source.
     t_bind (open_nofollow_regular env source) (\<lambda>_.
     t_bind (resolve_destination env root (br_destination w)) (\<lambda>destination.
     t_bind (validate_destination env destination mode) (\<lambda>previous.
     t_bind (open_staged env destination) (\<lambda>(parent, staged).
     t_bind (rekey_into env staged source source_identity (br_recipients w) allow_legacy_source_identity) (\<lambda>_.
     t_bind (io (sync_file env)) (\<lambda>_.
     t_bind (verify_staged env staged identity) (\<lambda>(_, bytes).
     t_bind (hash_staged env staged) (\<lambda>ciphertext_hash.
     t_return \<lparr>sg_destination = destination, sg_parent = parent, sg_staged = staged, sg_previous = previous,
       sg_result = \<lparr>ar_path = destination, ar_hash = ciphertext_hash, ar_plaintext_bytes = bytes\<rparr>\<rparr>)))))))))))"

lemma vc_rekey_tail:
  assumes "quiet env" and "T s = Some (FsFile f)" and "T source = Some (FsFile g)" and "s \<noteq> source" and "I T"
    and I: "\<And>h. I (T(s \<mapsto> FsFile h))" and err: "\<And>e. E e T temps" "\<And>e h. E e (T(s \<mapsto> FsFile h)) temps"
    and ok: "\<And>t content p. (if legacy then rekey_migration else rekey) (au_age_api env) (au_age env) (au_plugins env) (au_rng env t)
        (file_reader (fl_content g)) source_identity recipients = Inr content \<Longrightarrow>
      opens_with env identity (f\<lparr>fl_content := content\<rparr>) p \<Longrightarrow>
      vc I (k (length p) (au_blake3 env content)) Q E (T(s \<mapsto> FsFile (f\<lparr>fl_content := content\<rparr>))) temps"
  shows "vc I (t_bind (rekey_into env s source source_identity recipients legacy) (\<lambda>_.
    t_bind (io (sync_file env)) (\<lambda>_. t_bind (verify_staged env s identity) (\<lambda>(_, bytes).
    t_bind (hash_staged env s) (\<lambda>hash. k bytes hash))))) Q E T temps"
  using assms(1-5) err I
  by (intro vc_bind vc_map_err vc_rekey_into vc_sync_file vc_verify_staged vc_hash_staged)
    (auto intro!: vc_bind vc_map_err vc_sync_file vc_verify_staged vc_hash_staged ok simp del: if_split)

interpretation secret_rekey: single_write env
  "\<lambda>T. quiet env \<and> rooted env root c T \<and> names_free [br_destination w] \<and> entries_free c [br_source w]" mode
  "rekey_prepare env root w source_identity identity mode legacy"
  "rekey_effect env source_identity identity mode legacy c w"
  for env root c w source_identity identity mode legacy
proof (unfold_locales, goal_cases)
  case (2 T)
  then have app: "quiet env" "rooted env root c T" "\<not> reserved_name (relative_name (br_destination w))"
    "\<not> managed (entry c (br_source w))"
    by (auto simp: names_free_def entries_free_def)
  let ?R = "\<lambda>p tree. single_ready p tree
    \<and> rekey_effect env source_identity identity mode legacy c w (view tree) (sg_result p) (single_new p tree)"
  have "vc (\<lambda>tree. view tree = view T) (rekey_prepare env root w source_identity identity mode legacy)
      (\<lambda>p tree temps. view tree = view T \<and> ?R p tree \<and> (\<forall>q \<in> set temps. is_temp q))
      (\<lambda>e tree temps. view tree = view T \<and> (\<forall>q \<in> set temps. is_temp q)) T []"
    unfolding rekey_prepare_def
  proof (rule vc_locked [OF app(1)], intro vc_bind [OF vc_check] vc_bind [OF vc_resolve_existing [OF app(1)]]
      vc_bind [OF vc_open_nofollow_regular [OF app(1)]], goal_cases)
    case (5 T' c' g)
    then have c': "c' = c" "rooted env root c T'" "steady (\<lambda>tree. view tree = view T) T'"
      using app(2) by (auto simp: steady_def rooted_def)
    have view: "view T (entry c (br_source w)) = Some (FsFile g)"
    proof -
      have "T' (entry c (br_source w)) = Some (FsFile g)" using 5 by (simp add: c' entry_def)
      with app(4) have "view T' (entry c (br_source w)) = Some (FsFile g)" by (simp add: view_def nondir_iff)
      with 5 show ?thesis by simp
    qed
    have src: "T1 (entry c (br_source w)) = Some (FsFile g)" if "grown T' T1" for T1
      using 5 that by (simp add: grown_file c' entry_def)
    show ?case
      unfolding c'(1) entry_def [symmetric]
    proof (rule vc_single [OF app(1) c'(3) app(3) c'(2)], goal_cases)
      case (2 previous s f T1)
      have "s \<noteq> entry c (br_source w)" using src [OF grown_refl] 2 by auto
      moreover have "rekey_effect env source_identity identity mode legacy c w (view T)
          \<lparr>ar_path = entry c (br_destination w), ar_hash = au_blake3 env content, ar_plaintext_bytes = length p\<rparr>
          ((view T)(entry c (br_destination w) \<mapsto> FsFile (f\<lparr>fl_content := content\<rparr>)))"
        if "(if legacy then rekey_migration else rekey) (au_age_api env) (au_age env) (au_plugins env) (au_rng env t)
            (file_reader (fl_content g)) source_identity (br_recipients w) = Inr content"
          "opens_with env identity (f\<lparr>fl_content := content\<rparr>) p" for t content p
      proof -
        let ?new = "(view T)(entry c (br_destination w) \<mapsto> FsFile (f\<lparr>fl_content := content\<rparr>))"
        have "rekeyed_written env source_identity identity legacy c w g
            \<lparr>ar_path = entry c (br_destination w), ar_hash = au_blake3 env content, ar_plaintext_bytes = length p\<rparr> ?new"
          unfolding rekeyed_written_def using that 2
          by (intro exI [of _ "f\<lparr>fl_content := content\<rparr>"] exI [of _ t] exI [of _ p]) (simp del: if_split)
        with view 2 show ?thesis unfolding rekey_effect_def using single_changes by auto
      qed
      ultimately show ?case
        using 2 src [of T1]
        by (auto intro!: vc_rekey_tail [OF app(1)] vc_return simp: single_ready_def single_new_def simp del: if_split)
    qed
  qed (auto simp: stages_refl)
  then show ?case by (rule vc_mono) auto
next
  case (3 T)
  then show ?case
    unfolding rekey_prepare_def by (auto intro!: never_intros plain_lock plain_steps plain_staged)
qed simp

lemma rekey_secret_inner_alt:
  "rekey_secret_inner env root (br_source w) (br_destination w) (br_recipients w) source_identity identity mode legacy =
   scoped env (t_bind (rekey_prepare env root w source_identity identity mode legacy) (single_finish env mode))"
  by (simp add: rekey_secret_inner_def rekey_prepare_def single_finish_def t_bind_assoc case_prod_unfold)

section \<open>Delegated creation\<close>

definition delegated_effect ::
  "authoring_env \<Rightarrow> fs_path \<Rightarrow> string \<Rightarrow> bytes \<Rightarrow> string list \<Rightarrow> (fs_path \<Rightarrow> fs_node option) \<Rightarrow> authoring_result
    \<Rightarrow> (fs_path \<Rightarrow> fs_node option) \<Rightarrow> bool" where
  "delegated_effect env c relative plaintext recipients old r new \<longleftrightarrow>
     (\<exists>f t. new (entry c relative) = Some (FsFile f) \<and> private_file env f
       \<and> encrypt (au_age_api env) (au_age env) (au_plugins env) (au_rng env t) plaintext recipients = Inr (fl_content f)
       \<and> r = \<lparr>ar_path = entry c relative, ar_hash = au_blake3 env (fl_content f), ar_plaintext_bytes = length plaintext\<rparr>)
     \<and> old (entry c relative) = None \<and> only_changes c [relative] old new"

definition delegated_prepare where
  "delegated_prepare env root relative input recipients =
     t_bind (acquire_repository_lock env root) (\<lambda>_.
     t_bind (resolve_destination env root relative) (\<lambda>destination.
     t_bind (validate_destination env destination Create) (\<lambda>previous.
     t_bind (open_staged env destination) (\<lambda>(parent, staged).
     t_bind (encrypt_into env staged input recipients) (\<lambda>_.
     t_bind (io (sync_file env)) (\<lambda>_.
     t_bind (t_lift (map_err ACrypto (hashed_input (au_blake3 env) input))) (\<lambda>(_, plaintext_bytes).
     t_bind (hash_staged env staged) (\<lambda>ciphertext_hash.
     t_return \<lparr>sg_destination = destination, sg_parent = parent, sg_staged = staged, sg_previous = previous,
       sg_result = \<lparr>ar_path = destination, ar_hash = ciphertext_hash, ar_plaintext_bytes = plaintext_bytes\<rparr>\<rparr>))))))))"

interpretation delegated_write: single_write env
  "\<lambda>T. quiet env \<and> rooted env root c T \<and> names_free [relative] \<and> [] \<notin> set input" Create
  "delegated_prepare env root relative input recipients" "delegated_effect env c relative (concat input) recipients"
  for env root c relative input recipients
proof (unfold_locales, goal_cases)
  case (2 T)
  then have app: "quiet env" "rooted env root c T" "\<not> reserved_name (relative_name relative)" "[] \<notin> set input"
    by (auto simp: names_free_def)
  let ?R = "\<lambda>p tree. single_ready p tree
    \<and> delegated_effect env c relative (concat input) recipients (view tree) (sg_result p) (single_new p tree)"
  have "vc (\<lambda>tree. view tree = view T) (delegated_prepare env root relative input recipients)
      (\<lambda>p tree temps. view tree = view T \<and> ?R p tree \<and> (\<forall>q \<in> set temps. is_temp q))
      (\<lambda>e tree temps. view tree = view T \<and> (\<forall>q \<in> set temps. is_temp q)) T []"
    unfolding delegated_prepare_def
  proof (rule vc_locked [OF app(1)], goal_cases)
    case (1 T')
    then have "steady (\<lambda>tree. view tree = view T) T'" "rooted env root c T'" using app(2) by (auto simp: steady_def)
    then show ?case
      using app(1,4)
      by (intro vc_single [OF app(1) _ app(3)])
        (auto intro!: vc_bind vc_map_err vc_encrypt_into vc_sync_file vc_lift vc_hash_staged vc_return
          dest!: hashed_input_Inr simp: single_ready_def delegated_effect_def single_new_def single_changes; blast)+
  qed
  then show ?case by (rule vc_mono) auto
next
  case (3 T)
  then show ?case
    unfolding delegated_prepare_def by (auto intro!: never_intros plain_lock plain_steps plain_staged)
qed simp

lemma write_secret_create_delegated_alt:
  "write_secret_create_delegated env root relative input recipients =
   scoped env (t_bind (delegated_prepare env root relative input recipients) (single_finish env Create))"
  by (simp add: write_secret_create_delegated_def delegated_prepare_def single_finish_def commit_staged_def t_bind_assoc
      case_prod_unfold)

end
