(* ===== verification/Authoring_Delete.thy ===== *)
theory Authoring_Delete
  imports Authoring_Single
begin

text \<open>
  Deleting a secret: the ciphertext is moved to a fresh tombstone directory in the quarantine, never
  removed. Whatever fails, it is at its place or in a tombstone.
\<close>

abbreviation CIPHERTEXT :: string where
  "CIPHERTEXT \<equiv> ''ciphertext.age''"

definition tombstone_of :: "fs_path \<Rightarrow> fs_path \<Rightarrow> bool" where
  "tombstone_of quarantine p \<longleftrightarrow> (\<exists>name. p = quarantine @ [''secret-'' @ name])"

definition ciphertext_kept :: "fs_path \<Rightarrow> fs_path \<Rightarrow> fs_file \<Rightarrow> (fs_path \<Rightarrow> fs_node option) \<Rightarrow> bool" where
  "ciphertext_kept source quarantine f v \<longleftrightarrow>
     v source = Some (FsFile f) \<or> (\<exists>p. tombstone_of quarantine p \<and> v (p @ [CIPHERTEXT]) = Some (FsFile f))"

text \<open>Every other entry outside the quarantine is as before.\<close>

definition delete_safe :: "fs_path \<Rightarrow> fs_path \<Rightarrow> fs_file \<Rightarrow> (fs_path \<Rightarrow> fs_node option) \<Rightarrow> fs_tree \<Rightarrow> bool" where
  "delete_safe source quarantine f old tree \<longleftrightarrow>
     ciphertext_kept source quarantine f (view tree)
     \<and> (\<forall>p. p \<noteq> source \<longrightarrow> \<not> prefix quarantine p \<longrightarrow> view tree p = old p)"

lemma delete_safe_steady: "delete_safe source quarantine f old tree \<Longrightarrow> steady (delete_safe source quarantine f old) tree"
  by (simp add: steady_def delete_safe_def)

lemma not_managed_ciphertext [simp]: "\<not> managed (p @ [CIPHERTEXT])"
  by (simp add: managed_def is_temp_def starts_with_def LOCK_NAME_def)

lemma delete_safe_moved:
  assumes "delete_safe source quarantine f old tree" and "tombstone_of quarantine t"
  shows "delete_safe source quarantine f old ((tree(source := None))(t @ [CIPHERTEXT] \<mapsto> FsFile f))"
proof -
  have "view ((tree(source := None))(t @ [CIPHERTEXT] \<mapsto> FsFile f)) q = view tree q" if "q \<noteq> source" "q \<noteq> t @ [CIPHERTEXT]" for q
    using that by (simp add: view_def nondir_def)
  moreover have "prefix quarantine (t @ [CIPHERTEXT])" using assms(2) by (auto simp: tombstone_of_def)
  ultimately show ?thesis
    using assms by (auto simp: delete_safe_def ciphertext_kept_def view_upd_node)
qed

text \<open>As long as the ciphertext is at its place.\<close>

definition delete_pending :: "fs_path \<Rightarrow> fs_path \<Rightarrow> fs_file \<Rightarrow> (fs_path \<Rightarrow> fs_node option) \<Rightarrow> fs_tree \<Rightarrow> bool" where
  "delete_pending source quarantine f old tree \<longleftrightarrow>
     view tree source = Some (FsFile f) \<and> (\<forall>p. p \<noteq> source \<longrightarrow> \<not> prefix quarantine p \<longrightarrow> view tree p = old p)"

lemma pending_safe: "delete_pending source quarantine f old tree \<Longrightarrow> delete_safe source quarantine f old tree"
  by (auto simp: delete_safe_def delete_pending_def ciphertext_kept_def)

lemma pending_view: "delete_pending source quarantine f old a \<Longrightarrow> view b = view a \<Longrightarrow> delete_pending source quarantine f old b"
  by (simp add: delete_pending_def)

lemma pending_upd:
  assumes "delete_pending source quarantine f old tree" and "p \<noteq> source" and "prefix quarantine p"
  shows "delete_pending source quarantine f old (tree(p := n))"
proof -
  have "view (tree(p := n)) q = view tree q" if "q \<noteq> p" for q using that by (simp add: view_def nondir_def)
  with assms show ?thesis by (auto simp: delete_pending_def)
qed

lemma pending_remove:
  assumes "delete_pending source quarantine f old tree" and "\<not> prefix t source" and "prefix quarantine t"
  shows "delete_pending source quarantine f old (\<lambda>q. if prefix t q then None else tree q)"
proof -
  have "view (\<lambda>q. if prefix t q then None else tree q) q = view tree q" if "\<not> prefix t q" for q
    using that by (simp add: view_def nondir_def)
  with assms show ?thesis
    unfolding delete_pending_def by (metis prefix_order.trans)
qed

lemma pending_source: "delete_pending source quarantine f old tree \<Longrightarrow> tree source = Some (FsFile f)"
  by (auto simp: delete_pending_def view_def nondir_iff split: if_splits)

lemma vc_fill_tombstone:
  assumes env: "quiet env" and start: "delete_pending source quarantine f old tree"
    and t: "tombstone_of quarantine t" and np: "\<not> prefix t source"
    and err: "\<And>e tree'. delete_pending source quarantine f old tree' \<Longrightarrow> E e tree' temps"
    and ok: "\<And>tree'. delete_safe source quarantine f old tree' \<Longrightarrow> view tree' source = None \<Longrightarrow>
      tree' (t @ [CIPHERTEXT]) = Some (FsFile f) \<Longrightarrow> Q () tree' temps"
  shows "vc (delete_safe source quarantine f old) (fill_tombstone env request source f hash t) Q E tree temps"
proof -
  let ?P = "delete_pending source quarantine f old" and ?meta = "t @ [''tombstone.json'']"
  have meta: "?meta \<noteq> source" "prefix quarantine ?meta" "source \<noteq> t @ [CIPHERTEXT]"
    using t np by (auto simp: tombstone_of_def)
  note upd = pending_upd [OF _ meta(1,2)]
  have move: "delete_safe source quarantine f old ((tree'(source := None))(t @ [CIPHERTEXT] \<mapsto> FsFile f))
      \<and> Q () ((tree'(source := None))(t @ [CIPHERTEXT] \<mapsto> FsFile f)) temps" if "?P tree'" for tree'
  proof -
    have safe: "delete_safe source quarantine f old ((tree'(source := None))(t @ [CIPHERTEXT] \<mapsto> FsFile f))"
      by (rule delete_safe_moved [OF pending_safe [OF that] t])
    with meta(3) show ?thesis by (auto intro!: ok simp: view_def nondir_def)
  qed
  have rest: "vc (delete_safe source quarantine f old) (ensure_unchanged env source (Some f))
      (\<lambda>_. vc (delete_safe source quarantine f old) (io (rename_path env source (t @ [CIPHERTEXT]))) Q E) E tree' temps" if "?P tree'" for tree'
    using env that pending_source [OF that] move [OF that] pending_safe [OF that]
    by (auto intro!: vc_bind vc_ensure_unchanged vc_map_err vc_rename_path err simp del: fun_upd_apply)
  have steady: "steady (delete_safe source quarantine f old) tree" using delete_safe_steady [OF pending_safe [OF start]] .
  show ?thesis
    unfolding fill_tombstone_def set_private_file_def Let_def
  proof (intro vc_bind vc_map_err, rule vc_set_private_directory [OF env steady], goal_cases)
    case (1 e tree1)
    with start show ?case by (intro err) (blast intro: pending_view grown_view)
  next
    case (2 tree1)
    then have P: "?P tree1" using start by (blast intro: pending_view grown_view)
    note at = pending_safe [OF P] err [OF P] pending_safe [OF upd [OF P]] err [OF upd [OF P]] rest [OF upd [OF P]]
    show ?case
      using env at by (auto intro!: vc_bind vc_map_err vc_lift vc_create_new vc_set_mode vc_write_content vc_sync_file
          simp del: fun_upd_apply)
  qed
qed

text \<open>A component of an existing path is there.\<close>

lemma vc_walk_found:
  assumes "quiet env" and "I tree" and "\<And>e. E e tree temps"
    and "(\<And>k. 0 < k \<Longrightarrow> k \<le> length segments \<Longrightarrow> tree (p @ take k segments) \<noteq> None) \<Longrightarrow> Q (p @ segments) tree temps"
  shows "vc I (walk_existing env p segments) Q E tree temps"
  using assms(4)
proof (induction segments arbitrary: p)
  case Nil
  then show ?case by (auto intro: vc_return)
next
  case (Cons segment segments)
  show ?case
    unfolding walk_existing.simps
  proof (intro vc_bind vc_map_err vc_symlink_metadata vc_check assms(1-3))
    fix n
    assume n: "tree (p @ [segment]) = Some n"
    show "vc I (walk_existing env (p @ [segment]) segments) Q E tree temps"
    proof (rule Cons.IH)
      assume rest: "\<And>k. 0 < k \<Longrightarrow> k \<le> length segments \<Longrightarrow> tree ((p @ [segment]) @ take k segments) \<noteq> None"
      have "tree (p @ take k (segment # segments)) \<noteq> None" if "0 < k" "k \<le> length (segment # segments)" for k
        using that n rest [of "k - 1"] by (cases k; cases "k - 1") auto
      from Cons.prems [OF this] show "Q ((p @ [segment]) @ segments) tree temps" by simp
    qed
  qed
qed

lemma vc_resolve_found:
  assumes "quiet env" and "I tree" and "\<And>e. E e tree temps"
    and "\<And>c. rooted env root c tree \<Longrightarrow> (\<And>q. strict_prefix c q \<Longrightarrow> prefix q (entry c relative) \<Longrightarrow> tree q \<noteq> None) \<Longrightarrow>
      Q (entry c relative) tree temps"
  shows "vc I (resolve_existing env root relative) Q E tree temps"
proof -
  have "vc I (walk_existing env c (path_names relative)) Q E tree temps" if "rooted env root c tree" for c
  proof (rule vc_walk_found)
    assume found: "\<And>k. 0 < k \<Longrightarrow> k \<le> length (path_names relative) \<Longrightarrow> tree (c @ take k (path_names relative)) \<noteq> None"
    have "tree q \<noteq> None" if q: "strict_prefix c q" "prefix q (entry c relative)" for q
    proof -
      from q(1) obtain r where r: "q = c @ r" "r \<noteq> []" by (auto elim: strict_prefixE')
      with q(2) have "r = take (length r) (path_names relative)" "length r \<le> length (path_names relative)"
        by (auto simp: entry_def prefix_def)
      with found [of "length r"] r show ?thesis by simp
    qed
    with assms(4) [OF that] show "Q (c @ path_names relative) tree temps" by (simp add: entry_def)
  qed (use assms(1-3) in auto)
  with assms(1-3) show ?thesis
    unfolding resolve_existing_def by (auto intro!: vc_bind vc_map_err vc_lift vc_canonicalize simp: rooted_def)
qed

lemma realpath_again: "realpath n tree [] (map Normal p) = Inr q \<Longrightarrow> linkless tree p \<Longrightarrow> q = p"
  using realpath_same [of n tree "[]" p q] by simp

lemma vc_resolve_private_directory:
  assumes "quiet env" and "steady I tree" and "path_is_absolute root" and "\<And>e tree'. grown tree tree' \<Longrightarrow> E e tree' temps"
    and ok: "\<And>c tree'. grown tree tree' \<Longrightarrow> rooted env root c tree \<Longrightarrow> Q (entry c relative) tree' temps"
  shows "vc I (resolve_private_directory env root relative) Q E tree temps"
  unfolding resolve_private_directory_def
  using assms(1) assms(4) ok [OF grown_trans] steadyD [OF assms(2)] steady_grown [OF assms(2)] grown_view
  by (auto intro!: vc_bind vc_lift vc_map_err vc_canonicalize vc_enter_directories [OF assms(1,2)] vc_canonicalize_path vc_check
      vc_set_private_directory vc_return intro: absolute_linkless [OF assms(3)] grown_trans
      dest!: realpath_again simp: rooted_def entry_def simp del: map_append)

section \<open>The deletion\<close>

lemma vc_create_temp_dir:
  assumes "quiet env" and "I tree" and "\<And>e. E e tree temps"
    and "\<And>name. tree (parent @ [pre @ name]) = None \<Longrightarrow>
      I (tree(parent @ [pre @ name] \<mapsto> FsDir (fe_euid env) 0x1C0))
      \<and> Q (parent @ [pre @ name]) (tree(parent @ [pre @ name] \<mapsto> FsDir (fe_euid env) 0x1C0)) temps"
  shows "vc I (create_temp_dir env pre parent) Q E tree temps"
  unfolding create_temp_dir_def Let_def by (intro vc_sys) (use assms in \<open>auto split: if_splits\<close>)

lemma not_prefix_fresh:
  assumes "\<And>q. strict_prefix c q \<Longrightarrow> prefix q source \<Longrightarrow> tree q \<noteq> None" and "tree t = None" and "strict_prefix c t"
  shows "\<not> prefix t source"
  using assms by blast

text \<open>What a deletion reports and leaves.\<close>

definition deleted :: "authoring_env \<Rightarrow> fs_path \<Rightarrow> fs_path \<Rightarrow> fs_file \<Rightarrow> deletion_result \<Rightarrow> fs_tree \<Rightarrow> bool" where
  "deleted env source quarantine f r tree \<longleftrightarrow>
     dd_original_path r = source \<and> dd_ciphertext_hash r = au_blake3 env (fl_content f)
     \<and> tombstone_of quarantine (dd_tombstone_path r) \<and> view tree source = None
     \<and> tree (dd_tombstone_path r @ [CIPHERTEXT]) = Some (FsFile f)"

text \<open>The end of a deletion, after the ciphertext has been moved, and from the creation of the tombstone on.\<close>

definition delete_finish where
  "delete_finish env source quarantine f hash t =
     t_bind (io (symlink_metadata env (t @ [CIPHERTEXT]))) (\<lambda>moved.
     t_bind (t_check (case moved of FsFile f' \<Rightarrow> safe_regular moved \<and> same_file f f' | _ \<Rightarrow> False) ADurabilityUnknown) (\<lambda>_.
     t_bind (sync_parent env t) (\<lambda>_.
     t_bind (sync_parent env quarantine) (\<lambda>_.
     t_bind (sync_parent env (butlast source)) (\<lambda>_.
     t_return \<lparr>dd_tombstone_path = t, dd_original_path = source, dd_ciphertext_hash = hash\<rparr>)))))"

definition delete_tail where
  "delete_tail env request source quarantine f hash =
     t_bind (io (create_temp_dir env ''secret-'' quarantine)) (\<lambda>t.
     t_bind (t_on_error (fill_tombstone env request source f hash t) (io (remove_tree env t))) (\<lambda>_.
     delete_finish env source quarantine f hash t))"

lemma vc_delete_moved:
  assumes env: "quiet env" and tree: "delete_pending source quarantine f old tree" and t: "tombstone_of quarantine t"
    and np: "\<not> prefix t source" and hash: "hash = au_blake3 env (fl_content f)"
  shows "vc (delete_safe source quarantine f old)
    (t_bind (t_on_error (fill_tombstone env request source f hash t) (io (remove_tree env t))) (\<lambda>_. delete_finish env source quarantine f hash t))
    (\<lambda>r tree _. deleted env source quarantine f r tree) (\<lambda>e tree _. delete_safe source quarantine f old tree) tree []"
    (is "vc ?I _ ?Q ?E tree []")
proof -
  have "prefix quarantine t" using t by (auto simp: tombstone_of_def)
  then have removed: "vc ?I (io (remove_tree env t)) (\<lambda>_. ?E e) (\<lambda>_. ?E e) tree' []"
    if "delete_pending source quarantine f old tree'" for tree' e
    using env pending_safe [OF that] pending_safe [OF pending_remove [OF that np]] by (auto intro!: vc_map_err vc_remove_tree)
  have finish: "vc ?I (delete_finish env source quarantine f hash t) ?Q ?E tree' []"
    if "?I tree'" "view tree' source = None" "tree' (t @ [CIPHERTEXT]) = Some (FsFile f)" for tree'
    unfolding delete_finish_def deleted_def using env that t hash
    by (auto intro!: vc_bind vc_map_err vc_symlink_metadata vc_check vc_sync_parent vc_return)
  show ?thesis
    by (rule vc_bind, rule vc_on_error, rule vc_fill_tombstone [OF env tree t np], rule removed, assumption, rule finish)
qed

lemma vc_delete_tail:
  assumes env: "quiet env" and tree: "delete_pending (entry c relative) quarantine f old tree" and c: "prefix c quarantine"
    and found: "\<And>q. strict_prefix c q \<Longrightarrow> prefix q (entry c relative) \<Longrightarrow> tree q \<noteq> None" and hash: "hash = au_blake3 env (fl_content f)"
  shows "vc (delete_safe (entry c relative) quarantine f old) (delete_tail env request (entry c relative) quarantine f hash)
    (\<lambda>r tree _. deleted env (entry c relative) quarantine f r tree)
    (\<lambda>e tree _. delete_safe (entry c relative) quarantine f old tree) tree []"
  unfolding delete_tail_def
proof (rule vc_bind, rule vc_map_err, rule vc_create_temp_dir [OF env], goal_cases)
  case (3 name)
  let ?t = "quarantine @ [''secret-'' @ name]"
  have "\<not> prefix ?t (entry c relative)"
    by (rule not_prefix_fresh [where c = c and tree = tree, OF found 3]) (use c in \<open>auto simp: strict_prefix_def prefix_def\<close>)
  moreover have "delete_pending (entry c relative) quarantine f old (tree(?t \<mapsto> FsDir (fe_euid env) 0x1C0))"
    using grown_view [OF grown_dir, of tree ?t] 3 by (intro pending_view [OF tree]) (simp add: nondir_None)
  ultimately show ?case
    by (intro conjI vc_delete_moved env pending_safe hash) (auto simp: tombstone_of_def)
qed (use pending_safe [OF tree] in auto)

lemma vc_delete_secret:
  assumes env: "quiet env" and root: "rooted env (dr_root request) c T" and abs: "path_is_absolute (dr_root request)"
    and f: "view T (entry c (dr_source request)) = Some (FsFile f)"
  defines "source \<equiv> entry c (dr_source request)" and "quarantine \<equiv> entry c (dr_quarantine_root request)"
  shows "vc (delete_safe source quarantine f (view T)) (delete_secret env request)
    (\<lambda>r tree _. deleted env source quarantine f r tree) (\<lambda>e tree _. delete_safe source quarantine f (view T) tree) T []"
    (is "vc ?I _ ?Q ?E T []")
proof -
  have P: "delete_pending source quarantine f (view T) tree" if "view tree = view T" for tree
    using f that by (simp add: delete_pending_def source_def)
  note safe = pending_safe [OF P]
  have start: "steady ?I T" using safe by (simp add: steady_def)
  show ?thesis
    unfolding delete_secret_def
  proof (rule vc_bind, rule vc_acquire_repository_lock [OF env start], goal_cases)
    case (2 c' T')
    note same = \<open>view T' = view T\<close>
    have root': "rooted env (dr_root request) c T'" using rooted_solid [OF root 2(2)] .
    have at: "T' source = Some (FsFile f)" by (rule pending_source [OF P [OF same]])
    show ?case
    proof (intro vc_bind [OF vc_check], rule vc_bind, rule vc_resolve_found [OF env], goal_cases)
      case (3 c'')
      have c'': "entry c'' (dr_source request) = source" "c'' = c" using 3(2) root' by (simp_all add: rooted_def source_def)
      have found: "T1 q \<noteq> None" if "grown T' T1" "strict_prefix c q" "prefix q source" for T1 q
        using 3(3) [of q] that(2,3) grown_absent [OF that(1), of q] unfolding c''(2) source_def by metis
      have tail: "vc ?I (delete_tail env request source (entry c2 (dr_quarantine_root request)) f (au_blake3 env (fl_content f))) ?Q ?E T1 []"
        if "grown T' T1" "rooted env (dr_root request) c2 T'" for T1 c2
      proof -
        have c2: "c2 = c" using that(2) root' by (simp add: rooted_def)
        show ?thesis
          unfolding c2 using grown_view [OF that(1)] found [OF that(1)] same unfolding source_def quarantine_def
          by (intro vc_delete_tail env P [unfolded source_def quarantine_def]) (auto simp: entry_def)
      qed
      show ?case
        unfolding c''(1) using env at safe [OF same] steady_view [OF start same] abs tail grown_view same
        by (auto intro!: vc_bind vc_validate_destination vc_lift vc_open_nofollow_regular vc_hash_file
            vc_resolve_private_directory safe simp: ok_or_def delete_tail_def [symmetric] delete_finish_def [symmetric])
    qed (use safe [OF same] in auto)
  qed (use safe in auto)
qed

end
