(* ===== verification/Example_Repository.thy ===== *)
theory Example_Repository
  imports Authoring_Delete Example_Activation
begin

text \<open>
  A small repository on which the witnesses of the authoring properties compute: two sealed files below
  \<open>/r\<close>, an age engine that prefixes a header, and no faults.
\<close>

definition repository_age :: age_engine where
  "repository_age = \<lparr>ae_plugin_ready = (\<lambda>_. True), ae_header_ok = (\<lambda>_. True), ae_is_scrypt = (\<lambda>_. False),
     ae_open = (\<lambda>_ c. if starts_with c example_header then Some (drop (length example_header) c, True) else None),
     ae_recipients_ok = (\<lambda>_. True), ae_seal = (\<lambda>_ _ p. example_header @ p), ae_seal_passphrase = (\<lambda>_ _ p. p)\<rparr>"

definition repository_env :: authoring_env where
  "repository_env = \<lparr>fe_euid = 0, fe_cwd = [], fe_fault = (\<lambda>_. False), fe_others = (\<lambda>_. id),
     fe_temp = (\<lambda>t. replicate t (CHR ''x'')), fe_inode = (\<lambda>t. (1, t + 100)), au_age_api = example_age_api,
     au_age = repository_age, au_plugins = example_plugins, au_rng = id, au_blake3 = id,
     au_edit = (\<lambda>_ _ _ tree. Some (tree, True)), au_tombstone_json = (\<lambda>secret _ _ _. Some secret)\<rparr>"

definition repository_file :: "nat \<Rightarrow> bytes \<Rightarrow> fs_file" where
  "repository_file ino content =
     \<lparr>fl_dev = 1, fl_ino = ino, fl_uid = 0, fl_mode = 0x180, fl_nlink = 1, fl_content = content\<rparr>"

definition repository_tree :: fs_tree where
  "repository_tree = [[] \<mapsto> FsDir 0 0x1ED, [''r''] \<mapsto> FsDir 0 0x1C0,
     [''r'', ''a''] \<mapsto> FsFile (repository_file 1 (example_header @ ''old'')),
     [''r'', ''b''] \<mapsto> FsFile (repository_file 2 (example_header @ ''other''))]"

definition repository_world :: world where
  "repository_world = \<lparr>w_tree = repository_tree, w_clock = 0, w_temps = []\<rparr>"

definition example_publics :: "batch_public_write list" where
  "example_publics = [\<lparr>bp_destination = ''a'', bp_plaintext = ''na''\<rparr>, \<lparr>bp_destination = ''b'', bp_plaintext = ''nb''\<rparr>]"

text \<open>The same repository with one fault, at a given step.\<close>

definition faulty_env :: "nat \<Rightarrow> authoring_env" where
  "faulty_env n = repository_env\<lparr>fe_fault := (\<lambda>t. t = n)\<rparr>"

lemma repository_quiet: "quiet repository_env"
  by (simp add: quiet_def repository_env_def)

lemma repository_rooted: "rooted repository_env ''/r'' [''r''] (w_tree repository_world)"
  unfolding rooted_def by code_simp

lemma repository_temps: "w_temps repository_world = []"
  by (simp add: repository_world_def)

lemma repository_absolute: "path_is_absolute ''/r''"
  by code_simp

lemma repository_names: "names_free [''a'']" "names_free [''b'']" "names_free [''a'', ''b'']" "entries_free [''r''] [''a'']"
  by code_simp+

lemma repository_source: "view (w_tree repository_world) (entry [''r''] ''a'') = Some (FsFile (repository_file 1 (example_header @ ''old'')))"
  by code_simp

end
