(* ===== verification/Authoring_Properties.thy ===== *)
theory Authoring_Properties
  imports Example_Repository
begin

text \<open>
  What the authoring transactions owe a repository. Each property holds for every schedule of
  operating-system faults; the hypotheses say that no other process changes the files the lock protects,
  what the repository root resolves to, and that no destination has the name of a temporary file or of the lock.
\<close>

section \<open>Several files\<close>


lemma ok_run: "is_ok (snd (m w)) \<Longrightarrow> (\<And>trace x. m w = (trace, Inr x) \<Longrightarrow> thesis) \<Longrightarrow> thesis"
  by (cases "m w"; cases "snd (m w)") (auto simp: is_ok_def)











text \<open>
  The batches of secrets alone and of public files, by the same contract.
\<close>

lemma secret_batch_all_or_nothing:
  assumes "quiet env" and "rooted env root c (w_tree w)" and "w_temps w = []" and "names_free (map bs_destination writes)"
    and "write_secret_batch env root writes identity mode w = (trace, r)"
  shows "all_or_nothing (secrets_effect env identity mode c writes (view (w_tree w))) w trace r"
  by (rule secret_batch.scoped_run [where root = root]) (use assms in \<open>simp_all add: write_secret_batch_alt\<close>)

lemma public_batch_all_or_nothing:
  assumes "quiet env" and "rooted env root c (w_tree w)" and "w_temps w = []"
    and "names_free (map bf_destination writes)" and "entries_free c (map bf_source writes)"
    and "write_public_file_batch env root writes mode w = (trace, r)"
  shows "all_or_nothing (sourced_effect mode c bf_source bf_destination (public_file_written env c) writes (view (w_tree w)))
    w trace r"
  by (rule public_batch.scoped_run [where root = root]) (use assms in \<open>simp_all add: sourced_batch_alt\<close>)

section \<open>A fault while backups are made\<close>


section \<open>One file\<close>

text \<open>
  C7. Writing a secret is atomic: every state shows the old entry or the complete new one, a private file
  that the verification identity opens to a plaintext with the digest and length of the input. The new one
  is there after success and when only durability is unknown; every other error leaves the old one. No
  other entry changes.
\<close>

theorem write_secret_atomic:
  assumes "quiet env" and "rooted env root c (w_tree w)" and "w_temps w = []" and "names_free [relative]"
    and "[] \<notin> set input" and "final_input_check \<noteq> Inl ADurabilityUnknown"
    and "write_secret_checked env root relative input recipients identity mode final_input_check w = (trace, r)"
  shows "atomic_write (written_effect env identity mode c relative (concat input) (view (w_tree w))) w trace r"
  by (rule secret_write.scoped_run [where root = root and final_input_check = final_input_check])
    (use assms in \<open>simp_all add: write_secret_checked_alt\<close>)

lemma atomic_write_ok: "atomic_write effect w trace (Inr x) \<Longrightarrow> effect x (view (w_tree (final_state w trace)))"
  by (auto simp: atomic_write_def Let_def)

lemma example_write_ok:
  "is_ok (snd (write_secret_checked repository_env ''/r'' ''a'' [''ne'', ''w''] [''k''] ''k'' Replace (Inr ()) repository_world))"
  by code_simp

theorem write_secret_atomic_witness:
  "\<exists>trace x. write_secret_checked repository_env ''/r'' ''a'' [''ne'', ''w''] [''k''] ''k'' Replace (Inr ()) repository_world
       = (trace, Inr x)
     \<and> written_effect repository_env ''k'' Replace [''r''] ''a'' ''new'' (view (w_tree repository_world)) x
         (view (w_tree (final_state repository_world trace)))"
proof -
  obtain trace x where run: "write_secret_checked repository_env ''/r'' ''a'' [''ne'', ''w''] [''k''] ''k'' Replace (Inr ())
      repository_world = (trace, Inr x)" using example_write_ok by (rule ok_run)
  from write_secret_atomic [OF repository_quiet repository_rooted repository_temps repository_names(1) _ _ run] run
  show ?thesis by (auto dest: atomic_write_ok)
qed

text \<open>
  C17. Rekeying one secret, also in place, is atomic in the same sense, and the new entry is what rekeying
  the source for the recipients gave, opened by the verification identity.
\<close>

theorem rekey_secret_atomic:
  assumes "quiet env" and "rooted env root c (w_tree w)" and "w_temps w = []"
    and "names_free [br_destination q]" and "entries_free c [br_source q]"
    and "rekey_secret_inner env root (br_source q) (br_destination q) (br_recipients q) source_identity identity mode legacy w
      = (trace, r)"
  shows "atomic_write (rekey_effect env source_identity identity mode legacy c q (view (w_tree w))) w trace r"
  by (rule secret_rekey.scoped_run [where root = root]) (use assms in \<open>simp_all add: rekey_secret_inner_alt\<close>)

lemma example_rekey_ok:
  "is_ok (snd (rekey_secret_inner repository_env ''/r'' ''a'' ''a'' [''k''] ''k'' ''k'' Replace False repository_world))"
  by code_simp

theorem rekey_secret_atomic_witness:
  "\<exists>trace x. rekey_secret_inner repository_env ''/r'' ''a'' ''a'' [''k''] ''k'' ''k'' Replace False repository_world = (trace, Inr x)
     \<and> rekey_effect repository_env ''k'' ''k'' Replace False [''r'']
         \<lparr>br_source = ''a'', br_destination = ''a'', br_recipients = [''k'']\<rparr> (view (w_tree repository_world)) x
         (view (w_tree (final_state repository_world trace)))"
proof -
  obtain trace x where run: "rekey_secret_inner repository_env ''/r'' ''a'' ''a'' [''k''] ''k'' ''k'' Replace False repository_world
      = (trace, Inr x)" using example_rekey_ok by (rule ok_run)
  let ?q = "\<lparr>br_source = ''a'', br_destination = ''a'', br_recipients = [''k'']\<rparr>"
  have "atomic_write (rekey_effect repository_env ''k'' ''k'' Replace False [''r''] ?q (view (w_tree repository_world)))
      repository_world trace (Inr x)"
    by (rule rekey_secret_atomic [OF repository_quiet repository_rooted repository_temps])
      (use run repository_names(1,4) in simp_all)
  with run show ?thesis by (blast dest: atomic_write_ok)
qed

lemma delegated_create_atomic:
  assumes "quiet env" and "rooted env root c (w_tree w)" and "w_temps w = []" and "names_free [relative]" and "[] \<notin> set input"
    and "write_secret_create_delegated env root relative input recipients w = (trace, r)"
  shows "atomic_write (delegated_effect env c relative (concat input) recipients (view (w_tree w))) w trace r"
  by (rule delegated_write.scoped_run [where root = root]) (use assms in \<open>simp_all add: write_secret_create_delegated_alt\<close>)

section \<open>Deletion\<close>

text \<open>
  C14. Deleting a secret never loses its ciphertext: in every state, whatever fails, the very file is at its
  place or in a tombstone of the quarantine, and no entry outside the quarantine is touched but the source.
  After success it is in the reported tombstone and gone from its place, and the reported digest is that of
  its content.
\<close>

theorem delete_keeps_ciphertext:
  assumes "quiet env" and "rooted env (dr_root request) c (w_tree w)" and "path_is_absolute (dr_root request)" and "w_temps w = []"
    and "view (w_tree w) (entry c (dr_source request)) = Some (FsFile f)"
    and "delete_secret env request w = (trace, r)"
  shows "(\<forall>s \<in> set trace. delete_safe (entry c (dr_source request)) (entry c (dr_quarantine_root request)) f (view (w_tree w)) (w_tree s))
    \<and> (\<forall>x. r = Inr x \<longrightarrow> deleted env (entry c (dr_source request)) (entry c (dr_quarantine_root request)) f x
        (w_tree (final_state w trace)))"
  using vc_run(1,2) [OF vc_delete_secret [OF assms(1,2,3,5), folded assms(4)] assms(6)] by blast

definition example_deletion :: delete_request where
  "example_deletion = \<lparr>dr_root = ''/r'', dr_source = ''a'', dr_quarantine_root = ''q'', dr_secret_id = ''s'', dr_deleted_at = ''now''\<rparr>"

lemma example_deletion_ok: "is_ok (snd (delete_secret repository_env example_deletion repository_world))"
  by code_simp

theorem delete_keeps_ciphertext_witness:
  "\<exists>trace x. delete_secret repository_env example_deletion repository_world = (trace, Inr x)
     \<and> deleted repository_env [''r'', ''a''] [''r'', ''q''] (repository_file 1 (example_header @ ''old'')) x
         (w_tree (final_state repository_world trace))"
proof -
  obtain trace x where run: "delete_secret repository_env example_deletion repository_world = (trace, Inr x)"
    using example_deletion_ok by (rule ok_run)
  have fields: "dr_root example_deletion = ''/r''" "dr_source example_deletion = ''a''" "dr_quarantine_root example_deletion = ''q''"
    by (simp_all add: example_deletion_def)
  have entries: "entry [''r''] ''a'' = [''r'', ''a'']" "entry [''r''] ''q'' = [''r'', ''q'']" by code_simp+
  from delete_keeps_ciphertext [of repository_env example_deletion "[''r'']", unfolded fields, OF repository_quiet repository_rooted
      repository_absolute repository_temps repository_source run] run
  show ?thesis by (auto simp: entries)
qed

section \<open>Paths\<close>

text \<open>
  C26. A destination that resolves is the canonical root followed by the names of the relative path, no
  directory on the way is a link, and resolving it only creates directories: every other entry is as before
  in every state.
\<close>

theorem resolve_destination_confined:
  assumes "quiet env" and "resolve_destination env root relative w = (trace, r)"
  shows "(\<forall>s \<in> set trace. view (w_tree s) = view (w_tree w))
    \<and> (\<forall>d. r = Inr d \<longrightarrow> (\<exists>c. rooted env root c (w_tree w) \<and> d = entry c relative
        \<and> linkless (w_tree (final_state w trace)) (butlast d) \<and> grown (w_tree w) (w_tree (final_state w trace))))"
proof -
  have "vc (\<lambda>tree. view tree = view (w_tree w)) (resolve_destination env root relative)
      (\<lambda>d tree _. \<exists>c. rooted env root c (w_tree w) \<and> d = entry c relative \<and> linkless tree (butlast d) \<and> grown (w_tree w) tree)
      (\<lambda>_ _ _. True) (w_tree w) (w_temps w)"
    by (rule vc_resolve_destination [OF assms(1)]) (auto simp: steady_def entry_def butlast_append)
  from vc_run(1,2) [OF this assms(2)] show ?thesis by blast
qed

theorem resolve_destination_confined_witness:
  "\<exists>trace. resolve_destination repository_env ''/r'' ''new/file'' repository_world = (trace, Inr [''r'', ''new'', ''file''])
     \<and> linkless (w_tree (final_state repository_world trace)) [''r'', ''new'']"
proof -
  have "snd (resolve_destination repository_env ''/r'' ''new/file'' repository_world) = Inr [''r'', ''new'', ''file'']" by code_simp
  then obtain trace where run: "resolve_destination repository_env ''/r'' ''new/file'' repository_world
      = (trace, Inr [''r'', ''new'', ''file''])" by (metis prod.collapse)
  from resolve_destination_confined [OF repository_quiet run] run show ?thesis by auto
qed

end
