(* ===== verification/Spec2Isabelle.thy ===== *)
theory Spec2Isabelle
  imports Policy_Properties Manifest_Properties Cache_Properties Runtime_Properties
    Age_Properties Transfer_Properties Rekey_Properties Authoring_Properties
begin

text \<open>
  A verification development for nix-seal, a secret manager for Nix: a typed plan says which
  targets may read which secrets, sources are sealed to administrators, artifacts are sealed per
  target and approved by signatures, and a runtime activates them.

  \<^bold>\<open>The program and how its parts interact.\<close> \<open>nix-seal-core\<close> holds identifiers and the
  plan's data model. \<open>nix-seal-policy\<close> merges plan fragments, validates a plan and derives from
  it who receives a secret, what a target may read and which approvals it needs.
  \<open>nix-seal-manifest\<close> binds an artifact to that policy in a signed envelope and verifies it.
  \<open>nix-seal-cache\<close> stores sealed objects and approved artifacts on disk. \<open>nix-seal-rekey\<close>,
  \<open>nix-seal-runtime\<close>, \<open>nix-seal-authoring\<close> and the command line drive these.

  \<^bold>\<open>Shared library.\<close> \<^theory_text>\<open>Prelude\<close>: results (\<open>Inl\<close> is \<open>Err\<close>,
  \<open>Inr\<close> is \<open>Ok\<close>), loops over lists that stop at an error, bytes and strings.
  \<^theory_text>\<open>Ordered_Map\<close>: \<open>BTreeMap\<close> as a strictly sorted association list, behind an interface of
  laws for lookup, insertion and iteration. \<^theory_text>\<open>Dependency_Graph\<close>: the
  directed graphs of the group and generator checks; its locale turns \<open>toposort\<close> into
  acyclicity and is interpreted once for each graph. \<^theory_text>\<open>External\<close>: the parameters that
  stand for the age, signature and time libraries.

  \<^bold>\<open>Core\<close> (\<open>crates/nix-seal-core/src/lib.rs\<close>). \<^theory_text>\<open>Core\<close>: \<open>Id::parse\<close>, the plan
  types and their defaults. \<^theory_text>\<open>Crypto\<close>: recipient normalisation of \<open>crates/nix-seal-crypto\<close>.

  \<^bold>\<open>Policy\<close> (\<open>crates/nix-seal-policy/src/lib.rs\<close>). \<^theory_text>\<open>Policy_Types\<close>: errors, lookups and
  path rules. \<^theory_text>\<open>Group_Expansion\<close>: the work list that expands groups, the membership
  search and the group check; both loops are shown to end and to compute reachability.
  \<^theory_text>\<open>Plan_Merge\<close>: \<open>merge\<close> is a disjoint union. \<^theory_text>\<open>Target_Selection\<close>: consumers of a
  secret. \<^theory_text>\<open>Generator_Graph\<close>: generator validators and their graph.
  \<^theory_text>\<open>Plan_Validation\<close>: \<open>validate\<close> and all validators. \<^theory_text>\<open>Policy_Projection\<close>:
  target policies, recipients, approvals, hashes and the lifecycle report.
  \<^theory_text>\<open>Example_Plan\<close> is a validated plan on which the witnesses compute, and
  \<^theory_text>\<open>Policy_Properties\<close> states what validation buys: exact authorisation, exact recipients,
  satisfiable approvals, distinct signing keys, isolation of repository-only secrets.

  \<^bold>\<open>Manifest\<close> (\<open>crates/nix-seal-manifest/src/lib.rs\<close>). \<^theory_text>\<open>Manifest\<close>: data and keys.
  \<^theory_text>\<open>Envelope\<close>: encoding, trust and threshold verification, delegated capabilities.
  \<^theory_text>\<open>Approval_Signing\<close>: signing keys and agent framing. \<^theory_text>\<open>Manifest_Properties\<close>: the
  signed encoding is injective, verification is sound, signing and verification agree.

  \<^bold>\<open>Cache\<close> (\<open>crates/nix-seal-cache/src/lib.rs\<close>). \<^theory_text>\<open>Cache_Store\<close>: files below the
  cache root as explicit state; objects, artifact transactions, recovery, inventory and
  collection. The two collection loops share the locale \<open>collector\<close>.
  \<^theory_text>\<open>Cache_Properties\<close>: round trips, no replacement, crash recovery, exact collection.
  \<^theory_text>\<open>Cache_Transfer\<close>: opening, export and import; the two copying loops share the locale
  \<open>copier\<close>. \<^theory_text>\<open>Transfer_Properties\<close>: imports are all or nothing, an exchange keeps the contents.

  \<^bold>\<open>Rekey\<close> (\<open>crates/nix-seal-rekey/src/lib.rs\<close>). \<^theory_text>\<open>Rekey\<close>: rekeying and direct
  staging of artifacts. \<^theory_text>\<open>Rekey_Properties\<close>: what they return is stored, authenticated and accepted by
  activation, and the target reads the plaintext that was sealed.

  \<^bold>\<open>Age\<close> (\<open>crates/nix-seal-crypto/src/lib.rs\<close>). \<^theory_text>\<open>Readers\<close>: streams as lists of pieces
  and UTF-8 decoding. \<^theory_text>\<open>Age\<close>: reading and checking an age header; the loop over buffered pieces equals
  a reference on the whole input. \<^theory_text>\<open>Age_Operations\<close>: encryption, decryption and rekeying, directly or
  through the plugin worker, with the worker's framing. \<^theory_text>\<open>Age_Properties\<close>: printed headers are
  accepted, rekeying is decryption then encryption, the worker refines the direct operations,
  plugins come from the store. The age crate is the record \<open>age_engine\<close> of parameters.

  \<^bold>\<open>Runtime\<close> (\<open>crates/nix-seal-runtime/src/lib.rs\<close>). \<^theory_text>\<open>Template\<close>: the template scanner and
  streaming encoders. \<^theory_text>\<open>Activation_Spec\<close>: the activation document. \<^theory_text>\<open>Traced\<close>: computations
  that return every state they pass through, with contracts over all of them; a crash leaves one of these states.
  \<^theory_text>\<open>Generations\<close>: the runtime root, generations, links, pending marker, committing;
  \<^theory_text>\<open>Generation_Switch\<close>: their frames and contracts. \<^theory_text>\<open>Activate\<close>: the whole activation;
  \<^theory_text>\<open>Activate_Lemmas\<close>: its contracts; \<^theory_text>\<open>Example_Activation\<close>: a request on which the witnesses
  compute. \<^theory_text>\<open>Runtime_Properties\<close>: activation is atomic and authenticates first, commits end
  in one of the stated outcomes, pending actions can be retried, templates render exactly.

  \<^bold>\<open>Authoring\<close> (\<open>crates/nix-seal-authoring/src/lib.rs\<close>). \<^theory_text>\<open>Repository_Files\<close>: a file
  system as explicit state; every system call is a step that may fail by a schedule of faults, and
  temporary files are dropped as Rust drops them. \<^theory_text>\<open>Authoring\<close>: the lock, path resolution, sealing
  and verifying, writing, rekeying, editing and deleting one secret. \<^theory_text>\<open>Authoring_Batch\<close>: the five
  transactions on several files. \<^theory_text>\<open>Repository_Logic\<close>: verification conditions for traced
  computations with an invariant of every state; \<^theory_text>\<open>Authoring_Lemmas\<close>: contracts of the steps over the
  view of a repository. \<^theory_text>\<open>Authoring_Prepare\<close> and \<^theory_text>\<open>Authoring_Commit\<close>: the two halves of a
  transaction; \<^theory_text>\<open>Authoring_Transactions\<close> joins them. \<^theory_text>\<open>Authoring_Runs\<close> and
  \<^theory_text>\<open>Authoring_Batches\<close>: the locale \<open>transaction\<close>, interpreted for all five;
  \<^theory_text>\<open>Authoring_Single\<close>: the locale \<open>single_write\<close>, interpreted for the three writes of one file;
  \<^theory_text>\<open>Authoring_Delete\<close>: deletion. \<^theory_text>\<open>Example_Repository\<close> is a repository on which the
  witnesses compute, and \<^theory_text>\<open>Authoring_Properties\<close> states that transactions are all or nothing, single writes
  atomic, deletions lossless and destinations confined, under all faults, and exhibits the one fault
  that loses a file.

  \<^bold>\<open>Bounds.\<close> Loops are total functions with measures, so no fuel occurs. Integers that the code
  keeps at a width are words or have their checked arithmetic written out; \<open>usize\<close> is 64 bits.

  \<^bold>\<open>Not modelled.\<close> Reading and decoding TOML and JSON (a decoder and its canonical encoder are
  parameters where a signature covers them), the cryptographic libraries (parameters with their
  documented laws as hypotheses), operating-system faults outside authoring, waiting for the repository
  lock, descriptor walking and ownership checks
  of directories, process supervision, service-manager processes (a field of the environment),
  argument parsing, migration and preparation of the command line, and the Nix modules.
\<close>

end
